(* ===== verification/Go_Prelude.thy ===== *)
theory Go_Prelude
  imports Main "HOL-Library.AList" "HOL-Library.Multiset" "HOL-Library.List_Lexorder"
    "HOL-Library.Char_ord"
begin

text \<open>
  The prelude of the development: the parts of the Go language and of its standard library
  that the controller's sources use, and the generic facts the component theories share.

  \<^item> Errors: a Go function that returns \<open>(T, error)\<close> becomes a function into \<open>T res\<close>,
    that is \<open>go_error + T\<close>; one that also performs calls on a cloud or a cluster becomes a
    function into \<open>('w, T) io\<close>, where \<open>'w\<close> is the state of everything outside the process.
  \<^item> Maps: a Go \<open>map[K]V\<close> is an association list with distinct keys (\<open>wf_map\<close>). The order
    of the list stands for the (unspecified) order in which \<open>range\<close> visits the map: a theorem
    about every well-formed association list is a theorem about every iteration order.
    Where a function ranges over a map it has built itself, the order is an explicit argument
    \<open>ord\<close>, assumed to be some rearrangement (\<open>go_order\<close>).
  \<^item> Sets: the sorted key lists of \<open>sets.StringKeySet(m).List()\<close> and the set operations of
    \<open>k8s.io/apimachinery/pkg/util/sets\<close> on them.
  \<^item> Integers: the two's complement conversion to \<open>int32\<close>, \<open>strconv.ParseInt\<close> and
    \<open>strconv.Itoa\<close>.
\<close>

named_theorems go_map "facts on the association-list model of Go maps"
named_theorems go_err "facts on the error and effect combinators"
named_theorems go_str "facts on the string functions of the Go library"

section \<open>Errors and effects\<close>

text \<open>
  \<open>Errorf\<close> is an error made by \<open>errors.New\<close>, \<open>errors.Errorf\<close> or \<open>fmt.Errorf\<close>: its format and
  its arguments. \<open>APIError\<close> is an error of an AWS call, which carries a code
  (\<open>smithy.APIError\<close>). \<open>Wrapped\<close> is \<open>errors.Wrap\<close>, which \<open>errors.As\<close> looks through.
  \<open>Formatted\<close> prints other errors with \<open>%v\<close>, and \<open>errors.As\<close> does not look through it.
  \<open>Joined\<close> is \<open>errors.Join\<close>, which \<open>errors.As\<close> searches in order.
  \<open>RequeueNeeded\<close> and \<open>RequeueNeededAfter\<close> are the errors of \<open>pkg/error/errors.go\<close>.
\<close>

datatype go_error =
    Errorf string "string list"
  | APIError string string
  | Wrapped string go_error
  | RequeueNeeded string
  | RequeueNeededAfter string nat
  | Formatted string "go_error list"
  | Joined "go_error list"

type_synonym 'a res = "go_error + 'a"
type_synonym ('w, 'a) io = "'w \<Rightarrow> 'a res \<times> 'w"

definition res_bind :: "'a res \<Rightarrow> ('a \<Rightarrow> 'b res) \<Rightarrow> 'b res" where
  "res_bind r f = (case r of Inl e \<Rightarrow> Inl e | Inr x \<Rightarrow> f x)"

lemma res_bind_simps [simp, go_err]:
  "res_bind (Inl e) f = Inl e" "res_bind (Inr x) f = f x"
  by (simp_all add: res_bind_def)

lemma res_bind_InrE [go_err]:
  assumes "res_bind r f = Inr y"
  obtains x where "r = Inr x" "f x = Inr y"
  using assms by (cases r) auto

text \<open>A loop that appends the results of a fallible function.\<close>

fun res_map :: "('a \<Rightarrow> 'b res) \<Rightarrow> 'a list \<Rightarrow> 'b list res" where
  "res_map f [] = Inr []"
| "res_map f (x # xs) = res_bind (f x) (\<lambda>y. res_bind (res_map f xs) (\<lambda>ys. Inr (y # ys)))"

lemma res_map_SomeD: "res_map f xs = Inr ys \<Longrightarrow> y \<in> set ys \<Longrightarrow> \<exists>x \<in> set xs. f x = Inr y"
  by (induction xs arbitrary: ys) (auto elim!: res_bind_InrE)

lemma res_map_total: "res_map f xs = Inr ys \<longleftrightarrow> (\<forall>x \<in> set xs. \<exists>y. f x = Inr y) \<and> ys = map (\<lambda>x. projr (f x)) xs"
proof (induction xs arbitrary: ys)
  case (Cons x xs)
  have IH: "res_map f xs = Inr (map (\<lambda>x. projr (f x)) xs) \<longleftrightarrow> (\<forall>x \<in> set xs. \<exists>y. f x = Inr y)" using Cons [of "map (\<lambda>x. projr (f x)) xs"] by simp
  show ?case
  proof
    assume "res_map f (x # xs) = Inr ys"
    then show "(\<forall>x \<in> set (x # xs). \<exists>y. f x = Inr y) \<and> ys = map (\<lambda>x. projr (f x)) (x # xs)" by (auto simp: Cons elim!: res_bind_InrE)
  next
    assume "(\<forall>x \<in> set (x # xs). \<exists>y. f x = Inr y) \<and> ys = map (\<lambda>x. projr (f x)) (x # xs)"
    then show "res_map f (x # xs) = Inr ys" using IH by auto
  qed
qed auto

definition io_ret :: "'a \<Rightarrow> ('w, 'a) io" where
  "io_ret x w = (Inr x, w)"

definition io_fail :: "go_error \<Rightarrow> ('w, 'a) io" where
  "io_fail e w = (Inl e, w)"

definition io_lift :: "'a res \<Rightarrow> ('w, 'a) io" where
  "io_lift r w = (r, w)"

definition io_bind :: "('w, 'a) io \<Rightarrow> ('a \<Rightarrow> ('w, 'b) io) \<Rightarrow> ('w, 'b) io" where
  "io_bind m f w = (case m w of (Inl e, w') \<Rightarrow> (Inl e, w') | (Inr x, w') \<Rightarrow> f x w')"

text \<open>A \<open>for\<close> loop whose body may return an error, which ends the loop.\<close>

fun io_iter :: "('a \<Rightarrow> ('w, unit) io) \<Rightarrow> 'a list \<Rightarrow> ('w, unit) io" where
  "io_iter f [] w = (Inr (), w)"
| "io_iter f (x # xs) w = (case f x w of (Inl e, w') \<Rightarrow> (Inl e, w') | (Inr _, w') \<Rightarrow> io_iter f xs w')"

text \<open>The same loop, collecting the value each call returns.\<close>

fun io_map :: "('a \<Rightarrow> ('w, 'b) io) \<Rightarrow> 'a list \<Rightarrow> ('w, 'b list) io" where
  "io_map f [] w = (Inr [], w)"
| "io_map f (x # xs) w =
     (case f x w of
        (Inl e, w') \<Rightarrow> (Inl e, w')
      | (Inr y, w') \<Rightarrow>
          (case io_map f xs w' of
             (Inl e, w'') \<Rightarrow> (Inl e, w'')
           | (Inr ys, w'') \<Rightarrow> (Inr (y # ys), w'')))"

lemma io_simps [simp, go_err]:
  "io_ret x w = (Inr x, w)" "io_fail e w = (Inl e, w)" "io_lift r w = (r, w)"
  by (simp_all add: io_ret_def io_fail_def io_lift_def)

lemma io_bind_Inl [simp]: "m w = (Inl e, w') \<Longrightarrow> io_bind m f w = (Inl e, w')"
  by (simp add: io_bind_def)

lemma io_bind_Inr [simp]: "m w = (Inr x, w') \<Longrightarrow> io_bind m f w = f x w'"
  by (simp add: io_bind_def)

lemma io_bind_InrE:
  assumes "io_bind m f s = (Inr y, s')"
  obtains x s1 where "m s = (Inr x, s1)" "f x s1 = (Inr y, s')"
  using assms by (auto simp: io_bind_def split: prod.splits sum.splits)

lemma io_iter_append:
  "io_iter f (xs @ ys) w = io_bind (io_iter f xs) (\<lambda>_. io_iter f ys) w"
  by (induction xs arbitrary: w) (auto simp: io_bind_def split: prod.splits sum.splits)

lemma io_iter_map: "io_iter f (map g xs) w = io_iter (f \<circ> g) xs w"
  by (induction xs arbitrary: w) (auto split: prod.splits sum.splits)

lemma io_iter_append_fun: "io_iter f (xs @ ys) = io_bind (io_iter f xs) (\<lambda>_. io_iter f ys)"
  by (rule ext) (rule io_iter_append)

lemma io_iter_map_fun: "io_iter f (map g xs) = io_iter (f \<circ> g) xs"
  by (rule ext) (rule io_iter_map)

lemma io_iter_cong:
  assumes "\<And>x w. x \<in> set xs \<Longrightarrow> f x w = g x w"
  shows "io_iter f xs w = io_iter g xs w"
  using assms by (induction xs arbitrary: w) (auto split: prod.splits sum.splits)

text \<open>An error loop over a call that only appends to a log runs all of it.\<close>

lemma io_iter_log:
  "io_iter (\<lambda>x w. (Inr (), w @ [g x])) xs w = (Inr (), w @ map g xs)"
  by (induction xs arbitrary: w) auto

text \<open>
  \<open>errors.As(err, &apiErr)\<close> finds the first AWS error in the chain; \<open>errorCode\<close> is its
  \<open>ErrorCode()\<close>.
\<close>

fun errorCode :: "go_error \<Rightarrow> string option" where
  "errorCode (APIError c m) = Some c"
| "errorCode (Wrapped m e) = errorCode e"
| "errorCode (Joined es) = hd (filter (\<lambda>c. c \<noteq> None) (map errorCode es) @ [None])"
| "errorCode _ = None"

section \<open>Go maps\<close>

type_synonym ('k, 'v) gomap = "('k \<times> 'v) list"

abbreviation mget :: "('k, 'v) gomap \<Rightarrow> 'k \<Rightarrow> 'v option" where
  "mget m k \<equiv> map_of m k"

abbreviation mput :: "'k \<Rightarrow> 'v \<Rightarrow> ('k, 'v) gomap \<Rightarrow> ('k, 'v) gomap" where
  "mput k v m \<equiv> AList.update k v m"

abbreviation mdel :: "'k \<Rightarrow> ('k, 'v) gomap \<Rightarrow> ('k, 'v) gomap" where
  "mdel k m \<equiv> AList.delete k m"

abbreviation mkeys :: "('k, 'v) gomap \<Rightarrow> 'k list" where
  "mkeys m \<equiv> map fst m"

abbreviation wf_map :: "('k, 'v) gomap \<Rightarrow> bool" where
  "wf_map m \<equiv> distinct (map fst m)"

text \<open>\<open>m[k]\<close> where a missing key reads as the zero value \<open>z\<close>.\<close>

definition mget0 :: "'v \<Rightarrow> ('k, 'v) gomap \<Rightarrow> 'k \<Rightarrow> 'v" where
  "mget0 z m k = (case map_of m k of None \<Rightarrow> z | Some v \<Rightarrow> v)"

definition mhas :: "('k, 'v) gomap \<Rightarrow> 'k \<Rightarrow> bool" where
  "mhas m k = (map_of m k \<noteq> None)"

text \<open>An unspecified but fixed order in which a map is ranged over.\<close>

definition go_order :: "('a list \<Rightarrow> 'a list) \<Rightarrow> bool" where
  "go_order ord \<longleftrightarrow> (\<forall>xs. mset (ord xs) = mset xs)"

lemma go_order_id [simp]: "go_order (\<lambda>xs. xs)" and go_order_rev [simp]: "go_order rev"
  by (simp_all add: go_order_def)

lemma go_order_set [simp]: "go_order ord \<Longrightarrow> set (ord xs) = set xs"
  by (metis go_order_def mset_eq_setD)

lemma go_order_distinct [simp]: "go_order ord \<Longrightarrow> distinct (ord xs) = distinct xs"
  by (metis go_order_def mset_eq_imp_distinct_iff)

lemma go_order_length [simp]: "go_order ord \<Longrightarrow> length (ord xs) = length xs"
  by (metis go_order_def mset_eq_length)

lemma go_order_Nil [simp]: "go_order ord \<Longrightarrow> ord [] = []"
  by (metis go_order_length length_0_conv)

lemma go_order_map:
  assumes "go_order ord"
  shows "mset (map f (ord xs)) = mset (map f xs)"
  using assms by (simp add: go_order_def)

lemma map_of_put [simp, go_map]: "map_of (mput k v m) = (map_of m)(k \<mapsto> v)"
  by (rule AList.update_conv')

lemma map_of_del [simp, go_map]: "map_of (mdel k m) = (map_of m)(k := None)"
  by (rule AList.delete_conv')

lemma set_mput_subset: "set (mput k v m) \<subseteq> insert (k, v) (set m)"
  by (induction m) auto

lemma keys_put [simp, go_map]: "fst ` set (mput k v m) = insert k (fst ` set m)"
  by (simp add: AList.dom_update)

lemma wf_put [simp, go_map]: "wf_map m \<Longrightarrow> wf_map (mput k v m)"
  by (rule AList.distinct_update)

lemma wf_del [simp, go_map]: "wf_map m \<Longrightarrow> wf_map (mdel k m)"
  by (rule AList.distinct_delete)

lemma mget0_put [simp, go_map]: "mget0 z (mput k v m) k' = (if k' = k then v else mget0 z m k')"
  by (simp add: mget0_def)

lemma mhas_put [simp, go_map]: "mhas (mput k v m) k' = (k' = k \<or> mhas m k')"
  by (simp add: mhas_def)

lemma mhas_iff [go_map]: "mhas m k \<longleftrightarrow> k \<in> fst ` set m"
  by (simp add: mhas_def map_of_eq_None_iff)

lemma mget0_simps [simp]:
  "mget0 z [] k = z" "mget0 z ((k', v) # m) k = (if k = k' then v else mget0 z m k)"
  by (simp_all add: mget0_def)

lemma mhas_simps [simp]: "\<not> mhas [] k" "mhas ((k', v) # m) k = (k = k' \<or> mhas m k)"
  by (simp_all add: mhas_def)

lemma mget_key: "map_of m k = Some v \<Longrightarrow> k \<in> fst ` set m"
  by (force dest: map_of_SomeD)

lemma mget_None: "k \<notin> fst ` set m \<Longrightarrow> map_of m k = None"
  by (simp add: map_of_eq_None_iff)

lemma wf_map_perm:
  assumes "mset m = mset m'" "wf_map m"
  shows "wf_map m'" "map_of m = map_of m'"
proof -
  have "mset (map fst m) = mset (map fst m')" using assms(1) by simp
  then show wf': "wf_map m'" using assms(2) by (metis mset_eq_imp_distinct_iff)
  show "map_of m = map_of m'"
    using assms wf' by (intro map_of_inject_set [THEN iffD2]) (auto dest: mset_eq_setD)
qed

text \<open>
  Building a map by a loop of assignments \<open>m[f x] = g x\<close>: the last element with a key wins.
\<close>

fun mbuild :: "('a \<Rightarrow> 'k) \<Rightarrow> ('a \<Rightarrow> 'v) \<Rightarrow> 'a list \<Rightarrow> ('k, 'v) gomap \<Rightarrow> ('k, 'v) gomap" where
  "mbuild f g [] m = m"
| "mbuild f g (x # xs) m = mbuild f g xs (mput (f x) (g x) m)"

lemma wf_mbuild [simp, go_map]: "wf_map m \<Longrightarrow> wf_map (mbuild f g xs m)"
  by (induction xs arbitrary: m) auto

lemma keys_mbuild [simp, go_map]: "fst ` set (mbuild f g xs m) = f ` set xs \<union> fst ` set m"
  by (induction xs arbitrary: m) auto

lemma find_append:
  "find P (xs @ ys) = (case find P xs of Some z \<Rightarrow> Some z | None \<Rightarrow> find P ys)"
  by (induction xs) auto

lemma mget_mbuild:
  "map_of (mbuild f g xs m) k =
     (case find (\<lambda>x. f x = k) (rev xs) of Some x \<Rightarrow> Some (g x) | None \<Rightarrow> map_of m k)"
  by (induction xs arbitrary: m) (auto simp: find_append split: option.splits)

lemma find_distinct_key:
  assumes "distinct (map f xs)" "x \<in> set xs"
  shows "find (\<lambda>y. f y = f x) xs = Some x"
  using assms by (induction xs) (auto simp: image_iff)

lemma mget_mbuild_distinct:
  assumes "distinct (map f xs)" "x \<in> set xs"
  shows "map_of (mbuild f g xs m) (f x) = Some (g x)"
  using find_distinct_key [of f "rev xs" x] assms by (simp add: mget_mbuild rev_map [symmetric])

lemma find_SomeD: "find P xs = Some x \<Longrightarrow> x \<in> set xs \<and> P x"
  by (induction xs) (auto split: if_splits)

lemma mget_mbuild_SomeD:
  assumes "map_of (mbuild f g xs []) k = Some v"
  obtains x where "x \<in> set xs" "f x = k" "g x = v"
  using assms by (auto simp: mget_mbuild split: option.splits dest!: find_SomeD)

text \<open>Building a map of lists by a loop of \<open>m[f x] = append(m[f x], x)\<close>.\<close>

fun mgroup :: "('a \<Rightarrow> 'k) \<Rightarrow> 'a list \<Rightarrow> ('k, 'a list) gomap \<Rightarrow> ('k, 'a list) gomap" where
  "mgroup f [] m = m"
| "mgroup f (x # xs) m = mgroup f xs (mput (f x) (mget0 [] m (f x) @ [x]) m)"

lemma wf_mgroup [simp, go_map]: "wf_map m \<Longrightarrow> wf_map (mgroup f xs m)"
  by (induction xs arbitrary: m) auto

lemma keys_mgroup [simp, go_map]: "fst ` set (mgroup f xs m) = f ` set xs \<union> fst ` set m"
  by (induction xs arbitrary: m) auto

lemma mget0_mgroup [go_map]: "mget0 [] (mgroup f xs m) k = mget0 [] m k @ filter (\<lambda>x. f x = k) xs"
  by (induction xs arbitrary: m) auto

lemma mget_mgroup:
  "map_of (mgroup f xs []) k = (if k \<in> f ` set xs then Some (filter (\<lambda>x. f x = k) xs) else None)"
proof (cases "k \<in> f ` set xs")
  case True
  then have "k \<in> fst ` set (mgroup f xs [])" by simp
  then obtain v where "map_of (mgroup f xs []) k = Some v"
    by (metis map_of_eq_None_iff not_Some_eq)
  with mget0_mgroup [of f xs "[]" k] True show ?thesis by (simp add: mget0_def)
next
  case False
  then have "k \<notin> fst ` set (mgroup f xs [])" by simp
  with False show ?thesis by (simp only: map_of_eq_None_iff [symmetric] if_False)
qed

section \<open>Sorted key sets\<close>

text \<open>
  \<open>sets.StringKeySet(m).List()\<close>: the keys of a map in increasing order. The set operations
  \<open>Intersection\<close> and \<open>Difference\<close> followed by \<open>List()\<close> give sorted lists as well.
\<close>

definition keyset :: "('k::linorder, 'v) gomap \<Rightarrow> 'k list" where
  "keyset m = sort (remdups (mkeys m))"

definition set_list :: "'k::linorder list \<Rightarrow> 'k list" where
  "set_list xs = sort (remdups xs)"

definition keys_inter :: "('k::linorder, 'v) gomap \<Rightarrow> ('k, 'u) gomap \<Rightarrow> 'k list" where
  "keys_inter m n = filter (mhas n) (keyset m)"

definition keys_diff :: "('k::linorder, 'v) gomap \<Rightarrow> ('k, 'u) gomap \<Rightarrow> 'k list" where
  "keys_diff m n = filter (\<lambda>k. \<not> mhas n k) (keyset m)"

lemma set_list_simps [simp]:
  "set (set_list xs) = set xs" "distinct (set_list xs)" "sorted (set_list xs)"
  by (simp_all add: set_list_def)

lemma keyset_simps [simp]:
  "set (keyset m) = fst ` set m" "distinct (keyset m)" "sorted (keyset m)"
  by (simp_all add: keyset_def)

lemma keys_ops_simps [simp]:
  "distinct (keys_inter m n)" "distinct (keys_diff m n)"
  "set (keys_inter m n) = fst ` set m \<inter> fst ` set n"
  "set (keys_diff m n) = fst ` set m - fst ` set n"
  by (auto simp: keys_inter_def keys_diff_def mhas_iff)

lemma keyset_perm: "fst ` set m = fst ` set m' \<Longrightarrow> keyset m = keyset m'"
  by (rule sorted_distinct_set_unique) (simp_all add: keyset_def)

section \<open>Strings\<close>

definition HasPrefix :: "string \<Rightarrow> string \<Rightarrow> bool" where
  "HasPrefix s p = (take (length p) s = p)"

definition HasSuffix :: "string \<Rightarrow> string \<Rightarrow> bool" where
  "HasSuffix s p = (length p \<le> length s \<and> drop (length s - length p) s = p)"

text \<open>\<open>strings.Contains\<close>\<close>

fun Contains :: "string \<Rightarrow> string \<Rightarrow> bool" where
  "Contains [] p = (p = [])"
| "Contains (c # s) p = (HasPrefix (c # s) p \<or> Contains s p)"

text \<open>\<open>strings.Split\<close> with a separator of one character, and \<open>strings.Join\<close>.\<close>

fun split_on :: "char \<Rightarrow> string \<Rightarrow> string list" where
  "split_on d [] = [[]]"
| "split_on d (c # s) =
     (if c = d then [] # split_on d s
      else (case split_on d s of [] \<Rightarrow> [[c]] | w # ws \<Rightarrow> (c # w) # ws))"

fun join_on :: "char \<Rightarrow> string list \<Rightarrow> string" where
  "join_on d [] = []"
| "join_on d [w] = w"
| "join_on d (w # ws) = w @ d # join_on d ws"

lemma split_on_nonempty [simp]: "split_on d s \<noteq> []"
  by (cases s) (auto split: list.splits)

lemma split_on_append_sep:
  "d \<notin> set w \<Longrightarrow> split_on d (w @ d # s) = w # split_on d s"
  by (induction w) auto

lemma split_on_plain: "d \<notin> set w \<Longrightarrow> split_on d w = [w]"
  by (induction w) auto

lemma split_join [go_str]:
  assumes "ws \<noteq> []" "\<forall>w \<in> set ws. d \<notin> set w"
  shows "split_on d (join_on d ws) = ws"
  using assms
  by (induction d ws rule: join_on.induct) (auto simp: split_on_append_sep split_on_plain)

lemma join_split [go_str]: "join_on d (split_on d s) = s"
proof (induction s)
  case Nil
  then show ?case by simp
next
  case (Cons c s)
  obtain w ws where ws: "split_on d s = w # ws"
    by (meson list.exhaust split_on_nonempty)
  show ?case
  proof (cases "c = d")
    case True
    with ws Cons show ?thesis by simp
  next
    case False
    with ws Cons show ?thesis by (cases ws) auto
  qed
qed

lemma split_on_no_sep: "w \<in> set (split_on d s) \<Longrightarrow> d \<notin> set w"
  by (induction s arbitrary: w) (auto split: if_splits list.splits)

lemma split_on_chars: "w \<in> set (split_on d s) \<Longrightarrow> set w \<subseteq> set s"
  by (induction s arbitrary: w) (fastforce split: if_splits list.splits)+

section \<open>Integers\<close>

text \<open>Conversion of an integer to \<open>int32\<close>: two's complement truncation to 32 bits.\<close>

definition to_int32 :: "int \<Rightarrow> int" where
  "to_int32 x = (x + 2 ^ 31) mod 2 ^ 32 - 2 ^ 31"

lemma to_int32_id: "- (2 ^ 31) \<le> x \<Longrightarrow> x < 2 ^ 31 \<Longrightarrow> to_int32 x = x"
  by (simp add: to_int32_def)

lemma to_int32_bounds: "- (2 ^ 31) \<le> to_int32 x \<and> to_int32 x < 2 ^ 31"
  by (simp add: to_int32_def)

definition digit_char :: "nat \<Rightarrow> char" where
  "digit_char d = ''0123456789'' ! d"

definition digit_val :: "char \<Rightarrow> nat option" where
  "digit_val c = map_of (zip ''0123456789'' [0, 1, 2, 3, 4, 5, 6, 7, 8, 9]) c"

fun nat_to_string :: "nat \<Rightarrow> string" where
  "nat_to_string n =
     (if n < 10 then [digit_char n] else nat_to_string (n div 10) @ [digit_char (n mod 10)])"

declare nat_to_string.simps [simp del]

lemma nat_to_string_eval:
  "n < 10 \<Longrightarrow> nat_to_string n = [digit_char n]"
  "10 \<le> n \<Longrightarrow> nat_to_string n = nat_to_string (n div 10) @ [digit_char (n mod 10)]"
  by (simp_all add: nat_to_string.simps [of n])

text \<open>\<open>strconv.Itoa\<close>, which is also how \<open>%v\<close> and \<open>%d\<close> print an integer.\<close>

definition Itoa :: "int \<Rightarrow> string" where
  "Itoa i = (if i < 0 then CHR ''-'' # nat_to_string (nat (- i)) else nat_to_string (nat i))"

text \<open>The value of a string of decimal digits, \<open>None\<close> if some character is not a digit.\<close>

fun parse_digits :: "nat \<Rightarrow> string \<Rightarrow> nat option" where
  "parse_digits acc [] = Some acc"
| "parse_digits acc (c # s) =
     (case digit_val c of None \<Rightarrow> None | Some d \<Rightarrow> parse_digits (10 * acc + d) s)"

text \<open>
  \<open>strconv.ParseInt(s, 10, bits)\<close> read the way the sources read it, \<open>p, _ := ParseInt(...)\<close>:
  a string that is no number gives 0, a number out of range the nearest bound.
\<close>

definition ParseInt :: "nat \<Rightarrow> string \<Rightarrow> int" where
  "ParseInt bits s =
     (let neg = (s \<noteq> [] \<and> hd s = CHR ''-'');
          body = (if s \<noteq> [] \<and> (hd s = CHR ''-'' \<or> hd s = CHR ''+'') then tl s else s)
      in if body = [] then 0
         else (case parse_digits 0 body of
                 None \<Rightarrow> 0
               | Some n \<Rightarrow>
                   (let v = (if neg then - int n else int n)
                    in min (2 ^ (bits - 1) - 1) (max (- (2 ^ (bits - 1))) v))))"

lemma digit_cases: "d < 10 \<Longrightarrow> d \<in> {0, 1, 2, 3, 4, 5, 6, 7, 8, 9 :: nat}"
  by auto

lemma digit_val_char [simp]: "d < 10 \<Longrightarrow> digit_val (digit_char d) = Some d"
  by (drule digit_cases) (auto simp: digit_val_def digit_char_def)

lemma digit_char_not_sign [simp]:
  "d < 10 \<Longrightarrow> digit_char d \<noteq> CHR ''-''" "d < 10 \<Longrightarrow> digit_char d \<noteq> CHR ''+''"
  by (drule digit_cases, auto simp: digit_char_def)+

lemma nat_to_string_nonempty [simp]: "nat_to_string n \<noteq> []"
  by (subst nat_to_string.simps) simp

lemma parse_digits_append:
  "parse_digits acc (s @ t) = (case parse_digits acc s of None \<Rightarrow> None | Some a \<Rightarrow> parse_digits a t)"
  by (induction s arbitrary: acc) (auto split: option.splits)

lemma parse_nat_to_string: "parse_digits 0 (nat_to_string n) = Some n"
proof (induction n rule: nat_to_string.induct)
  case (1 n)
  show ?case
  proof (cases "n < 10")
    case True
    then show ?thesis by (simp add: nat_to_string.simps [of n])
  next
    case False
    with 1 show ?thesis
      by (simp add: nat_to_string.simps [of n] parse_digits_append)
  qed
qed

lemma nat_to_string_hd: "\<exists>d < 10. hd (nat_to_string n) = digit_char d"
proof (induction n rule: nat_to_string.induct)
  case (1 n)
  show ?case
  proof (cases "n < 10")
    case True
    then show ?thesis by (auto simp: nat_to_string.simps [of n])
  next
    case False
    with 1 show ?thesis by (simp add: nat_to_string.simps [of n])
  qed
qed

lemma ParseInt_Itoa_nat:
  assumes "0 \<le> i" "i < 2 ^ (bits - 1)"
  shows "ParseInt bits (Itoa i) = i"
proof -
  obtain d where d: "d < 10" "hd (nat_to_string (nat i)) = digit_char d"
    using nat_to_string_hd by blast
  then have ne: "hd (nat_to_string (nat i)) \<noteq> CHR ''-''" "hd (nat_to_string (nat i)) \<noteq> CHR ''+''"
    by simp_all
  have "- (2 ^ (bits - 1)) \<le> (0::int)" by simp
  then have "- (2 ^ (bits - 1)) \<le> i" using assms(1) by linarith
  with assms ne show ?thesis
    by (simp add: ParseInt_def Itoa_def Let_def parse_nat_to_string)
qed

lemma Itoa_inj_nat: "0 \<le> i \<Longrightarrow> 0 \<le> j \<Longrightarrow> Itoa i = Itoa j \<Longrightarrow> i = j"
  by (simp add: Itoa_def) (metis parse_nat_to_string eq_nat_nat_iff option.inject)

lemma nat_to_string_no_sign: "nat_to_string n \<noteq> CHR ''-'' # s"
  using nat_to_string_hd [of n] by (auto dest: digit_char_not_sign)

lemma Itoa_inj: "Itoa i = Itoa j \<longleftrightarrow> i = j"
proof
  assume eq: "Itoa i = Itoa j"
  have sign: "i < 0 \<longleftrightarrow> j < 0"
    using eq nat_to_string_no_sign nat_to_string_no_sign [symmetric] by (auto simp: Itoa_def split: if_splits)
  show "i = j"
  proof (cases "i < 0")
    case True
    then have "Itoa (- i) = Itoa (- j)" using eq sign by (simp add: Itoa_def)
    then show ?thesis using Itoa_inj_nat [of "- i" "- j"] True sign by simp
  next
    case False
    then show ?thesis using Itoa_inj_nat [of i j] eq sign by simp
  qed
qed simp

lemma nat_to_string_digits: "c \<in> set (nat_to_string n) \<Longrightarrow> \<exists>d < 10. c = digit_char d"
proof (induction n rule: nat_to_string.induct)
  case (1 n)
  show ?case
  proof (cases "n < 10")
    case True
    then show ?thesis using "1.prems" by (subst (asm) nat_to_string.simps) auto
  next
    case False
    then have "c \<in> set (nat_to_string (n div 10)) \<or> c = digit_char (n mod 10)"
      using "1.prems" by (subst (asm) nat_to_string.simps) auto
    then show ?thesis using "1.IH" [OF False] by (auto intro: exI [of _ "n mod 10"])
  qed
qed

lemma Itoa_no_colon [simp]: "CHR '':'' \<notin> set (Itoa i)" and Itoa_no_comma [simp]: "CHR '','' \<notin> set (Itoa i)"
  by (auto simp: Itoa_def digit_char_def dest!: nat_to_string_digits digit_cases split: if_splits)

text \<open>The parts of a string before and after the last separator are determined.\<close>

lemma append_sep_inj:
  assumes "c \<notin> set x" "c \<notin> set y"
  shows "a @ c # x = b @ c # y \<longleftrightarrow> a = b \<and> x = y"
proof
  assume "a @ c # x = b @ c # y"
  then obtain us where "a = b @ us \<and> us @ c # x = c # y \<or> a @ us = b \<and> c # x = us @ c # y"
    by (auto simp: append_eq_append_conv2)
  then show "a = b \<and> x = y" using assms by (cases us) auto
qed simp

section \<open>The text of an error\<close>

text \<open>\<open>fmt.Sprintf\<close> with verbs of one letter, and \<open>err.Error()\<close>. A duration prints as a number.\<close>

fun Sprintf :: "string \<Rightarrow> string list \<Rightarrow> string" where
  "Sprintf [] args = []"
| "Sprintf [c] args = [c]"
| "Sprintf (c # d # s) args =
     (if c = CHR 0x25 then (case args of [] \<Rightarrow> c # d # Sprintf s [] | a # as \<Rightarrow> a @ Sprintf s as)
      else c # Sprintf (d # s) args)"

fun errorText :: "go_error \<Rightarrow> string" where
  "errorText (Errorf fmt args) = Sprintf fmt args"
| "errorText (APIError code msg) = ''api error '' @ code @ '': '' @ msg"
| "errorText (Wrapped msg e) = msg @ '': '' @ errorText e"
| "errorText (RequeueNeeded reason) = ''requeue needed: '' @ reason"
| "errorText (RequeueNeededAfter reason duration) = ''requeue needed after '' @ nat_to_string duration @ '': '' @ reason"
| "errorText (Formatted fmt es) = Sprintf fmt (map errorText es)"
| "errorText (Joined es) = join_on CHR 0x0A (map errorText es)"

lemma HasPrefix_append [simp]: "HasPrefix (p @ s) p"
  by (simp add: HasPrefix_def)

lemma Contains_append: "Contains s p \<Longrightarrow> Contains (t @ s) p"
  by (induction t) auto

lemma Contains_prefix: "Contains (p @ s) p"
  using HasPrefix_append [of p s] by (cases "p @ s") auto

lemma Contains_infix: "Contains (a @ p @ s) p"
  by (intro Contains_append Contains_prefix)

section \<open>Sorting\<close>

text \<open>\<open>sort.Slice\<close> is not stable: it returns some sorted permutation, for a comparison that is a strict weak order.\<close>

definition strict_weak_order :: "('a \<Rightarrow> 'a \<Rightarrow> bool) \<Rightarrow> bool" where
  "strict_weak_order lt \<longleftrightarrow> (\<forall>x y. lt x y \<longrightarrow> \<not> lt y x) \<and> (\<forall>x y z. lt x y \<longrightarrow> lt x z \<or> lt z y)"

definition sort_slice_ok :: "(('a \<Rightarrow> 'a \<Rightarrow> bool) \<Rightarrow> 'a list \<Rightarrow> 'a list) \<Rightarrow> bool" where
  "sort_slice_ok s \<longleftrightarrow> (\<forall>lt xs. mset (s lt xs) = mset xs \<and> (strict_weak_order lt \<longrightarrow> sorted_wrt (\<lambda>x y. \<not> lt y x) (s lt xs)))"

text \<open>Insertion sort is one such function.\<close>

fun insertBy :: "('a \<Rightarrow> 'a \<Rightarrow> bool) \<Rightarrow> 'a \<Rightarrow> 'a list \<Rightarrow> 'a list" where
  "insertBy lt x [] = [x]"
| "insertBy lt x (y # ys) = (if lt x y then x # y # ys else y # insertBy lt x ys)"

definition insertionSort :: "('a \<Rightarrow> 'a \<Rightarrow> bool) \<Rightarrow> 'a list \<Rightarrow> 'a list" where
  "insertionSort lt xs = foldr (insertBy lt) xs []"

lemma mset_insertBy [simp]: "mset (insertBy lt x ys) = add_mset x (mset ys)"
  by (induction ys) auto

lemma set_insertBy: "set (insertBy lt x ys) = insert x (set ys)"
  by (induction ys) auto

lemma sorted_insertBy:
  assumes "strict_weak_order lt" "sorted_wrt (\<lambda>x y. \<not> lt y x) ys"
  shows "sorted_wrt (\<lambda>x y. \<not> lt y x) (insertBy lt x ys)"
  using assms(2)
proof (induction ys)
  case (Cons y ys)
  have "lt x y \<Longrightarrow> \<not> lt y x" "lt z x \<Longrightarrow> lt x y \<Longrightarrow> lt z y" for z
    using assms(1) unfolding strict_weak_order_def by meson+
  then show ?case using Cons by (auto simp: set_insertBy)
qed simp

lemma insertionSort_ok: "sort_slice_ok insertionSort"
proof -
  have "mset (insertionSort lt xs) = mset xs" for lt and xs :: "'a list"
    unfolding insertionSort_def by (induction xs) auto
  moreover have "strict_weak_order lt \<Longrightarrow> sorted_wrt (\<lambda>x y. \<not> lt y x) (insertionSort lt xs)" for lt and xs :: "'a list"
    unfolding insertionSort_def by (induction xs) (auto simp: sorted_insertBy)
  ultimately show ?thesis by (simp add: sort_slice_ok_def)
qed

end
