(* ===== verification/Algorithm.thy ===== *)
theory Algorithm
  imports Go_Prelude
begin

text \<open>
  \<^verbatim>\<open>pkg/algorithm\<close>: the helpers on string maps, slices and strings that every synthesizer
  and tagging manager calls (\<^verbatim>\<open>maps.go\<close>, \<^verbatim>\<open>slices.go\<close>, \<^verbatim>\<open>strings.go\<close>).
  The maps are association lists, so that a loop over a map is a recursion over the list in
  its (arbitrary) order. A slice of chunks is produced by a loop that need not end
  (\<open>chunk_loop\<close>), so its result is an option.
\<close>

section \<open>Maps\<close>

type_synonym string_map = "(string, string) gomap"

definition awsSystemTagPrefix :: string where
  "awsSystemTagPrefix = ''aws:''"

fun MapFindFirst :: "string \<Rightarrow> string_map list \<Rightarrow> string option" where
  "MapFindFirst key [] = None"
| "MapFindFirst key (m # maps) =
     (case mget m key of Some v \<Rightarrow> Some v | None \<Rightarrow> MapFindFirst key maps)"

fun mergeInto :: "string_map \<Rightarrow> string_map \<Rightarrow> string_map" where
  "mergeInto ret [] = ret"
| "mergeInto ret ((k, v) # kvs) = mergeInto (if mhas ret k then ret else mput k v ret) kvs"

definition MergeStringMap :: "string_map list \<Rightarrow> string_map" where
  "MergeStringMap maps = foldl mergeInto [] maps"

fun diffModify :: "string_map \<Rightarrow> string_map \<Rightarrow> string_map \<Rightarrow> string_map" where
  "diffModify current [] acc = acc"
| "diffModify current ((key, desiredVal) # kvs) acc =
     diffModify current kvs
       (if mget current key \<noteq> Some desiredVal then mput key desiredVal acc else acc)"

fun diffRemove :: "string_map \<Rightarrow> string_map \<Rightarrow> string_map \<Rightarrow> string_map" where
  "diffRemove desired [] acc = acc"
| "diffRemove desired ((key, currentVal) # kvs) acc =
     diffRemove desired kvs (if mhas desired key then acc else mput key currentVal acc)"

definition DiffStringMap :: "string_map \<Rightarrow> string_map \<Rightarrow> string_map \<times> string_map" where
  "DiffStringMap desired current = (diffModify current desired [], diffRemove desired current [])"

definition RemoveKeysByPrefix :: "string_map \<Rightarrow> string \<Rightarrow> string_map" where
  "RemoveKeysByPrefix m prefix = filter (\<lambda>(key, v). \<not> HasPrefix key prefix) m"

definition DiffStringMapIgnoreAWSTags :: "string_map \<Rightarrow> string_map \<Rightarrow> string_map \<times> string_map" where
  "DiffStringMapIgnoreAWSTags desired current =
     (let (modify, remove) = DiffStringMap desired current
      in (RemoveKeysByPrefix modify awsSystemTagPrefix,
          RemoveKeysByPrefix remove awsSystemTagPrefix))"

definition CSVToStringSet :: "string \<Rightarrow> string set" where
  "CSVToStringSet csv = (if length csv = 0 then {} else set (split_on CHR '','' csv))"

text \<open>The argument lists the elements of the Go set in the order \<open>range\<close> visits them.\<close>

definition StringSetToCSV :: "string list \<Rightarrow> string" where
  "StringSetToCSV keyList = join_on CHR '','' keyList"

fun ContainsSubMapKeys :: "string_map \<Rightarrow> string_map \<Rightarrow> bool" where
  "ContainsSubMapKeys m [] = True"
| "ContainsSubMapKeys m ((k, v) # s) = (if \<not> mhas m k then False else ContainsSubMapKeys m s)"

section \<open>Slices and strings\<close>

fun removeDups :: "'a list \<Rightarrow> ('a, unit) gomap \<Rightarrow> 'a list \<Rightarrow> 'a list" where
  "removeDups [] found result = result"
| "removeDups (x # s) found result =
     (if \<not> mhas found x then removeDups s (mput x () found) (result @ [x])
      else removeDups s found result)"

definition RemoveSliceDuplicates :: "'a list \<Rightarrow> 'a list" where
  "RemoveSliceDuplicates s = removeDups s [] []"

definition IsDiffStringSlice :: "string list \<Rightarrow> string list \<Rightarrow> bool" where
  "IsDiffStringSlice one two =
     (if length one \<noteq> length two then False else list_all (\<lambda>x. x \<in> set two) one)"

text \<open>
  The chunking loop. It does not return when the chunk size is 0, and it panics (slice bounds
  out of range) when the chunk size is negative: both are \<open>None\<close>.
\<close>

partial_function (option) chunk_loop ::
  "'a list \<Rightarrow> int \<Rightarrow> int \<Rightarrow> 'a list list \<Rightarrow> 'a list list option" where
  "chunk_loop targets chunkSize i chunks =
     (if i < int (length targets) then
        (let e = (if i + chunkSize > int (length targets) then int (length targets) else i + chunkSize)
         in if e < i then None
            else chunk_loop targets chunkSize (i + chunkSize)
                   (chunks @ [take (nat e - nat i) (drop (nat i) targets)]))
      else Some chunks)"

declare chunk_loop.simps [code]

definition ChunkStrings :: "string list \<Rightarrow> int \<Rightarrow> string list list option" where
  "ChunkStrings targets chunkSize = chunk_loop targets chunkSize 0 []"

section \<open>Correctness\<close>

lemma wf_mergeInto [simp]: "wf_map ret \<Longrightarrow> wf_map (mergeInto ret m)"
  by (induction ret m rule: mergeInto.induct) auto

lemma map_of_mergeInto: "wf_map m \<Longrightarrow> map_of (mergeInto ret m) = map_of m ++ map_of ret"
proof (induction ret m rule: mergeInto.induct)
  case (1 ret)
  then show ?case by simp
next
  case (2 ret k v kvs)
  then have "k \<notin> fst ` set kvs" by simp
  then have "map_of kvs k = None" by (simp add: map_of_eq_None_iff)
  with 2 show ?case by (auto simp: map_add_def fun_eq_iff mhas_def split: option.splits)
qed

lemma map_of_foldl_mergeInto:
  "\<forall>m \<in> set maps. wf_map m \<Longrightarrow>
   map_of (foldl mergeInto ret maps) k =
     (case map_of ret k of Some v \<Rightarrow> Some v | None \<Rightarrow> MapFindFirst k maps)"
  by (induction maps arbitrary: ret)
    (auto simp: map_of_mergeInto map_add_def split: option.splits)

lemma wf_MergeStringMap [simp]: "wf_map (MergeStringMap maps)"
proof -
  have "wf_map ret \<Longrightarrow> wf_map (foldl mergeInto ret maps)" for ret
    by (induction maps arbitrary: ret) auto
  then show ?thesis by (simp add: MergeStringMap_def)
qed

text \<open>The merged map gives every key the value of the first map that has it.\<close>

lemma map_of_MergeStringMap:
  "\<forall>m \<in> set maps. wf_map m \<Longrightarrow> map_of (MergeStringMap maps) k = MapFindFirst k maps"
  by (simp add: MergeStringMap_def map_of_foldl_mergeInto)

lemma diffModify_wf [simp]: "wf_map acc \<Longrightarrow> wf_map (diffModify c d acc)"
  by (induction c d acc rule: diffModify.induct) auto

lemma diffRemove_wf [simp]: "wf_map acc \<Longrightarrow> wf_map (diffRemove d c acc)"
  by (induction d c acc rule: diffRemove.induct) auto

lemma map_of_diffModify:
  "wf_map d \<Longrightarrow> map_of (diffModify c d acc) k =
     (if k \<in> fst ` set d \<and> map_of d k \<noteq> map_of c k then map_of d k else map_of acc k)"
proof (induction c d acc arbitrary: k rule: diffModify.induct)
  case (1 current acc)
  then show ?case by simp
next
  case (2 current key desiredVal kvs acc)
  then have "map_of kvs key = None" by (simp add: map_of_eq_None_iff)
  with 2 show ?case by auto
qed

lemma map_of_diffRemove:
  "wf_map c \<Longrightarrow> map_of (diffRemove d c acc) k =
     (if k \<in> fst ` set c \<and> \<not> mhas d k then map_of c k else map_of acc k)"
proof (induction d c acc arbitrary: k rule: diffRemove.induct)
  case (1 desired acc)
  then show ?case by simp
next
  case (2 desired key currentVal kvs acc)
  then have "map_of kvs key = None" by (simp add: map_of_eq_None_iff)
  with 2 show ?case by auto
qed

lemma map_of_DiffStringMap:
  assumes "wf_map desired" "wf_map current" "DiffStringMap desired current = (modify, remove)"
  shows "map_of modify k = (if map_of desired k \<noteq> map_of current k then map_of desired k else None)"
    and "map_of remove k = (if map_of desired k = None then map_of current k else None)"
    and "wf_map modify" "wf_map remove"
proof -
  have eq: "modify = diffModify current desired []" "remove = diffRemove desired current []"
    using assms(3) by (simp_all add: DiffStringMap_def)
  show "map_of modify k = (if map_of desired k \<noteq> map_of current k then map_of desired k else None)"
    using assms(1) unfolding eq by (auto simp: map_of_diffModify) (metis map_of_eq_None_iff)
  show "map_of remove k = (if map_of desired k = None then map_of current k else None)"
    using assms(2) unfolding eq
    by (auto simp: map_of_diffRemove mhas_def) (metis map_of_eq_None_iff not_Some_eq)
  show "wf_map modify" "wf_map remove" unfolding eq by simp_all
qed

lemma filter_prefix_map_of:
  "map_of (RemoveKeysByPrefix m p) k = (if HasPrefix k p then None else map_of m k)"
  unfolding RemoveKeysByPrefix_def by (induction m) auto

lemma removeDups_spec:
  assumes "\<forall>x. mhas found x \<longleftrightarrow> x \<in> set result"
  shows "set (removeDups s found result) = set result \<union> set s"
    and "distinct result \<Longrightarrow> distinct (removeDups s found result)"
  using assms by (induction s found result rule: removeDups.induct) (auto simp: mhas_put)

text \<open>
  C42. \<open>DiffStringMap\<close> computes exactly the change that turns the current map into the desired
  one: after writing the \<open>modify\<close> entries and deleting the \<open>remove\<close> keys every key has its
  desired value; nothing that already had its desired value is written, and a key that is
  deleted is not desired. All tag, attribute and label reconcilers rest on this.
\<close>

theorem DiffStringMap_reconciles:
  assumes "wf_map desired" "wf_map current"
    and "DiffStringMap desired current = (modify, remove)"
  shows "(map_of current ++ map_of modify) |` (- dom (map_of remove)) = map_of desired
     \<and> (\<forall>k v. map_of modify k = Some v \<longrightarrow> map_of desired k = Some v \<and> map_of current k \<noteq> Some v)
     \<and> (\<forall>k v. map_of remove k = Some v \<longrightarrow> map_of desired k = None \<and> map_of current k = Some v)"
proof (intro conjI allI impI ext)
  note eq = map_of_DiffStringMap(1,2) [OF assms]
  fix k
  show "((map_of current ++ map_of modify) |` (- dom (map_of remove))) k = map_of desired k"
    by (cases "map_of desired k"; cases "map_of current k")
      (auto simp: eq restrict_map_def map_add_def dom_def)
next
  fix k v assume "map_of modify k = Some v"
  then show "map_of desired k = Some v" "map_of current k \<noteq> Some v"
    by (auto simp: map_of_DiffStringMap(1) [OF assms] split: if_splits)
next
  fix k v assume "map_of remove k = Some v"
  then show "map_of desired k = None" "map_of current k = Some v"
    by (auto simp: map_of_DiffStringMap(2) [OF assms] split: if_splits)
qed

theorem DiffStringMap_reconciles_witness:
  "DiffStringMap [(''a'', ''1''), (''b'', ''2'')] [(''b'', ''3''), (''c'', ''4'')]
     = ([(''a'', ''1''), (''b'', ''2'')], [(''c'', ''4'')])
   \<and> (map_of [(''b'', ''3''), (''c'', ''4'')] ++ map_of [(''a'', ''1''), (''b'', ''2'')])
       |` (- dom (map_of [(''c'', ''4'')])) = map_of [(''a'', ''1''), (''b'', ''2'')]"
proof -
  have eq: "DiffStringMap [(''a'', ''1''), (''b'', ''2'')] [(''b'', ''3''), (''c'', ''4'')]
     = ([(''a'', ''1''), (''b'', ''2'')], [(''c'', ''4'')])"
    by (simp add: DiffStringMap_def mhas_def)
  show ?thesis using DiffStringMap_reconciles [OF _ _ eq] eq by simp
qed

lemma DiffStringMapIgnoreAWSTags_spec:
  assumes "wf_map desired" "wf_map current"
    and "DiffStringMapIgnoreAWSTags desired current = (modify, remove)"
  shows "map_of modify k = (if HasPrefix k ''aws:'' \<or> map_of desired k = map_of current k then None
                            else map_of desired k)"
    and "map_of remove k = (if HasPrefix k ''aws:'' \<or> map_of desired k \<noteq> None then None
                            else map_of current k)"
proof -
  obtain m r where mr: "DiffStringMap desired current = (m, r)" by fastforce
  with assms(3) have "modify = RemoveKeysByPrefix m ''aws:''" "remove = RemoveKeysByPrefix r ''aws:''"
    by (simp_all add: DiffStringMapIgnoreAWSTags_def awsSystemTagPrefix_def)
  then show "map_of modify k = (if HasPrefix k ''aws:'' \<or> map_of desired k = map_of current k then None
                            else map_of desired k)"
    and "map_of remove k = (if HasPrefix k ''aws:'' \<or> map_of desired k \<noteq> None then None
                            else map_of current k)"
    by (simp_all add: filter_prefix_map_of map_of_DiffStringMap(1,2) [OF assms(1,2) mr])
qed

text \<open>The comma-separated form keeps a set of strings without commas, but for the set of the empty string.\<close>

lemma CSV_roundtrip:
  assumes "\<forall>s \<in> set ks. CHR '','' \<notin> set s" "set ks \<noteq> {[]}"
  shows "CSVToStringSet (StringSetToCSV ks) = set ks"
proof (cases "ks = []")
  case True
  then show ?thesis by (simp add: CSVToStringSet_def StringSetToCSV_def)
next
  case False
  then have split: "split_on CHR '','' (join_on CHR '','' ks) = ks"
    using assms(1) by (intro split_join) auto
  have "join_on CHR '','' ks \<noteq> []"
  proof
    assume "join_on CHR '','' ks = []"
    then have "ks = [[]]" using split by simp
    then show False using assms(2) by simp
  qed
  then show ?thesis using split by (simp add: CSVToStringSet_def StringSetToCSV_def)
qed

lemma chunk_loop_spec:
  assumes "0 < chunkSize" "0 \<le> i"
  shows "\<exists>ks. chunk_loop targets chunkSize i chunks = Some (chunks @ ks)
     \<and> concat ks = drop (nat i) targets
     \<and> (\<forall>k \<in> set ks. k \<noteq> [] \<and> length k \<le> nat chunkSize)"
  using assms
proof (induction "nat (int (length targets) - i)" arbitrary: i chunks rule: less_induct)
  case less
  show ?case
  proof (cases "i < int (length targets)")
    case False
    then show ?thesis by (subst chunk_loop.simps) (auto intro!: exI [of _ "[]"])
  next
    case True
    define e where "e = (if i + chunkSize > int (length targets) then int (length targets)
                         else i + chunkSize)"
    define c where "c = take (nat e - nat i) (drop (nat i) targets)"
    have e: "i < e" "e \<le> i + chunkSize" "e \<le> int (length targets)"
      using True less.prems by (auto simp: e_def)
    have "nat (int (length targets) - (i + chunkSize)) < nat (int (length targets) - i)"
      using True less.prems by linarith
    then obtain ks where ks:
      "chunk_loop targets chunkSize (i + chunkSize) (chunks @ [c]) = Some ((chunks @ [c]) @ ks)"
      "concat ks = drop (nat (i + chunkSize)) targets"
      "\<forall>k \<in> set ks. k \<noteq> [] \<and> length k \<le> nat chunkSize"
      using less.hyps [of "i + chunkSize" "chunks @ [c]"] less.prems by auto
    have step: "chunk_loop targets chunkSize i chunks = Some (chunks @ c # ks)"
      using True e ks(1) by (subst chunk_loop.simps) (simp add: e_def [symmetric] c_def Let_def)
    have len: "length c = nat e - nat i" using e less.prems by (simp add: c_def)
    have "drop (nat (i + chunkSize)) targets = drop (nat e) targets"
      using e by (auto simp: e_def)
    also have "\<dots> = drop (nat e - nat i) (drop (nat i) targets)"
      using e less.prems by simp
    finally have "concat ks = drop (nat e - nat i) (drop (nat i) targets)"
      using ks(2) by (rule trans [rotated])
    then have "c @ concat ks = drop (nat i) targets"
      by (simp only: c_def append_take_drop_id)
    moreover have "c \<noteq> [] \<and> length c \<le> nat chunkSize"
      using len e less.prems by (auto simp flip: length_greater_0_conv)
    ultimately show ?thesis
      using step ks(3) by (intro exI [of _ "c # ks"]) auto
  qed
qed

lemma chunk_loop_total:
  assumes "0 < chunkSize"
  shows "\<exists>chunks. chunk_loop targets chunkSize 0 [] = Some chunks \<and> concat chunks = targets
     \<and> (\<forall>c \<in> set chunks. c \<noteq> [] \<and> length c \<le> nat chunkSize)"
  using chunk_loop_spec [OF assms, of 0 targets "[]"] by simp

end
