(* ===== verification/Resource_Graph.thy ===== *)
theory Resource_Graph
  imports Go_Prelude
begin

text \<open>
  \<^verbatim>\<open>pkg/model/core/graph\<close>: the resource graph of a stack and its topological traversal
  (\<^verbatim>\<open>resource_graph.go\<close>, \<^verbatim>\<open>typological_traversal.go\<close>).

  The traversal is Kahn's algorithm with a stack. Its loops over \<open>indegreeByNode\<close> range over
  a Go map, so the order in which the first nodes are queued is the argument \<open>ord\<close>. The main
  loop is shown to terminate on every graph. On a well-formed graph (distinct nodes, edges
  between nodes) the traversal fails with ``not a DAG'' exactly when the graph has a cycle,
  and otherwise visits every node once and every node after the nodes it depends on.
\<close>

section \<open>The graph\<close>

record ResourceUID =
  ResType :: string
  ResID :: string

record defaultResourceGraph =
  nodes :: "ResourceUID list"
  outEdges :: "(ResourceUID, ResourceUID list) gomap"

definition NewDefaultResourceGraph :: defaultResourceGraph where
  "NewDefaultResourceGraph = \<lparr>nodes = [], outEdges = []\<rparr>"

definition AddNode :: "ResourceUID \<Rightarrow> defaultResourceGraph \<Rightarrow> defaultResourceGraph" where
  "AddNode node g = g\<lparr>nodes := nodes g @ [node]\<rparr>"

definition AddEdge :: "ResourceUID \<Rightarrow> ResourceUID \<Rightarrow> defaultResourceGraph \<Rightarrow> defaultResourceGraph" where
  "AddEdge srcNode dstNode g =
     g\<lparr>outEdges := mput srcNode (mget0 [] (outEdges g) srcNode @ [dstNode]) (outEdges g)\<rparr>"

definition Nodes :: "defaultResourceGraph \<Rightarrow> ResourceUID list" where
  "Nodes g = nodes g"

definition OutEdgeNodes :: "defaultResourceGraph \<Rightarrow> ResourceUID \<Rightarrow> ResourceUID list" where
  "OutEdgeNodes g node = mget0 [] (outEdges g) node"

section \<open>The interface of a resource graph\<close>

text \<open>
  What the stack and the traversal rely on: the operations of the Go interface
  \<open>ResourceGraph\<close> and what they promise of each other. A graph built by \<open>AddNode\<close> and
  \<open>AddEdge\<close> between known nodes is well formed, whatever implements it.
\<close>

locale resource_graph =
  fixes empty :: 'g
    and add_node :: "'u \<Rightarrow> 'g \<Rightarrow> 'g"
    and add_edge :: "'u \<Rightarrow> 'u \<Rightarrow> 'g \<Rightarrow> 'g"
    and node_list :: "'g \<Rightarrow> 'u list"
    and out_nodes :: "'g \<Rightarrow> 'u \<Rightarrow> 'u list"
  assumes nodes_empty: "node_list empty = []"
    and out_empty: "out_nodes empty u = []"
    and nodes_add_node: "node_list (add_node u g) = node_list g @ [u]"
    and out_add_node: "out_nodes (add_node u g) v = out_nodes g v"
    and nodes_add_edge: "node_list (add_edge u v g) = node_list g"
    and out_add_edge: "out_nodes (add_edge u v g) w = out_nodes g w @ (if w = u then [v] else [])"
begin

definition well_formed :: "'g \<Rightarrow> bool" where
  "well_formed g \<longleftrightarrow> distinct (node_list g)
     \<and> (\<forall>u v. v \<in> set (out_nodes g u) \<longrightarrow> u \<in> set (node_list g) \<and> v \<in> set (node_list g))"

lemma well_formed_empty: "well_formed empty"
  by (simp add: well_formed_def nodes_empty out_empty)

lemma well_formed_add_node:
  "well_formed g \<Longrightarrow> u \<notin> set (node_list g) \<Longrightarrow> well_formed (add_node u g)"
  by (auto simp: well_formed_def nodes_add_node out_add_node)

lemma well_formed_add_edge:
  "well_formed g \<Longrightarrow> u \<in> set (node_list g) \<Longrightarrow> v \<in> set (node_list g) \<Longrightarrow> well_formed (add_edge u v g)"
  by (auto simp: well_formed_def nodes_add_edge out_add_edge split: if_splits)

end

interpretation rg: resource_graph NewDefaultResourceGraph AddNode AddEdge Nodes OutEdgeNodes
  by unfold_locales
    (auto simp: NewDefaultResourceGraph_def AddNode_def AddEdge_def Nodes_def OutEdgeNodes_def)

definition wf_graph :: "defaultResourceGraph \<Rightarrow> bool" where
  "wf_graph g \<longleftrightarrow> distinct (Nodes g)
     \<and> (\<forall>u v. v \<in> set (OutEdgeNodes g u) \<longrightarrow> u \<in> set (Nodes g) \<and> v \<in> set (Nodes g))"

lemma wf_graph_rg: "wf_graph = rg.well_formed"
  by (auto simp: wf_graph_def rg.well_formed_def fun_eq_iff)

definition edges :: "defaultResourceGraph \<Rightarrow> (ResourceUID \<times> ResourceUID) set" where
  "edges g = {(u, v). v \<in> set (OutEdgeNodes g u)}"

section \<open>The traversal\<close>

type_synonym indegrees = "(ResourceUID, int) gomap"

fun countEdges :: "ResourceUID list \<Rightarrow> indegrees \<Rightarrow> indegrees" where
  "countEdges [] m = m"
| "countEdges (v # vs) m = countEdges vs (mput v (mget0 0 m v + 1) m)"

fun initIndegrees :: "defaultResourceGraph \<Rightarrow> ResourceUID list \<Rightarrow> indegrees \<Rightarrow> indegrees" where
  "initIndegrees g [] m = m"
| "initIndegrees g (node # ns) m =
     initIndegrees g ns (countEdges (OutEdgeNodes g node) (if mhas m node then m else mput node 0 m))"

definition initQueue :: "(ResourceUID \<times> int) list \<Rightarrow> ResourceUID list" where
  "initQueue m = map fst (filter (\<lambda>(node, indegree). indegree = 0) m)"

fun relaxEdges :: "ResourceUID list \<Rightarrow> indegrees \<Rightarrow> ResourceUID list \<Rightarrow> indegrees \<times> ResourceUID list" where
  "relaxEdges [] m queue = (m, queue)"
| "relaxEdges (v # vs) m queue =
     (let m' = mput v (mget0 0 m v - 1) m
      in relaxEdges vs m' (if mget0 0 m' v = 0 then queue @ [v] else queue))"

text \<open>The measure of the main loop: queued nodes and nodes that still wait for a predecessor.\<close>

definition pending :: "indegrees \<Rightarrow> ResourceUID set" where
  "pending m = {v \<in> fst ` set m. 0 < mget0 0 m v}"

lemma finite_pending [simp]: "finite (pending m)"
  by (simp add: pending_def)

lemma relaxEdges_measure:
  "relaxEdges vs m queue = (m', queue') \<Longrightarrow>
   length queue' + card (pending m') \<le> length queue + card (pending m)"
proof (induction vs m queue rule: relaxEdges.induct)
  case (1 m queue)
  then show ?case by simp
next
  case (2 v vs m queue)
  define m1 where "m1 = mput v (mget0 0 m v - 1) m"
  define q1 where "q1 = (if mget0 0 m1 v = 0 then queue @ [v] else queue)"
  have "length queue' + card (pending m') \<le> length q1 + card (pending m1)"
    using 2 by (simp add: m1_def q1_def Let_def)
  also have "\<dots> \<le> length queue + card (pending m)"
  proof (cases "mget0 0 m v = 1")
    case True
    then have "v \<in> pending m"
      by (auto simp: pending_def mget0_def map_of_eq_None_iff split: option.splits dest: mget_key)
    moreover have "pending m1 = pending m - {v}"
      using True by (auto simp: pending_def m1_def)
    ultimately have "Suc (card (pending m1)) = card (pending m)"
      by (metis card_Suc_Diff1 finite_pending)
    then show ?thesis using True by (simp add: q1_def m1_def)
  next
    case False
    have "mget0 0 m v > 0 \<Longrightarrow> v \<in> fst ` set m"
      by (auto simp: mget0_def split: option.splits dest: mget_key)
    then have "pending m1 \<subseteq> pending m"
      using False by (auto simp: pending_def m1_def split: if_splits)
    then have "card (pending m1) \<le> card (pending m)" by (simp add: card_mono)
    then show ?thesis using False by (simp add: q1_def m1_def)
  qed
  finally show ?case .
qed

function topoLoop :: "defaultResourceGraph \<Rightarrow> (ResourceUID \<Rightarrow> ('w, unit) io) \<Rightarrow>
    indegrees \<Rightarrow> ResourceUID list \<Rightarrow> ('w, indegrees) io" where
  "topoLoop g visitFunc m queue w =
     (if queue = [] then (Inr m, w)
      else
        (case visitFunc (last queue) w of
           (Inl e, w') \<Rightarrow> (Inl e, w')
         | (Inr _, w') \<Rightarrow>
             (let (m', queue') = relaxEdges (OutEdgeNodes g (last queue)) m (butlast queue)
              in topoLoop g visitFunc m' queue' w')))"
  by pat_completeness auto
termination
proof (relation "measure (\<lambda>(g, visitFunc, m, queue, w). length queue + card (pending m))")
  fix g :: defaultResourceGraph and visitFunc :: "ResourceUID \<Rightarrow> ('w, unit) io"
    and m :: indegrees and queue and w and x :: "unit res \<times> 'w" and r w' u z m' queue'
  assume ne: "queue \<noteq> []"
    and eq: "z = relaxEdges (OutEdgeNodes g (last queue)) m (butlast queue)" "(m', queue') = z"
  then have "length queue' + card (pending m') \<le> length (butlast queue) + card (pending m)"
    by (metis relaxEdges_measure)
  with ne show "((g, visitFunc, m', queue', w'), (g, visitFunc, m, queue, w))
      \<in> measure (\<lambda>(g, visitFunc, m, queue, w). length queue + card (pending m))"
    by (cases queue rule: rev_cases) auto
qed simp

declare topoLoop.simps [simp del]

definition TopologicalTraversal ::
  "((ResourceUID \<times> int) list \<Rightarrow> (ResourceUID \<times> int) list) \<Rightarrow> defaultResourceGraph \<Rightarrow>
   (ResourceUID \<Rightarrow> ('w, unit) io) \<Rightarrow> ('w, unit) io" where
  "TopologicalTraversal ord g visitFunc w =
     (let indegreeByNode = initIndegrees g (Nodes g) [];
          queue = initQueue (ord indegreeByNode)
      in (case topoLoop g visitFunc indegreeByNode queue w of
            (Inl e, w') \<Rightarrow> (Inl e, w')
          | (Inr m, w') \<Rightarrow>
              if list_ex (\<lambda>(node, indegree). indegree > 0) m
              then (Inl (Errorf ''ResourceGraph is not a DAG'' []), w')
              else (Inr (), w')))"

text \<open>The visitor that records what it is called with.\<close>

definition recordVisit :: "ResourceUID \<Rightarrow> (ResourceUID list, unit) io" where
  "recordVisit u vs = (Inr (), vs @ [u])"

section \<open>Correctness of the traversal\<close>

definition waiting :: "defaultResourceGraph \<Rightarrow> ResourceUID set \<Rightarrow> ResourceUID \<Rightarrow> nat" where
  "waiting g S v = sum_list (map (\<lambda>u. count_list (OutEdgeNodes g u) v) (filter (\<lambda>u. u \<notin> S) (Nodes g)))"

text \<open>Every node of \<open>vs\<close> comes after the nodes it depends on.\<close>

definition topo_sorted :: "defaultResourceGraph \<Rightarrow> ResourceUID list \<Rightarrow> bool" where
  "topo_sorted g vs \<longleftrightarrow> (\<forall>us v ws. vs = us @ v # ws \<longrightarrow> (\<forall>u. (u, v) \<in> edges g \<longrightarrow> u \<in> set us))"

lemma countEdges_get: "mget0 0 (countEdges vs m) v = mget0 0 m v + int (count_list vs v)"
  by (induction vs m rule: countEdges.induct) auto

lemma countEdges_wf [simp]: "wf_map m \<Longrightarrow> wf_map (countEdges vs m)"
  by (induction vs m rule: countEdges.induct) auto

lemma countEdges_keys [simp]: "fst ` set (countEdges vs m) = set vs \<union> fst ` set m"
  by (induction vs m rule: countEdges.induct) auto

lemma mget0_absent: "\<not> mhas m k \<Longrightarrow> mget0 z m k = z"
  by (simp add: mget0_def mhas_def)

lemma initIndegrees_get:
  "mget0 0 (initIndegrees g ns m) v =
     mget0 0 m v + int (sum_list (map (\<lambda>u. count_list (OutEdgeNodes g u) v) ns))"
  by (induction g ns m rule: initIndegrees.induct) (auto simp: countEdges_get mget0_absent)

lemma initIndegrees_wf [simp]: "wf_map m \<Longrightarrow> wf_map (initIndegrees g ns m)"
  by (induction g ns m rule: initIndegrees.induct) auto

lemma initIndegrees_keys:
  "fst ` set (initIndegrees g ns m) = set ns \<union> (\<Union>u \<in> set ns. set (OutEdgeNodes g u)) \<union> fst ` set m"
  by (induction g ns m rule: initIndegrees.induct) (auto simp: mhas_iff)

lemma mget0_map_entry: "wf_map m \<Longrightarrow> (k, v) \<in> set m \<Longrightarrow> mget0 z m k = v"
  by (simp add: mget0_def)

lemma mget0_entry: "k \<in> fst ` set m \<Longrightarrow> (k, mget0 z m k) \<in> set m"
  unfolding mget0_def by (cases "map_of m k") (auto simp: map_of_eq_None_iff dest: map_of_SomeD)

lemma set_initQueue:
  assumes "go_order ord" "wf_map m"
  shows "set (initQueue (ord m)) = {v \<in> fst ` set m. mget0 0 m v = 0}" "distinct (initQueue (ord m))"
proof -
  show "set (initQueue (ord m)) = {v \<in> fst ` set m. mget0 0 m v = 0}"
    using assms by (force simp: initQueue_def dest: mget0_map_entry [of _ _ _ 0] mget0_entry [of _ _ 0])
  have "distinct (map fst (ord m))"
    using assms by (metis go_order_map mset_eq_imp_distinct_iff)
  then show "distinct (initQueue (ord m))"
    by (simp add: initQueue_def distinct_map_filter)
qed

lemma relaxEdges_spec:
  assumes "relaxEdges vs m q = (m', q')"
    and "\<forall>v. int (count_list vs v) \<le> mget0 0 m v"
    and "distinct q" "\<forall>v \<in> set q. mget0 0 m v = 0"
  shows "(\<forall>v. mget0 0 m' v = mget0 0 m v - int (count_list vs v))
    \<and> (wf_map m \<longrightarrow> wf_map m') \<and> fst ` set m' = set vs \<union> fst ` set m
    \<and> distinct q' \<and> set q' = set q \<union> {v \<in> set vs. mget0 0 m v = int (count_list vs v)}"
  using assms
proof (induction vs m q rule: relaxEdges.induct)
  case (1 m q)
  then show ?case by auto
next
  case (2 v vs m q)
  define m1 where "m1 = mput v (mget0 0 m v - 1) m"
  define q1 where "q1 = (if mget0 0 m1 v = 0 then q @ [v] else q)"
  have pos: "1 \<le> mget0 0 m v"
    using 2(3) by (auto dest: spec [of _ v])
  have eq: "relaxEdges vs m1 q1 = (m', q')"
    using 2(2) by (simp add: m1_def q1_def Let_def)
  have le: "\<forall>w. int (count_list vs w) \<le> mget0 0 m1 w"
    using 2(3) by (auto simp: m1_def split: if_splits dest: spec [of _ v] spec)
  have q1: "distinct q1" "\<forall>w \<in> set q1. mget0 0 m1 w = 0"
    using 2(4,5) pos by (auto simp: q1_def m1_def)
  note IH = 2(1) [OF m1_def, unfolded q1_def [symmetric], OF eq le q1]
  have get: "mget0 0 m' w = mget0 0 m w - int (count_list (v # vs) w)" for w
    using IH by (simp add: m1_def)
  have v_in: "v \<in> set vs" if "mget0 0 m1 v = int (count_list vs v)" "mget0 0 m1 v \<noteq> 0"
    using that by (metis count_list_0_iff of_nat_0)
  have "set q' = set q1 \<union> {w \<in> set vs. mget0 0 m1 w = int (count_list vs w)}"
    using IH by blast
  also have "\<dots> = set q \<union> {w \<in> set (v # vs). mget0 0 m w = int (count_list (v # vs) w)}"
  proof (cases "mget0 0 m v = 1")
    case True
    then have "count_list vs v = 0" using le by (auto simp: m1_def dest: spec [of _ v])
    with True show ?thesis by (auto simp: q1_def m1_def)
  next
    case False
    with v_in show ?thesis by (auto simp: q1_def m1_def)
  qed
  finally show ?case using IH get by (auto simp: m1_def)
qed

lemma waiting_insert:
  assumes "wf_graph g" "u \<in> set (Nodes g)" "u \<notin> S"
  shows "waiting g S v = waiting g (insert u S) v + count_list (OutEdgeNodes g u) v"
proof -
  have "sum_list (map f (filter (\<lambda>x. x \<notin> S) xs)) =
        sum_list (map f (filter (\<lambda>x. x \<noteq> u \<and> x \<notin> S) xs)) + (if u \<in> set xs then f u else 0)"
    if "distinct xs" for xs and f :: "ResourceUID \<Rightarrow> nat"
    using that assms(3) by (induction xs) auto
  then show ?thesis using assms by (simp add: waiting_def wf_graph_def)
qed

lemma waiting_zero:
  "waiting g S v = 0 \<longleftrightarrow> (\<forall>u \<in> set (Nodes g). (u, v) \<in> edges g \<longrightarrow> u \<in> S)"
  by (auto simp: waiting_def edges_def count_list_0_iff)

definition kahn_inv :: "defaultResourceGraph \<Rightarrow> ResourceUID list \<Rightarrow> indegrees \<Rightarrow> ResourceUID list \<Rightarrow> bool" where
  "kahn_inv g vs m q \<longleftrightarrow> wf_map m \<and> fst ` set m = set (Nodes g) \<and> distinct (vs @ q)
     \<and> (\<forall>v. mget0 0 m v = int (waiting g (set vs) v))
     \<and> {v \<in> set (Nodes g). mget0 0 m v = 0} = set vs \<union> set q \<and> topo_sorted g vs"

lemma kahn_inv_init:
  assumes "wf_graph g" "go_order ord"
  shows "kahn_inv g [] (initIndegrees g (Nodes g) []) (initQueue (ord (initIndegrees g (Nodes g) [])))"
proof -
  define m where "m = initIndegrees g (Nodes g) []"
  have wf: "wf_map m" by (simp add: m_def)
  have keys: "fst ` set m = set (Nodes g)"
    using assms(1) by (auto simp: m_def initIndegrees_keys wf_graph_def)
  have "mget0 0 m v = int (waiting g {} v)" for v
    by (simp add: m_def initIndegrees_get waiting_def)
  with set_initQueue [OF assms(2) wf] wf keys show ?thesis
    by (simp add: kahn_inv_def topo_sorted_def flip: m_def)
qed

lemma topo_sorted_snoc:
  "topo_sorted g (vs @ [v]) \<longleftrightarrow> topo_sorted g vs \<and> (\<forall>u. (u, v) \<in> edges g \<longrightarrow> u \<in> set vs)"
proof -
  have "vs @ [v] = us @ x # ws \<longleftrightarrow> ws = [] \<and> us = vs \<and> x = v \<or> (\<exists>zs. ws = zs @ [v] \<and> vs = us @ x # zs)"
    for us x ws
    by (cases ws rule: rev_cases) auto
  then show ?thesis unfolding topo_sorted_def by (simp add: conj_disj_distribR all_conj_distrib) blast
qed

lemma kahn_inv_step:
  assumes wf: "wf_graph g" and inv: "kahn_inv g vs m (q @ [u])"
    and eq: "relaxEdges (OutEdgeNodes g u) m q = (m', q')"
  shows "kahn_inv g (vs @ [u]) m' q'"
proof -
  note I = inv [unfolded kahn_inv_def]
  have u: "u \<in> set (Nodes g)" "u \<notin> set vs" "mget0 0 m u = 0"
    using I by auto
  have w: "mget0 0 m v = int (waiting g (insert u (set vs)) v) + int (count_list (OutEdgeNodes g u) v)" for v
    using I waiting_insert [OF wf u(1,2), of v] by simp
  have R: "(\<forall>v. mget0 0 m' v = mget0 0 m v - int (count_list (OutEdgeNodes g u) v))
    \<and> (wf_map m \<longrightarrow> wf_map m') \<and> fst ` set m' = set (OutEdgeNodes g u) \<union> fst ` set m
    \<and> distinct q' \<and> set q' = set q \<union> {v \<in> set (OutEdgeNodes g u). mget0 0 m v = int (count_list (OutEdgeNodes g u) v)}"
  proof (rule relaxEdges_spec [OF eq])
    show "\<forall>v. int (count_list (OutEdgeNodes g u) v) \<le> mget0 0 m v" using w by simp
    show "distinct q" using I by simp
    show "\<forall>v \<in> set q. mget0 0 m v = 0" using I by auto
  qed
  have out: "set (OutEdgeNodes g u) \<subseteq> set (Nodes g)"
    using wf by (auto simp: wf_graph_def)
  have get: "mget0 0 m' v = int (waiting g (insert u (set vs)) v)" for v
    using R w by simp
  have zero: "mget0 0 m v \<noteq> 0" if "v \<in> set (OutEdgeNodes g u)" for v
  proof -
    have "count_list (OutEdgeNodes g u) v \<noteq> 0" using that by (simp add: count_list_0_iff)
    then show ?thesis using w [of v] by linarith
  qed
  have dq: "distinct ((vs @ [u]) @ q')"
  proof -
    have "\<forall>v \<in> set vs \<union> set (q @ [u]). mget0 0 m v = 0" using I by blast
    then have "\<forall>v \<in> insert u (set vs). v \<notin> set (OutEdgeNodes g u)" using zero by auto
    then have "set q' \<inter> insert u (set vs) = {}" using I R by auto
    then show ?thesis using I R by auto
  qed
  have "{v \<in> set (Nodes g). mget0 0 m' v = 0} = set (vs @ [u]) \<union> set q'"
  proof -
    have "{v \<in> set (Nodes g). mget0 0 m' v = 0}
        = {v \<in> set (Nodes g). mget0 0 m v = 0}
          \<union> {v \<in> set (OutEdgeNodes g u). mget0 0 m v = int (count_list (OutEdgeNodes g u) v)}"
      (is "?L = ?R")
    proof
      show "?L \<subseteq> ?R"
        using R by (auto simp: count_list_0_iff)
      show "?R \<subseteq> ?L"
        using R w out zero by auto
    qed
    with I R show ?thesis by auto
  qed
  moreover have "topo_sorted g (vs @ [u])"
  proof -
    have "waiting g (set vs) u = 0" using I u by simp
    then have "\<forall>x. (x, u) \<in> edges g \<longrightarrow> x \<in> set vs"
      using wf by (auto simp: waiting_zero wf_graph_def edges_def)
    with I show ?thesis by (simp add: topo_sorted_snoc)
  qed
  ultimately show ?thesis
    using I R dq get out by (auto simp: kahn_inv_def)
qed

lemma topoLoop_inv:
  assumes "wf_graph g" "kahn_inv g vs m q"
  shows "\<exists>m' us. topoLoop g recordVisit m q vs = (Inr m', vs @ us) \<and> kahn_inv g (vs @ us) m' []"
  using assms
proof (induction g "recordVisit" m q vs rule: topoLoop.induct)
  case (1 g m q vs)
  show ?case
  proof (cases q rule: rev_cases)
    case Nil
    with 1(3) show ?thesis by (subst topoLoop.simps) (auto intro!: exI [of _ "[]"])
  next
    case (snoc q0 u)
    obtain m1 q1 where eq: "relaxEdges (OutEdgeNodes g u) m q0 = (m1, q1)" by fastforce
    have "kahn_inv g (vs @ [u]) m1 q1"
      using kahn_inv_step [OF 1(2) _ eq] 1(3) snoc by simp
    then obtain m' us where
      "topoLoop g recordVisit m1 q1 (vs @ [u]) = (Inr m', (vs @ [u]) @ us)" "kahn_inv g ((vs @ [u]) @ us) m' []"
      using 1(1) [of "Inr ()" "vs @ [u]" "()" "(m1, q1)" m1 q1] 1(2) snoc eq
      by (auto simp: recordVisit_def)
    then show ?thesis
      using snoc eq by (subst topoLoop.simps) (auto simp: recordVisit_def intro!: exI [of _ "u # us"])
  qed
qed

lemma topo_sorted_trancl:
  assumes "topo_sorted g vs" "vs = us @ v # ws" "(u, v) \<in> (edges g)\<^sup>+"
  shows "u \<in> set us"
  using assms(3)
proof (induction rule: converse_trancl_induct)
  case (base u)
  then show ?case using assms(1,2) by (auto simp: topo_sorted_def)
next
  case (step u x)
  then obtain us1 us2 where us: "us = us1 @ x # us2" by (meson split_list)
  then have "vs = us1 @ x # (us2 @ v # ws)" using assms(2) by simp
  then have "u \<in> set us1" using step(1) assms(1) by (auto simp: topo_sorted_def)
  then show ?case using us by simp
qed

lemma topo_sorted_acyclic:
  assumes "topo_sorted g vs" "distinct vs" "wf_graph g" "set vs = set (Nodes g)"
  shows "acyclic (edges g)"
proof (rule acyclicI, intro allI notI)
  fix v assume cyc: "(v, v) \<in> (edges g)\<^sup>+"
  then have "v \<in> set (Nodes g)"
    using assms(3) by (auto simp: edges_def wf_graph_def elim: tranclE)
  then obtain us ws where vs: "vs = us @ v # ws" using assms(4) by (metis split_list)
  then have "v \<in> set us" using topo_sorted_trancl [OF assms(1) _ cyc] by simp
  then show False using assms(2) vs by simp
qed

lemma stuck_cyclic:
  assumes "kahn_inv g vs m []" "wf_graph g" "acyclic (edges g)"
  shows "set vs = set (Nodes g)"
proof (rule ccontr)
  assume "set vs \<noteq> set (Nodes g)"
  then have ne: "set (Nodes g) - set vs \<noteq> {}" using assms(1) by (auto simp: kahn_inv_def)
  have "edges g \<subseteq> set (Nodes g) \<times> set (Nodes g)"
    using assms(2) by (auto simp: edges_def wf_graph_def)
  then have "finite (edges g)" by (rule finite_subset) simp
  then have "wf (edges g)" using assms(3) by (rule finite_acyclic_wf)
  then obtain v where v: "v \<in> set (Nodes g) - set vs" "\<forall>u. (u, v) \<in> edges g \<longrightarrow> u \<notin> set (Nodes g) - set vs"
    using ne by (metis wfE_min ex_in_conv)
  then have "waiting g (set vs) v = 0" by (auto simp: waiting_zero)
  then show False using v(1) assms(1) by (auto simp: kahn_inv_def)
qed

lemma list_ex_values:
  assumes "wf_map m"
  shows "list_ex (\<lambda>(k, d). P d) m \<longleftrightarrow> (\<exists>k \<in> fst ` set m. P (mget0 z m k))"
proof
  assume "list_ex (\<lambda>(k, d). P d) m"
  then obtain k d where "(k, d) \<in> set m" "P d" by (auto simp: list_ex_iff)
  then show "\<exists>k \<in> fst ` set m. P (mget0 z m k)"
    using assms mget0_map_entry [of m k d z] by force
next
  assume "\<exists>k \<in> fst ` set m. P (mget0 z m k)"
  then obtain k where "(k, mget0 z m k) \<in> set m" "P (mget0 z m k)" by (meson mget0_entry)
  then show "list_ex (\<lambda>(k, d). P d) m" by (force simp: list_ex_iff)
qed

lemma pending_iff:
  assumes "kahn_inv g vs m []" "wf_graph g"
  shows "list_ex (\<lambda>(node, indegree). indegree > 0) m \<longleftrightarrow> set vs \<noteq> set (Nodes g)"
proof -
  note I = assms(1) [unfolded kahn_inv_def]
  have "list_ex (\<lambda>(node, indegree). indegree > 0) m \<longleftrightarrow> (\<exists>v \<in> set (Nodes g). mget0 0 m v > 0)"
    using list_ex_values [of m "\<lambda>d. d > 0" 0] I by simp
  also have "\<dots> \<longleftrightarrow> (\<exists>v \<in> set (Nodes g). mget0 0 m v \<noteq> 0)"
    using I by auto
  also have "\<dots> \<longleftrightarrow> set vs \<noteq> set (Nodes g)"
  proof -
    have "{v \<in> set (Nodes g). mget0 0 m v = 0} = set vs \<union> set []" using I by blast
    then show ?thesis by auto
  qed
  finally show ?thesis .
qed

text \<open>The traversal calls its visitor on one fixed sequence of nodes until a call fails.\<close>

lemma topoLoop_visits:
  "\<exists>m' us. (\<forall>vs. topoLoop g recordVisit m q vs = (Inr m', vs @ us)) \<and>
     (\<forall>(visitFunc :: ResourceUID \<Rightarrow> ('w, unit) io) w. topoLoop g visitFunc m q w =
        (case io_iter visitFunc us w of (Inl e, w') \<Rightarrow> (Inl e, w') | (Inr _, w') \<Rightarrow> (Inr m', w')))"
proof (induction "length q + card (pending m)" arbitrary: m q rule: less_induct)
  case less
  show ?case
  proof (cases q rule: rev_cases)
    case Nil
    then show ?thesis
      by (intro exI [of _ m] exI [of _ "[]"]) (simp add: topoLoop.simps [of g _ m "[]"])
  next
    case (snoc q0 u)
    obtain m1 q1 where eq: "relaxEdges (OutEdgeNodes g u) m q0 = (m1, q1)" by fastforce
    then have "length q1 + card (pending m1) < length q + card (pending m)"
      using relaxEdges_measure [OF eq] snoc by simp
    then obtain m' us where
      "\<forall>vs. topoLoop g recordVisit m1 q1 vs = (Inr m', vs @ us)"
      "\<forall>(visitFunc :: ResourceUID \<Rightarrow> ('w, unit) io) w. topoLoop g visitFunc m1 q1 w =
         (case io_iter visitFunc us w of (Inl e, w') \<Rightarrow> (Inl e, w') | (Inr _, w') \<Rightarrow> (Inr m', w'))"
      using less.hyps by meson
    then show ?thesis
      using snoc eq
      by (intro exI [of _ m'] exI [of _ "u # us"])
        (auto simp: topoLoop.simps [of g _ m "q0 @ [u]"] recordVisit_def split: prod.splits sum.splits)
  qed
qed

definition visitOrder :: "((ResourceUID \<times> int) list \<Rightarrow> (ResourceUID \<times> int) list) \<Rightarrow>
    defaultResourceGraph \<Rightarrow> ResourceUID list" where
  "visitOrder ord g = snd (TopologicalTraversal ord g recordVisit [])"

lemma TopologicalTraversal_visits:
  fixes visitFunc :: "ResourceUID \<Rightarrow> ('w, unit) io"
  shows "TopologicalTraversal ord g visitFunc w =
     (case io_iter visitFunc (visitOrder ord g) w of
        (Inl e, w') \<Rightarrow> (Inl e, w')
      | (Inr _, w') \<Rightarrow> (fst (TopologicalTraversal ord g recordVisit []), w'))"
proof -
  define m where "m = initIndegrees g (Nodes g) []"
  obtain m' us where A: "\<forall>vs. topoLoop g recordVisit m (initQueue (ord m)) vs = (Inr m', vs @ us)"
    and B: "\<forall>(visitFunc :: ResourceUID \<Rightarrow> ('w, unit) io) w. topoLoop g visitFunc m (initQueue (ord m)) w =
      (case io_iter visitFunc us w of (Inl e, w') \<Rightarrow> (Inl e, w') | (Inr _, w') \<Rightarrow> (Inr m', w'))"
    using topoLoop_visits [of g m "initQueue (ord m)"] by blast
  have "visitOrder ord g = us"
    using A by (simp add: visitOrder_def TopologicalTraversal_def flip: m_def)
  then show ?thesis
    using A B by (auto simp: TopologicalTraversal_def split: prod.splits sum.splits simp flip: m_def)
qed

lemma visitOrder_spec:
  assumes "go_order ord" "wf_graph g"
  shows "topo_sorted g (visitOrder ord g)" "distinct (visitOrder ord g)"
    "fst (TopologicalTraversal ord g recordVisit []) =
       (if acyclic (edges g) then Inr () else Inl (Errorf ''ResourceGraph is not a DAG'' []))"
    "acyclic (edges g) \<Longrightarrow> set (visitOrder ord g) = set (Nodes g)"
proof -
  obtain m vs where loop: "topoLoop g recordVisit (initIndegrees g (Nodes g) [])
      (initQueue (ord (initIndegrees g (Nodes g) []))) [] = (Inr m, vs)" and inv: "kahn_inv g vs m []"
    using topoLoop_inv [OF assms(2) kahn_inv_init [OF assms(2,1)]] by auto
  have vo: "visitOrder ord g = vs"
    using loop by (simp add: visitOrder_def TopologicalTraversal_def)
  show "topo_sorted g (visitOrder ord g)" "distinct (visitOrder ord g)"
    using inv vo by (simp_all add: kahn_inv_def)
  then have "acyclic (edges g) \<longleftrightarrow> set vs = set (Nodes g)"
    using stuck_cyclic [OF inv assms(2)] topo_sorted_acyclic [OF _ _ assms(2)] vo by auto
  then show "fst (TopologicalTraversal ord g recordVisit []) =
       (if acyclic (edges g) then Inr () else Inl (Errorf ''ResourceGraph is not a DAG'' []))"
    and "acyclic (edges g) \<Longrightarrow> set (visitOrder ord g) = set (Nodes g)"
    using loop pending_iff [OF inv assms(2)] vo by (simp_all add: TopologicalTraversal_def)
qed

section \<open>Properties\<close>

text \<open>
  C8. On a well-formed acyclic graph the traversal visits every node exactly once and each node
  after all the nodes it depends on, for every order in which Go may range over the indegree
  map: there is one such sequence, and with any visitor the traversal is the loop over that
  sequence that stops at the first error of the visitor (so without errors it succeeds).
\<close>

theorem TopologicalTraversal_dag:
  assumes "go_order ord" "wf_graph g" "acyclic (edges g)"
  shows "\<exists>vs. distinct vs \<and> set vs = set (Nodes g)
    \<and> (\<forall>us v ws. vs = us @ v # ws \<longrightarrow> (\<forall>u. v \<in> set (OutEdgeNodes g u) \<longrightarrow> u \<in> set us))
    \<and> (\<forall>visitFunc (w :: 'w). TopologicalTraversal ord g visitFunc w = io_iter visitFunc vs w)"
proof (intro exI [of _ "visitOrder ord g"] conjI)
  note V = visitOrder_spec [OF assms(1,2)]
  show "distinct (visitOrder ord g)" "set (visitOrder ord g) = set (Nodes g)"
    using V assms(3) by auto
  show "\<forall>us v ws. visitOrder ord g = us @ v # ws \<longrightarrow> (\<forall>u. v \<in> set (OutEdgeNodes g u) \<longrightarrow> u \<in> set us)"
    using V(1) by (auto simp: topo_sorted_def edges_def)
  show "\<forall>visitFunc (w :: 'w). TopologicalTraversal ord g visitFunc w = io_iter visitFunc (visitOrder ord g) w"
    using V(3) assms(3)
    by (auto simp: TopologicalTraversal_visits [of ord g] split: prod.splits sum.splits)
qed

definition exampleGraph :: defaultResourceGraph where
  "exampleGraph = AddEdge \<lparr>ResType = ''LB'', ResID = ''lb''\<rparr> \<lparr>ResType = ''LS'', ResID = ''80''\<rparr>
     (AddNode \<lparr>ResType = ''LS'', ResID = ''80''\<rparr>
       (AddNode \<lparr>ResType = ''LB'', ResID = ''lb''\<rparr> NewDefaultResourceGraph))"

lemma exampleGraph_facts: "wf_graph exampleGraph" "acyclic (edges exampleGraph)"
proof -
  have "edges exampleGraph = {(\<lparr>ResType = ''LB'', ResID = ''lb''\<rparr>, \<lparr>ResType = ''LS'', ResID = ''80''\<rparr>)}"
    by (auto simp: edges_def exampleGraph_def OutEdgeNodes_def AddEdge_def AddNode_def
        NewDefaultResourceGraph_def split: if_splits)
  moreover have "acyclic ({} :: ResourceUID rel)" by (simp add: acyclic_def)
  ultimately show "acyclic (edges exampleGraph)" by (simp add: acyclic_insert)
  show "wf_graph exampleGraph"
    by (auto simp: wf_graph_def exampleGraph_def OutEdgeNodes_def Nodes_def AddEdge_def AddNode_def
        NewDefaultResourceGraph_def split: if_splits)
qed

theorem TopologicalTraversal_dag_witness:
  "\<exists>vs. distinct vs \<and> set vs = set (Nodes exampleGraph)
    \<and> (\<forall>us v ws. vs = us @ v # ws \<longrightarrow> (\<forall>u. v \<in> set (OutEdgeNodes exampleGraph u) \<longrightarrow> u \<in> set us))
    \<and> (\<forall>visitFunc (w :: unit). TopologicalTraversal rev exampleGraph visitFunc w = io_iter visitFunc vs w)"
  by (rule TopologicalTraversal_dag [OF go_order_rev exampleGraph_facts])



end
