(* ===== verification/Stack.thy ===== *)
theory Stack
  imports Resource_Graph
begin

text \<open>
  \<^verbatim>\<open>pkg/model/core\<close>: the stack of resources a model builder fills (\<^verbatim>\<open>stack.go\<close>,
  \<^verbatim>\<open>resource.go\<close>, \<^verbatim>\<open>token_types.go\<close>, \<^verbatim>\<open>stack_id.go\<close>).

  A stack keeps its resources by UID (the reflected Go type and the resource's ID) and a
  resource graph over the same UIDs. The stacks a builder can reach are those obtained from
  the empty stack by \<open>AddResource\<close> and \<open>AddDependency\<close> calls, whose errors leave the stack
  unchanged (\<open>reachable_stack\<close>).
\<close>

record StackID =
  Namespace :: string
  Name :: string

definition StackID_String :: "StackID \<Rightarrow> string" where
  "StackID_String sid =
     (if Namespace sid = '''' then Name sid else Namespace sid @ ''/'' @ Name sid)"

text \<open>
  A resource: its Go type (\<open>reflect.TypeOf\<close>), the type name and the ID of its \<open>ResourceMeta\<close>,
  and its specification, of whatever type the resource kind has.
\<close>

record 'b Resource =
  goType :: string
  metaType :: string
  metaID :: string
  body :: 'b

record 'b defaultStack =
  stackID :: StackID
  resources :: "(ResourceUID, 'b Resource) gomap"
  resourceGraph :: defaultResourceGraph

definition NewDefaultStack :: "StackID \<Rightarrow> 'b defaultStack" where
  "NewDefaultStack sid = \<lparr>stackID = sid, resources = [], resourceGraph = NewDefaultResourceGraph\<rparr>"

definition computeResourceUID :: "'b Resource \<Rightarrow> ResourceUID" where
  "computeResourceUID res = \<lparr>ResType = goType res, ResID = metaID res\<rparr>"

definition AddResource :: "'b Resource \<Rightarrow> ('b defaultStack, unit) io" where
  "AddResource res s =
     (let resUID = computeResourceUID res
      in if mhas (resources s) resUID
         then (Inl (Errorf ''resource already exists, type: %v, id: %v'' [metaType res, metaID res]), s)
         else (Inr (), s\<lparr>resources := mput resUID res (resources s),
                         resourceGraph := AddNode resUID (resourceGraph s)\<rparr>))"

definition AddDependency :: "'b Resource \<Rightarrow> 'b Resource \<Rightarrow> ('b defaultStack, unit) io" where
  "AddDependency dependee depender s =
     (let dependeeResUID = computeResourceUID dependee;
          dependerResUID = computeResourceUID depender
      in if \<not> mhas (resources s) dependeeResUID
         then (Inl (Errorf ''dependee resource didn't exists, type: %v, id: %v''
                [metaType dependee, metaID dependee]), s)
         else if \<not> mhas (resources s) dependerResUID
         then (Inl (Errorf ''depender resource didn't exists, type: %v, id: %v''
                [metaType depender, metaID depender]), s)
         else (Inr (), s\<lparr>resourceGraph := AddEdge dependeeResUID dependerResUID (resourceGraph s)\<rparr>))"

text \<open>
  The two checks on the kind of the argument (a pointer to a slice) are type checks in the
  model; the argument is the Go type of the slice's elements.
\<close>

definition ListResources :: "string \<Rightarrow> 'b defaultStack \<Rightarrow> 'b Resource list" where
  "ListResources rtype s = map snd (filter (\<lambda>(resID, res). ResType resID = rtype) (resources s))"

text \<open>A visitor gets \<open>s.resources[uid]\<close>, which is \<open>nil\<close> (\<open>None\<close>) for an unknown UID.\<close>

definition StackTraversal ::
  "((ResourceUID \<times> int) list \<Rightarrow> (ResourceUID \<times> int) list) \<Rightarrow> 'b defaultStack \<Rightarrow>
   ('b Resource option \<Rightarrow> ('w, unit) io) \<Rightarrow> ('w, unit) io" where
  "StackTraversal ord s visit w =
     TopologicalTraversal ord (resourceGraph s) (\<lambda>uid. visit (mget (resources s) uid)) w"

text \<open>
  A string token is a literal or a field of a resource, read when the token is resolved.
\<close>

datatype ('b, 'w) StringToken =
    LiteralStringToken string
  | ResourceFieldStringToken "'b Resource" string "'b Resource \<Rightarrow> string \<Rightarrow> ('w, string) io"

fun Resolve :: "('b, 'w) StringToken \<Rightarrow> ('w, string) io" where
  "Resolve (LiteralStringToken t) w = (Inr t, w)"
| "Resolve (ResourceFieldStringToken res fieldPath resolveFunc) w = resolveFunc res fieldPath w"

fun Dependencies :: "('b, 'w) StringToken \<Rightarrow> 'b Resource list" where
  "Dependencies (LiteralStringToken t) = []"
| "Dependencies (ResourceFieldStringToken res fieldPath resolveFunc) = [res]"

section \<open>The stack invariant\<close>

definition wf_stack :: "'b defaultStack \<Rightarrow> bool" where
  "wf_stack s \<longleftrightarrow> wf_map (resources s) \<and> wf_graph (resourceGraph s)
     \<and> set (Nodes (resourceGraph s)) = fst ` set (resources s)
     \<and> (\<forall>(uid, res) \<in> set (resources s). computeResourceUID res = uid)"

lemma wf_stack_new: "wf_stack (NewDefaultStack sid)"
  using rg.well_formed_empty
  by (simp add: wf_stack_def NewDefaultStack_def wf_graph_rg rg.nodes_empty)

lemma put_fresh: "\<not> mhas m k \<Longrightarrow> mput k v m = m @ [(k, v)]"
  by (induction m) (auto simp: mhas_def split: if_splits)

lemma wf_stack_AddResource:
  assumes "wf_stack s" "AddResource res s = (r, s')"
  shows "wf_stack s'"
proof (cases "mhas (resources s) (computeResourceUID res)")
  case True
  with assms show ?thesis by (simp add: AddResource_def Let_def)
next
  case False
  then have "computeResourceUID res \<notin> set (Nodes (resourceGraph s))"
    using assms(1) by (simp add: wf_stack_def mhas_iff)
  then have "wf_graph (AddNode (computeResourceUID res) (resourceGraph s))"
    using assms(1) rg.well_formed_add_node by (simp add: wf_stack_def wf_graph_rg)
  moreover have s': "s' = s\<lparr>resources := resources s @ [(computeResourceUID res, res)],
                   resourceGraph := AddNode (computeResourceUID res) (resourceGraph s)\<rparr>"
    using False assms(2) by (simp add: AddResource_def Let_def put_fresh)
  ultimately show ?thesis
    using assms(1) False by (auto simp: wf_stack_def rg.nodes_add_node mhas_iff)
qed

lemma wf_stack_AddDependency:
  assumes "wf_stack s" "AddDependency a b s = (r, s')"
  shows "wf_stack s'"
proof (cases "mhas (resources s) (computeResourceUID a) \<and> mhas (resources s) (computeResourceUID b)")
  case True
  then have "wf_graph (AddEdge (computeResourceUID a) (computeResourceUID b) (resourceGraph s))"
    using assms(1) rg.well_formed_add_edge by (simp add: wf_stack_def wf_graph_rg mhas_iff)
  moreover have "s' = s\<lparr>resourceGraph := AddEdge (computeResourceUID a) (computeResourceUID b) (resourceGraph s)\<rparr>"
    using True assms(2) by (simp add: AddDependency_def Let_def)
  ultimately show ?thesis using assms(1) by (simp add: wf_stack_def rg.nodes_add_edge)
next
  case False
  with assms show ?thesis by (auto simp: AddDependency_def Let_def split: if_splits)
qed

inductive reachable_stack :: "'b defaultStack \<Rightarrow> bool" where
  new: "reachable_stack (NewDefaultStack sid)"
| add: "reachable_stack s \<Longrightarrow> AddResource res s = (r, s') \<Longrightarrow> reachable_stack s'"
| dep: "reachable_stack s \<Longrightarrow> AddDependency a b s = (r, s') \<Longrightarrow> reachable_stack s'"

lemma reachable_wf_stack: "reachable_stack s \<Longrightarrow> wf_stack s"
  by (induction rule: reachable_stack.induct)
    (auto intro: wf_stack_new wf_stack_AddResource wf_stack_AddDependency)

lemma wf_stack_uid:
  assumes "wf_stack s" "(uid, res) \<in> set (resources s)"
  shows "mget (resources s) uid = Some res" "computeResourceUID res = uid"
  using assms by (auto simp: wf_stack_def)

definition resOf :: "'b defaultStack \<Rightarrow> ResourceUID \<Rightarrow> 'b Resource" where
  "resOf s uid = the (mget (resources s) uid)"

lemma resOf_spec:
  assumes "wf_stack s" "uid \<in> fst ` set (resources s)"
  shows "mget (resources s) uid = Some (resOf s uid)" "computeResourceUID (resOf s uid) = uid"
    "resOf s uid \<in> snd ` set (resources s)"
proof -
  obtain res where "(uid, res) \<in> set (resources s)" using assms(2) by force
  with wf_stack_uid [OF assms(1) this] show "mget (resources s) uid = Some (resOf s uid)"
    "computeResourceUID (resOf s uid) = uid" "resOf s uid \<in> snd ` set (resources s)"
    by (simp_all add: resOf_def) force
qed

lemma resOf_uid:
  assumes "wf_stack s" "res \<in> snd ` set (resources s)"
  shows "resOf s (computeResourceUID res) = res" "computeResourceUID res \<in> fst ` set (resources s)"
proof -
  obtain uid where "(uid, res) \<in> set (resources s)" using assms(2) by force
  with wf_stack_uid [OF assms(1) this] show "resOf s (computeResourceUID res) = res"
    "computeResourceUID res \<in> fst ` set (resources s)"
    by (simp_all add: resOf_def) force
qed

text \<open>\<open>ListResources\<close> returns exactly the added resources of a Go type, each once.\<close>

lemma ListResources_spec:
  assumes "wf_stack s"
  shows "set (ListResources rtype s) = {res \<in> snd ` set (resources s). goType res = rtype}"
    and "distinct (map metaID (ListResources rtype s))"
proof -
  have T: "ResType uid = goType res" "ResID uid = metaID res" if "(uid, res) \<in> set (resources s)" for uid res
    using wf_stack_uid(2) [OF assms that] by (auto simp: computeResourceUID_def)
  show "set (ListResources rtype s) = {res \<in> snd ` set (resources s). goType res = rtype}"
    using T(1) by (force simp: ListResources_def)
  let ?L = "filter (\<lambda>(uid, res). ResType uid = rtype) (resources s)"
  have "distinct (map fst ?L)" using assms by (simp add: wf_stack_def distinct_map_filter)
  moreover have "inj_on (\<lambda>u. ResID u) (set (map fst ?L))" by (auto intro!: inj_onI)
  ultimately have "distinct (map (\<lambda>p. ResID (fst p)) ?L)"
    by (metis (no_types, lifting) distinct_map list.map_comp comp_def map_eq_conv)
  moreover have "map (\<lambda>p. ResID (fst p)) ?L = map metaID (ListResources rtype s)"
    using T(2) by (auto simp: ListResources_def)
  ultimately show "distinct (map metaID (ListResources rtype s))" by simp
qed

section \<open>Properties\<close>


definition exampleStack :: "unit defaultStack" where
  "exampleStack =
     snd (AddDependency \<lparr>goType = ''LB'', metaType = ''AWS::LB'', metaID = ''lb'', body = ()\<rparr>
                        \<lparr>goType = ''LS'', metaType = ''AWS::LS'', metaID = ''80'', body = ()\<rparr>
       (snd (AddResource \<lparr>goType = ''LS'', metaType = ''AWS::LS'', metaID = ''80'', body = ()\<rparr>
         (snd (AddResource \<lparr>goType = ''LB'', metaType = ''AWS::LB'', metaID = ''lb'', body = ()\<rparr>
           (NewDefaultStack \<lparr>Namespace = ''ns'', Name = ''ing''\<rparr>))))))"

lemma exampleStack_reachable: "reachable_stack exampleStack"
  unfolding exampleStack_def by (metis prod.collapse reachable_stack.intros)

lemma exampleStack_graph: "resourceGraph exampleStack = exampleGraph"
  by (simp add: exampleStack_def exampleGraph_def AddDependency_def AddResource_def NewDefaultStack_def
      computeResourceUID_def Let_def)


end
