(* ===== verification/Matching.thy ===== *)
theory Matching
  imports Algorithm
begin

text \<open>
  What the synthesizers of \<^verbatim>\<open>pkg/deploy\<close> share: each lists the resources its stack wants and
  the objects the cloud has, matches the two by a key, and then creates, updates and deletes.

  \<^item> \<open>matching\<close> states what a match promises, and the locale \<open>matcher\<close> is its interface: the
    key functions, when an object still fits a resource (no replacement needed), and the
    matching function. The client lemmas proved in it are interpreted for the matching
    function of every synthesizer.
  \<^item> \<open>groupByTag\<close>, \<open>matchIDs\<close> are the loops that several synthesizers repeat.
  \<^item> \<open>synth\<close> is the state of a synthesizer run: what it defers to its post-synthesis phase, the statuses
    it has set on the resources, and the cloud behind its resource manager.
\<close>

section \<open>What a match promises\<close>

text \<open>
  A match pairs objects with resources of the same key that they fit; every object is either
  paired or unmatched, exactly once; the unmatched resources are those that got no object;
  and neither a resource nor an object is left unmatched if a fitting partner was available.
\<close>

definition matching :: "('r \<Rightarrow> 'k) \<Rightarrow> ('s \<Rightarrow> 'k option) \<Rightarrow> ('s \<Rightarrow> 'r \<Rightarrow> bool) \<Rightarrow>
    'r list \<Rightarrow> 's list \<Rightarrow> ('r \<times> 's) list \<times> 'r list \<times> 's list \<Rightarrow> bool" where
  "matching res_key sdk_key fits rs ss = (\<lambda>(m, ur, us).
     (\<forall>(r, s) \<in> set m. r \<in> set rs \<and> sdk_key s = Some (res_key r) \<and> fits s r)
   \<and> mset (map snd m) + mset us = mset ss
   \<and> distinct ur \<and> set ur = set rs - fst ` set m
   \<and> (\<forall>r \<in> set ur. \<forall>s \<in> set ss. sdk_key s = Some (res_key r) \<longrightarrow> \<not> fits s r)
   \<and> (\<forall>s \<in> set us. \<forall>r \<in> set rs. sdk_key s = Some (res_key r) \<longrightarrow> \<not> fits s r \<or> r \<in> fst ` set m))"

lemma matchingI:
  assumes "\<And>r s. (r, s) \<in> set m \<Longrightarrow> r \<in> set rs \<and> sdk_key s = Some (res_key r) \<and> fits s r"
    and "mset (map snd m) + mset us = mset ss" "distinct ur" "set ur = set rs - fst ` set m"
    and "\<And>r s. r \<in> set ur \<Longrightarrow> s \<in> set ss \<Longrightarrow> sdk_key s = Some (res_key r) \<Longrightarrow> \<not> fits s r"
    and "\<And>r s. s \<in> set us \<Longrightarrow> r \<in> set rs \<Longrightarrow> sdk_key s = Some (res_key r) \<Longrightarrow> \<not> fits s r \<or> r \<in> fst ` set m"
  shows "matching res_key sdk_key fits rs ss (m, ur, us)"
  unfolding matching_def prod.case using assms(2,3,4) by (intro conjI) (use assms(1,5,6) in blast)+

lemma matchingD:
  assumes "matching res_key sdk_key fits rs ss (m, ur, us)"
  shows "(r, s) \<in> set m \<Longrightarrow> r \<in> set rs \<and> s \<in> set ss \<and> sdk_key s = Some (res_key r) \<and> fits s r"
    and "set us \<subseteq> set ss" "set ss = snd ` set m \<union> set us"
    and "set ur = set rs - fst ` set m"
proof -
  have M: "mset ss = mset (map snd m) + mset us" using assms by (simp add: matching_def)
  have "set_mset (mset ss) = set_mset (mset (map snd m)) \<union> set_mset (mset us)"
    unfolding M by (rule set_mset_union)
  then show S: "set ss = snd ` set m \<union> set us" by simp
  then show "set us \<subseteq> set ss" by simp
  show "set ur = set rs - fst ` set m" using assms by (simp add: matching_def)
  assume rs: "(r, s) \<in> set m"
  then have "s \<in> set ss" using S by (simp add: rev_image_eqI)
  moreover have "r \<in> set rs \<and> sdk_key s = Some (res_key r) \<and> fits s r"
    using assms rs unfolding matching_def by blast
  ultimately show "r \<in> set rs \<and> s \<in> set ss \<and> sdk_key s = Some (res_key r) \<and> fits s r" by simp
qed

lemma matching_unmatched:
  assumes "matching res_key sdk_key fits rs ss (m, ur, us)" "sdk_key s = Some (res_key r)" "fits s r"
  shows "r \<in> set ur \<Longrightarrow> s \<notin> set ss" and "s \<in> set us \<Longrightarrow> r \<in> set rs \<Longrightarrow> \<exists>s'. (r, s') \<in> set m"
  using assms unfolding matching_def by force+

lemma matching_key:
  assumes "matching res_key k fits rs ss (m, ur, us)" "\<And>s. s \<in> set ss \<Longrightarrow> k s = k' s"
  shows "matching res_key k' fits rs ss (m, ur, us)"
proof (rule matchingI)
  show "mset (map snd m) + mset us = mset ss" "distinct ur" "set ur = set rs - fst ` set m"
    using assms(1) by (simp_all add: matching_def)
  show "r \<in> set rs \<and> k' s = Some (res_key r) \<and> fits s r" if "(r, s) \<in> set m" for r s
    using matchingD(1) [OF assms(1) that] assms(2) [of s] by simp
  show "\<not> fits s r" if "r \<in> set ur" "s \<in> set ss" "k' s = Some (res_key r)" for r s
    using matching_unmatched(1) [OF assms(1), of s r] assms(2) [of s] that by auto
  show "\<not> fits s r \<or> r \<in> fst ` set m" if "s \<in> set us" "r \<in> set rs" "k' s = Some (res_key r)" for r s
  proof -
    have "s \<in> set ss" using matchingD(2) [OF assms(1)] that(1) by auto
    then show ?thesis
      using matching_unmatched(2) [OF assms(1), of s r] assms(2) [of s] that by (force simp: image_iff)
  qed
qed

locale matcher =
  fixes res_key :: "'r \<Rightarrow> 'k"
    and sdk_key :: "'s \<Rightarrow> 'k option"
    and fits :: "'s \<Rightarrow> 'r \<Rightarrow> bool"
    and ok_sdk :: "'s list \<Rightarrow> bool"
    and match :: "'r list \<Rightarrow> 's list \<Rightarrow> (('r \<times> 's) list \<times> 'r list \<times> 's list) res"
  assumes match_ok: "distinct (map res_key rs) \<Longrightarrow> ok_sdk ss \<Longrightarrow>
      \<exists>p. match rs ss = Inr p \<and> matching res_key sdk_key fits rs ss p"
begin

lemma match_matching:
  assumes "distinct (map res_key rs)" "ok_sdk ss" "match rs ss = Inr (m, ur, us)"
  shows "matching res_key sdk_key fits rs ss (m, ur, us)"
  using match_ok [OF assms(1,2)] assms(3) by simp

text \<open>
  After the creations and the deletions the cloud holds, for exactly the desired keys, an
  object: the kept ones and the created ones.
\<close>

lemma match_converges:
  assumes "distinct (map res_key rs)" "ok_sdk ss" "match rs ss = Inr (m, ur, us)"
  shows "sdk_key ` snd ` set m \<union> (Some \<circ> res_key) ` set ur = (Some \<circ> res_key) ` set rs"
proof -
  note M = match_matching [OF assms]
  have "sdk_key ` snd ` set m = (Some \<circ> res_key) ` fst ` set m"
    using matchingD(1) [OF M] by (force simp: image_iff)
  moreover have "set rs = fst ` set m \<union> set ur"
    using matchingD(1,4) [OF M] by force
  ultimately show ?thesis by (simp add: image_Un)
qed

text \<open>If every resource has its fitting object and there is nothing else, nothing is created or deleted.\<close>

lemma match_steady:
  assumes "distinct (map res_key rs)" "ok_sdk ss" "match rs ss = Inr (m, ur, us)"
    and "\<forall>r \<in> set rs. \<exists>s \<in> set ss. sdk_key s = Some (res_key r) \<and> fits s r"
    and "\<forall>s \<in> set ss. \<exists>r \<in> set rs. sdk_key s = Some (res_key r) \<and> fits s r"
    and "distinct (map sdk_key ss)"
  shows "ur = [] \<and> us = []"
proof -
  note M = match_matching [OF assms(1-3)]
  have "set ur = {}"
  proof (rule ccontr)
    assume "set ur \<noteq> {}"
    then obtain r where r: "r \<in> set ur" by (metis ex_in_conv)
    then have "r \<in> set rs" using matchingD(4) [OF M] by simp
    then show False using assms(4) matching_unmatched(1) [OF M] r by blast
  qed
  moreover have "set us = {}"
  proof (rule ccontr)
    assume "set us \<noteq> {}"
    then obtain s where s: "s \<in> set us" by (metis ex_in_conv)
    then have "s \<in> set ss" using matchingD(2) [OF M] by auto
    then obtain r where r: "r \<in> set rs" "sdk_key s = Some (res_key r)" "fits s r"
      using assms(5) by blast
    then obtain s' where s': "(r, s') \<in> set m"
      using matching_unmatched(2) [OF M] s by blast
    then have "s' \<in> set ss" "sdk_key s' = sdk_key s" using matchingD(1) [OF M] r by force+
    then have "s' = s" using assms(6) \<open>s \<in> set ss\<close> by (auto simp: distinct_map inj_on_def)
    then have "s \<in># mset (map snd m)" "s \<in># mset us" using s s' by (force simp: image_iff)+
    then have "count (mset (map snd m)) s \<ge> 1" "count (mset us) s \<ge> 1"
      by (simp_all only: Suc_le_eq One_nat_def count_greater_zero_iff)
    moreover have "mset ss = mset (map snd m) + mset us" using M by (simp add: matching_def)
    ultimately have "count (mset ss) s \<ge> 2" by (simp only: count_union)
    moreover have "distinct ss" using assms(6) by (simp add: distinct_map)
    then have "count (mset ss) s \<le> 1" by (simp add: distinct_count_atmost_1)
    ultimately show False by simp
  qed
  ultimately show ?thesis by simp
qed

end

section \<open>The matching loops\<close>

text \<open>The values of a list of keys.\<close>

definition mlookups :: "('k, 'v) gomap \<Rightarrow> 'k list \<Rightarrow> 'v list" where
  "mlookups m ks = List.map_filter (mget m) ks"

lemma mlookups_simps [simp]:
  "mlookups m [] = []"
  "mlookups m (k # ks) = (case mget m k of None \<Rightarrow> mlookups m ks | Some v \<Rightarrow> v # mlookups m ks)"
  by (simp_all add: mlookups_def List.map_filter_simps split: option.splits)

lemma set_mlookups: "set (mlookups m ks) = {v. \<exists>k \<in> set ks. mget m k = Some v}"
  by (induction ks) (auto split: option.splits)

text \<open>Grouping the objects of the cloud by a tag; an object without the tag is an error.\<close>

fun groupByTag :: "('s \<Rightarrow> string_map) \<Rightarrow> ('s \<Rightarrow> go_error) \<Rightarrow> string \<Rightarrow> 's list \<Rightarrow>
    (string, 's list) gomap \<Rightarrow> (string, 's list) gomap res" where
  "groupByTag tags err tagKey [] m = Inr m"
| "groupByTag tags err tagKey (s # ss) m =
     (case mget (tags s) tagKey of
        None \<Rightarrow> Inl (err s)
      | Some resourceID \<Rightarrow>
          groupByTag tags err tagKey ss (mput resourceID (mget0 [] m resourceID @ [s]) m))"

text \<open>
  The loop over the keys that both sides have: the objects that need replacement are unmatched,
  the others are paired with the resource, and the resource is unmatched if none is left.
\<close>

fun matchIDs :: "('s \<Rightarrow> 'r \<Rightarrow> bool) \<Rightarrow> ('k, 'r) gomap \<Rightarrow> ('k, 's list) gomap \<Rightarrow> 'k list \<Rightarrow>
    ('r \<times> 's) list \<times> 'r list \<times> 's list" where
  "matchIDs replace rm sm [] = ([], [], [])"
| "matchIDs replace rm sm (k # ks) =
     (let (m, ur, us) = matchIDs replace rm sm ks
      in (case mget rm k of
            None \<Rightarrow> (m, ur, us)
          | Some r \<Rightarrow>
              (let ss = mget0 [] sm k;
                   kept = filter (\<lambda>s. \<not> replace s r) ss
               in (map (Pair r) kept @ m, (if kept = [] then [r] else []) @ ur,
                   filter (\<lambda>s. replace s r) ss @ us))))"

definition matchByID :: "('s \<Rightarrow> 'r \<Rightarrow> bool) \<Rightarrow> (string, 'r) gomap \<Rightarrow> (string, 's list) gomap \<Rightarrow>
    ('r \<times> 's) list \<times> 'r list \<times> 's list" where
  "matchByID replace rm sm =
     (let (m, ur, us) = matchIDs replace rm sm (keys_inter rm sm)
      in (m, ur @ mlookups rm (keys_diff rm sm), us @ concat (mlookups sm (keys_diff sm rm))))"

lemma groupByTag_ok:
  assumes "\<forall>s \<in> set ss. mget (tags s) tagKey \<noteq> None"
  shows "groupByTag tags err tagKey ss m = Inr (mgroup (\<lambda>s. the (mget (tags s) tagKey)) ss m)"
  using assms by (induction ss arbitrary: m) (auto split: option.splits)

lemma groupByTag_err:
  assumes "s \<in> set ss" "mget (tags s) tagKey = None"
  shows "\<exists>s' \<in> set ss. groupByTag tags err tagKey ss m = Inl (err s') \<and> mget (tags s') tagKey = None"
  using assms by (induction ss arbitrary: m) (auto split: option.splits)

lemma matchIDs_set:
  assumes "matchIDs replace rm sm ks = (m, ur, us)"
  shows "set m = {(r, s). \<exists>k \<in> set ks. mget rm k = Some r \<and> s \<in> set (mget0 [] sm k) \<and> \<not> replace s r}"
    and "set ur = {r. \<exists>k \<in> set ks. mget rm k = Some r \<and> (\<forall>s \<in> set (mget0 [] sm k). replace s r)}"
    and "set us = {s. \<exists>k \<in> set ks. \<exists>r. mget rm k = Some r \<and> s \<in> set (mget0 [] sm k) \<and> replace s r}"
  using assms
  by (induction replace rm sm ks arbitrary: m ur us rule: matchIDs.induct)
    (auto simp: Let_def filter_empty_conv split: prod.splits option.splits if_splits)

lemma matchIDs_mset:
  assumes "matchIDs replace rm sm ks = (m, ur, us)" "\<forall>k \<in> set ks. mget rm k \<noteq> None"
  shows "mset (map snd m) + mset us = mset (concat (map (mget0 [] sm) ks))"
  using assms
proof (induction replace rm sm ks arbitrary: m ur us rule: matchIDs.induct)
  case (2 replace rm sm k ks)
  obtain m0 ur0 us0 where rec: "matchIDs replace rm sm ks = (m0, ur0, us0)" by (metis prod_cases3)
  obtain r where r: "mget rm k = Some r" using 2(3) by auto
  have "mset (map snd m0) + mset us0 = mset (concat (map (mget0 [] sm) ks))"
    using 2(1) [OF rec] 2(3) by simp
  moreover have "mset (mget0 [] sm k) = mset (filter (\<lambda>s. replace s r) (mget0 [] sm k))
      + mset (filter (\<lambda>s. \<not> replace s r) (mget0 [] sm k))"
    by (metis mset_filter multiset_partition)
  moreover have "m = map (Pair r) (filter (\<lambda>s. \<not> replace s r) (mget0 [] sm k)) @ m0"
    and us: "us = filter (\<lambda>s. replace s r) (mget0 [] sm k) @ us0"
    using 2(2) rec r by (auto simp: Let_def)
  then have "mset (map snd m) = mset (filter (\<lambda>s. \<not> replace s r) (mget0 [] sm k)) + mset (map snd m0)"
    by (simp add: multiset.map_comp comp_def)
  ultimately show ?case using us
    by (simp del: mset_map mset_filter)
qed simp

lemma matchIDs_ur_distinct:
  assumes "matchIDs replace rm sm ks = (m, ur, us)" "distinct ks"
    and "\<And>k k' r. mget rm k = Some r \<Longrightarrow> mget rm k' = Some r \<Longrightarrow> k = k'"
  shows "distinct ur"
  using assms
proof (induction replace rm sm ks arbitrary: m ur us rule: matchIDs.induct)
  case (2 replace rm sm k ks)
  obtain m0 ur0 us0 where rec: "matchIDs replace rm sm ks = (m0, ur0, us0)" by (metis prod_cases3)
  have "distinct ur0" using 2(1) [OF rec] 2(3,4) by simp
  moreover have "r \<notin> set ur0" if "mget rm k = Some r" for r
  proof
    assume "r \<in> set ur0"
    then obtain k' where "k' \<in> set ks" "mget rm k' = Some r" using matchIDs_set(2) [OF rec] by auto
    then show False using 2(3) 2(4) [OF that] by auto
  qed
  ultimately show ?case using 2(2) rec by (auto simp: Let_def split: option.splits)
qed simp

lemma mlookups_distinct:
  assumes "distinct ks" "\<And>k k' r. mget rm k = Some r \<Longrightarrow> mget rm k' = Some r \<Longrightarrow> k = k'"
  shows "distinct (mlookups rm ks)"
  using assms(1) by (induction ks) (auto simp: set_mlookups split: option.splits dest: assms(2))

lemma mset_concat_groups:
  assumes "distinct ks" "f ` set xs \<subseteq> set ks"
  shows "mset (concat (map (\<lambda>k. filter (\<lambda>x. f x = k) xs) ks)) = mset xs"
  using assms
proof (induction ks arbitrary: xs)
  case (Cons k ks)
  define ys where "ys = filter (\<lambda>x. f x \<noteq> k) xs"
  have "map (\<lambda>j. filter (\<lambda>x. f x = j) xs) ks = map (\<lambda>j. filter (\<lambda>x. f x = j) ys) ks"
    using Cons.prems(1) by (auto simp: ys_def intro!: filter_cong)
  moreover have "mset (concat (map (\<lambda>j. filter (\<lambda>x. f x = j) ys) ks)) = mset ys"
    using Cons.prems by (intro Cons.IH) (auto simp: ys_def)
  moreover have "mset (filter (\<lambda>x. f x = k) xs) + mset ys = mset xs"
    unfolding ys_def by (metis mset_filter multiset_partition)
  ultimately show ?case by (simp del: map_eq_conv)
qed simp

text \<open>
  Matching by resource ID is a match in the sense above: the resources by their IDs and the
  objects grouped by their resource-ID tag.
\<close>

lemma matchByID_matching:
  fixes rid :: "'r \<Rightarrow> string" and sid :: "'s \<Rightarrow> string"
  assumes "distinct (map rid rs)"
  shows "matching rid (\<lambda>s. Some (sid s)) (\<lambda>s r. \<not> replace s r) rs ss
     (matchByID replace (mbuild rid (\<lambda>r. r) rs []) (mgroup sid ss []))"
proof -
  define rm where "rm = mbuild rid (\<lambda>r. r) rs []"
  define sm where "sm = mgroup sid ss []"
  have rm: "mget rm k = Some r \<longleftrightarrow> r \<in> set rs \<and> rid r = k" for k r
    unfolding rm_def using mget_mbuild_distinct [OF assms, of r "\<lambda>r. r" "[]"]
      mget_mbuild_SomeD [of rid "\<lambda>r. r" rs k r] by metis
  have keys_rm: "fst ` set rm = rid ` set rs" by (simp add: rm_def)
  have keys_sm: "fst ` set sm = sid ` set ss" by (simp add: sm_def)
  have sm: "mget0 [] sm k = filter (\<lambda>s. sid s = k) ss" for k
    by (simp add: sm_def mget0_mgroup)
  have smS: "mget sm k = Some v \<longleftrightarrow> k \<in> sid ` set ss \<and> v = filter (\<lambda>s. sid s = k) ss" for k v
    by (auto simp: sm_def mget_mgroup)
  obtain m ur us where mm: "matchIDs replace rm sm (keys_inter rm sm) = (m, ur, us)" by (metis prod_cases3)
  note S = matchIDs_set [OF mm]
  define ur2 where "ur2 = mlookups rm (keys_diff rm sm)"
  define us2 where "us2 = concat (mlookups sm (keys_diff sm rm))"
  have inter: "(\<exists>k \<in> set (keys_inter rm sm). P k) \<longleftrightarrow> (\<exists>r \<in> set rs. rid r \<in> sid ` set ss \<and> P (rid r))" for P
    by (auto simp: keys_rm keys_sm)
  have ur2: "set ur2 = {r \<in> set rs. rid r \<notin> sid ` set ss}"
    by (auto simp: ur2_def set_mlookups keys_rm keys_sm rm)
  have setm: "set m = {(r, s). r \<in> set rs \<and> s \<in> set ss \<and> sid s = rid r \<and> \<not> replace s r}"
    unfolding S(1) inter rm sm by (auto simp: image_iff) metis
  have setur: "set ur = {r \<in> set rs. rid r \<in> sid ` set ss \<and> (\<forall>s \<in> set ss. sid s = rid r \<longrightarrow> replace s r)}"
    unfolding S(2) inter rm sm by auto
  have setus: "set us = {s \<in> set ss. \<exists>r \<in> set rs. sid s = rid r \<and> replace s r}"
    unfolding S(3) inter rm sm by (auto simp: image_iff) metis+
  have us2_eq: "us2 = concat (map (\<lambda>k. filter (\<lambda>s. sid s = k) ss) (keys_diff sm rm))"
  proof -
    have "mlookups sm ks = map (\<lambda>k. filter (\<lambda>s. sid s = k) ss) ks" if "set ks \<subseteq> sid ` set ss" for ks
      using that by (induction ks) (auto simp: sm_def mget_mgroup)
    then show ?thesis by (auto simp: us2_def keys_sm)
  qed
  have setus2: "set us2 = {s \<in> set ss. sid s \<notin> rid ` set rs}"
    by (auto simp: us2_eq keys_rm keys_sm) (metis imageI)+
  have M1: "mset (map snd m) + mset us = mset (concat (map (\<lambda>k. filter (\<lambda>s. sid s = k) ss) (keys_inter rm sm)))"
    using matchIDs_mset [OF mm] by (auto simp: keys_rm rm sm [THEN ext])
  have "mset (concat (map (\<lambda>k. filter (\<lambda>s. sid s = k) ss) (keys_inter rm sm @ keys_diff sm rm))) = mset ss"
    by (rule mset_concat_groups) (auto simp: keys_rm keys_sm)
  then have M: "mset (map snd m) + mset (us @ us2) = mset ss"
    using M1 by (simp add: us2_eq flip: add.assoc)
  have inj: "k = k'" if "mget rm k = Some r" "mget rm k' = Some r" for k k' r
    using that by (simp add: rm)
  have "distinct (ur @ ur2)"
    using matchIDs_ur_distinct [OF mm _ inj] mlookups_distinct [OF _ inj, of "keys_diff rm sm"] setur ur2
    by (auto simp: ur2_def)
  moreover have fstm: "fst ` set m = {r \<in> set rs. \<exists>s \<in> set ss. sid s = rid r \<and> \<not> replace s r}"
    by (force simp: setm)
  moreover have "set (ur @ ur2) = set rs - fst ` set m"
    unfolding fstm set_append setur ur2 by (auto simp: image_iff)
  moreover have "\<forall>r \<in> set (ur @ ur2). \<forall>s \<in> set ss. sid s = rid r \<longrightarrow> replace s r"
    unfolding set_append setur ur2 by (auto simp: image_iff)
  moreover have "\<forall>s \<in> set (us @ us2). \<forall>r \<in> set rs. sid s = rid r \<longrightarrow> replace s r \<or> r \<in> fst ` set m"
    unfolding fstm set_append setus setus2 by auto
  ultimately have "matching rid (\<lambda>s. Some (sid s)) (\<lambda>s r. \<not> replace s r) rs ss (m, ur @ ur2, us @ us2)"
    using M setm unfolding matching_def by auto
  then show ?thesis
    using mm by (simp add: matchByID_def ur2_def us2_def flip: rm_def sm_def)
qed

text \<open>
  Matching by a key both sides hold at most one entry of (listeners by port, rules by priority,
  bindings by target group): the pairs of a list of keys.
\<close>

fun matchPairs :: "('k, 'r) gomap \<Rightarrow> ('k, 's) gomap \<Rightarrow> 'k list \<Rightarrow> ('r \<times> 's) list" where
  "matchPairs rm sm [] = []"
| "matchPairs rm sm (k # ks) =
     (case (mget rm k, mget sm k) of
        (Some r, Some s) \<Rightarrow> (r, s) # matchPairs rm sm ks
      | _ \<Rightarrow> matchPairs rm sm ks)"

definition matchByKey :: "('k::linorder, 'r) gomap \<Rightarrow> ('k, 's) gomap \<Rightarrow> ('r \<times> 's) list \<times> 'r list \<times> 's list" where
  "matchByKey rm sm =
     (matchPairs rm sm (keys_inter rm sm), mlookups rm (keys_diff rm sm), mlookups sm (keys_diff sm rm))"

lemma set_matchPairs:
  "set (matchPairs rm sm ks) = {(r, s). \<exists>k \<in> set ks. mget rm k = Some r \<and> mget sm k = Some s}"
  by (induction rm sm ks rule: matchPairs.induct) (auto split: option.splits)

lemma matchPairs_snd:
  "\<forall>k \<in> set ks. mget rm k \<noteq> None \<Longrightarrow> map snd (matchPairs rm sm ks) = mlookups sm ks"
  by (induction rm sm ks rule: matchPairs.induct) (auto split: option.splits)

lemma mget_mbuild_iff:
  assumes "distinct (map f xs)"
  shows "mget (mbuild f (\<lambda>x. x) xs []) k = Some x \<longleftrightarrow> x \<in> set xs \<and> f x = k"
  using mget_mbuild_distinct [OF assms, of x "\<lambda>x. x" "[]"] mget_mbuild_SomeD [of f "\<lambda>x. x" xs k x]
  by metis

lemma mset_mlookups_all:
  assumes "distinct (map f xs)" "distinct ks" "set ks = f ` set xs"
  shows "mset (mlookups (mbuild f (\<lambda>x. x) xs []) ks) = mset xs"
proof -
  let ?m = "mbuild f (\<lambda>x. x) xs []"
  note iff = mget_mbuild_iff [OF assms(1)]
  have "distinct (mlookups ?m ks)"
    using assms(2) by (rule mlookups_distinct) (simp add: iff)
  moreover have "set (mlookups ?m ks) = set xs"
    using assms(3) by (auto simp: set_mlookups iff)
  moreover have "distinct xs" using assms(1) by (simp add: distinct_map)
  ultimately show ?thesis by (simp add: set_eq_iff_mset_eq_distinct)
qed

lemma matchByKey_matching:
  fixes rkey :: "'r \<Rightarrow> 'k::linorder" and skey :: "'s \<Rightarrow> 'k"
  assumes "distinct (map rkey rs)" "distinct (map skey ss)"
  shows "matching rkey (\<lambda>s. Some (skey s)) (\<lambda>s r. True) rs ss
     (matchByKey (mbuild rkey (\<lambda>r. r) rs []) (mbuild skey (\<lambda>s. s) ss []))"
proof -
  define rm where "rm = mbuild rkey (\<lambda>r. r) rs []"
  define sm where "sm = mbuild skey (\<lambda>s. s) ss []"
  have rm: "mget rm k = Some r \<longleftrightarrow> r \<in> set rs \<and> rkey r = k" for k r
    unfolding rm_def by (rule mget_mbuild_iff [OF assms(1)])
  have sm: "mget sm k = Some s \<longleftrightarrow> s \<in> set ss \<and> skey s = k" for k s
    unfolding sm_def by (rule mget_mbuild_iff [OF assms(2)])
  have keys: "fst ` set rm = rkey ` set rs" "fst ` set sm = skey ` set ss"
    by (simp_all add: rm_def sm_def)
  let ?m = "matchPairs rm sm (keys_inter rm sm)"
  let ?ur = "mlookups rm (keys_diff rm sm)" and ?us = "mlookups sm (keys_diff sm rm)"
  have setm: "set ?m = {(r, s). r \<in> set rs \<and> s \<in> set ss \<and> skey s = rkey r}"
    by (auto simp: set_matchPairs rm sm keys) (metis IntI imageI)
  have ur: "set ?ur = {r \<in> set rs. rkey r \<notin> skey ` set ss}"
    by (auto simp: set_mlookups rm keys)
  have us: "set ?us = {s \<in> set ss. skey s \<notin> rkey ` set rs}"
    by (auto simp: set_mlookups sm keys)
  have "\<forall>k \<in> set (keys_inter rm sm). mget rm k \<noteq> None"
    by (auto simp: keys rm)
  then have "map snd ?m @ ?us = mlookups sm (keys_inter rm sm @ keys_diff sm rm)"
    by (simp add: matchPairs_snd mlookups_def List.map_filter_def)
  moreover have "mset (mlookups sm (keys_inter rm sm @ keys_diff sm rm)) = mset ss"
    unfolding sm_def using keys
    by (intro mset_mlookups_all [OF assms(2)]) (auto simp flip: sm_def)
  ultimately have M: "mset (map snd ?m) + mset ?us = mset ss" by (metis mset_append)
  have d: "distinct ?ur" by (rule mlookups_distinct) (simp_all add: rm)
  have fstm: "fst ` set ?m = {r \<in> set rs. rkey r \<in> skey ` set ss}"
    by (force simp: setm)
  have ur': "set ?ur = set rs - fst ` set ?m" unfolding fstm ur by auto
  have "matching rkey (\<lambda>s. Some (skey s)) (\<lambda>s r. True) rs ss (?m, ?ur, ?us)"
  proof (rule matchingI [OF _ M d ur'])
    fix r s assume "(r, s) \<in> set ?m"
    then show "r \<in> set rs \<and> Some (skey s) = Some (rkey r) \<and> True" unfolding setm by simp
  next
    fix r s assume "r \<in> set ?ur" "s \<in> set ss" "Some (skey s) = Some (rkey r)"
    then show "\<not> True" unfolding ur by (metis (no_types, lifting) imageI mem_Collect_eq option.inject)
  next
    fix r s assume "s \<in> set ?us" "r \<in> set rs" "Some (skey s) = Some (rkey r)"
    then show "\<not> True \<or> r \<in> fst ` set ?m" unfolding us by auto
  qed
  then show ?thesis by (simp add: matchByKey_def flip: rm_def sm_def)
qed

section \<open>The state and the calls of a synthesizer run\<close>

record ('d, 'st, 'w) synth =
  deferred :: "'d list"
  statuses :: "(string, 'st) gomap"
  cloud :: 'w

text \<open>A resource manager: the interface through which a synthesizer changes the cloud.\<close>

record ('r, 's, 'st, 'w) resource_manager =
  mCreate :: "'r \<Rightarrow> ('w, 'st) io"
  mUpdate :: "'r \<Rightarrow> 's \<Rightarrow> ('w, 'st) io"
  mDelete :: "'s \<Rightarrow> ('w, unit) io"

definition onCloud :: "('w, 'a) io \<Rightarrow> (('d, 'st, 'w) synth, 'a) io" where
  "onCloud f \<sigma> = (let (r, w) = f (cloud \<sigma>) in (r, \<sigma>\<lparr>cloud := w\<rparr>))"

text \<open>\<open>res.SetStatus(status)\<close>\<close>

definition setStatus :: "string \<Rightarrow> 'st \<Rightarrow> (('d, 'st, 'w) synth, unit) io" where
  "setStatus rid st \<sigma> = (Inr (), \<sigma>\<lparr>statuses := mput rid st (statuses \<sigma>)\<rparr>)"

definition createRes :: "('r, 's, 'st, 'w) resource_manager \<Rightarrow> ('r \<Rightarrow> string) \<Rightarrow> 'r \<Rightarrow>
    (('d, 'st, 'w) synth, unit) io" where
  "createRes mgr rid r = io_bind (onCloud (mCreate mgr r)) (setStatus (rid r))"

definition updateRes :: "('r, 's, 'st, 'w) resource_manager \<Rightarrow> ('r \<Rightarrow> string) \<Rightarrow> 'r \<times> 's \<Rightarrow>
    (('d, 'st, 'w) synth, unit) io" where
  "updateRes mgr rid = (\<lambda>(r, s). io_bind (onCloud (mUpdate mgr r s)) (setStatus (rid r)))"

text \<open>
  The plan of a run: the calls it makes on its manager, in order. Running a plan stops at the
  first call that fails.
\<close>

datatype ('r, 's) call = CallCreate 'r | CallUpdate 'r 's | CallDelete 's

fun doCall :: "('r, 's, 'st, 'w) resource_manager \<Rightarrow> ('r \<Rightarrow> string) \<Rightarrow> ('r, 's) call \<Rightarrow>
    (('d, 'st, 'w) synth, unit) io" where
  "doCall mgr rid (CallCreate r) \<sigma> = createRes mgr rid r \<sigma>"
| "doCall mgr rid (CallUpdate r s) \<sigma> = updateRes mgr rid (r, s) \<sigma>"
| "doCall mgr rid (CallDelete s) \<sigma> = onCloud (mDelete mgr s) \<sigma>"

definition runPlan :: "('r, 's, 'st, 'w) resource_manager \<Rightarrow> ('r \<Rightarrow> string) \<Rightarrow> ('r, 's) call list \<Rightarrow>
    (('d, 'st, 'w) synth, unit) io" where
  "runPlan mgr rid calls = io_iter (doCall mgr rid) calls"

lemma runPlan_append:
  "runPlan mgr rid (xs @ ys) \<sigma> = io_bind (runPlan mgr rid xs) (\<lambda>_. runPlan mgr rid ys) \<sigma>"
  by (simp add: runPlan_def io_iter_append)

lemma runPlan_creates: "io_iter (createRes mgr rid) rs \<sigma> = runPlan mgr rid (map CallCreate rs) \<sigma>"
  and runPlan_updates: "io_iter (updateRes mgr rid) m \<sigma> = runPlan mgr rid (map (\<lambda>(r, s). CallUpdate r s) m) \<sigma>"
  and runPlan_deletes: "io_iter (\<lambda>s. onCloud (mDelete mgr s)) ss \<sigma> = runPlan mgr rid (map CallDelete ss) \<sigma>"
  unfolding runPlan_def io_iter_map by (rule io_iter_cong; auto)+

lemma onCloud_deferred: "onCloud f \<sigma> = (r, \<sigma>') \<Longrightarrow> deferred \<sigma>' = deferred \<sigma>"
  by (auto simp: onCloud_def Let_def split: prod.splits)

lemma doCall_deferred: "doCall mgr rid c \<sigma> = (r, \<sigma>') \<Longrightarrow> deferred \<sigma>' = deferred \<sigma>"
  by (cases c) (auto simp: createRes_def updateRes_def io_bind_def setStatus_def
      split: prod.splits sum.splits dest: onCloud_deferred)

lemma runPlan_deferred: "runPlan mgr rid cs \<sigma> = (r, \<sigma>') \<Longrightarrow> deferred \<sigma>' = deferred \<sigma>"
  unfolding runPlan_def
  by (induction cs arbitrary: \<sigma>) (auto split: prod.splits sum.splits dest: doCall_deferred)

text \<open>The common tail of a run: creations, then updates, then possibly deletions.\<close>

lemma runPlan_create_update:
  "io_bind (io_iter (createRes mgr rid) rs) (\<lambda>_. io_iter (updateRes mgr rid) m) \<sigma>
   = runPlan mgr rid (map CallCreate rs @ map (\<lambda>(r, s). CallUpdate r s) m) \<sigma>"
  unfolding runPlan_append by (simp add: io_bind_def runPlan_creates runPlan_updates split: prod.splits sum.splits)

text \<open>Matching by a resource-ID tag, as the target group, load balancer and security group synthesizers do.\<close>

lemma matchByTag_matching:
  assumes "distinct (map rid rs)" "\<forall>s \<in> set ss. mget (tags s) tagKey \<noteq> None"
  shows "\<exists>p. res_bind (groupByTag tags err tagKey ss []) (\<lambda>sm. Inr (matchByID replace (mbuild rid (\<lambda>r. r) rs []) sm)) = Inr p
     \<and> matching rid (\<lambda>s. mget (tags s) tagKey) (\<lambda>s r. \<not> replace s r) rs ss p"
proof -
  let ?sid = "\<lambda>s. the (mget (tags s) tagKey)"
  obtain m ur us where p: "matchByID replace (mbuild rid (\<lambda>r. r) rs []) (mgroup ?sid ss []) = (m, ur, us)"
    by (metis prod_cases3)
  have "matching rid (\<lambda>s. Some (?sid s)) (\<lambda>s r. \<not> replace s r) rs ss (m, ur, us)"
    using matchByID_matching [OF assms(1), of ?sid replace ss] p by simp
  then have "matching rid (\<lambda>s. mget (tags s) tagKey) (\<lambda>s r. \<not> replace s r) rs ss (m, ur, us)"
    by (rule matching_key) (use assms(2) in auto)
  then show ?thesis using p groupByTag_ok [OF assms(2), of err "[]"] by simp
qed

end
