(* ===== verification/Tracking.thy ===== *)
theory Tracking
  imports Stack Algorithm
begin

text \<open>
  \<^verbatim>\<open>pkg/config/feature_gates.go\<close>: the feature gates and their flag syntax, and
  \<^verbatim>\<open>pkg/deploy/tracking\<close>: the tags by which the controller recognises the cloud objects of a
  stack (\<^verbatim>\<open>provider.go\<close>) and the filters it searches them with (\<^verbatim>\<open>tag_filter.go\<close>).
\<close>

section \<open>Feature gates\<close>

record FeatureStatus =
  StatusEnabled :: bool
  IsDefaulted :: bool

record defaultFeatureGates =
  featureState :: "(string, FeatureStatus) gomap"

definition generateDefaultFeatureStatus :: "bool \<Rightarrow> FeatureStatus" where
  "generateDefaultFeatureStatus b = \<lparr>StatusEnabled = b, IsDefaulted = True\<rparr>"

definition generateSetFeatureStatus :: "bool \<Rightarrow> FeatureStatus" where
  "generateSetFeatureStatus b = \<lparr>StatusEnabled = b, IsDefaulted = False\<rparr>"

definition NewFeatureGates :: defaultFeatureGates where
  "NewFeatureGates = \<lparr>featureState =
     [(''ListenerRulesTagging'', generateDefaultFeatureStatus True),
      (''WeightedTargetGroups'', generateDefaultFeatureStatus True),
      (''ServiceTypeLoadBalancerOnly'', generateDefaultFeatureStatus False),
      (''EndpointsFailOpen'', generateDefaultFeatureStatus True),
      (''EnableServiceController'', generateDefaultFeatureStatus True),
      (''EnableIPTargetType'', generateDefaultFeatureStatus True),
      (''EnableRGTAPI'', generateDefaultFeatureStatus False),
      (''SubnetsClusterTagCheck'', generateDefaultFeatureStatus True),
      (''NLBHealthCheckAdvancedConfig'', generateDefaultFeatureStatus True),
      (''NLBSecurityGroup'', generateDefaultFeatureStatus True),
      (''ALBSingleSubnet'', generateDefaultFeatureStatus False),
      (''SubnetDiscoveryByReachability'', generateDefaultFeatureStatus True),
      (''LBCapacityReservation'', generateDefaultFeatureStatus True),
      (''NLBGatewayAPI'', generateDefaultFeatureStatus True),
      (''ALBGatewayAPI'', generateDefaultFeatureStatus True),
      (''GlobalAcceleratorController'', generateDefaultFeatureStatus False),
      (''EnableTCPUDPListener'', generateDefaultFeatureStatus False),
      (''EnhancedDefaultBehavior'', generateDefaultFeatureStatus False),
      (''EnableDefaultTagsLowPriority'', generateDefaultFeatureStatus False),
      (''ALBTargetControlAgent'', generateDefaultFeatureStatus False),
      (''GatewayListenerSet'', generateDefaultFeatureStatus True),
      (''EnableCertificateManagement'', generateDefaultFeatureStatus False),
      (''IngressPlanAnnotation'', generateDefaultFeatureStatus False)]\<rparr>"

definition GetFeatureStatus :: "defaultFeatureGates \<Rightarrow> string \<Rightarrow> FeatureStatus" where
  "GetFeatureStatus f feature = mget0 \<lparr>StatusEnabled = False, IsDefaulted = False\<rparr> (featureState f) feature"

definition Enabled :: "defaultFeatureGates \<Rightarrow> string \<Rightarrow> bool" where
  "Enabled f feature = StatusEnabled (GetFeatureStatus f feature)"

definition Enable :: "string \<Rightarrow> defaultFeatureGates \<Rightarrow> defaultFeatureGates" where
  "Enable feature f = f\<lparr>featureState := mput feature (generateSetFeatureStatus True) (featureState f)\<rparr>"

definition Disable :: "string \<Rightarrow> defaultFeatureGates \<Rightarrow> defaultFeatureGates" where
  "Disable feature f = f\<lparr>featureState := mput feature (generateSetFeatureStatus False) (featureState f)\<rparr>"

text \<open>\<open>fmt.Sprintf("%v=%v", feature, enabled)\<close>\<close>

definition showSetting :: "string \<times> FeatureStatus \<Rightarrow> string" where
  "showSetting = (\<lambda>(feature, st). feature @ ''='' @ (if StatusEnabled st then ''true'' else ''false''))"

definition FeatureGates_String :: "defaultFeatureGates \<Rightarrow> string" where
  "FeatureGates_String f = join_on CHR '','' (sort (map showSetting (featureState f)))"

text \<open>\<open>strings.SplitN(s, sep, 2)\<close>, \<open>strings.TrimSpace\<close> (the ASCII white space) and \<open>strconv.ParseBool\<close>\<close>

definition splitN2 :: "char \<Rightarrow> string \<Rightarrow> string list" where
  "splitN2 c s =
     (if c \<in> set s then [takeWhile (\<lambda>x. x \<noteq> c) s, tl (dropWhile (\<lambda>x. x \<noteq> c) s)] else [s])"

definition isSpace :: "char \<Rightarrow> bool" where
  "isSpace c = (c = CHR 0x20 \<or> c = CHR 0x09 \<or> c = CHR 0x0A \<or> c = CHR 0x0B \<or> c = CHR 0x0C \<or> c = CHR 0x0D)"

definition TrimSpace :: "string \<Rightarrow> string" where
  "TrimSpace s = rev (dropWhile isSpace (rev (dropWhile isSpace s)))"

definition ParseBool :: "string \<Rightarrow> bool option" where
  "ParseBool s =
     (if s \<in> {''1'', ''t'', ''T'', ''TRUE'', ''true'', ''True''} then Some True
      else if s \<in> {''0'', ''f'', ''F'', ''FALSE'', ''false'', ''False''} then Some False
      else None)"

fun splitSettings :: "string list \<Rightarrow> (string, bool) gomap \<Rightarrow> (string, bool) gomap res" where
  "splitSettings [] result = Inr result"
| "splitSettings (s # ss) result =
     (if length s = 0 then splitSettings ss result
      else (case splitN2 CHR ''='' s of
              [p0, p1] \<Rightarrow>
                (case ParseBool (TrimSpace p1) of
                   None \<Rightarrow> Inl (Errorf ''invalid mapStringBool: %v'' [s])
                 | Some v \<Rightarrow> splitSettings ss (mput (TrimSpace p0) v result))
            | _ \<Rightarrow> Inl (Errorf ''invalid mapStringBool: %v'' [s])))"

definition SplitMapStringBool :: "string \<Rightarrow> (string, bool) gomap res" where
  "SplitMapStringBool str = splitSettings (split_on CHR '','' str) []"

text \<open>
  \<open>Set\<close>: the settings are applied in the order in which the parsed map is ranged over; an unknown
  feature ends the loop and leaves the settings applied so far.
\<close>

fun applySettings :: "(string \<times> bool) list \<Rightarrow> (defaultFeatureGates, unit) io" where
  "applySettings [] f = (Inr (), f)"
| "applySettings ((k, v) # kvs) f =
     (if \<not> mhas (featureState f) k then (Inl (Errorf ''unknown feature: %v'' [k]), f)
      else applySettings kvs (f\<lparr>featureState := mput k (generateSetFeatureStatus v) (featureState f)\<rparr>))"

definition FeatureGates_Set :: "((string \<times> bool) list \<Rightarrow> (string \<times> bool) list) \<Rightarrow> string \<Rightarrow>
    (defaultFeatureGates, unit) io" where
  "FeatureGates_Set ord value f =
     (case SplitMapStringBool value of
        Inl e \<Rightarrow> (Inl (Wrapped ''failed to parse feature-gates settings due to %v'' e), f)
      | Inr settings \<Rightarrow> applySettings (ord settings) f)"

section \<open>The flag syntax round trip\<close>

text \<open>Feature names that the flag syntax can carry: no separator and no white space.\<close>

definition cleanName :: "string \<Rightarrow> bool" where
  "cleanName s \<longleftrightarrow> s \<noteq> [] \<and> (\<forall>c \<in> set s. c \<noteq> CHR ''='' \<and> c \<noteq> CHR '','' \<and> \<not> isSpace c)"

lemma TrimSpace_id: "\<forall>c \<in> set s. \<not> isSpace c \<Longrightarrow> TrimSpace s = s"
  by (simp add: TrimSpace_def dropWhile_eq_self_iff)
    (metis dropWhile_eq_self_iff hd_in_set list.set_sel(1) rev_rev_ident set_rev)

lemma showSetting_parse:
  assumes "cleanName k"
  shows "splitN2 CHR ''='' (showSetting (k, st)) = [k, if StatusEnabled st then ''true'' else ''false'']"
    and "TrimSpace k = k" "CHR '','' \<notin> set (showSetting (k, st))" "showSetting (k, st) \<noteq> []"
proof -
  have nk: "CHR ''='' \<notin> set k" using assms by (auto simp: cleanName_def)
  then have 1: "takeWhile (\<lambda>x. x \<noteq> CHR ''='') (k @ CHR ''='' # v) = k"
    and 2: "dropWhile (\<lambda>x. x \<noteq> CHR ''='') (k @ CHR ''='' # v) = CHR ''='' # v" for v
    by (induction k) auto
  show "splitN2 CHR ''='' (showSetting (k, st)) = [k, if StatusEnabled st then ''true'' else ''false'']"
    by (simp add: splitN2_def showSetting_def 1 2)
  show "TrimSpace k = k" using assms by (intro TrimSpace_id) (auto simp: cleanName_def)
  show "CHR '','' \<notin> set (showSetting (k, st))" "showSetting (k, st) \<noteq> []"
    using assms by (auto simp: showSetting_def cleanName_def)
qed

lemma ParseBool_show: "ParseBool (TrimSpace (if b then ''true'' else ''false'')) = Some b"
  by (cases b) (simp_all add: ParseBool_def TrimSpace_def isSpace_def)

lemma splitSettings_show:
  assumes "\<forall>(k, st) \<in> set kvs. cleanName k"
  shows "splitSettings (map showSetting kvs) r = Inr (mbuild fst (StatusEnabled \<circ> snd) kvs r)"
  using assms
  by (induction kvs arbitrary: r) (auto simp: showSetting_parse ParseBool_show split: list.splits)

lemma applySettings_spec:
  assumes "fst ` set kvs \<subseteq> fst ` set (featureState f)"
  shows "\<exists>f'. applySettings kvs f = (Inr (), f') \<and> fst ` set (featureState f') = fst ` set (featureState f)
     \<and> (wf_map kvs \<longrightarrow> (\<forall>k. Enabled f' k = (case mget kvs k of Some v \<Rightarrow> v | None \<Rightarrow> Enabled f k)))"
  using assms
proof (induction kvs f rule: applySettings.induct)
  case (2 k v kvs f)
  let ?f = "f\<lparr>featureState := mput k (generateSetFeatureStatus v) (featureState f)\<rparr>"
  have has: "mhas (featureState f) k" using 2(2) by (simp add: mhas_iff)
  have keys: "fst ` set (featureState ?f) = fst ` set (featureState f)" using 2(2) by auto
  then obtain f' where f': "applySettings kvs ?f = (Inr (), f')"
      "fst ` set (featureState f') = fst ` set (featureState f)"
      "wf_map kvs \<longrightarrow> (\<forall>k. Enabled f' k = (case mget kvs k of Some v \<Rightarrow> v | None \<Rightarrow> Enabled ?f k))"
    using 2(1) has 2(2) by auto
  have "Enabled ?f j = (if j = k then v else Enabled f j)" for j
    by (simp add: Enabled_def GetFeatureStatus_def generateSetFeatureStatus_def)
  moreover have "mget kvs k = None" if "wf_map ((k, v) # kvs)"
    using that by (simp add: map_of_eq_None_iff)
  ultimately show ?case using f' has by (auto split: option.splits)
qed simp

lemma sort_showSetting: "sort (map showSetting m) = map showSetting (sort_key showSetting m)"
  by (rule properties_for_sort) simp_all

text \<open>
  C41. The flag syntax of the feature gates round-trips: parsing the printed gates sets every
  feature to what it was when printed, on any gates with the same features, whatever the order in
  which the parsed map is ranged over.
\<close>

theorem feature_gates_roundtrip:
  assumes "wf_map (featureState f)" "\<forall>k \<in> fst ` set (featureState f). cleanName k"
    and "fst ` set (featureState g) = fst ` set (featureState f)" "go_order ord" "featureState f \<noteq> []"
  shows "\<exists>g'. FeatureGates_Set ord (FeatureGates_String f) g = (Inr (), g')
     \<and> (\<forall>feature. Enabled g' feature = Enabled f feature)"
proof -
  define m where "m = sort_key showSetting (featureState f)"
  have m: "mset m = mset (featureState f)" by (simp add: m_def)
  then have setm: "set m = set (featureState f)" by (rule mset_eq_setD)
  note wfm = wf_map_perm [OF m [symmetric] assms(1)]
  have clean: "\<forall>(k, st) \<in> set m. cleanName k" using assms(2) setm by force
  have "m \<noteq> []" using m assms(5) by auto
  moreover have "\<forall>w \<in> set (map showSetting m). CHR '','' \<notin> set w"
    using clean by (auto simp: showSetting_parse(3))
  ultimately have "split_on CHR '','' (FeatureGates_String f) = map showSetting m"
    unfolding FeatureGates_String_def sort_showSetting m_def [symmetric] by (intro split_join) simp_all
  then have parse: "SplitMapStringBool (FeatureGates_String f) = Inr (mbuild fst (StatusEnabled \<circ> snd) m [])"
    using clean by (simp add: SplitMapStringBool_def splitSettings_show)
  define s where "s = mbuild fst (StatusEnabled \<circ> snd) m []"
  have s: "mset s = mset (ord s)" "wf_map s" using assms(4) by (simp_all add: go_order_def s_def)
  note os = wf_map_perm [OF s]
  have "fst ` set (ord s) = fst ` set (featureState g)"
    using assms(3,4) setm by (simp add: s_def)
  then obtain g' where g': "applySettings (ord s) g = (Inr (), g')"
      "\<forall>k. Enabled g' k = (case mget s k of Some v \<Rightarrow> v | None \<Rightarrow> Enabled g k)"
    using applySettings_spec [of "ord s" g] os by auto
  have "Enabled g' k = Enabled f k" for k
  proof (cases "mget (featureState f) k")
    case None
    then have "k \<notin> fst ` set m" by (simp add: map_of_eq_None_iff setm)
    then have "k \<notin> fst ` set s" by (simp add: s_def)
    then have "mget s k = None" by (simp only: map_of_eq_None_iff not_False_eq_True)
    moreover have "mget (featureState g) k = None" using None assms(3) by (simp add: map_of_eq_None_iff)
    ultimately show ?thesis using g'(2) None by (simp add: Enabled_def GetFeatureStatus_def mget0_def)
  next
    case (Some st)
    then have "(k, st) \<in> set m" by (simp add: map_of_SomeD setm)
    then have "mget s k = Some (StatusEnabled st)"
      unfolding s_def using mget_mbuild_distinct [OF wfm(1), of "(k, st)" "StatusEnabled \<circ> snd" "[]"] by simp
    then show ?thesis using g'(2) Some by (simp add: Enabled_def GetFeatureStatus_def mget0_def)
  qed
  then show ?thesis using g'(1) parse by (auto simp: FeatureGates_Set_def s_def)
qed

theorem feature_gates_roundtrip_witness:
  "\<exists>g'. FeatureGates_Set rev (FeatureGates_String (Disable ''NLBGatewayAPI'' (Enable ''EnableRGTAPI'' NewFeatureGates)))
      NewFeatureGates = (Inr (), g')
     \<and> (\<forall>feature. Enabled g' feature
          = Enabled (Disable ''NLBGatewayAPI'' (Enable ''EnableRGTAPI'' NewFeatureGates)) feature)"
  by (rule feature_gates_roundtrip)
    (simp_all add: NewFeatureGates_def Enable_def Disable_def cleanName_def isSpace_def)

section \<open>Tag filters\<close>

type_synonym TagFilter = "(string, string list) gomap"

fun Matches :: "TagFilter \<Rightarrow> string_map \<Rightarrow> bool" where
  "Matches [] tags = True"
| "Matches ((key, desiredValues) # f) tags =
     (case mget tags key of
        None \<Rightarrow> False
      | Some actualValue \<Rightarrow>
          if length desiredValues = 0 then Matches f tags
          else if \<not> list_ex (\<lambda>desiredValue. desiredValue = actualValue) desiredValues then False
          else Matches f tags)"

definition TagsAsTagFilter :: "string_map \<Rightarrow> TagFilter" where
  "TagsAsTagFilter tags = map (\<lambda>(key, value). (key, [value])) tags"

section \<open>The tracking provider\<close>

definition TagKeyK8sCluster :: string where
  "TagKeyK8sCluster = ''elbv2.k8s.aws/cluster''"

definition clusterNameTagKeyLegacy :: string where
  "clusterNameTagKeyLegacy = ''ingress.k8s.aws/cluster''"

definition clusterRegionTagKey :: string where
  "clusterRegionTagKey = ''elbv2.k8s.aws/cluster-region''"

record defaultProvider =
  tagPrefix :: string
  clusterName :: string
  region :: "string option"

definition NewDefaultProvider :: "string \<Rightarrow> string \<Rightarrow> (defaultProvider \<Rightarrow> defaultProvider) list \<Rightarrow> defaultProvider" where
  "NewDefaultProvider tprefix cname opts =
     foldl (\<lambda>p opt. opt p) \<lparr>tagPrefix = tprefix, clusterName = cname, region = None\<rparr> opts"

definition WithRegion :: "string \<Rightarrow> defaultProvider \<Rightarrow> defaultProvider" where
  "WithRegion r p = p\<lparr>region := Some r\<rparr>"

definition prefixedTrackingKey :: "defaultProvider \<Rightarrow> string \<Rightarrow> string" where
  "prefixedTrackingKey p tag = tagPrefix p @ ''/'' @ tag"

definition ResourceIDTagKey :: "defaultProvider \<Rightarrow> string" where
  "ResourceIDTagKey p = prefixedTrackingKey p ''resource''"

definition StackTags :: "defaultProvider \<Rightarrow> StackID \<Rightarrow> string_map" where
  "StackTags p sid =
     (let tags = mput (prefixedTrackingKey p ''stack'') (StackID_String sid)
                   (mput TagKeyK8sCluster (clusterName p) [])
      in (case region p of
            Some r \<Rightarrow> if r \<noteq> '''' then mput clusterRegionTagKey r tags else tags
          | None \<Rightarrow> tags))"

definition ResourceTags :: "defaultProvider \<Rightarrow> StackID \<Rightarrow> string \<Rightarrow> string_map \<Rightarrow> string_map" where
  "ResourceTags p sid resID additionalTags =
     MergeStringMap [StackTags p sid, [(ResourceIDTagKey p, resID)], additionalTags]"

definition StackLabels :: "defaultProvider \<Rightarrow> StackID \<Rightarrow> string_map" where
  "StackLabels p sid =
     (if Namespace sid = '''' then [(prefixedTrackingKey p ''stack'', Name sid)]
      else mput (prefixedTrackingKey p ''stack-name'') (Name sid)
             [(prefixedTrackingKey p ''stack-namespace'', Namespace sid)])"

definition StackTagsLegacy :: "defaultProvider \<Rightarrow> StackID \<Rightarrow> string_map" where
  "StackTagsLegacy p sid =
     mput (prefixedTrackingKey p ''stack'') (StackID_String sid) [(clusterNameTagKeyLegacy, clusterName p)]"

definition LegacyTagKeys :: "defaultProvider \<Rightarrow> string list" where
  "LegacyTagKeys p =
     [''kubernetes.io/cluster/'' @ clusterName p,
      ''kubernetes.io/cluster-name'',
      ''kubernetes.io/namespace'',
      ''kubernetes.io/ingress-name'',
      ''kubernetes.io/service-name'',
      ''kubernetes.io/service-port'',
      clusterNameTagKeyLegacy]"

lemma Matches_iff:
  "Matches f tags \<longleftrightarrow> (\<forall>(key, vs) \<in> set f. \<exists>v. mget tags key = Some v \<and> (vs = [] \<or> v \<in> set vs))"
  by (induction f tags rule: Matches.induct) (auto simp: list_ex_iff split: option.splits)

lemma Matches_TagsAsTagFilter:
  "Matches (TagsAsTagFilter t) tags \<longleftrightarrow> (\<forall>(k, v) \<in> set t. mget tags k = Some v)"
  by (auto simp: Matches_iff TagsAsTagFilter_def)

lemma tracking_keys_ne [simp]:
  "prefixedTrackingKey p ''stack'' \<noteq> TagKeyK8sCluster" "prefixedTrackingKey p ''stack'' \<noteq> clusterRegionTagKey"
  "ResourceIDTagKey p \<noteq> TagKeyK8sCluster" "ResourceIDTagKey p \<noteq> clusterRegionTagKey"
  "ResourceIDTagKey p \<noteq> prefixedTrackingKey p ''stack''" "TagKeyK8sCluster \<noteq> clusterRegionTagKey"
proof -
  have ne: "last (xs @ ys) \<noteq> last zs \<Longrightarrow> xs @ ys \<noteq> zs" for xs ys zs :: string by auto
  show "prefixedTrackingKey p ''stack'' \<noteq> TagKeyK8sCluster" "prefixedTrackingKey p ''stack'' \<noteq> clusterRegionTagKey"
    "ResourceIDTagKey p \<noteq> TagKeyK8sCluster" "ResourceIDTagKey p \<noteq> clusterRegionTagKey"
    unfolding prefixedTrackingKey_def ResourceIDTagKey_def
    by (rule ne, simp add: TagKeyK8sCluster_def clusterRegionTagKey_def)+
  show "ResourceIDTagKey p \<noteq> prefixedTrackingKey p ''stack''" "TagKeyK8sCluster \<noteq> clusterRegionTagKey"
    by (simp_all add: prefixedTrackingKey_def ResourceIDTagKey_def TagKeyK8sCluster_def clusterRegionTagKey_def)
qed

lemmas tracking_keys_ne_sym [simp] = tracking_keys_ne [THEN not_sym]

lemma wf_StackTags [simp]: "wf_map (StackTags p sid)"
  unfolding StackTags_def Let_def
  by (auto split: option.splits intro!: AList.distinct_update)

lemma mget_StackTags:
  "mget (StackTags p sid) (prefixedTrackingKey p ''stack'') = Some (StackID_String sid)"
  "mget (StackTags p sid) TagKeyK8sCluster = Some (clusterName p)"
  "mget (StackTags p sid) (ResourceIDTagKey p) = None"
  by (auto simp: StackTags_def Let_def split: option.splits)

lemma StackID_String_inj:
  assumes "CHR ''/'' \<notin> set (Namespace a)" "CHR ''/'' \<notin> set (Name a)"
    and "CHR ''/'' \<notin> set (Namespace b)" "CHR ''/'' \<notin> set (Name b)"
    and "StackID_String a = StackID_String b"
  shows "(a :: StackID) = b"
proof -
  have split: "split_on CHR ''/'' (StackID_String c) =
      (if Namespace c = '''' then [Name c] else [Namespace c, Name c])"
    if "CHR ''/'' \<notin> set (Namespace c)" "CHR ''/'' \<notin> set (Name c)" for c :: StackID
    using that by (simp add: StackID_String_def split_on_append_sep split_on_plain)
  have "Namespace a = Namespace b \<and> Name a = Name b"
    using split [of a] split [of b] assms by (auto split: if_splits)
  then show ?thesis by simp
qed

text \<open>
  C27. Tracking isolates the stacks: the objects found with the tag filter of a stack are exactly
  those tagged for that stack, whatever user tags were merged in (the tracking tags take
  precedence over them). Kubernetes names contain no slash.
\<close>

theorem tracking_isolates:
  assumes "CHR ''/'' \<notin> set (Namespace a)" "CHR ''/'' \<notin> set (Name a)"
    and "CHR ''/'' \<notin> set (Namespace b)" "CHR ''/'' \<notin> set (Name b)"
    and "wf_map userTags"
  shows "(Matches (TagsAsTagFilter (StackTags p a)) (ResourceTags p b resID userTags) \<longleftrightarrow> (a :: StackID) = b)
    \<and> mget (ResourceTags p b resID userTags) (ResourceIDTagKey p) = Some resID"
proof -
  have tags: "mget (ResourceTags p b resID userTags) k =
      MapFindFirst k [StackTags p b, [(ResourceIDTagKey p, resID)], userTags]" for k
    unfolding ResourceTags_def using assms(5) by (intro map_of_MergeStringMap) simp
  have "mget (ResourceTags p b resID userTags) (ResourceIDTagKey p) = Some resID"
    by (simp add: tags mget_StackTags)
  moreover have "Matches (TagsAsTagFilter (StackTags p a)) (ResourceTags p b resID userTags) \<longleftrightarrow> a = b" (is "?M \<longleftrightarrow> _")
  proof
    assume ?M
    moreover have "(prefixedTrackingKey p ''stack'', StackID_String a) \<in> set (StackTags p a)"
      by (rule map_of_SomeD) (rule mget_StackTags)
    ultimately have "mget (ResourceTags p b resID userTags) (prefixedTrackingKey p ''stack'') = Some (StackID_String a)"
      unfolding Matches_TagsAsTagFilter by blast
    then have "StackID_String b = StackID_String a" by (simp add: tags mget_StackTags)
    then show "a = b" using StackID_String_inj [OF assms(1-4)] by simp
  next
    assume "a = b"
    then show ?M unfolding Matches_TagsAsTagFilter
      by (auto simp: tags map_of_is_SomeI)
  qed
  ultimately show ?thesis by simp
qed

theorem tracking_isolates_witness:
  "Matches (TagsAsTagFilter (StackTags (NewDefaultProvider ''ingress.k8s.aws'' ''c1'' []) \<lparr>Namespace = ''ns'', Name = ''a''\<rparr>))
     (ResourceTags (NewDefaultProvider ''ingress.k8s.aws'' ''c1'' []) \<lparr>Namespace = ''ns'', Name = ''b''\<rparr> ''LoadBalancer''
        [(''ingress.k8s.aws/stack'', ''ns/a'')])
   \<longleftrightarrow> \<lparr>Namespace = ''ns'', Name = ''a''\<rparr> = \<lparr>Namespace = ''ns'', Name = ''b'' \<rparr>"
  by (rule tracking_isolates [THEN conjunct1]) simp_all

end
