(* ===== verification/Tagging.thy ===== *)
theory Tagging
  imports Tracking
begin

text \<open>
  \<^verbatim>\<open>pkg/deploy/elbv2/tagging_manager.go\<close>: reconciling the tags of a load balancer object, listing
  the objects of the VPC with their tags, and the cache of the tags in between.

  The ELBV2 API and the clock are parameters (\<open>elbv2_tagging\<close>, over a cloud state \<open>'w\<close>);
  \<open>tags_api_ok\<close> states what the documentation of AddTags, RemoveTags and DescribeTags promises. The
  state of the manager is its cache and the cloud. The expiring cache keeps each entry with the
  instant from which it is no longer returned; removing expired entries from memory has no effect
  on what it returns and is left out.
\<close>

section \<open>AWS values\<close>

text \<open>\<open>awssdk.ToString\<close> and reading a Go map that may be nil\<close>

definition ToString :: "string option \<Rightarrow> string" where
  "ToString p = (case p of None \<Rightarrow> '''' | Some s \<Rightarrow> s)"

definition mapOf :: "('k, 'v) gomap option \<Rightarrow> ('k, 'v) gomap" where
  "mapOf m = (case m of None \<Rightarrow> [] | Some kvs \<Rightarrow> kvs)"

lemma ToString_simps [simp]: "ToString None = ''''" "ToString (Some s) = s"
  and mapOf_simps [simp]: "mapOf None = []" "mapOf (Some m) = m"
  by (simp_all add: ToString_def mapOf_def)

record SDKTag =
  TagKey :: "string option"
  TagValue :: "string option"

record TagDescription =
  TagResourceArn :: "string option"
  DescTags :: "SDKTag list"

text \<open>An object the API describes, with the two fields the manager reads, and with its tags.\<close>

record 'o described =
  descArn :: "string option"
  descVpcId :: "string option"
  descObj :: 'o

record 'o WithTags =
  sdkObj :: "'o described"
  sdkTags :: "string_map option"

record ('lb, 'tg, 'ls, 'lr, 'w) elbv2_tagging =
  AddTags :: "string list \<Rightarrow> SDKTag list \<Rightarrow> ('w, unit) io"
  RemoveTags :: "string list \<Rightarrow> string list \<Rightarrow> ('w, unit) io"
  DescribeTags :: "string list \<Rightarrow> ('w, TagDescription list) io"
  DescribeLoadBalancers :: "string list option \<Rightarrow> ('w, 'lb described list) io"
  DescribeTargetGroups :: "string list option \<Rightarrow> ('w, 'tg described list) io"
  DescribeListeners :: "string \<Rightarrow> ('w, 'ls described list) io"
  DescribeRules :: "string \<Rightarrow> ('w, 'lr described list) io"
  GetResources :: "(string \<times> string list) list \<Rightarrow> string \<Rightarrow> ('w, (string option \<times> SDKTag list) list) io"
  Now :: "'w \<Rightarrow> nat"

section \<open>The manager\<close>

record 'w taggingManager =
  resourceTagsCache :: "(string, string_map \<times> nat) gomap"
  tagCloud :: 'w

record taggingConfig =
  tmVpcID :: string
  tmFeatureGates :: defaultFeatureGates
  resourceTagsCacheTTL :: nat

definition defaultDescribeTagsChunkSize :: int where
  "defaultDescribeTagsChunkSize = 20"

definition onTagCloud :: "('w, 'a) io \<Rightarrow> ('w taggingManager, 'a) io" where
  "onTagCloud f \<sigma> = (let (r, w) = f (tagCloud \<sigma>) in (r, \<sigma>\<lparr>tagCloud := w\<rparr>))"

text \<open>The expiring cache\<close>

definition cacheGet :: "('w \<Rightarrow> nat) \<Rightarrow> 'w taggingManager \<Rightarrow> string \<Rightarrow> string_map option" where
  "cacheGet now \<sigma> arn =
     (case mget (resourceTagsCache \<sigma>) arn of
        None \<Rightarrow> None
      | Some (tags, expiry) \<Rightarrow> if now (tagCloud \<sigma>) < expiry then Some tags else None)"

definition cacheSet :: "('w \<Rightarrow> nat) \<Rightarrow> nat \<Rightarrow> string \<Rightarrow> string_map \<Rightarrow> 'w taggingManager \<Rightarrow> 'w taggingManager" where
  "cacheSet now ttl arn tags \<sigma> =
     \<sigma>\<lparr>resourceTagsCache := mput arn (tags, now (tagCloud \<sigma>) + ttl) (resourceTagsCache \<sigma>)\<rparr>"

definition invalidateResourceTagsCache :: "string \<Rightarrow> 'w taggingManager \<Rightarrow> 'w taggingManager" where
  "invalidateResourceTagsCache arn \<sigma> = \<sigma>\<lparr>resourceTagsCache := mdel arn (resourceTagsCache \<sigma>)\<rparr>"

definition convertTagsToSDKTags :: "string_map \<Rightarrow> SDKTag list" where
  "convertTagsToSDKTags tags =
     (if length tags = 0 then []
      else map (\<lambda>key. \<lparr>TagKey = Some key, TagValue = Some (mget0 '''' tags key)\<rparr>) (keyset tags))"

definition convertSDKTagsToTags :: "SDKTag list \<Rightarrow> string_map" where
  "convertSDKTagsToTags sdkTagList =
     mbuild (\<lambda>t. ToString (TagKey t)) (\<lambda>t. ToString (TagValue t)) sdkTagList []"

text \<open>The loops of \<open>describeResourceTagsFromAWS\<close>: over the chunks, and over the descriptions of one.\<close>

fun describeChunks :: "(string list \<Rightarrow> ('w, TagDescription list) io) \<Rightarrow> string list list \<Rightarrow>
    (string, string_map) gomap \<Rightarrow> ('w, (string, string_map) gomap) io" where
  "describeChunks api [] tagsByARN w = (Inr tagsByARN, w)"
| "describeChunks api (arnsChunk # chunks) tagsByARN w =
     (case api arnsChunk w of
        (Inl e, w') \<Rightarrow> (Inl e, w')
      | (Inr resp, w') \<Rightarrow>
          describeChunks api chunks
            (mbuild (\<lambda>d. ToString (TagResourceArn d)) (\<lambda>d. convertSDKTagsToTags (DescTags d)) resp tagsByARN) w')"

text \<open>The chunk size is positive, so the chunking always returns (\<open>chunk_loop_total\<close>).\<close>

definition describeResourceTagsFromAWS :: "('lb, 'tg, 'ls, 'lr, 'w) elbv2_tagging \<Rightarrow> string list \<Rightarrow>
    ('w, (string, string_map) gomap) io" where
  "describeResourceTagsFromAWS api arns =
     (case ChunkStrings arns defaultDescribeTagsChunkSize of
        None \<Rightarrow> io_fail (Errorf ''unreachable'' [])
      | Some arnsChunks \<Rightarrow> describeChunks (DescribeTags api) arnsChunks [])"

fun partitionCached :: "('w \<Rightarrow> nat) \<Rightarrow> 'w taggingManager \<Rightarrow> string list \<Rightarrow> (string, string_map) gomap \<Rightarrow>
    string list \<Rightarrow> (string, string_map) gomap \<times> string list" where
  "partitionCached now \<sigma> [] tagsByARN arnsWithoutTagsCache = (tagsByARN, arnsWithoutTagsCache)"
| "partitionCached now \<sigma> (arn # arns) tagsByARN arnsWithoutTagsCache =
     (case cacheGet now \<sigma> arn of
        Some tags \<Rightarrow> partitionCached now \<sigma> arns (mput arn tags tagsByARN) arnsWithoutTagsCache
      | None \<Rightarrow> partitionCached now \<sigma> arns tagsByARN (arnsWithoutTagsCache @ [arn]))"

fun storeDescribed :: "('w \<Rightarrow> nat) \<Rightarrow> nat \<Rightarrow> (string \<times> string_map) list \<Rightarrow> (string, string_map) gomap \<Rightarrow>
    'w taggingManager \<Rightarrow> (string, string_map) gomap \<times> 'w taggingManager" where
  "storeDescribed now ttl [] tagsByARN \<sigma> = (tagsByARN, \<sigma>)"
| "storeDescribed now ttl ((arn, tags) # kvs) tagsByARN \<sigma> =
     storeDescribed now ttl kvs (mput arn tags tagsByARN) (cacheSet now ttl arn tags \<sigma>)"

definition describeResourceTags :: "('lb, 'tg, 'ls, 'lr, 'w) elbv2_tagging \<Rightarrow> taggingConfig \<Rightarrow> string list \<Rightarrow>
    ('w taggingManager, (string, string_map) gomap) io" where
  "describeResourceTags api cfg arns \<sigma> =
     (let (tagsByARN, arnsWithoutTagsCache) = partitionCached (Now api) \<sigma> arns [] []
      in (case onTagCloud (describeResourceTagsFromAWS api arnsWithoutTagsCache) \<sigma> of
            (Inl e, \<sigma>') \<Rightarrow> (Inl e, \<sigma>')
          | (Inr tagsByARNFromAWS, \<sigma>') \<Rightarrow>
              (let (tagsByARN', \<sigma>'') =
                     storeDescribed (Now api) (resourceTagsCacheTTL cfg) tagsByARNFromAWS tagsByARN \<sigma>'
               in (Inr tagsByARN', \<sigma>''))))"

record ReconcileTagsOptions =
  CurrentTags :: "string_map option"
  IgnoredTagKeys :: "string list"

definition WithCurrentTags :: "string_map option \<Rightarrow> ReconcileTagsOptions \<Rightarrow> ReconcileTagsOptions" where
  "WithCurrentTags tags opts = opts\<lparr>CurrentTags := tags\<rparr>"

definition WithIgnoredTagKeys :: "string list \<Rightarrow> ReconcileTagsOptions \<Rightarrow> ReconcileTagsOptions" where
  "WithIgnoredTagKeys ignoredTagKeys opts = opts\<lparr>IgnoredTagKeys := IgnoredTagKeys opts @ ignoredTagKeys\<rparr>"

definition ApplyOptions :: "(ReconcileTagsOptions \<Rightarrow> ReconcileTagsOptions) list \<Rightarrow> ReconcileTagsOptions \<Rightarrow>
    ReconcileTagsOptions" where
  "ApplyOptions options opts = foldl (\<lambda>acc opt. opt acc) opts options"

definition deleteKeys :: "string list \<Rightarrow> string_map \<Rightarrow> string_map" where
  "deleteKeys ks m = foldl (\<lambda>m k. mdel k m) m ks"

definition addTagsStep :: "('lb, 'tg, 'ls, 'lr, 'w) elbv2_tagging \<Rightarrow> string \<Rightarrow> string_map \<Rightarrow>
    ('w taggingManager, unit) io" where
  "addTagsStep api arn tagsToUpdate \<sigma> =
     (if length tagsToUpdate > 0 then
        (case onTagCloud (AddTags api [arn] (convertTagsToSDKTags tagsToUpdate)) \<sigma> of
           (Inl e, \<sigma>') \<Rightarrow> (Inl e, \<sigma>')
         | (Inr _, \<sigma>') \<Rightarrow> (Inr (), invalidateResourceTagsCache arn \<sigma>'))
      else (Inr (), \<sigma>))"

definition removeTagsStep :: "('lb, 'tg, 'ls, 'lr, 'w) elbv2_tagging \<Rightarrow> string \<Rightarrow> string_map \<Rightarrow>
    ('w taggingManager, unit) io" where
  "removeTagsStep api arn tagsToRemove \<sigma> =
     (if length tagsToRemove > 0 then
        (case onTagCloud (RemoveTags api [arn] (keyset tagsToRemove)) \<sigma> of
           (Inl e, \<sigma>') \<Rightarrow> (Inl e, \<sigma>')
         | (Inr _, \<sigma>') \<Rightarrow> (Inr (), invalidateResourceTagsCache arn \<sigma>'))
      else (Inr (), \<sigma>))"

definition ReconcileTags :: "('lb, 'tg, 'ls, 'lr, 'w) elbv2_tagging \<Rightarrow> taggingConfig \<Rightarrow> string \<Rightarrow> string_map \<Rightarrow>
    (ReconcileTagsOptions \<Rightarrow> ReconcileTagsOptions) list \<Rightarrow> ('w taggingManager, unit) io" where
  "ReconcileTags api cfg arn desiredTags opts =
     (let reconcileOpts = ApplyOptions opts \<lparr>CurrentTags = None, IgnoredTagKeys = []\<rparr>
      in io_bind
           (case CurrentTags reconcileOpts of
              Some tags \<Rightarrow> io_ret tags
            | None \<Rightarrow> io_bind (describeResourceTags api cfg [arn]) (\<lambda>tagsByARN. io_ret (mget0 [] tagsByARN arn)))
           (\<lambda>currentTags.
              let (update, remove) = DiffStringMapIgnoreAWSTags desiredTags currentTags;
                  tagsToUpdate = deleteKeys (IgnoredTagKeys reconcileOpts) update;
                  tagsToRemove = deleteKeys (IgnoredTagKeys reconcileOpts) remove
              in io_bind (addTagsStep api arn tagsToUpdate) (\<lambda>_. removeTagsStep api arn tagsToRemove)))"

section \<open>Listing the objects with their tags\<close>

text \<open>The ARNs of a list of described objects, and the objects by ARN (the last one wins).\<close>

definition arnsOf :: "'o described list \<Rightarrow> string list" where
  "arnsOf objs = map (\<lambda>obj. ToString (descArn obj)) objs"

definition objByARN :: "'o described list \<Rightarrow> (string, 'o described) gomap" where
  "objByARN objs = mbuild (\<lambda>obj. ToString (descArn obj)) (\<lambda>obj. obj) objs []"

text \<open>Pairing the objects with their tags, for the ARNs whose tags satisfy \<open>keep\<close>.\<close>

definition withTags :: "(string_map option \<Rightarrow> bool) \<Rightarrow> 'o described list \<Rightarrow> (string, string_map) gomap \<Rightarrow> 'o WithTags list" where
  "withTags keep objs tagsByARN =
     List.map_filter (\<lambda>arn. if keep (mget tagsByARN arn)
         then map_option (\<lambda>obj. \<lparr>sdkObj = obj, sdkTags = mget tagsByARN arn\<rparr>) (mget (objByARN objs) arn) else None)
       (arnsOf objs)"

definition ListListeners :: "('lb, 'tg, 'ls, 'lr, 'w) elbv2_tagging \<Rightarrow> taggingConfig \<Rightarrow> string \<Rightarrow>
    ('w taggingManager, 'ls WithTags list) io" where
  "ListListeners api cfg lbARN =
     io_bind (onTagCloud (DescribeListeners api lbARN)) (\<lambda>listeners.
     io_bind (if Enabled (tmFeatureGates cfg) ''ListenerRulesTagging''
              then describeResourceTags api cfg (arnsOf listeners) else io_ret []) (\<lambda>tagsByARN.
     io_ret (withTags (\<lambda>_. True) listeners tagsByARN)))"

definition ListListenerRules :: "('lb, 'tg, 'ls, 'lr, 'w) elbv2_tagging \<Rightarrow> taggingConfig \<Rightarrow> string \<Rightarrow>
    ('w taggingManager, 'lr WithTags list) io" where
  "ListListenerRules api cfg lsARN =
     io_bind (onTagCloud (DescribeRules api lsARN)) (\<lambda>rules.
     io_bind (if Enabled (tmFeatureGates cfg) ''ListenerRulesTagging''
              then describeResourceTags api cfg (arnsOf rules) else io_ret []) (\<lambda>tagsByARN.
     io_ret (withTags (\<lambda>_. True) rules tagsByARN)))"

definition withinVPC :: "string \<Rightarrow> 'o described list \<Rightarrow> 'o described list" where
  "withinVPC vpcID objs = filter (\<lambda>obj. \<not> ToString (descVpcId obj) \<noteq> vpcID) objs"

definition matchesAny :: "TagFilter list \<Rightarrow> string_map option \<Rightarrow> bool" where
  "matchesAny tagFilters tags = list_ex (\<lambda>tagFilter. Matches tagFilter (mapOf tags)) tagFilters"

definition listLoadBalancersNative :: "('lb, 'tg, 'ls, 'lr, 'w) elbv2_tagging \<Rightarrow> taggingConfig \<Rightarrow> TagFilter list \<Rightarrow>
    ('w taggingManager, 'lb WithTags list) io" where
  "listLoadBalancersNative api cfg tagFilters =
     io_bind (onTagCloud (DescribeLoadBalancers api None)) (\<lambda>lbs.
     io_bind (describeResourceTags api cfg (arnsOf (withinVPC (tmVpcID cfg) lbs))) (\<lambda>tagsByARN.
     io_ret (withTags (matchesAny tagFilters) (withinVPC (tmVpcID cfg) lbs) tagsByARN)))"

definition listTargetGroupsNative :: "('lb, 'tg, 'ls, 'lr, 'w) elbv2_tagging \<Rightarrow> taggingConfig \<Rightarrow> TagFilter list \<Rightarrow>
    ('w taggingManager, 'tg WithTags list) io" where
  "listTargetGroupsNative api cfg tagFilters =
     io_bind (onTagCloud (DescribeTargetGroups api None)) (\<lambda>tgs.
     io_bind (describeResourceTags api cfg (arnsOf (withinVPC (tmVpcID cfg) tgs))) (\<lambda>tagsByARN.
     io_ret (withTags (matchesAny tagFilters) (withinVPC (tmVpcID cfg) tgs) tagsByARN)))"

definition convertTagFiltersToRGTTagFilters :: "TagFilter \<Rightarrow> (string \<times> string list) list" where
  "convertTagFiltersToRGTTagFilters tagFilter = map (\<lambda>(k, v). (k, v)) tagFilter"

definition ParseRGTTags :: "SDKTag list \<Rightarrow> string_map" where
  "ParseRGTTags tags = mbuild (\<lambda>t. ToString (TagKey t)) (\<lambda>t. ToString (TagValue t)) tags []"

text \<open>Collecting the resources of all filters by ARN; the first occurrence is kept.\<close>

fun addResources :: "(string option \<times> SDKTag list) list \<Rightarrow> (string, SDKTag list) gomap \<Rightarrow> (string, SDKTag list) gomap" where
  "addResources [] m = m"
| "addResources ((arn, tags) # rs) m =
     addResources rs (if mhas m (ToString arn) then m else mput (ToString arn) tags m)"

fun collectRGT :: "('lb, 'tg, 'ls, 'lr, 'w) elbv2_tagging \<Rightarrow> string \<Rightarrow> TagFilter list \<Rightarrow> (string, SDKTag list) gomap \<Rightarrow>
    ('w, (string, SDKTag list) gomap) io" where
  "collectRGT api resType [] m w = (Inr m, w)"
| "collectRGT api resType (tagFilter # fs) m w =
     (case GetResources api (convertTagFiltersToRGTTagFilters tagFilter) resType w of
        (Inl e, w') \<Rightarrow> (Inl e, w')
      | (Inr rsrcs, w') \<Rightarrow> collectRGT api resType fs (addResources rsrcs m) w')"

definition listLoadBalancersRGT :: "((string \<times> SDKTag list) list \<Rightarrow> (string \<times> SDKTag list) list) \<Rightarrow>
    ('lb, 'tg, 'ls, 'lr, 'w) elbv2_tagging \<Rightarrow> TagFilter list \<Rightarrow> ('w, 'lb WithTags list) io" where
  "listLoadBalancersRGT ord api tagFilters =
     io_bind (collectRGT api ''elasticloadbalancing:loadbalancer'' tagFilters []) (\<lambda>resourceTagsByARN.
       io_map (\<lambda>(resourceARN, resourceTags).
           io_bind (DescribeLoadBalancers api (Some [resourceARN])) (\<lambda>elbv2Resp.
             case elbv2Resp of
               [] \<Rightarrow> io_fail (Errorf ''no load balancer found for the arn: %v'' [resourceARN])
             | lb # _ \<Rightarrow> io_ret \<lparr>sdkObj = lb, sdkTags = Some (ParseRGTTags resourceTags)\<rparr>))
         (ord resourceTagsByARN))"

definition listTargetGroupsRGT :: "((string \<times> SDKTag list) list \<Rightarrow> (string \<times> SDKTag list) list) \<Rightarrow>
    ('lb, 'tg, 'ls, 'lr, 'w) elbv2_tagging \<Rightarrow> TagFilter list \<Rightarrow> ('w, 'tg WithTags list) io" where
  "listTargetGroupsRGT ord api tagFilters =
     io_bind (collectRGT api ''elasticloadbalancing:targetgroup'' tagFilters []) (\<lambda>resourceTagsByARN.
       io_map (\<lambda>(resourceARN, resourceTags).
           io_bind (DescribeTargetGroups api (Some [resourceARN])) (\<lambda>elbv2Resp.
             case elbv2Resp of
               [] \<Rightarrow> io_fail (Errorf ''no target group found for the arn: %v'' [resourceARN])
             | tg # _ \<Rightarrow> io_ret \<lparr>sdkObj = tg, sdkTags = Some (ParseRGTTags resourceTags)\<rparr>))
         (ord resourceTagsByARN))"

definition ListLoadBalancers :: "((string \<times> SDKTag list) list \<Rightarrow> (string \<times> SDKTag list) list) \<Rightarrow>
    ('lb, 'tg, 'ls, 'lr, 'w) elbv2_tagging \<Rightarrow> taggingConfig \<Rightarrow> TagFilter list \<Rightarrow> ('w taggingManager, 'lb WithTags list) io" where
  "ListLoadBalancers ord api cfg tagFilters =
     (if Enabled (tmFeatureGates cfg) ''EnableRGTAPI'' then onTagCloud (listLoadBalancersRGT ord api tagFilters)
      else listLoadBalancersNative api cfg tagFilters)"

definition ListTargetGroups :: "((string \<times> SDKTag list) list \<Rightarrow> (string \<times> SDKTag list) list) \<Rightarrow>
    ('lb, 'tg, 'ls, 'lr, 'w) elbv2_tagging \<Rightarrow> taggingConfig \<Rightarrow> TagFilter list \<Rightarrow> ('w taggingManager, 'tg WithTags list) io" where
  "ListTargetGroups ord api cfg tagFilters =
     (if Enabled (tmFeatureGates cfg) ''EnableRGTAPI'' then onTagCloud (listTargetGroupsRGT ord api tagFilters)
      else listTargetGroupsNative api cfg tagFilters)"

section \<open>Reconciliation of the tags\<close>

text \<open>
  What the API documents: AddTags overwrites the tags given and keeps the others, RemoveTags
  removes the keys given, both on the named resource only, and a failed call changes nothing;
  DescribeTags returns the tags of the resources asked for. \<open>store\<close> reads the tags a cloud holds.
\<close>

type_synonym 'w tag_store = "'w \<Rightarrow> string \<Rightarrow> string \<rightharpoonup> string"

definition tags_api_ok :: "('lb, 'tg, 'ls, 'lr, 'w) elbv2_tagging \<Rightarrow> 'w tag_store \<Rightarrow> bool" where
  "tags_api_ok api store \<longleftrightarrow>
     (\<forall>arn tags w r w'. AddTags api [arn] tags w = (r, w') \<longrightarrow>
        store w' = (if isl r then store w
                    else (store w)(arn := store w arn ++ map_of (convertSDKTagsToTags tags))))
   \<and> (\<forall>arn ks w r w'. RemoveTags api [arn] ks w = (r, w') \<longrightarrow>
        store w' = (if isl r then store w else (store w)(arn := store w arn |` (- set ks))))
   \<and> (\<forall>arns w r w'. DescribeTags api arns w = (r, w') \<longrightarrow>
        store w' = store w \<and> (\<forall>ds. r = Inr ds \<longrightarrow>
          (\<lambda>d. ToString (TagResourceArn d)) ` set ds = set arns
        \<and> (\<forall>d \<in> set ds. map_of (convertSDKTagsToTags (DescTags d)) = store w (ToString (TagResourceArn d)))))"

text \<open>The cache holds the tags the cloud has.\<close>

definition coherent :: "'w tag_store \<Rightarrow> 'w taggingManager \<Rightarrow> bool" where
  "coherent store \<sigma> \<longleftrightarrow> (\<forall>arn tags e. mget (resourceTagsCache \<sigma>) arn = Some (tags, e) \<longrightarrow>
     wf_map tags \<and> map_of tags = store (tagCloud \<sigma>) arn)"

lemma wf_convertSDKTagsToTags [simp]: "wf_map (convertSDKTagsToTags ts)"
  by (simp add: convertSDKTagsToTags_def)

lemma convert_tags_roundtrip:
  assumes "wf_map m"
  shows "map_of (convertSDKTagsToTags (convertTagsToSDKTags m)) = map_of m"
proof (cases "m = []")
  case False
  define ts where "ts = convertTagsToSDKTags m"
  have ts: "ts = map (\<lambda>key. \<lparr>TagKey = Some key, TagValue = Some (mget0 '''' m key)\<rparr>) (keyset m)"
    using False by (simp add: ts_def convertTagsToSDKTags_def)
  have d: "distinct (map (\<lambda>t. ToString (TagKey t)) ts)" by (simp add: ts comp_def)
  show ?thesis
  proof
    fix k
    show "map_of (convertSDKTagsToTags (convertTagsToSDKTags m)) k = map_of m k"
    proof (cases "map_of m k")
      case None
      then have "k \<notin> fst ` set (convertSDKTagsToTags ts)"
        by (simp add: convertSDKTagsToTags_def ts image_image map_of_eq_None_iff)
      then show ?thesis using None mget_None [of k "convertSDKTagsToTags ts"] by (simp add: ts_def)
    next
      case (Some v)
      let ?t = "\<lparr>TagKey = Some k, TagValue = Some v\<rparr>"
      have "?t \<in> set ts" using Some mget_key [OF Some] by (force simp: ts mget0_def)
      then show ?thesis
        using mget_mbuild_distinct [OF d, of ?t "\<lambda>t. ToString (TagValue t)" "[]"] Some
        by (simp add: convertSDKTagsToTags_def ts_def)
    qed
  qed
qed (simp add: convertTagsToSDKTags_def convertSDKTagsToTags_def)

lemma map_of_deleteKeys: "map_of (deleteKeys ks m) = (map_of m) |` (- set ks)"
  by (induction ks arbitrary: m) (auto simp: deleteKeys_def restrict_map_def fun_eq_iff)

lemma wf_deleteKeys [simp]: "wf_map m \<Longrightarrow> wf_map (deleteKeys ks m)"
  by (induction ks arbitrary: m) (auto simp: deleteKeys_def)

lemma coherent_invalidate:
  assumes "coherent store \<sigma>" "\<And>a. a \<noteq> arn \<Longrightarrow> store w a = store (tagCloud \<sigma>) a"
  shows "coherent store (invalidateResourceTagsCache arn (\<sigma>\<lparr>tagCloud := w\<rparr>))"
  using assms by (auto simp: coherent_def invalidateResourceTagsCache_def)

lemma coherent_cloud:
  "coherent store \<sigma> \<Longrightarrow> store w = store (tagCloud \<sigma>) \<Longrightarrow> coherent store (\<sigma>\<lparr>tagCloud := w\<rparr>)"
  by (simp add: coherent_def)

lemma addTagsStep_spec:
  assumes ok: "tags_api_ok api store" and coh: "coherent store \<sigma>" and wf: "wf_map u"
    and run: "addTagsStep api arn u \<sigma> = (r, \<sigma>')"
  shows "coherent store \<sigma>' \<and> store (tagCloud \<sigma>') =
     (if isl r then store (tagCloud \<sigma>)
      else (store (tagCloud \<sigma>))(arn := store (tagCloud \<sigma>) arn ++ map_of u))"
proof (cases "length u > 0")
  case True
  obtain r0 w' where api: "AddTags api [arn] (convertTagsToSDKTags u) (tagCloud \<sigma>) = (r0, w')" by force
  have st: "store w' = (if isl r0 then store (tagCloud \<sigma>)
      else (store (tagCloud \<sigma>))(arn := store (tagCloud \<sigma>) arn ++ map_of u))"
    using ok api convert_tags_roundtrip [OF wf] by (simp add: tags_api_ok_def)
  show ?thesis
  proof (cases r0)
    case (Inl e)
    then have "r = Inl e" "\<sigma>' = \<sigma>\<lparr>tagCloud := w'\<rparr>"
      using run True api by (simp_all add: addTagsStep_def onTagCloud_def)
    then show ?thesis using st Inl coherent_cloud [OF coh] by simp
  next
    case (Inr x)
    then have "r = Inr ()" "\<sigma>' = invalidateResourceTagsCache arn (\<sigma>\<lparr>tagCloud := w'\<rparr>)"
      using run True api by (simp_all add: addTagsStep_def onTagCloud_def)
    then show ?thesis using st Inr coherent_invalidate [OF coh, of arn w']
      by (simp add: invalidateResourceTagsCache_def)
  qed
next
  case False
  then show ?thesis using run coh by (auto simp: addTagsStep_def)
qed

lemma removeTagsStep_spec:
  assumes ok: "tags_api_ok api store" and coh: "coherent store \<sigma>"
    and run: "removeTagsStep api arn u \<sigma> = (r, \<sigma>')"
  shows "coherent store \<sigma>' \<and> store (tagCloud \<sigma>') =
     (if isl r then store (tagCloud \<sigma>)
      else (store (tagCloud \<sigma>))(arn := store (tagCloud \<sigma>) arn |` (- (fst ` set u))))"
proof (cases "length u > 0")
  case True
  obtain r0 w' where api: "RemoveTags api [arn] (keyset u) (tagCloud \<sigma>) = (r0, w')" by force
  have st: "store w' = (if isl r0 then store (tagCloud \<sigma>)
      else (store (tagCloud \<sigma>))(arn := store (tagCloud \<sigma>) arn |` (- (fst ` set u))))"
    using ok api unfolding tags_api_ok_def by (metis keyset_simps(1))
  show ?thesis
  proof (cases r0)
    case (Inl e)
    then have "r = Inl e" "\<sigma>' = \<sigma>\<lparr>tagCloud := w'\<rparr>"
      using run True api by (simp_all add: removeTagsStep_def onTagCloud_def)
    then show ?thesis using st Inl coherent_cloud [OF coh] by simp
  next
    case (Inr x)
    then have "r = Inr ()" "\<sigma>' = invalidateResourceTagsCache arn (\<sigma>\<lparr>tagCloud := w'\<rparr>)"
      using run True api by (simp_all add: removeTagsStep_def onTagCloud_def)
    then show ?thesis using st Inr coherent_invalidate [OF coh, of arn w']
      by (simp add: invalidateResourceTagsCache_def)
  qed
next
  case False
  then show ?thesis using run coh by (auto simp: removeTagsStep_def restrict_map_def)
qed

text \<open>The tags of a map by ARN are those of the cloud.\<close>

definition tagsFrom :: "(string \<Rightarrow> string \<rightharpoonup> string) \<Rightarrow> (string, string_map) gomap \<Rightarrow> bool" where
  "tagsFrom st m \<longleftrightarrow> (\<forall>arn tags. mget m arn = Some tags \<longrightarrow> wf_map tags \<and> map_of tags = st arn)"

lemma tagsFrom_put: "tagsFrom st m \<Longrightarrow> wf_map tags \<Longrightarrow> map_of tags = st arn \<Longrightarrow> tagsFrom st (mput arn tags m)"
  by (simp add: tagsFrom_def)

lemma partitionCached_spec:
  assumes "coherent store \<sigma>" "tagsFrom (store (tagCloud \<sigma>)) m" "partitionCached now \<sigma> arns m us = (m', us')"
  shows "tagsFrom (store (tagCloud \<sigma>)) m' \<and> set arns \<subseteq> fst ` set m' \<union> set us'
     \<and> fst ` set m \<union> set us \<subseteq> fst ` set m' \<union> set us'"
  using assms(2,3)
proof (induction arns arbitrary: m us)
  case (Cons arn arns)
  show ?case
  proof (cases "cacheGet now \<sigma> arn")
    case None
    then show ?thesis using Cons.IH [of m "us @ [arn]"] Cons.prems by auto
  next
    case (Some tags)
    then have "wf_map tags \<and> map_of tags = store (tagCloud \<sigma>) arn"
      using assms(1) by (fastforce simp: cacheGet_def coherent_def split: option.splits if_splits)
    then show ?thesis using Cons.IH [of "mput arn tags m" us] Cons.prems Some by (auto simp: tagsFrom_put)
  qed
qed simp

lemma tagsFrom_mbuild:
  assumes "tagsFrom st m"
    and "\<forall>d \<in> set ds. map_of (convertSDKTagsToTags (DescTags d)) = st (ToString (TagResourceArn d))"
  shows "tagsFrom st (mbuild (\<lambda>d. ToString (TagResourceArn d)) (\<lambda>d. convertSDKTagsToTags (DescTags d)) ds m)"
  using assms by (induction ds arbitrary: m) (auto simp: tagsFrom_put)

lemma describeChunks_spec:
  assumes "tags_api_ok api store" "tagsFrom (store w) m" "describeChunks (DescribeTags api) chunks m w = (r, w')"
  shows "store w' = store w
     \<and> (\<forall>m'. r = Inr m' \<longrightarrow> tagsFrom (store w) m' \<and> fst ` set m' = fst ` set m \<union> set (concat chunks))"
  using assms(2,3)
proof (induction chunks arbitrary: m w)
  case (Cons c cs)
  obtain r0 w0 where api: "DescribeTags api c w = (r0, w0)" by force
  then have st: "store w0 = store w" using assms(1) by (simp add: tags_api_ok_def)
  show ?case
  proof (cases r0)
    case (Inl e)
    then show ?thesis using Cons.prems api st by auto
  next
    case (Inr ds)
    then have ds: "(\<lambda>d. ToString (TagResourceArn d)) ` set ds = set c"
        "\<forall>d \<in> set ds. map_of (convertSDKTagsToTags (DescTags d)) = store w (ToString (TagResourceArn d))"
      using assms(1) api unfolding tags_api_ok_def by blast+
    let ?m = "mbuild (\<lambda>d. ToString (TagResourceArn d)) (\<lambda>d. convertSDKTagsToTags (DescTags d)) ds m"
    have "tagsFrom (store w0) ?m" using tagsFrom_mbuild [OF Cons.prems(1) ds(2)] st by simp
    moreover have "describeChunks (DescribeTags api) cs ?m w0 = (r, w')" using Cons.prems api Inr by simp
    ultimately show ?thesis using Cons.IH [of w0 ?m] st ds(1) by auto
  qed
qed auto

lemma storeDescribed_spec:
  assumes "coherent store \<sigma>" "tagsFrom (store (tagCloud \<sigma>)) m"
    and "\<forall>(arn, tags) \<in> set kvs. wf_map tags \<and> map_of tags = store (tagCloud \<sigma>) arn"
    and "storeDescribed now ttl kvs m \<sigma> = (m', \<sigma>')"
  shows "coherent store \<sigma>' \<and> tagCloud \<sigma>' = tagCloud \<sigma> \<and> tagsFrom (store (tagCloud \<sigma>)) m'
     \<and> fst ` set m' = fst ` set m \<union> fst ` set kvs"
  using assms
proof (induction kvs arbitrary: m \<sigma>)
  case (Cons kv kvs)
  obtain arn tags where kv: "kv = (arn, tags)" by force
  let ?\<sigma> = "cacheSet now ttl arn tags \<sigma>"
  have g: "wf_map tags \<and> map_of tags = store (tagCloud \<sigma>) arn" using Cons.prems(3) kv by simp
  then have "coherent store ?\<sigma>" using Cons.prems(1) by (auto simp: coherent_def cacheSet_def)
  moreover have cl: "tagCloud ?\<sigma> = tagCloud \<sigma>" by (simp add: cacheSet_def)
  moreover have "tagsFrom (store (tagCloud ?\<sigma>)) (mput arn tags m)" using g Cons.prems(2) cl by (simp add: tagsFrom_put)
  ultimately show ?case using Cons.IH [of ?\<sigma> "mput arn tags m"] Cons.prems(3,4) kv by auto
qed simp

lemma describeResourceTags_spec:
  assumes ok: "tags_api_ok api store" and coh: "coherent store \<sigma>"
    and run: "describeResourceTags api cfg arns \<sigma> = (r, \<sigma>')"
  shows "coherent store \<sigma>' \<and> store (tagCloud \<sigma>') = store (tagCloud \<sigma>)
     \<and> (\<forall>m. r = Inr m \<longrightarrow> tagsFrom (store (tagCloud \<sigma>)) m \<and> set arns \<subseteq> fst ` set m)"
proof -
  obtain m us where p: "partitionCached (Now api) \<sigma> arns [] [] = (m, us)" by force
  have m: "tagsFrom (store (tagCloud \<sigma>)) m" "set arns \<subseteq> fst ` set m \<union> set us"
    using partitionCached_spec [OF coh _ p] by (auto simp: tagsFrom_def)
  obtain chunks where ch: "ChunkStrings us defaultDescribeTagsChunkSize = Some chunks" "concat chunks = us"
    using chunk_loop_total [of defaultDescribeTagsChunkSize us]
    by (auto simp: ChunkStrings_def defaultDescribeTagsChunkSize_def)
  obtain r0 w' where api: "describeChunks (DescribeTags api) chunks [] (tagCloud \<sigma>) = (r0, w')" by force
  have C: "store w' = store (tagCloud \<sigma>)"
    "\<forall>m'. r0 = Inr m' \<longrightarrow> tagsFrom (store (tagCloud \<sigma>)) m' \<and> fst ` set m' = set us"
    using describeChunks_spec [OF ok _ api] ch(2) by (auto simp: tagsFrom_def)
  have "wf_map m'" if "r0 = Inr m'" for m'
  proof -
    have "wf_map m0 \<Longrightarrow> describeChunks f cs m0 w0 = (Inr m', w1) \<Longrightarrow> wf_map m'" for f cs m0 w0 w1
      by (induction f cs m0 w0 rule: describeChunks.induct) (auto split: prod.splits sum.splits)
    then show ?thesis using api that by force
  qed
  note wfm = this
  show ?thesis
  proof (cases r0)
    case (Inl e)
    then have "r = Inl e" "\<sigma>' = \<sigma>\<lparr>tagCloud := w'\<rparr>"
      using run p ch api by (simp_all add: describeResourceTags_def describeResourceTagsFromAWS_def onTagCloud_def)
    then show ?thesis using C(1) coherent_cloud [OF coh] by simp
  next
    case (Inr kvs)
    let ?\<sigma> = "\<sigma>\<lparr>tagCloud := w'\<rparr>"
    obtain m' \<sigma>'' where s: "storeDescribed (Now api) (resourceTagsCacheTTL cfg) kvs m ?\<sigma> = (m', \<sigma>'')" by force
    then have rs: "r = Inr m'" "\<sigma>' = \<sigma>''" using run p ch api Inr
      by (simp_all add: describeResourceTags_def describeResourceTagsFromAWS_def onTagCloud_def)
    have "wf_map tags \<and> map_of tags = store w' arn" if "(arn, tags) \<in> set kvs" for arn tags
      using that C Inr wfm [OF Inr] by (simp add: tagsFrom_def)
    then have "\<forall>(arn, tags) \<in> set kvs. wf_map tags \<and> map_of tags = store (tagCloud ?\<sigma>) arn" by auto
    moreover have "coherent store ?\<sigma>" "tagsFrom (store (tagCloud ?\<sigma>)) m"
      using C(1) m(1) coherent_cloud [OF coh] by simp_all
    ultimately show ?thesis
      using storeDescribed_spec [of store ?\<sigma> m kvs, OF _ _ _ s] C m(2) Inr rs by auto
  qed
qed

text \<open>The result of applying both tag changes\<close>

lemma tag_changes_converge:
  assumes "wf_map desired" "wf_map current"
    and "DiffStringMapIgnoreAWSTags desired current = (update, remove)"
  shows "((map_of current ++ map_of (deleteKeys ign update)) |` (- (fst ` set (deleteKeys ign remove)))) k =
     (if HasPrefix k ''aws:'' \<or> k \<in> set ign then map_of current k else map_of desired k)"
proof -
  note S = DiffStringMapIgnoreAWSTags_spec [OF assms, of k]
  have "k \<in> fst ` set (deleteKeys ign remove) \<longleftrightarrow> map_of (deleteKeys ign remove) k \<noteq> None"
    by (simp add: map_of_eq_None_iff)
  then show ?thesis
    using S by (auto simp: restrict_map_def map_of_deleteKeys map_add_def split: option.splits)
qed

lemma isl_unit: "\<not> isl (r :: unit res) \<longleftrightarrow> r = Inr ()"
  by (cases r) auto

lemma reconcile_steps:
  assumes ok: "tags_api_ok api store" and coh: "coherent store \<sigma>"
    and wf: "wf_map desired" "wf_map current" and cur: "map_of current = store (tagCloud \<sigma>) arn"
    and diff: "DiffStringMapIgnoreAWSTags desired current = (update, remove)"
    and run: "io_bind (addTagsStep api arn (deleteKeys ign update))
       (\<lambda>_. removeTagsStep api arn (deleteKeys ign remove)) \<sigma> = (r, \<sigma>')"
  shows "coherent store \<sigma>' \<and> (\<forall>a. a \<noteq> arn \<longrightarrow> store (tagCloud \<sigma>') a = store (tagCloud \<sigma>) a)
     \<and> (r = Inr () \<longrightarrow> (\<forall>k. store (tagCloud \<sigma>') arn k =
          (if HasPrefix k ''aws:'' \<or> k \<in> set ign then store (tagCloud \<sigma>) arn k else map_of desired k)))"
proof -
  have wfu: "wf_map (deleteKeys ign update)"
    using diff by (auto simp: DiffStringMapIgnoreAWSTags_def DiffStringMap_def RemoveKeysByPrefix_def Let_def
        intro!: wf_deleteKeys distinct_map_filter)
  obtain r1 \<sigma>1 where a: "addTagsStep api arn (deleteKeys ign update) \<sigma> = (r1, \<sigma>1)" by force
  note A = addTagsStep_spec [OF ok coh wfu a]
  show ?thesis
  proof (cases r1)
    case (Inl e)
    then show ?thesis using run a A by auto
  next
    case (Inr x)
    then have b: "removeTagsStep api arn (deleteKeys ign remove) \<sigma>1 = (r, \<sigma>')" using run a by simp
    note B = removeTagsStep_spec [OF ok conjunct1 [OF A] b]
    have "store (tagCloud \<sigma>1) arn = map_of current ++ map_of (deleteKeys ign update)"
      using A Inr cur by simp
    then show ?thesis
      using A B Inr cur tag_changes_converge [OF wf diff, of ign] by (auto simp: isl_unit split: if_splits)
  qed
qed

text \<open>
  C24. Reconciling the tags of an object makes them the desired ones, except that AWS system tags
  (prefix \<open>aws:\<close>) and the ignored keys keep whatever they were; the tags of every other object
  are untouched, also when a call fails; and the cache never holds tags that the cloud does not
  have. The current tags may be supplied by the caller or read through the cache.
\<close>

theorem ReconcileTags_converges:
  assumes "tags_api_ok api store" "coherent store \<sigma>" "wf_map desired"
    and "opts = ApplyOptions os \<lparr>CurrentTags = None, IgnoredTagKeys = []\<rparr>"
    and "\<forall>tags. CurrentTags opts = Some tags \<longrightarrow> wf_map tags \<and> map_of tags = store (tagCloud \<sigma>) arn"
    and "ReconcileTags api cfg arn desired os \<sigma> = (r, \<sigma>')"
  shows "coherent store \<sigma>' \<and> (\<forall>a. a \<noteq> arn \<longrightarrow> store (tagCloud \<sigma>') a = store (tagCloud \<sigma>) a)
     \<and> (r = Inr () \<longrightarrow> (\<forall>k. store (tagCloud \<sigma>') arn k =
          (if HasPrefix k ''aws:'' \<or> k \<in> set (IgnoredTagKeys opts) then store (tagCloud \<sigma>) arn k
           else map_of desired k)))"
proof (cases "CurrentTags opts")
  case (Some tags)
  then have t: "wf_map tags" "map_of tags = store (tagCloud \<sigma>) arn" using assms(5) by auto
  obtain u m where d: "DiffStringMapIgnoreAWSTags desired tags = (u, m)" by force
  have "io_bind (addTagsStep api arn (deleteKeys (IgnoredTagKeys opts) u))
      (\<lambda>_. removeTagsStep api arn (deleteKeys (IgnoredTagKeys opts) m)) \<sigma> = (r, \<sigma>')"
    using assms(6) Some d unfolding ReconcileTags_def Let_def assms(4) [symmetric]
    by (simp add: io_bind_def)
  then show ?thesis by (rule reconcile_steps [OF assms(1,2,3) t d])
next
  case None
  obtain r0 \<sigma>0 where dr: "describeResourceTags api cfg [arn] \<sigma> = (r0, \<sigma>0)" by force
  note D = describeResourceTags_spec [OF assms(1,2) dr]
  show ?thesis
  proof (cases r0)
    case (Inl e)
    then have "r = Inl e \<and> \<sigma>' = \<sigma>0" using assms(6) dr None
      unfolding ReconcileTags_def Let_def assms(4) [symmetric] by (simp add: io_bind_def)
    then show ?thesis using D by simp
  next
    case (Inr tm)
    then obtain tags where tags: "mget tm arn = Some tags" "wf_map tags" "map_of tags = store (tagCloud \<sigma>0) arn"
      using D by (auto simp: tagsFrom_def dest: weak_map_of_SomeI)
    obtain u m where d: "DiffStringMapIgnoreAWSTags desired tags = (u, m)" by force
    have "io_bind (addTagsStep api arn (deleteKeys (IgnoredTagKeys opts) u))
        (\<lambda>_. removeTagsStep api arn (deleteKeys (IgnoredTagKeys opts) m)) \<sigma>0 = (r, \<sigma>')"
      using assms(6) None d dr Inr tags(1) unfolding ReconcileTags_def Let_def assms(4) [symmetric]
      by (simp add: io_bind_def mget0_def)
    then show ?thesis
      using reconcile_steps [OF assms(1) _ assms(3) tags(2,3) d, of "IgnoredTagKeys opts" r \<sigma>'] D by simp
  qed
qed

text \<open>A cloud in memory that keeps the tags of each ARN, for the witness.\<close>

definition memStore :: "(string, string_map) gomap tag_store" where
  "memStore w arn = map_of (mget0 [] w arn)"

definition memDescribe :: "(string, string_map) gomap \<Rightarrow> string \<Rightarrow> TagDescription" where
  "memDescribe w arn = \<lparr>TagResourceArn = Some arn,
     DescTags = map (\<lambda>(k, v). \<lparr>TagKey = Some k, TagValue = Some v\<rparr>) (rev (mget0 [] w arn))\<rparr>"

definition memTagging :: "(unit, unit, unit, unit, (string, string_map) gomap) elbv2_tagging" where
  "memTagging = \<lparr>
     AddTags = (\<lambda>arns tags w. (Inr (),
        fold (\<lambda>arn w. mput arn (convertSDKTagsToTags tags @ mget0 [] w arn) w) arns w)),
     RemoveTags = (\<lambda>arns ks w. (Inr (),
        fold (\<lambda>arn w. mput arn (filter (\<lambda>(k, v). k \<notin> set ks) (mget0 [] w arn)) w) arns w)),
     DescribeTags = (\<lambda>arns w. (Inr (map (memDescribe w) arns), w)),
     DescribeLoadBalancers = (\<lambda>_ w. (Inr [], w)), DescribeTargetGroups = (\<lambda>_ w. (Inr [], w)),
     DescribeListeners = (\<lambda>_ w. (Inr [], w)), DescribeRules = (\<lambda>_ w. (Inr [], w)),
     GetResources = (\<lambda>_ _ w. (Inr [], w)), Now = (\<lambda>_. 0)\<rparr>"

lemma memDescribe_tags: "map_of (convertSDKTagsToTags (DescTags (memDescribe w arn))) = memStore w arn"
proof
  fix k
  have "(case find (\<lambda>t. ToString (TagKey t) = k) (map (\<lambda>(k, v). \<lparr>TagKey = Some k, TagValue = Some v\<rparr>) m) of
      Some x \<Rightarrow> Some (ToString (TagValue x)) | None \<Rightarrow> None) = map_of m k" for m :: string_map
    by (induction m) auto
  then show "map_of (convertSDKTagsToTags (DescTags (memDescribe w arn))) k = memStore w arn k"
    unfolding memDescribe_def memStore_def convertSDKTagsToTags_def
    by (simp add: mget_mbuild rev_map cong: option.case_cong)
qed

lemma memTagging_ok: "tags_api_ok memTagging memStore"
proof -
  have "map_of (filter (\<lambda>(k, v). k \<notin> A) m) = map_of m |` (- A)" for A and m :: string_map
    by (induction m) (auto simp: restrict_map_def fun_eq_iff)
  then show ?thesis
    unfolding tags_api_ok_def
    by (auto simp: memTagging_def memStore_def fun_eq_iff map_of_append memDescribe_def [THEN arg_cong, of TagResourceArn]
        memDescribe_tags [unfolded fun_eq_iff memStore_def] image_image)
qed

definition tagConfig :: taggingConfig where
  "tagConfig = \<lparr>tmVpcID = ''vpc'', tmFeatureGates = NewFeatureGates, resourceTagsCacheTTL = 20\<rparr>"

definition tagManager :: "(string, string_map) gomap taggingManager" where
  "tagManager = \<lparr>resourceTagsCache = [], tagCloud = [(''arn'', [(''a'', ''0''), (''c'', ''3''), (''keep'', ''k'')])]\<rparr>"

lemma tagManager_run:
  "fst (ReconcileTags memTagging tagConfig ''arn'' [(''a'', ''1''), (''b'', ''2'')] [WithIgnoredTagKeys [''keep'']] tagManager)
     = Inr ()"
  by code_simp

theorem ReconcileTags_converges_witness:
  "\<exists>\<sigma>'. ReconcileTags memTagging tagConfig ''arn'' [(''a'', ''1''), (''b'', ''2'')] [WithIgnoredTagKeys [''keep'']] tagManager
       = (Inr (), \<sigma>')
     \<and> (\<forall>k. memStore (tagCloud \<sigma>') ''arn'' k =
        (if HasPrefix k ''aws:'' \<or> k = ''keep'' then memStore (tagCloud tagManager) ''arn'' k
         else map_of [(''a'', ''1''), (''b'', ''2'')] k))"
proof -
  obtain \<sigma>' where run: "ReconcileTags memTagging tagConfig ''arn'' [(''a'', ''1''), (''b'', ''2'')]
      [WithIgnoredTagKeys [''keep'']] tagManager = (Inr (), \<sigma>')"
    using tagManager_run by (metis prod.collapse)
  have "coherent memStore tagManager" by (simp add: coherent_def tagManager_def)
  then show ?thesis
    using ReconcileTags_converges [OF memTagging_ok _ _ refl _ run] run
    by (simp add: ApplyOptions_def WithIgnoredTagKeys_def)
qed

end
