(* ===== verification/Attributes.thy ===== *)
theory Attributes
  imports Tagging
begin

text \<open>
  Two parts of \<^verbatim>\<open>pkg/deploy/elbv2\<close> that the managers of target groups, load balancers and
  listeners share: retrying a call (\<^verbatim>\<open>pkg/runtime/retry_utils.go\<close>), and the attribute
  reconcilers (\<^verbatim>\<open>target_group_attributes_reconciler.go\<close>,
  \<^verbatim>\<open>load_balancer_attributes_reconciler.go\<close>, \<^verbatim>\<open>listener_attributes_reconciler.go\<close>), which are
  the same loop over three different pairs of API calls.
\<close>

section \<open>Retrying\<close>

text \<open>
  \<open>wait.PollImmediate\<close> calls the function at once and then every interval until the timeout:
  \<open>polls\<close> is the number of calls the timer allows after the first one. The error of a timeout
  prints the last retryable error.
\<close>

definition timeoutError :: go_error where
  "timeoutError = Errorf ''timed out waiting for the condition'' []"

fun RetryImmediateOnError :: "nat \<Rightarrow> (go_error \<Rightarrow> bool) \<Rightarrow> ('w, unit) io \<Rightarrow> ('w, unit) io" where
  "RetryImmediateOnError polls retryable fn w =
     (case fn w of
        (Inr _, w') \<Rightarrow> (Inr (), w')
      | (Inl err, w') \<Rightarrow>
          if retryable err
          then (case polls of
                  0 \<Rightarrow> (Inl (Formatted ''%w: %v'' [timeoutError, err]), w')
                | Suc n \<Rightarrow> RetryImmediateOnError n retryable fn w')
          else (Inl err, w'))"

declare RetryImmediateOnError.simps [simp del]

text \<open>
  The state after the first \<open>n\<close> calls of a function that has always failed so far.
\<close>

fun afterFailures :: "('w, unit) io \<Rightarrow> nat \<Rightarrow> 'w \<Rightarrow> 'w" where
  "afterFailures fn 0 w = w"
| "afterFailures fn (Suc n) w = afterFailures fn n (snd (fn w))"

text \<open>If the function fails retryably \<open>n\<close> times and then succeeds, the retry succeeds, given \<open>n\<close> polls.\<close>

lemma RetryImmediateOnError_succeeds:
  assumes "\<And>i. i < n \<Longrightarrow> \<exists>e. fst (fn (afterFailures fn i w)) = Inl e \<and> retryable e"
    and "fst (fn (afterFailures fn n w)) = Inr ()" "n \<le> polls"
  shows "RetryImmediateOnError polls retryable fn w = (Inr (), snd (fn (afterFailures fn n w)))"
  using assms
proof (induction n arbitrary: w polls)
  case 0
  then show ?case by (cases "fn w") (simp add: RetryImmediateOnError.simps [of polls])
next
  case (Suc n)
  obtain e w' where f: "fn w = (Inl e, w')" "retryable e"
    using Suc.prems(1) [of 0] by (cases "fn w") auto
  obtain p where p: "polls = Suc p" "n \<le> p" using Suc.prems(3) by (cases polls) auto
  have "RetryImmediateOnError p retryable fn w' = (Inr (), snd (fn (afterFailures fn n w')))"
    using Suc.IH [of w' p] Suc.prems(1) [of "Suc i" for i] Suc.prems(2) p(2) f(1) by simp
  then show ?case using f p(1) by (simp add: RetryImmediateOnError.simps [of "Suc p"])
qed

section \<open>Attribute reconcilers\<close>

text \<open>An attribute as the API returns it, and the pair of calls of one kind of object.\<close>

record 'w attributes_api =
  DescribeAttributes :: "string option \<Rightarrow> ('w, (string option \<times> string option) list) io"
  ModifyAttributes :: "string option \<Rightarrow> (string \<times> string) list \<Rightarrow> ('w, unit) io"

definition getCurrentAttributes :: "'w attributes_api \<Rightarrow> string option \<Rightarrow> ('w, string_map) io" where
  "getCurrentAttributes api arn =
     io_bind (DescribeAttributes api arn) (\<lambda>attrs.
       io_ret (mbuild (\<lambda>a. ToString (fst a)) (\<lambda>a. ToString (snd a)) attrs []))"

definition getDesiredAttributes :: "(string \<times> string) list \<Rightarrow> string_map" where
  "getDesiredAttributes attrs = mbuild fst snd attrs []"

definition Attributes_Reconcile :: "'w attributes_api \<Rightarrow> (string \<times> string) list \<Rightarrow> string option \<Rightarrow> ('w, unit) io" where
  "Attributes_Reconcile api specAttrs arn =
     io_bind (getCurrentAttributes api arn) (\<lambda>currentAttrs.
       let (attributesToUpdate, _) = DiffStringMap (getDesiredAttributes specAttrs) currentAttrs
       in if length attributesToUpdate > 0
          then ModifyAttributes api arn
                 (map (\<lambda>attrKey. (attrKey, mget0 '''' attributesToUpdate attrKey)) (keyset attributesToUpdate))
          else io_ret ())"

text \<open>
  What the API documents: Describe returns the attributes the object has, Modify overwrites the
  attributes given and keeps the others, and a failed call changes nothing.
\<close>

definition attributes_api_ok :: "'w attributes_api \<Rightarrow> ('w \<Rightarrow> string option \<Rightarrow> string \<rightharpoonup> string) \<Rightarrow> bool" where
  "attributes_api_ok api store \<longleftrightarrow>
     (\<forall>arn w r w'. DescribeAttributes api arn w = (r, w') \<longrightarrow> store w' = store w
        \<and> (\<forall>attrs. r = Inr attrs \<longrightarrow>
             map_of (mbuild (\<lambda>a. ToString (fst a)) (\<lambda>a. ToString (snd a)) attrs []) = store w arn))
   \<and> (\<forall>arn attrs w r w'. ModifyAttributes api arn attrs w = (r, w') \<longrightarrow>
        store w' = (if isl r then store w else (store w)(arn := store w arn ++ map_of attrs)))"

lemma map_of_keyset_list:
  assumes "wf_map m"
  shows "map_of (map (\<lambda>k. (k, mget0 z m k)) (keyset m)) = map_of m"
proof
  fix k
  have aux: "map_of (map (\<lambda>k. (k, g k)) ks) k = (if k \<in> set ks then Some (g k) else None)" for g and ks :: "'a list"
    by (induction ks) auto
  show "map_of (map (\<lambda>k. (k, mget0 z m k)) (keyset m)) k = map_of m k"
  proof (cases "map_of m k")
    case None
    then have "k \<notin> fst ` set m" by (simp add: map_of_eq_None_iff)
    then show ?thesis using None by (simp add: aux)
  next
    case (Some v)
    then show ?thesis using mget_key [OF Some] by (simp add: aux mget0_def)
  qed
qed

lemma Attributes_Reconcile_run:
  assumes ok: "attributes_api_ok api store" and run: "Attributes_Reconcile api specAttrs arn w = (r, w')"
  shows "(\<forall>a. a \<noteq> arn \<longrightarrow> store w' a = store w a)
     \<and> (r = Inr () \<longrightarrow> store w' arn = store w arn ++ map_of (getDesiredAttributes specAttrs))"
proof -
  let ?d = "getDesiredAttributes specAttrs"
  have wfd: "wf_map ?d" by (simp add: getDesiredAttributes_def)
  obtain r0 w0 where d: "DescribeAttributes api arn w = (r0, w0)" by force
  then have st: "store w0 = store w" using ok unfolding attributes_api_ok_def by blast
  show ?thesis
  proof (cases r0)
    case (Inl e)
    then show ?thesis using run d st
      by (auto simp: Attributes_Reconcile_def getCurrentAttributes_def io_bind_def)
  next
    case (Inr attrs)
    define cur where "cur = mbuild (\<lambda>a. ToString (fst a)) (\<lambda>a. ToString (snd a)) attrs []"
    have cur: "map_of cur = store w arn" "wf_map cur"
      using ok d Inr unfolding attributes_api_ok_def cur_def by (blast, simp)
    obtain u rm where diff: "DiffStringMap ?d cur = (u, rm)" by force
    note U = map_of_DiffStringMap(1) [OF wfd cur(2) diff]
    have wfu: "wf_map u" using diff by (auto simp: DiffStringMap_def)
    have final: "store w arn ++ map_of u = store w arn ++ map_of ?d"
      by (rule ext) (auto simp: map_add_def U cur(1) split: option.splits)
    show ?thesis
    proof (cases "length u > 0")
      case False
      then show ?thesis using run d Inr diff st final
        by (auto simp: Attributes_Reconcile_def getCurrentAttributes_def io_bind_def cur_def)
    next
      case True
      let ?attrs = "map (\<lambda>k. (k, mget0 '''' u k)) (keyset u)"
      have m: "ModifyAttributes api arn ?attrs w0 = (r, w')" using run d Inr diff True
        by (simp add: Attributes_Reconcile_def getCurrentAttributes_def io_bind_def cur_def)
      then have "store w' = (if isl r then store w0 else (store w0)(arn := store w0 arn ++ map_of ?attrs))"
        using ok unfolding attributes_api_ok_def by blast
      then show ?thesis using final st map_of_keyset_list [OF wfu, of "''''"] by (simp add: isl_unit)
    qed
  qed
qed

lemma Attributes_Reconcile_noop:
  assumes ok: "attributes_api_ok api store" and "map_of (getDesiredAttributes specAttrs) \<subseteq>\<^sub>m store w arn"
  shows "Attributes_Reconcile api specAttrs arn w =
     (case DescribeAttributes api arn w of (Inl e, w') \<Rightarrow> (Inl e, w') | (Inr _, w') \<Rightarrow> (Inr (), w'))"
proof -
  let ?d = "getDesiredAttributes specAttrs"
  obtain r0 w0 where d: "DescribeAttributes api arn w = (r0, w0)" by force
  show ?thesis
  proof (cases r0)
    case (Inl e)
    then show ?thesis using d by (simp add: Attributes_Reconcile_def getCurrentAttributes_def io_bind_def)
  next
    case (Inr attrs)
    define cur where "cur = mbuild (\<lambda>a. ToString (fst a)) (\<lambda>a. ToString (snd a)) attrs []"
    have cur: "map_of cur = store w arn" "wf_map cur"
      using ok d Inr unfolding attributes_api_ok_def cur_def by (blast, simp)
    obtain u rm where diff: "DiffStringMap ?d cur = (u, rm)" by force
    have wfd: "wf_map ?d" by (simp add: getDesiredAttributes_def)
    have "map_of u = Map.empty"
      using map_of_DiffStringMap(1) [OF wfd cur(2) diff] assms(2) cur(1)
      by (auto simp: map_le_def fun_eq_iff domIff)
    then have "u = []" by (cases u) (auto simp: fun_eq_iff split: if_splits)
    then show ?thesis using d Inr diff
      by (simp add: Attributes_Reconcile_def getCurrentAttributes_def io_bind_def flip: cur_def)
  qed
qed

text \<open>
  Reconciling the attributes of a target group, a load balancer or a listener gives the object
  every attribute of its specification, leaves the other attributes of the object and all other
  objects untouched (other objects also when a call fails), and a second reconciliation only reads.
\<close>

theorem Attributes_Reconcile_converges:
  assumes "attributes_api_ok api store" "Attributes_Reconcile api specAttrs arn w = (r, w')"
  shows "(\<forall>a. a \<noteq> arn \<longrightarrow> store w' a = store w a)
     \<and> (r = Inr () \<longrightarrow> store w' arn = store w arn ++ map_of (getDesiredAttributes specAttrs)
         \<and> Attributes_Reconcile api specAttrs arn w' =
             (case DescribeAttributes api arn w' of (Inl e, w'') \<Rightarrow> (Inl e, w'') | (Inr _, w'') \<Rightarrow> (Inr (), w'')))"
proof -
  note R = Attributes_Reconcile_run [OF assms]
  have "map_of (getDesiredAttributes specAttrs) \<subseteq>\<^sub>m store w' arn" if "r = Inr ()"
    using R that by simp
  then show ?thesis using R Attributes_Reconcile_noop [OF assms(1)] by blast
qed

text \<open>Attributes kept in memory, for the witness.\<close>

definition memAttributes :: "(string option, string_map) gomap attributes_api" where
  "memAttributes = \<lparr>
     DescribeAttributes = (\<lambda>arn w. (Inr (map (\<lambda>(k, v). (Some k, Some v)) (rev (mget0 [] w arn))), w)),
     ModifyAttributes = (\<lambda>arn attrs w. (Inr (), mput arn (attrs @ mget0 [] w arn) w))\<rparr>"

lemma memAttributes_ok: "attributes_api_ok memAttributes (\<lambda>w arn. map_of (mget0 [] w arn))"
proof -
  have "(case find (\<lambda>a. ToString (fst a) = k) (map (\<lambda>(k, v). (Some k, Some v)) m) of
      Some x \<Rightarrow> Some (ToString (snd x)) | None \<Rightarrow> None) = map_of m k" for k and m :: string_map
    by (induction m) auto
  then have "map_of (mbuild (\<lambda>a. ToString (fst a)) (\<lambda>a. ToString (snd a))
      (map (\<lambda>(k, v). (Some k, Some v)) (rev m)) []) = map_of m" for m :: string_map
    by (intro ext) (simp add: mget_mbuild rev_map cong: option.case_cong)
  then show ?thesis by (auto simp: attributes_api_ok_def memAttributes_def fun_eq_iff)
qed

definition memAttributesCloud :: "(string option, string_map) gomap" where
  "memAttributesCloud = [(Some ''tg'', [(''slow_start'', ''0''), (''stickiness.enabled'', ''false'')])]"

lemma memAttributes_run:
  "fst (Attributes_Reconcile memAttributes [(''slow_start'', ''30'')] (Some ''tg'') memAttributesCloud) = Inr ()"
  by code_simp

theorem Attributes_Reconcile_converges_witness:
  "\<exists>w'. Attributes_Reconcile memAttributes [(''slow_start'', ''30'')] (Some ''tg'') memAttributesCloud = (Inr (), w')
     \<and> map_of (mget0 [] w' (Some ''tg'')) =
         map_of (mget0 [] memAttributesCloud (Some ''tg'')) ++ map_of (getDesiredAttributes [(''slow_start'', ''30'')])"
proof -
  obtain w' where run: "Attributes_Reconcile memAttributes [(''slow_start'', ''30'')] (Some ''tg'') memAttributesCloud
      = (Inr (), w')"
    using memAttributes_run by (metis prod.collapse)
  then show ?thesis using Attributes_Reconcile_converges [OF memAttributes_ok run] by simp
qed

end
