(* ===== verification/Target_Group.thy ===== *)
theory Target_Group
  imports Matching Attributes
begin

text \<open>
  Target groups: the resource (\<^verbatim>\<open>pkg/model/elbv2/target_group.go\<close>), the manager that creates,
  updates and deletes one (\<^verbatim>\<open>pkg/deploy/elbv2/target_group_manager.go\<close>) and the synthesizer that
  brings those of a stack in line (\<^verbatim>\<open>pkg/deploy/elbv2/target_group_synthesizer.go\<close>).

  Go's string enumerations are strings, pointers are options, and an SDK object has the fields
  the sources read. The calls of the API are parameters (\<open>target_group_api\<close>).
\<close>

section \<open>The resource\<close>

datatype IntOrString = IntVal int | StrVal string

fun IntOrString_String :: "IntOrString \<Rightarrow> string" where
  "IntOrString_String (IntVal i) = Itoa i"
| "IntOrString_String (StrVal s) = s"

record HealthCheckMatcher =
  HTTPCode :: "string option"
  GRPCCode :: "string option"

record TargetGroupHealthCheckConfig =
  HCPort :: "IntOrString option"
  HCProtocol :: string
  HCPath :: "string option"
  HCMatcher :: "HealthCheckMatcher option"
  IntervalSeconds :: "int option"
  TimeoutSeconds :: "int option"
  HealthyThresholdCount :: "int option"
  UnhealthyThresholdCount :: "int option"

record TargetGroupSpec =
  TGName :: string
  TargetType :: string
  TGPort :: "int option"
  TGProtocol :: string
  ProtocolVersion :: "string option"
  TGIPAddressType :: string
  HealthCheckConfig :: "TargetGroupHealthCheckConfig option"
  TargetGroupAttributes :: "(string \<times> string) list"
  TGTags :: string_map
  TargetControlPort :: "int option"

record TargetGroup =
  tgStack :: StackID
  tgID :: string
  tgSpec :: TargetGroupSpec

type_synonym TargetGroupStatus = string

section \<open>The SDK objects and calls\<close>

record sdkTargetGroup =
  sTargetType :: string
  sProtocol :: string
  sProtocolVersion :: "string option"
  sTargetControlPort :: "int option"
  sHealthCheckPort :: "string option"
  sHealthCheckProtocol :: string
  sHealthCheckPath :: "string option"
  sMatcher :: "HealthCheckMatcher option"
  sHealthCheckIntervalSeconds :: "int option"
  sHealthCheckTimeoutSeconds :: "int option"
  sHealthyThresholdCount :: "int option"
  sUnhealthyThresholdCount :: "int option"

type_synonym TargetGroupWithTags = "sdkTargetGroup WithTags"

record ModifyTargetGroupInput =
  iTargetGroupArn :: "string option"
  iHealthCheckEnabled :: "bool option"
  iHealthCheckPort :: "string option"
  iHealthCheckProtocol :: string
  iHealthCheckPath :: "string option"
  iMatcher :: "HealthCheckMatcher option"
  iHealthCheckIntervalSeconds :: "int option"
  iHealthCheckTimeoutSeconds :: "int option"
  iHealthyThresholdCount :: "int option"
  iUnhealthyThresholdCount :: "int option"

record CreateTargetGroupInput =
  cName :: string
  cTargetType :: string
  cPort :: "int option"
  cProtocol :: string
  cTargetControlPort :: "int option"
  cIpAddressType :: string
  cProtocolVersion :: "string option"
  cHealthCheck :: ModifyTargetGroupInput
  cVpcId :: string
  cTags :: "SDKTag list"

record 'w target_group_api =
  CreateTargetGroup :: "CreateTargetGroupInput \<Rightarrow> ('w, sdkTargetGroup described list) io"
  ModifyTargetGroup :: "ModifyTargetGroupInput \<Rightarrow> ('w, unit) io"
  DeleteTargetGroup :: "string option \<Rightarrow> ('w, unit) io"
  TGAttributes :: "'w attributes_api"

section \<open>The manager\<close>

text \<open>\<open>awssdk.ToInt32\<close>\<close>

definition ToInt32 :: "int option \<Rightarrow> int" where
  "ToInt32 p = (case p of None \<Rightarrow> 0 | Some i \<Rightarrow> i)"

definition buildSDKMatcher :: "HealthCheckMatcher \<Rightarrow> HealthCheckMatcher" where
  "buildSDKMatcher m = \<lparr>HTTPCode = HTTPCode m, GRPCCode = GRPCCode m\<rparr>"

definition buildSDKModifyTargetGroupInput :: "TargetGroupSpec \<Rightarrow> ModifyTargetGroupInput" where
  "buildSDKModifyTargetGroupInput spec =
     (case HealthCheckConfig spec of
        None \<Rightarrow>
          \<lparr>iTargetGroupArn = None, iHealthCheckEnabled = None, iHealthCheckPort = None,
           iHealthCheckProtocol = '''', iHealthCheckPath = None, iMatcher = None,
           iHealthCheckIntervalSeconds = None, iHealthCheckTimeoutSeconds = None,
           iHealthyThresholdCount = None, iUnhealthyThresholdCount = None\<rparr>
      | Some hc \<Rightarrow>
          \<lparr>iTargetGroupArn = None, iHealthCheckEnabled = Some True,
           iHealthCheckPort = map_option IntOrString_String (HCPort hc),
           iHealthCheckProtocol = HCProtocol hc, iHealthCheckPath = HCPath hc,
           iMatcher = map_option buildSDKMatcher (HCMatcher hc),
           iHealthCheckIntervalSeconds = IntervalSeconds hc,
           iHealthCheckTimeoutSeconds = TimeoutSeconds hc,
           iHealthyThresholdCount = HealthyThresholdCount hc,
           iUnhealthyThresholdCount = UnhealthyThresholdCount hc\<rparr>)"

text \<open>
  The health check fields of the create request are those of the modify request; the two builders
  of the sources fill them with the same statements.
\<close>

definition buildSDKCreateTargetGroupInput :: "TargetGroupSpec \<Rightarrow> CreateTargetGroupInput" where
  "buildSDKCreateTargetGroupInput spec =
     \<lparr>cName = TGName spec, cTargetType = TargetType spec, cPort = TGPort spec, cProtocol = TGProtocol spec,
      cTargetControlPort = TargetControlPort spec,
      cIpAddressType = (if TGIPAddressType spec \<noteq> ''ipv4'' then TGIPAddressType spec else ''''),
      cProtocolVersion = ProtocolVersion spec,
      cHealthCheck = buildSDKModifyTargetGroupInput spec,
      cVpcId = '''', cTags = []\<rparr>"

definition matcherDrifted :: "HealthCheckMatcher option \<Rightarrow> HealthCheckMatcher option \<Rightarrow> bool" where
  "matcherDrifted desired current =
     (case desired of
        None \<Rightarrow> False
      | Some d \<Rightarrow>
          (case current of
             None \<Rightarrow> True
           | Some c \<Rightarrow> ToString (GRPCCode d) \<noteq> ToString (GRPCCode c)
                  \<or> ToString (HTTPCode d) \<noteq> ToString (HTTPCode c)))"

definition int32Drifted :: "int option \<Rightarrow> int option \<Rightarrow> bool" where
  "int32Drifted desired current \<longleftrightarrow> desired \<noteq> None \<and> ToInt32 desired \<noteq> ToInt32 current"

definition isSDKTargetGroupHealthCheckDrifted :: "TargetGroupSpec \<Rightarrow> TargetGroupWithTags \<Rightarrow> bool" where
  "isSDKTargetGroupHealthCheckDrifted spec sdkTG =
     (case HealthCheckConfig spec of
        None \<Rightarrow> False
      | Some hc \<Rightarrow>
          (let obj = descObj (sdkObj sdkTG) in
             (HCPort hc \<noteq> None \<and> IntOrString_String (the (HCPort hc)) \<noteq> ToString (sHealthCheckPort obj))
           \<or> HCProtocol hc \<noteq> sHealthCheckProtocol obj
           \<or> (HCPath hc \<noteq> None \<and> ToString (HCPath hc) \<noteq> ToString (sHealthCheckPath obj))
           \<or> matcherDrifted (HCMatcher hc) (sMatcher obj)
           \<or> int32Drifted (IntervalSeconds hc) (sHealthCheckIntervalSeconds obj)
           \<or> int32Drifted (TimeoutSeconds hc) (sHealthCheckTimeoutSeconds obj)
           \<or> int32Drifted (HealthyThresholdCount hc) (sHealthyThresholdCount obj)
           \<or> int32Drifted (UnhealthyThresholdCount hc) (sUnhealthyThresholdCount obj)))"

definition buildResTargetGroupStatus :: "TargetGroupWithTags \<Rightarrow> TargetGroupStatus" where
  "buildResTargetGroupStatus sdkTG = ToString (descArn (sdkObj sdkTG))"

definition isTargetGroupResourceInUseError :: "go_error \<Rightarrow> bool" where
  "isTargetGroupResourceInUseError err \<longleftrightarrow>
     errorCode err = Some ''ResourceInUseException'' \<or> errorCode err = Some ''ResourceInUse''"

record ('lb, 'tg, 'ls, 'lr, 'w) elbv2_deps =
  taggingApi :: "('lb, 'tg, 'ls, 'lr, 'w) elbv2_tagging"
  taggingCfg :: taggingConfig
  trackingProvider :: defaultProvider
  externalManagedTags :: "string list"
  depVpcID :: string
  deletionPolls :: nat

definition updateSDKTargetGroupWithTags :: "('lb, 'tg, 'ls, 'lr, 'w) elbv2_deps \<Rightarrow> TargetGroup \<Rightarrow>
    TargetGroupWithTags \<Rightarrow> ('w taggingManager, unit) io" where
  "updateSDKTargetGroupWithTags m resTG sdkTG =
     ReconcileTags (taggingApi m) (taggingCfg m) (ToString (descArn (sdkObj sdkTG)))
       (ResourceTags (trackingProvider m) (tgStack resTG) (tgID resTG) (TGTags (tgSpec resTG)))
       [WithCurrentTags (sdkTags sdkTG), WithIgnoredTagKeys (LegacyTagKeys (trackingProvider m)),
        WithIgnoredTagKeys (externalManagedTags m)]"

definition updateSDKTargetGroupWithHealthCheck :: "'w target_group_api \<Rightarrow> TargetGroup \<Rightarrow>
    TargetGroupWithTags \<Rightarrow> ('w taggingManager, unit) io" where
  "updateSDKTargetGroupWithHealthCheck api resTG sdkTG =
     (if \<not> isSDKTargetGroupHealthCheckDrifted (tgSpec resTG) sdkTG then io_ret ()
      else onTagCloud (ModifyTargetGroup api
             ((buildSDKModifyTargetGroupInput (tgSpec resTG))\<lparr>iTargetGroupArn := descArn (sdkObj sdkTG)\<rparr>)))"

text \<open>\<open>resp.TargetGroups[0]\<close> panics when the response is empty.\<close>

definition TargetGroupManager_Create :: "'w target_group_api \<Rightarrow> ('lb, 'tg, 'ls, 'lr, 'w) elbv2_deps \<Rightarrow> TargetGroup \<Rightarrow>
    ('w taggingManager, TargetGroupStatus) io" where
  "TargetGroupManager_Create api m resTG =
     (let tgTags = ResourceTags (trackingProvider m) (tgStack resTG) (tgID resTG) (TGTags (tgSpec resTG));
          req = (buildSDKCreateTargetGroupInput (tgSpec resTG))
                  \<lparr>cVpcId := depVpcID m, cTags := convertTagsToSDKTags tgTags\<rparr>
      in io_bind (onTagCloud (CreateTargetGroup api req)) (\<lambda>resp.
           case resp of
             [] \<Rightarrow> io_fail (Errorf ''panic: index out of range'' [])
           | tg # _ \<Rightarrow>
               (let sdkTG = \<lparr>sdkObj = tg, sdkTags = Some tgTags\<rparr>
                in io_bind (onTagCloud (Attributes_Reconcile (TGAttributes api)
                              (TargetGroupAttributes (tgSpec resTG)) (descArn tg))) (\<lambda>_.
                   io_ret (buildResTargetGroupStatus sdkTG)))))"

definition TargetGroupManager_Update :: "'w target_group_api \<Rightarrow> ('lb, 'tg, 'ls, 'lr, 'w) elbv2_deps \<Rightarrow> TargetGroup \<Rightarrow>
    TargetGroupWithTags \<Rightarrow> ('w taggingManager, TargetGroupStatus) io" where
  "TargetGroupManager_Update api m resTG sdkTG =
     io_bind (updateSDKTargetGroupWithTags m resTG sdkTG) (\<lambda>_.
     io_bind (updateSDKTargetGroupWithHealthCheck api resTG sdkTG) (\<lambda>_.
     io_bind (onTagCloud (Attributes_Reconcile (TGAttributes api)
                (TargetGroupAttributes (tgSpec resTG)) (descArn (sdkObj sdkTG)))) (\<lambda>_.
     io_ret (buildResTargetGroupStatus sdkTG))))"

definition TargetGroupManager_Delete :: "'w target_group_api \<Rightarrow> ('lb, 'tg, 'ls, 'lr, 'w) elbv2_deps \<Rightarrow>
    TargetGroupWithTags \<Rightarrow> ('w taggingManager, unit) io" where
  "TargetGroupManager_Delete api m sdkTG w =
     (case RetryImmediateOnError (deletionPolls m) isTargetGroupResourceInUseError
             (onTagCloud (DeleteTargetGroup api (descArn (sdkObj sdkTG)))) w of
        (Inl err, w') \<Rightarrow> (Inl (Wrapped ''failed to delete targetGroup'' err), w')
      | (Inr _, w') \<Rightarrow> (Inr (), w'))"

definition targetGroupManager :: "'w target_group_api \<Rightarrow> ('lb, 'tg, 'ls, 'lr, 'w) elbv2_deps \<Rightarrow>
    (TargetGroup, TargetGroupWithTags, TargetGroupStatus, 'w taggingManager) resource_manager" where
  "targetGroupManager api m = \<lparr>mCreate = TargetGroupManager_Create api m, mUpdate = TargetGroupManager_Update api m,
     mDelete = TargetGroupManager_Delete api m\<rparr>"

section \<open>The synthesizer\<close>

definition isSDKTargetGroupTargetControlPortDrifted :: "TargetGroupSpec \<Rightarrow> TargetGroupWithTags \<Rightarrow> bool" where
  "isSDKTargetGroupTargetControlPortDrifted spec sdkTG =
     (let desiredPort = TargetControlPort spec; currentPort = sTargetControlPort (descObj (sdkObj sdkTG))
      in if desiredPort = None \<and> currentPort = None then False
         else if (desiredPort = None) \<noteq> (currentPort = None) then True
         else ToInt32 desiredPort \<noteq> ToInt32 currentPort)"

definition isL4TargetGroup :: "string \<Rightarrow> bool" where
  "isL4TargetGroup protocol \<longleftrightarrow>
     protocol \<in> {''TCP'', ''UDP'', ''TLS'', ''QUIC'', ''TCP_QUIC'', ''TCP_UDP''}"

definition isSDKTargetGroupRequiresReplacementDueToNLBHealthCheck ::
    "TargetGroupWithTags \<Rightarrow> TargetGroup \<Rightarrow> defaultFeatureGates \<Rightarrow> bool" where
  "isSDKTargetGroupRequiresReplacementDueToNLBHealthCheck sdkTG resTG gates =
     (case HealthCheckConfig (tgSpec resTG) of
        None \<Rightarrow> False
      | Some hc \<Rightarrow>
          if \<not> isL4TargetGroup (TGProtocol (tgSpec resTG)) \<or> Enabled gates ''NLBHealthCheckAdvancedConfig'' then False
          else (let obj = descObj (sdkObj sdkTG) in
                  HCProtocol hc \<noteq> sHealthCheckProtocol obj
                \<or> matcherDrifted (HCMatcher hc) (sMatcher obj)
                \<or> int32Drifted (IntervalSeconds hc) (sHealthCheckIntervalSeconds obj)
                \<or> int32Drifted (TimeoutSeconds hc) (sHealthCheckTimeoutSeconds obj)))"

definition isSDKTargetGroupRequiresReplacement :: "defaultFeatureGates \<Rightarrow> TargetGroupWithTags \<Rightarrow> TargetGroup \<Rightarrow> bool" where
  "isSDKTargetGroupRequiresReplacement gates sdkTG resTG =
     (let obj = descObj (sdkObj sdkTG); spec = tgSpec resTG in
        TargetType spec \<noteq> sTargetType obj
      \<or> TGProtocol spec \<noteq> sProtocol obj
      \<or> (ProtocolVersion spec \<noteq> None \<and> ToString (ProtocolVersion spec) \<noteq> ToString (sProtocolVersion obj))
      \<or> isSDKTargetGroupTargetControlPortDrifted spec sdkTG
      \<or> isSDKTargetGroupRequiresReplacementDueToNLBHealthCheck sdkTG resTG gates)"

definition mapResTargetGroupByResourceID :: "TargetGroup list \<Rightarrow> (string, TargetGroup) gomap" where
  "mapResTargetGroupByResourceID resTGs = mbuild tgID (\<lambda>resTG. resTG) resTGs []"

definition mapSDKTargetGroupByResourceID :: "TargetGroupWithTags list \<Rightarrow> string \<Rightarrow>
    (string, TargetGroupWithTags list) gomap res" where
  "mapSDKTargetGroupByResourceID sdkTGs resourceIDTagKey =
     groupByTag (\<lambda>tg. mapOf (sdkTags tg))
       (\<lambda>tg. Errorf ''unexpected targetGroup with no resourceID: %v'' [ToString (descArn (sdkObj tg))])
       resourceIDTagKey sdkTGs []"

definition matchResAndSDKTargetGroups :: "defaultFeatureGates \<Rightarrow> string \<Rightarrow> TargetGroup list \<Rightarrow> TargetGroupWithTags list \<Rightarrow>
    ((TargetGroup \<times> TargetGroupWithTags) list \<times> TargetGroup list \<times> TargetGroupWithTags list) res" where
  "matchResAndSDKTargetGroups gates resourceIDTagKey resTGs sdkTGs =
     res_bind (mapSDKTargetGroupByResourceID sdkTGs resourceIDTagKey) (\<lambda>sdkTGsByID.
       Inr (matchByID (isSDKTargetGroupRequiresReplacement gates) (mapResTargetGroupByResourceID resTGs) sdkTGsByID))"

definition TargetGroup_Synthesize :: "defaultFeatureGates \<Rightarrow> string \<Rightarrow>
    (TargetGroup, TargetGroupWithTags, TargetGroupStatus, 'w) resource_manager \<Rightarrow> ('w, TargetGroupWithTags list) io \<Rightarrow>
    TargetGroup list \<Rightarrow> ((TargetGroupWithTags, TargetGroupStatus, 'w) synth, unit) io" where
  "TargetGroup_Synthesize gates resourceIDTagKey mgr findSDKTargetGroups resTGs =
     io_bind (onCloud findSDKTargetGroups) (\<lambda>sdkTGs.
     io_bind (io_lift (matchResAndSDKTargetGroups gates resourceIDTagKey resTGs sdkTGs)) (\<lambda>(matched, unmatchedRes, unmatched).
     io_bind (\<lambda>\<sigma>. (Inr (), \<sigma>\<lparr>deferred := unmatched\<rparr>)) (\<lambda>_.
     io_bind (io_iter (createRes mgr tgID) unmatchedRes) (\<lambda>_.
     io_iter (updateRes mgr tgID) matched))))"

definition TargetGroup_PostSynthesize :: "(TargetGroup, TargetGroupWithTags, TargetGroupStatus, 'w) resource_manager \<Rightarrow>
    ((TargetGroupWithTags, TargetGroupStatus, 'w) synth, unit) io" where
  "TargetGroup_PostSynthesize mgr \<sigma> = io_iter (\<lambda>sdkTG. onCloud (mDelete mgr sdkTG)) (deferred \<sigma>) \<sigma>"

section \<open>Correctness of the synthesizer\<close>

abbreviation tgKey :: "string \<Rightarrow> TargetGroupWithTags \<Rightarrow> string option" where
  "tgKey tagKey tg \<equiv> mget (mapOf (sdkTags tg)) tagKey"

interpretation tg: matcher tgID "tgKey tagKey" "\<lambda>s r. \<not> isSDKTargetGroupRequiresReplacement gates s r"
    "\<lambda>ss. \<forall>s \<in> set ss. tgKey tagKey s \<noteq> None" "matchResAndSDKTargetGroups gates tagKey"
  for tagKey gates
proof
  fix rs :: "TargetGroup list" and ss :: "TargetGroupWithTags list"
  assume "distinct (map tgID rs)" "\<forall>s \<in> set ss. tgKey tagKey s \<noteq> None"
  then show "\<exists>p. matchResAndSDKTargetGroups gates tagKey rs ss = Inr p
      \<and> matching tgID (tgKey tagKey) (\<lambda>s r. \<not> isSDKTargetGroupRequiresReplacement gates s r) rs ss p"
    unfolding matchResAndSDKTargetGroups_def mapSDKTargetGroupByResourceID_def mapResTargetGroupByResourceID_def
    by (rule matchByTag_matching)
qed

text \<open>
  C16. One run of the target group synthesizer: it pairs the target groups of the cloud with the
  resources of the stack by resource ID, creates a target group for exactly the resources that have
  none that can be kept, updates every pair, in that order and stopping at the first failing call,
  and leaves the deletion of exactly the target groups it could not pair to the post-synthesis
  phase, when no listener or rule refers to them any more. In particular a second run over a cloud
  in which every resource has its one target group creates and deletes nothing.
\<close>

theorem TargetGroup_synthesis:
  assumes "distinct (map tgID rs)" "findTGs (cloud \<sigma>) = (Inr ss, w)" "\<forall>s \<in> set ss. tgKey tagKey s \<noteq> None"
  shows "\<exists>m ur us.
     matching tgID (tgKey tagKey) (\<lambda>s r. \<not> isSDKTargetGroupRequiresReplacement gates s r) rs ss (m, ur, us)
   \<and> TargetGroup_Synthesize gates tagKey mgr findTGs rs \<sigma> =
       runPlan mgr tgID (map CallCreate ur @ map (\<lambda>(r, s). CallUpdate r s) m) (\<sigma>\<lparr>cloud := w, deferred := us\<rparr>)
   \<and> TargetGroup_PostSynthesize mgr (snd (TargetGroup_Synthesize gates tagKey mgr findTGs rs \<sigma>)) =
       runPlan mgr tgID (map CallDelete us) (snd (TargetGroup_Synthesize gates tagKey mgr findTGs rs \<sigma>))
   \<and> ((\<forall>r \<in> set rs. \<exists>s \<in> set ss. tgKey tagKey s = Some (tgID r) \<and> \<not> isSDKTargetGroupRequiresReplacement gates s r)
      \<and> (\<forall>s \<in> set ss. \<exists>r \<in> set rs. tgKey tagKey s = Some (tgID r) \<and> \<not> isSDKTargetGroupRequiresReplacement gates s r)
      \<and> distinct (map (tgKey tagKey) ss) \<longrightarrow> ur = [] \<and> us = [])"
proof -
  obtain m ur us where p: "matchResAndSDKTargetGroups gates tagKey rs ss = Inr (m, ur, us)"
    "matching tgID (tgKey tagKey) (\<lambda>s r. \<not> isSDKTargetGroupRequiresReplacement gates s r) rs ss (m, ur, us)"
    using tg.match_ok [OF assms(1,3)] by (metis prod_cases3)
  let ?plan = "map CallCreate ur @ map (\<lambda>(r, s). CallUpdate r s) m"
  have run: "TargetGroup_Synthesize gates tagKey mgr findTGs rs \<sigma> = runPlan mgr tgID ?plan (\<sigma>\<lparr>cloud := w, deferred := us\<rparr>)"
    using assms(2) p(1) by (simp add: TargetGroup_Synthesize_def io_bind_def [of "onCloud findTGs"] onCloud_def
        io_bind_def [of "io_lift _"] io_bind_def [of "\<lambda>\<sigma>. (Inr (), \<sigma>\<lparr>deferred := _\<rparr>)"] runPlan_create_update)
  have "deferred (snd (runPlan mgr tgID ?plan (\<sigma>\<lparr>cloud := w, deferred := us\<rparr>))) = us"
    using runPlan_deferred [of mgr tgID ?plan "\<sigma>\<lparr>cloud := w, deferred := us\<rparr>"] by (metis prod.collapse
        synth.select_convs(1) synth.surjective synth.update_convs(1))
  then have "TargetGroup_PostSynthesize mgr (snd (TargetGroup_Synthesize gates tagKey mgr findTGs rs \<sigma>)) =
      runPlan mgr tgID (map CallDelete us) (snd (TargetGroup_Synthesize gates tagKey mgr findTGs rs \<sigma>))"
    by (simp add: TargetGroup_PostSynthesize_def run runPlan_deletes)
  then show ?thesis using p(2) run tg.match_steady [OF assms(1,3) p(1)] by blast
qed

text \<open>Example resources and a manager that logs its calls, for the witnesses.\<close>

definition exTGSpec :: TargetGroupSpec where
  "exTGSpec = \<lparr>TGName = ''k8s-tg'', TargetType = ''ip'', TGPort = Some 80, TGProtocol = ''TCP'',
     ProtocolVersion = None, TGIPAddressType = ''ipv4'',
     HealthCheckConfig = Some \<lparr>HCPort = Some (IntVal 8080), HCProtocol = ''HTTP'', HCPath = Some ''/ok'',
       HCMatcher = Some \<lparr>HTTPCode = Some ''200'', GRPCCode = None\<rparr>, IntervalSeconds = Some 10,
       TimeoutSeconds = None, HealthyThresholdCount = Some 3, UnhealthyThresholdCount = None\<rparr>,
     TargetGroupAttributes = [], TGTags = [], TargetControlPort = None\<rparr>"

definition exTG :: "string \<Rightarrow> TargetGroup" where
  "exTG i = \<lparr>tgStack = \<lparr>Namespace = ''ns'', Name = ''svc''\<rparr>, tgID = i, tgSpec = exTGSpec\<rparr>"

definition exSDKTG :: "string \<Rightarrow> string \<Rightarrow> string \<Rightarrow> TargetGroupWithTags" where
  "exSDKTG i arn tt = \<lparr>sdkObj = \<lparr>descArn = Some arn, descVpcId = None, descObj =
     \<lparr>sTargetType = tt, sProtocol = ''TCP'', sProtocolVersion = None, sTargetControlPort = None,
      sHealthCheckPort = Some ''8080'', sHealthCheckProtocol = ''HTTP'', sHealthCheckPath = Some ''/ok'',
      sMatcher = Some \<lparr>HTTPCode = Some ''200'', GRPCCode = None\<rparr>, sHealthCheckIntervalSeconds = Some 10,
      sHealthCheckTimeoutSeconds = Some 6, sHealthyThresholdCount = Some 3, sUnhealthyThresholdCount = Some 3\<rparr>\<rparr>,
     sdkTags = Some [(''service.k8s.aws/resource'', i)]\<rparr>"

definition logManager :: "('r \<Rightarrow> 'st) \<Rightarrow> ('r, 's, 'st, ('r, 's) call list) resource_manager" where
  "logManager st = \<lparr>mCreate = (\<lambda>r w. (Inr (st r), w @ [CallCreate r])),
     mUpdate = (\<lambda>r s w. (Inr (st r), w @ [CallUpdate r s])),
     mDelete = (\<lambda>s w. (Inr (), w @ [CallDelete s]))\<rparr>"

theorem TargetGroup_synthesis_witness:
  "\<exists>m ur us.
     matching tgID (tgKey ''service.k8s.aws/resource'')
       (\<lambda>s r. \<not> isSDKTargetGroupRequiresReplacement NewFeatureGates s r)
       [exTG ''a'', exTG ''b''] [exSDKTG ''a'' ''arn1'' ''ip'', exSDKTG ''b'' ''arn2'' ''instance''] (m, ur, us)
   \<and> TargetGroup_Synthesize NewFeatureGates ''service.k8s.aws/resource'' (logManager tgID)
       (\<lambda>w. (Inr [exSDKTG ''a'' ''arn1'' ''ip'', exSDKTG ''b'' ''arn2'' ''instance''], w)) [exTG ''a'', exTG ''b'']
       \<lparr>deferred = [], statuses = [], cloud = []\<rparr> =
       runPlan (logManager tgID) tgID (map CallCreate ur @ map (\<lambda>(r, s). CallUpdate r s) m)
         \<lparr>deferred = us, statuses = [], cloud = []\<rparr>"
  using TargetGroup_synthesis [of "[exTG ''a'', exTG ''b'']"
      "\<lambda>w. (Inr [exSDKTG ''a'' ''arn1'' ''ip'', exSDKTG ''b'' ''arn2'' ''instance''], w)"
      "\<lparr>deferred = [], statuses = [], cloud = []\<rparr>"
      "[exSDKTG ''a'' ''arn1'' ''ip'', exSDKTG ''b'' ''arn2'' ''instance'']" "[]"
      "''service.k8s.aws/resource''" NewFeatureGates "logManager tgID"]
  by (fastforce simp: exTG_def exSDKTG_def)

text \<open>
  An object without the resource-ID tag ends the run with an error that names it, before any
  change to the cloud.
\<close>

theorem TargetGroup_untagged:
  assumes "findTGs (cloud \<sigma>) = (Inr ss, w)" "s \<in> set ss" "tgKey tagKey s = None"
  shows "\<exists>s' \<in> set ss. tgKey tagKey s' = None
     \<and> TargetGroup_Synthesize gates tagKey mgr findTGs rs \<sigma> =
         (Inl (Errorf ''unexpected targetGroup with no resourceID: %v'' [ToString (descArn (sdkObj s'))]),
          \<sigma>\<lparr>cloud := w\<rparr>)"
proof -
  obtain s' where s': "s' \<in> set ss" "tgKey tagKey s' = None"
      "mapSDKTargetGroupByResourceID ss tagKey =
         Inl (Errorf ''unexpected targetGroup with no resourceID: %v'' [ToString (descArn (sdkObj s'))])"
    using groupByTag_err [OF assms(2), of "\<lambda>tg. mapOf (sdkTags tg)" tagKey] assms(3)
    unfolding mapSDKTargetGroupByResourceID_def by blast
  then show ?thesis using assms(1)
    by (intro bexI [of _ s']) (simp_all add: TargetGroup_Synthesize_def io_bind_def onCloud_def
        matchResAndSDKTargetGroups_def)
qed

theorem TargetGroup_untagged_witness:
  "\<exists>s' \<in> set [(exSDKTG ''a'' ''arn1'' ''ip'')\<lparr>sdkTags := None\<rparr>]. tgKey ''k'' s' = None
     \<and> TargetGroup_Synthesize NewFeatureGates ''k'' (logManager tgID)
         (\<lambda>w. (Inr [(exSDKTG ''a'' ''arn1'' ''ip'')\<lparr>sdkTags := None\<rparr>], w)) [exTG ''a'']
         \<lparr>deferred = [], statuses = [], cloud = []\<rparr> =
         (Inl (Errorf ''unexpected targetGroup with no resourceID: %v'' [ToString (descArn (sdkObj s'))]),
          \<lparr>deferred = [], statuses = [], cloud = []\<rparr>)"
  using TargetGroup_untagged [of "\<lambda>w. (Inr [(exSDKTG ''a'' ''arn1'' ''ip'')\<lparr>sdkTags := None\<rparr>], w)"
      "\<lparr>deferred = [], statuses = [], cloud = []\<rparr>" "[(exSDKTG ''a'' ''arn1'' ''ip'')\<lparr>sdkTags := None\<rparr>]" "[]"
      "(exSDKTG ''a'' ''arn1'' ''ip'')\<lparr>sdkTags := None\<rparr>" "''k''" NewFeatureGates "logManager tgID" "[exTG ''a'']"]
  by simp

section \<open>A created target group is stable\<close>

text \<open>
  What the API documents of a created target group: it has the settings that the request gives
  (and defaults for the others).
\<close>

definition echoes :: "CreateTargetGroupInput \<Rightarrow> sdkTargetGroup \<Rightarrow> bool" where
  "echoes req obj \<longleftrightarrow>
     sTargetType obj = cTargetType req \<and> sProtocol obj = cProtocol req
   \<and> (cProtocolVersion req \<noteq> None \<longrightarrow> sProtocolVersion obj = cProtocolVersion req)
   \<and> sTargetControlPort obj = cTargetControlPort req
   \<and> (iHealthCheckEnabled (cHealthCheck req) = Some True \<longrightarrow>
        sHealthCheckProtocol obj = iHealthCheckProtocol (cHealthCheck req)
      \<and> (iHealthCheckPort (cHealthCheck req) \<noteq> None \<longrightarrow> sHealthCheckPort obj = iHealthCheckPort (cHealthCheck req))
      \<and> (iHealthCheckPath (cHealthCheck req) \<noteq> None \<longrightarrow> sHealthCheckPath obj = iHealthCheckPath (cHealthCheck req))
      \<and> (iMatcher (cHealthCheck req) \<noteq> None \<longrightarrow> sMatcher obj = iMatcher (cHealthCheck req))
      \<and> (iHealthCheckIntervalSeconds (cHealthCheck req) \<noteq> None \<longrightarrow>
           sHealthCheckIntervalSeconds obj = iHealthCheckIntervalSeconds (cHealthCheck req))
      \<and> (iHealthCheckTimeoutSeconds (cHealthCheck req) \<noteq> None \<longrightarrow>
           sHealthCheckTimeoutSeconds obj = iHealthCheckTimeoutSeconds (cHealthCheck req))
      \<and> (iHealthyThresholdCount (cHealthCheck req) \<noteq> None \<longrightarrow>
           sHealthyThresholdCount obj = iHealthyThresholdCount (cHealthCheck req))
      \<and> (iUnhealthyThresholdCount (cHealthCheck req) \<noteq> None \<longrightarrow>
           sUnhealthyThresholdCount obj = iUnhealthyThresholdCount (cHealthCheck req)))"

lemmas drift_defs = matcherDrifted_def int32Drifted_def buildSDKMatcher_def

text \<open>
  C31. A target group that the API creates from the request of a resource fulfils that resource: the
  next run neither replaces it nor modifies its health check, so a stack does not flap.
\<close>

theorem created_target_group_stable:
  assumes "echoes (buildSDKCreateTargetGroupInput (tgSpec resTG)) (descObj (sdkObj sdkTG))"
  shows "\<not> isSDKTargetGroupRequiresReplacement gates sdkTG resTG
     \<and> \<not> isSDKTargetGroupHealthCheckDrifted (tgSpec resTG) sdkTG"
proof (cases "HealthCheckConfig (tgSpec resTG)")
  case None
  then show ?thesis using assms
    by (auto simp: echoes_def buildSDKCreateTargetGroupInput_def buildSDKModifyTargetGroupInput_def
        isSDKTargetGroupRequiresReplacement_def isSDKTargetGroupTargetControlPortDrifted_def Let_def
        isSDKTargetGroupRequiresReplacementDueToNLBHealthCheck_def isSDKTargetGroupHealthCheckDrifted_def)
next
  case (Some hc)
  let ?o = "descObj (sdkObj sdkTG)"
  have E: "sTargetType ?o = TargetType (tgSpec resTG)" "sProtocol ?o = TGProtocol (tgSpec resTG)"
    "ProtocolVersion (tgSpec resTG) \<noteq> None \<longrightarrow> sProtocolVersion ?o = ProtocolVersion (tgSpec resTG)"
    "sTargetControlPort ?o = TargetControlPort (tgSpec resTG)" "sHealthCheckProtocol ?o = HCProtocol hc"
    "HCPort hc \<noteq> None \<longrightarrow> sHealthCheckPort ?o = map_option IntOrString_String (HCPort hc)"
    "HCPath hc \<noteq> None \<longrightarrow> sHealthCheckPath ?o = HCPath hc"
    "HCMatcher hc \<noteq> None \<longrightarrow> sMatcher ?o = map_option buildSDKMatcher (HCMatcher hc)"
    "IntervalSeconds hc \<noteq> None \<longrightarrow> sHealthCheckIntervalSeconds ?o = IntervalSeconds hc"
    "TimeoutSeconds hc \<noteq> None \<longrightarrow> sHealthCheckTimeoutSeconds ?o = TimeoutSeconds hc"
    "HealthyThresholdCount hc \<noteq> None \<longrightarrow> sHealthyThresholdCount ?o = HealthyThresholdCount hc"
    "UnhealthyThresholdCount hc \<noteq> None \<longrightarrow> sUnhealthyThresholdCount ?o = UnhealthyThresholdCount hc"
    using assms by (simp_all add: echoes_def buildSDKCreateTargetGroupInput_def buildSDKModifyTargetGroupInput_def Some)
  have "\<not> matcherDrifted (HCMatcher hc) (sMatcher ?o)"
    using E(8) by (auto simp: drift_defs split: option.splits)
  moreover have "\<not> int32Drifted (IntervalSeconds hc) (sHealthCheckIntervalSeconds ?o)"
    "\<not> int32Drifted (TimeoutSeconds hc) (sHealthCheckTimeoutSeconds ?o)"
    "\<not> int32Drifted (HealthyThresholdCount hc) (sHealthyThresholdCount ?o)"
    "\<not> int32Drifted (UnhealthyThresholdCount hc) (sUnhealthyThresholdCount ?o)"
    using E(9-12) unfolding int32Drifted_def by metis+
  moreover have "HCPort hc = None \<or> IntOrString_String (the (HCPort hc)) = ToString (sHealthCheckPort ?o)"
    using E(6) by (cases "HCPort hc") auto
  moreover have "HCPath hc = None \<or> ToString (HCPath hc) = ToString (sHealthCheckPath ?o)"
    "ProtocolVersion (tgSpec resTG) = None \<or> ToString (ProtocolVersion (tgSpec resTG)) = ToString (sProtocolVersion ?o)"
    using E(3,7) by metis+
  moreover have "\<not> isSDKTargetGroupTargetControlPortDrifted (tgSpec resTG) sdkTG"
    using E(4) by (simp add: isSDKTargetGroupTargetControlPortDrifted_def Let_def)
  ultimately show ?thesis using Some E(1,2,5)
    by (simp add: isSDKTargetGroupRequiresReplacement_def Let_def
        isSDKTargetGroupRequiresReplacementDueToNLBHealthCheck_def isSDKTargetGroupHealthCheckDrifted_def)
qed

theorem created_target_group_stable_witness:
  "\<not> isSDKTargetGroupRequiresReplacement (Disable ''NLBHealthCheckAdvancedConfig'' NewFeatureGates)
       (exSDKTG ''a'' ''arn1'' ''ip'') (exTG ''a'')
     \<and> \<not> isSDKTargetGroupHealthCheckDrifted (tgSpec (exTG ''a'')) (exSDKTG ''a'' ''arn1'' ''ip'')"
proof -
  have "Itoa 8080 = ''8080''" by (simp add: Itoa_def nat_to_string_eval digit_char_def)
  then show ?thesis
    by (intro created_target_group_stable)
      (simp add: echoes_def exTG_def exTGSpec_def exSDKTG_def buildSDKCreateTargetGroupInput_def
        buildSDKModifyTargetGroupInput_def buildSDKMatcher_def)
qed

end
