(* ===== verification/Load_Balancer.thy ===== *)
theory Load_Balancer
  imports Target_Group
begin

text \<open>
  Load balancers: the resource (\<^verbatim>\<open>pkg/model/elbv2/load_balancer.go\<close>), its manager
  (\<^verbatim>\<open>pkg/deploy/elbv2/load_balancer_manager.go\<close>), the capacity reservation reconciler
  (\<^verbatim>\<open>load_balancer_capacity_reservation_reconciler.go\<close>) and the synthesizer
  (\<^verbatim>\<open>load_balancer_synthesizer.go\<close>).
\<close>

section \<open>The resource\<close>

text \<open>A string token at the moment it is resolved: its value or the error of resolving it.\<close>

type_synonym token = "string res"

record SubnetMapping =
  AllocationID :: "string option"
  PrivateIPv4Address :: "string option"
  IPv6Address :: "string option"
  SourceNatIpv6Prefix :: "string option"
  SubnetID :: string

record LoadBalancerSpec =
  LBName :: string
  LBType :: string
  Scheme :: string
  IPAddressType :: string
  EnablePrefixForIpv6SourceNat :: string
  SubnetMappings :: "SubnetMapping list"
  SecurityGroups :: "token list"
  SecurityGroupsInboundRulesOnPrivateLink :: "string option"
  CustomerOwnedIPv4Pool :: "string option"
  LoadBalancerAttributes :: "(string \<times> string) list"
  MinimumLoadBalancerCapacity :: "int option"
  LBTags :: string_map
  IPv4IPAMPool :: "string option"

record LoadBalancer =
  lbStack :: StackID
  lbID :: string
  lbSpec :: LoadBalancerSpec

record LoadBalancerStatus =
  LoadBalancerARN :: string
  DNSName :: string
  ProvisioningState :: "string option"

section \<open>The SDK objects and calls\<close>

record sdkAvailabilityZone =
  azSubnetId :: "string option"
  azSourceNatIpv6Prefixes :: "string list"
  azAddressesIPv6 :: "string option list"

record sdkLoadBalancer =
  sLBName :: "string option"
  sLBType :: string
  sScheme :: string
  sIpAddressType :: string
  sAvailabilityZones :: "sdkAvailabilityZone list"
  sEnablePrefixForIpv6SourceNat :: string
  sSecurityGroups :: "string list"
  sEnforceSecurityGroupInboundRules :: "string option"
  sCustomerOwnedIpv4Pool :: "string option"
  sIpamPools :: "string option option"
  sDNSName :: "string option"
  sState :: "string option"

type_synonym LoadBalancerWithTags = "sdkLoadBalancer WithTags"

record CreateLoadBalancerInput =
  clName :: string
  clType :: string
  clScheme :: string
  clIpAddressType :: string
  clSubnetMappings :: "SubnetMapping list"
  clSecurityGroups :: "string list"
  clEnablePrefixForIpv6SourceNat :: string
  clIpamPools :: "string option"
  clCustomerOwnedIpv4Pool :: "string option"
  clTags :: "SDKTag list"

record 'w load_balancer_api =
  CreateLoadBalancer :: "CreateLoadBalancerInput \<Rightarrow> ('w, sdkLoadBalancer described list) io"
  DeleteLoadBalancer :: "string option \<Rightarrow> ('w, unit) io"
  SetIpAddressType :: "string option \<Rightarrow> string \<Rightarrow> ('w, unit) io"
  SetSubnets :: "string option \<Rightarrow> SubnetMapping list \<Rightarrow> string option \<Rightarrow> ('w, unit) io"
  SetSecurityGroups :: "string option \<Rightarrow> string list \<Rightarrow> string option \<Rightarrow> ('w, unit) io"
  RemoveIpamPools :: "string option \<Rightarrow> ('w, unit) io"
  AddIpamPool :: "string option \<Rightarrow> string option \<Rightarrow> ('w, unit) io"
  DescribeLB :: "string \<Rightarrow> ('w, sdkLoadBalancer described list) io"
  DescribeCapacityReservation :: "string option \<Rightarrow> ('w, string list \<times> int option option) io"
  ModifyCapacityReservation :: "string option \<Rightarrow> int option \<Rightarrow> ('w, unit) io"
  LBAttributes :: "'w attributes_api"

section \<open>The manager\<close>

fun resolveAll :: "token list \<Rightarrow> string list res" where
  "resolveAll [] = Inr []"
| "resolveAll (t # ts) = res_bind t (\<lambda>s. res_bind (resolveAll ts) (\<lambda>ss. Inr (s # ss)))"

definition buildSDKSecurityGroups :: "token list \<Rightarrow> string list res" where
  "buildSDKSecurityGroups modelSecurityGroups = resolveAll modelSecurityGroups"

definition buildSDKSubnetMapping :: "SubnetMapping \<Rightarrow> SubnetMapping" where
  "buildSDKSubnetMapping m = \<lparr>AllocationID = AllocationID m, PrivateIPv4Address = PrivateIPv4Address m,
     IPv6Address = IPv6Address m, SourceNatIpv6Prefix = SourceNatIpv6Prefix m, SubnetID = SubnetID m\<rparr>"

definition buildSDKSubnetMappings :: "SubnetMapping list \<Rightarrow> SubnetMapping list" where
  "buildSDKSubnetMappings ms = (if length ms \<noteq> 0 then map buildSDKSubnetMapping ms else [])"

definition buildSDKCreateLoadBalancerInput :: "LoadBalancerSpec \<Rightarrow> CreateLoadBalancerInput res" where
  "buildSDKCreateLoadBalancerInput spec =
     res_bind (buildSDKSecurityGroups (SecurityGroups spec)) (\<lambda>sgs.
       Inr \<lparr>clName = LBName spec, clType = LBType spec, clScheme = Scheme spec,
         clIpAddressType = IPAddressType spec,
         clSubnetMappings = buildSDKSubnetMappings (SubnetMappings spec),
         clSecurityGroups = sgs,
         clEnablePrefixForIpv6SourceNat =
           (if EnablePrefixForIpv6SourceNat spec \<noteq> '''' then EnablePrefixForIpv6SourceNat spec else ''''),
         clIpamPools = (if IPv4IPAMPool spec \<noteq> None \<and> ToString (IPv4IPAMPool spec) \<noteq> '''' then IPv4IPAMPool spec else None),
         clCustomerOwnedIpv4Pool = CustomerOwnedIPv4Pool spec, clTags = []\<rparr>)"

definition buildResLoadBalancerStatus :: "LoadBalancerWithTags \<Rightarrow> LoadBalancerStatus" where
  "buildResLoadBalancerStatus sdkLB =
     \<lparr>LoadBalancerARN = ToString (descArn (sdkObj sdkLB)), DNSName = ToString (sDNSName (descObj (sdkObj sdkLB))),
      ProvisioningState = sState (descObj (sdkObj sdkLB))\<rparr>"

text \<open>The flag and the desired value of \<open>isEnforceSGInboundRulesOnPrivateLinkUpdated\<close>.\<close>

definition isEnforceSGInboundRulesOnPrivateLinkUpdated :: "LoadBalancer \<Rightarrow> LoadBalancerWithTags \<Rightarrow> bool \<times> string \<times> string" where
  "isEnforceSGInboundRulesOnPrivateLinkUpdated resLB sdkLB =
     (if LBType (lbSpec resLB) \<noteq> ''network'' \<or> SecurityGroupsInboundRulesOnPrivateLink (lbSpec resLB) = None
      then (False, '''', '''')
      else let desired = the (SecurityGroupsInboundRulesOnPrivateLink (lbSpec resLB));
               current = ToString (sEnforceSecurityGroupInboundRules (descObj (sdkObj sdkLB)))
           in if desired = current then (False, '''', '''') else (True, current, desired))"

definition isIPv4ToDualstackUpdate :: "LoadBalancer \<Rightarrow> LoadBalancerWithTags \<Rightarrow> bool" where
  "isIPv4ToDualstackUpdate resLB sdkLB \<longleftrightarrow>
     IPAddressType (lbSpec resLB) \<noteq> sIpAddressType (descObj (sdkObj sdkLB))
   \<and> LBType (lbSpec resLB) = ''network'' \<and> IPAddressType (lbSpec resLB) = ''dualstack''"

definition updateSDKLoadBalancerWithIPAddressType :: "'w load_balancer_api \<Rightarrow> LoadBalancer \<Rightarrow>
    LoadBalancerWithTags \<Rightarrow> ('w, unit) io" where
  "updateSDKLoadBalancerWithIPAddressType api resLB sdkLB =
     (if IPAddressType (lbSpec resLB) = sIpAddressType (descObj (sdkObj sdkLB)) then io_ret ()
      else SetIpAddressType api (descArn (sdkObj sdkLB)) (IPAddressType (lbSpec resLB)))"

text \<open>The sets the subnet update compares; the first NAT prefix and the first address of each zone count.\<close>

definition desiredSubnets :: "LoadBalancer \<Rightarrow> string set" where
  "desiredSubnets resLB = SubnetID ` set (SubnetMappings (lbSpec resLB))"

definition desiredNATPrefixes :: "LoadBalancer \<Rightarrow> string set" where
  "desiredNATPrefixes resLB = set (List.map_filter SourceNatIpv6Prefix (SubnetMappings (lbSpec resLB)))"

definition desiredIPv6 :: "LoadBalancer \<Rightarrow> string set" where
  "desiredIPv6 resLB = set (List.map_filter IPv6Address (SubnetMappings (lbSpec resLB)))"

definition currentSubnets :: "LoadBalancerWithTags \<Rightarrow> string set" where
  "currentSubnets sdkLB = (\<lambda>az. ToString (azSubnetId az)) ` set (sAvailabilityZones (descObj (sdkObj sdkLB)))"

definition currentNATPrefixes :: "LoadBalancerWithTags \<Rightarrow> string set" where
  "currentNATPrefixes sdkLB = set (List.map_filter (\<lambda>az. case azSourceNatIpv6Prefixes az of [] \<Rightarrow> None | p # _ \<Rightarrow> Some p)
     (sAvailabilityZones (descObj (sdkObj sdkLB))))"

definition currentIPv6 :: "LoadBalancerWithTags \<Rightarrow> string set" where
  "currentIPv6 sdkLB = set (List.map_filter (\<lambda>az. case azAddressesIPv6 az of [] \<Rightarrow> None | a # _ \<Rightarrow> a)
     (sAvailabilityZones (descObj (sdkObj sdkLB))))"

definition updateSDKLoadBalancerWithSubnetMappings :: "'w load_balancer_api \<Rightarrow> LoadBalancer \<Rightarrow>
    LoadBalancerWithTags \<Rightarrow> ('w, unit) io" where
  "updateSDKLoadBalancerWithSubnetMappings api resLB sdkLB =
     (let isFirstTimeIPv6Setup = (currentIPv6 sdkLB = {} \<and> desiredIPv6 resLB \<noteq> {});
          needsDualstackIPv6Update = (isIPv4ToDualstackUpdate resLB sdkLB \<and> isFirstTimeIPv6Setup);
          sdkNat = sEnablePrefixForIpv6SourceNat (descObj (sdkObj sdkLB));
          resNat = EnablePrefixForIpv6SourceNat (lbSpec resLB)
      in if \<not> needsDualstackIPv6Update \<and> desiredSubnets resLB = currentSubnets sdkLB
            \<and> desiredNATPrefixes resLB = currentNATPrefixes sdkLB \<and> (sdkNat = resNat \<or> resNat = '''')
         then io_ret ()
         else SetSubnets api (descArn (sdkObj sdkLB)) (buildSDKSubnetMappings (SubnetMappings (lbSpec resLB)))
                (if LBType (lbSpec resLB) = ''network'' then Some resNat else None))"

definition updateSDKLoadBalancerWithSecurityGroups :: "'w load_balancer_api \<Rightarrow> LoadBalancer \<Rightarrow>
    LoadBalancerWithTags \<Rightarrow> ('w, unit) io" where
  "updateSDKLoadBalancerWithSecurityGroups api resLB sdkLB =
     io_bind (io_lift (buildSDKSecurityGroups (SecurityGroups (lbSpec resLB)))) (\<lambda>securityGroups.
       let (updated, current, desired) = isEnforceSGInboundRulesOnPrivateLinkUpdated resLB sdkLB
       in if set securityGroups = set (sSecurityGroups (descObj (sdkObj sdkLB))) \<and> \<not> updated then io_ret ()
          else SetSecurityGroups api (descArn (sdkObj sdkLB)) securityGroups (if updated then Some desired else None))"

definition updateSDKLoadBalancerWithTags :: "('lb, 'tg, 'ls, 'lr, 'w) elbv2_deps \<Rightarrow> LoadBalancer \<Rightarrow>
    LoadBalancerWithTags \<Rightarrow> ('w taggingManager, unit) io" where
  "updateSDKLoadBalancerWithTags m resLB sdkLB =
     ReconcileTags (taggingApi m) (taggingCfg m) (ToString (descArn (sdkObj sdkLB)))
       (ResourceTags (trackingProvider m) (lbStack resLB) (lbID resLB) (LBTags (lbSpec resLB)))
       [WithCurrentTags (sdkTags sdkLB), WithIgnoredTagKeys (LegacyTagKeys (trackingProvider m)),
        WithIgnoredTagKeys (externalManagedTags m)]"

definition checkSDKLoadBalancerWithCOIPv4Pool :: "LoadBalancer \<Rightarrow> LoadBalancerWithTags \<Rightarrow> ('w, unit) io" where
  "checkSDKLoadBalancerWithCOIPv4Pool resLB sdkLB = io_ret ()"

definition removeIPAMPools :: "'w load_balancer_api \<Rightarrow> LoadBalancer \<Rightarrow> LoadBalancerWithTags \<Rightarrow> ('w, unit) io" where
  "removeIPAMPools api resLB sdkLB =
     (if sIpamPools (descObj (sdkObj sdkLB)) = None \<or> IPv4IPAMPool (lbSpec resLB) \<noteq> None then io_ret ()
      else RemoveIpamPools api (descArn (sdkObj sdkLB)))"

definition addIPAMPools :: "'w load_balancer_api \<Rightarrow> LoadBalancer \<Rightarrow> LoadBalancerWithTags \<Rightarrow> ('w, unit) io" where
  "addIPAMPools api resLB sdkLB =
     (if IPv4IPAMPool (lbSpec resLB) = None then io_ret ()
      else if sIpamPools (descObj (sdkObj sdkLB)) \<noteq> None
              \<and> ToString (the (sIpamPools (descObj (sdkObj sdkLB)))) = ToString (IPv4IPAMPool (lbSpec resLB)) then io_ret ()
      else AddIpamPool api (descArn (sdkObj sdkLB)) (IPv4IPAMPool (lbSpec resLB)))"

definition LoadBalancerManager_Create :: "'w load_balancer_api \<Rightarrow> ('lb, 'tg, 'ls, 'lr, 'w) elbv2_deps \<Rightarrow> LoadBalancer \<Rightarrow>
    ('w taggingManager, LoadBalancerStatus \<times> LoadBalancerWithTags) io" where
  "LoadBalancerManager_Create api m resLB =
     io_bind (io_lift (buildSDKCreateLoadBalancerInput (lbSpec resLB))) (\<lambda>req.
       let lbTags = ResourceTags (trackingProvider m) (lbStack resLB) (lbID resLB) (LBTags (lbSpec resLB))
       in io_bind (onTagCloud (CreateLoadBalancer api (req\<lparr>clTags := convertTagsToSDKTags lbTags\<rparr>))) (\<lambda>resp.
            case resp of
              [] \<Rightarrow> io_fail (Errorf ''panic: index out of range'' [])
            | lb # _ \<Rightarrow>
                (let sdkLB = \<lparr>sdkObj = lb, sdkTags = Some lbTags\<rparr>
                 in io_bind (onTagCloud (Attributes_Reconcile (LBAttributes api)
                               (LoadBalancerAttributes (lbSpec resLB)) (descArn lb))) (\<lambda>_.
                    io_bind (if LBType (lbSpec resLB) = ''network''
                                \<and> SecurityGroupsInboundRulesOnPrivateLink (lbSpec resLB) \<noteq> None
                             then onTagCloud (updateSDKLoadBalancerWithSecurityGroups api resLB sdkLB) else io_ret ()) (\<lambda>_.
                    io_ret (buildResLoadBalancerStatus sdkLB, sdkLB))))))"

definition LoadBalancerManager_Update :: "'w load_balancer_api \<Rightarrow> ('lb, 'tg, 'ls, 'lr, 'w) elbv2_deps \<Rightarrow> LoadBalancer \<Rightarrow>
    LoadBalancerWithTags \<Rightarrow> ('w taggingManager, LoadBalancerStatus) io" where
  "LoadBalancerManager_Update api m resLB sdkLB =
     io_bind (onTagCloud (removeIPAMPools api resLB sdkLB)) (\<lambda>_.
     io_bind (updateSDKLoadBalancerWithTags m resLB sdkLB) (\<lambda>_.
     io_bind (onTagCloud (updateSDKLoadBalancerWithSecurityGroups api resLB sdkLB)) (\<lambda>_.
     io_bind (onTagCloud (updateSDKLoadBalancerWithSubnetMappings api resLB sdkLB)) (\<lambda>_.
     io_bind (onTagCloud (updateSDKLoadBalancerWithIPAddressType api resLB sdkLB)) (\<lambda>_.
     io_bind (onTagCloud (Attributes_Reconcile (LBAttributes api)
                (LoadBalancerAttributes (lbSpec resLB)) (descArn (sdkObj sdkLB)))) (\<lambda>_.
     io_bind (checkSDKLoadBalancerWithCOIPv4Pool resLB sdkLB) (\<lambda>_.
     io_bind (onTagCloud (addIPAMPools api resLB sdkLB)) (\<lambda>_.
     io_ret (buildResLoadBalancerStatus sdkLB)))))))))"

definition LoadBalancerManager_Delete :: "'w load_balancer_api \<Rightarrow> LoadBalancerWithTags \<Rightarrow> ('w taggingManager, unit) io" where
  "LoadBalancerManager_Delete api sdkLB = onTagCloud (DeleteLoadBalancer api (descArn (sdkObj sdkLB)))"

section \<open>The capacity reservation reconciler\<close>

text \<open>
  A response without capacity but with a state makes the sources read through a nil pointer.
\<close>

definition getCurrentCapacityReservation :: "'w load_balancer_api \<Rightarrow> LoadBalancerWithTags \<Rightarrow> ('w, int option) io" where
  "getCurrentCapacityReservation api sdkLB =
     io_bind (DescribeCapacityReservation api (descArn (sdkObj sdkLB))) (\<lambda>(states, capacity).
       if states = [] \<and> capacity = None then io_ret None
       else (case capacity of
               None \<Rightarrow> io_fail (Errorf ''panic: nil pointer dereference'' [])
             | Some units \<Rightarrow> io_ret (Some (ToInt32 units))))"

definition CapacityReservation_Reconcile :: "'w load_balancer_api \<Rightarrow> LoadBalancer \<Rightarrow> LoadBalancerWithTags \<Rightarrow> ('w, unit) io" where
  "CapacityReservation_Reconcile api resLB sdkLB =
     (case MinimumLoadBalancerCapacity (lbSpec resLB) of
        None \<Rightarrow> io_ret ()
      | Some units \<Rightarrow>
          (let desired = (if units = 0 then None else Some units)
           in io_bind (getCurrentCapacityReservation api sdkLB) (\<lambda>current.
                if desired = current then io_ret ()
                else ModifyCapacityReservation api (descArn (sdkObj sdkLB)) desired)))"

section \<open>The synthesizer\<close>

record 'w lb_manager =
  lbCreate :: "LoadBalancer \<Rightarrow> ('w, LoadBalancerStatus \<times> LoadBalancerWithTags) io"
  lbUpdate :: "LoadBalancer \<Rightarrow> LoadBalancerWithTags \<Rightarrow> ('w, LoadBalancerStatus) io"
  lbDelete :: "LoadBalancerWithTags \<Rightarrow> ('w, unit) io"
  disableDeletionProtection :: "LoadBalancerWithTags \<Rightarrow> ('w, unit) io"

definition loadBalancerManager :: "'w load_balancer_api \<Rightarrow> ('lb, 'tg, 'ls, 'lr, 'w) elbv2_deps \<Rightarrow> 'w taggingManager lb_manager" where
  "loadBalancerManager api m = \<lparr>lbCreate = LoadBalancerManager_Create api m, lbUpdate = LoadBalancerManager_Update api m,
     lbDelete = LoadBalancerManager_Delete api,
     disableDeletionProtection = (\<lambda>sdkLB. onTagCloud (ModifyAttributes (LBAttributes api) (descArn (sdkObj sdkLB))
        [(''deletion_protection.enabled'', ''false'')]))\<rparr>"

definition isSDKLoadBalancerRequiresReplacement :: "LoadBalancerWithTags \<Rightarrow> LoadBalancer \<Rightarrow> bool" where
  "isSDKLoadBalancerRequiresReplacement sdkLB resLB \<longleftrightarrow>
     LBType (lbSpec resLB) \<noteq> sLBType (descObj (sdkObj sdkLB)) \<or> Scheme (lbSpec resLB) \<noteq> sScheme (descObj (sdkObj sdkLB))"

definition mapResLoadBalancerByResourceID :: "LoadBalancer list \<Rightarrow> (string, LoadBalancer) gomap" where
  "mapResLoadBalancerByResourceID resLBs = mbuild lbID (\<lambda>resLB. resLB) resLBs []"

definition mapSDKLoadBalancerByResourceID :: "LoadBalancerWithTags list \<Rightarrow> string \<Rightarrow> (string, LoadBalancerWithTags list) gomap res" where
  "mapSDKLoadBalancerByResourceID sdkLBs resourceIDTagKey =
     groupByTag (\<lambda>lb. mapOf (sdkTags lb))
       (\<lambda>lb. Errorf ''unexpected loadBalancer with no resourceID: %v'' [ToString (descArn (sdkObj lb))])
       resourceIDTagKey sdkLBs []"

definition matchResAndSDKLoadBalancers :: "string \<Rightarrow> LoadBalancer list \<Rightarrow> LoadBalancerWithTags list \<Rightarrow>
    ((LoadBalancer \<times> LoadBalancerWithTags) list \<times> LoadBalancer list \<times> LoadBalancerWithTags list) res" where
  "matchResAndSDKLoadBalancers resourceIDTagKey resLBs sdkLBs =
     res_bind (mapSDKLoadBalancerByResourceID sdkLBs resourceIDTagKey) (\<lambda>sdkLBsByID.
       Inr (matchByID isSDKLoadBalancerRequiresReplacement (mapResLoadBalancerByResourceID resLBs) sdkLBsByID))"

definition findSDKLoadBalancers :: "((string \<times> SDKTag list) list \<Rightarrow> (string \<times> SDKTag list) list) \<Rightarrow>
    ('lb, 'tg, 'ls, 'lr, 'w) elbv2_deps \<Rightarrow> StackID \<Rightarrow> ('w taggingManager, 'lb WithTags list) io" where
  "findSDKLoadBalancers ord m sid =
     ListLoadBalancers ord (taggingApi m) (taggingCfg m)
       [TagsAsTagFilter (StackTags (trackingProvider m) sid), TagsAsTagFilter (StackTagsLegacy (trackingProvider m) sid)]"

type_synonym 'w lb_synth = "(LoadBalancer \<times> LoadBalancerWithTags, LoadBalancerStatus, 'w) synth"

text \<open>
  Deleting an unmatched load balancer: if deletion protection forbids it, the protection is
  switched off (an error of that call is ignored) and the deletion tried once more.
\<close>

definition isDeletionProtected :: "go_error \<Rightarrow> bool" where
  "isDeletionProtected err \<longleftrightarrow>
     Contains (errorText err) ''OperationNotPermitted'' \<and> Contains (errorText err) ''deletion protection''"

definition deleteLB :: "'w lb_manager \<Rightarrow> LoadBalancerWithTags \<Rightarrow> ('w, unit) io" where
  "deleteLB mgr sdkLB w =
     (case lbDelete mgr sdkLB w of
        (Inr _, w') \<Rightarrow> (Inr (), w')
      | (Inl err, w') \<Rightarrow>
          if isDeletionProtected err
          then lbDelete mgr sdkLB (snd (disableDeletionProtection mgr sdkLB w'))
          else (Inl err, w'))"

definition addDeferred :: "'d \<Rightarrow> ('d, 'st, 'w) synth \<Rightarrow> ('d, 'st, 'w) synth" where
  "addDeferred d \<sigma> = \<sigma>\<lparr>deferred := deferred \<sigma> @ [d]\<rparr>"

definition createLB :: "defaultFeatureGates \<Rightarrow> 'w lb_manager \<Rightarrow> LoadBalancer \<Rightarrow> ('w lb_synth, unit) io" where
  "createLB gates mgr resLB =
     io_bind (onCloud (lbCreate mgr resLB)) (\<lambda>(lbStatus, sdkLB) \<sigma>.
       setStatus (lbID resLB) lbStatus
         (if Enabled gates ''LBCapacityReservation'' \<and> MinimumLoadBalancerCapacity (lbSpec resLB) \<noteq> None
          then addDeferred (resLB, sdkLB) \<sigma> else \<sigma>))"

definition updateLB :: "defaultFeatureGates \<Rightarrow> 'w lb_manager \<Rightarrow> LoadBalancer \<times> LoadBalancerWithTags \<Rightarrow> ('w lb_synth, unit) io" where
  "updateLB gates mgr = (\<lambda>(resLB, sdkLB).
     io_bind (onCloud (lbUpdate mgr resLB sdkLB)) (\<lambda>lbStatus \<sigma>.
       setStatus (lbID resLB) lbStatus
         (if Enabled gates ''LBCapacityReservation'' then addDeferred (resLB, sdkLB) \<sigma> else \<sigma>)))"

definition LoadBalancer_Synthesize :: "defaultFeatureGates \<Rightarrow> string \<Rightarrow> 'w lb_manager \<Rightarrow> ('w, LoadBalancerWithTags list) io \<Rightarrow>
    LoadBalancer list \<Rightarrow> ('w lb_synth, unit) io" where
  "LoadBalancer_Synthesize gates resourceIDTagKey mgr findLBs resLBs =
     io_bind (onCloud findLBs) (\<lambda>sdkLBs.
     io_bind (io_lift (matchResAndSDKLoadBalancers resourceIDTagKey resLBs sdkLBs)) (\<lambda>(matched, unmatchedRes, unmatchedSDK).
     io_bind (io_iter (\<lambda>sdkLB. onCloud (deleteLB mgr sdkLB)) unmatchedSDK) (\<lambda>_.
     io_bind (io_iter (createLB gates mgr) unmatchedRes) (\<lambda>_.
     io_iter (updateLB gates mgr) matched))))"

definition isLoadBalancerInProvisioningState :: "'w load_balancer_api \<Rightarrow> LoadBalancerWithTags \<Rightarrow> ('w, bool) io" where
  "isLoadBalancerInProvisioningState api sdkLB =
     (let lbArn = ToString (descArn (sdkObj sdkLB))
      in io_bind (DescribeLB api lbArn) (\<lambda>resp.
           case resp of
             [] \<Rightarrow> io_fail (Errorf ''no load balancer found for the arn: %v to monitor load balancer state'' [lbArn])
           | lb # _ \<Rightarrow>
               (case sState (descObj lb) of
                  None \<Rightarrow> io_fail (Errorf ''panic: nil pointer dereference'' [])
                | Some code \<Rightarrow> io_ret (code = ''provisioning''))))"

definition LoadBalancer_PostSynthesize :: "'w load_balancer_api \<Rightarrow> nat \<Rightarrow> ('w taggingManager lb_synth, unit) io" where
  "LoadBalancer_PostSynthesize api monitorInterval \<sigma> =
     io_iter (\<lambda>(resLB, sdkLB).
         io_bind (onCloud (onTagCloud (isLoadBalancerInProvisioningState api sdkLB))) (\<lambda>provisioning.
           if provisioning
           then io_fail (RequeueNeededAfter (''monitor provisioning state for load balancer: ''
                  @ ToString (sLBName (descObj (sdkObj sdkLB)))) monitorInterval)
           else onCloud (onTagCloud (CapacityReservation_Reconcile api resLB sdkLB))))
       (deferred \<sigma>) \<sigma>"

section \<open>Correctness of the synthesizer\<close>

abbreviation lbKey :: "string \<Rightarrow> LoadBalancerWithTags \<Rightarrow> string option" where
  "lbKey tagKey lb \<equiv> mget (mapOf (sdkTags lb)) tagKey"

interpretation lb: matcher lbID "lbKey tagKey" "\<lambda>s r. \<not> isSDKLoadBalancerRequiresReplacement s r"
    "\<lambda>ss. \<forall>s \<in> set ss. lbKey tagKey s \<noteq> None" "matchResAndSDKLoadBalancers tagKey"
  for tagKey
proof
  fix rs :: "LoadBalancer list" and ss :: "LoadBalancerWithTags list"
  assume "distinct (map lbID rs)" "\<forall>s \<in> set ss. lbKey tagKey s \<noteq> None"
  then show "\<exists>p. matchResAndSDKLoadBalancers tagKey rs ss = Inr p
      \<and> matching lbID (lbKey tagKey) (\<lambda>s r. \<not> isSDKLoadBalancerRequiresReplacement s r) rs ss p"
    unfolding matchResAndSDKLoadBalancers_def mapSDKLoadBalancerByResourceID_def mapResLoadBalancerByResourceID_def
    by (rule matchByTag_matching)
qed

text \<open>One call of the plan of a run.\<close>

fun doLBCall :: "defaultFeatureGates \<Rightarrow> 'w lb_manager \<Rightarrow> (LoadBalancer, LoadBalancerWithTags) call \<Rightarrow> ('w lb_synth, unit) io" where
  "doLBCall gates mgr (CallCreate r) = createLB gates mgr r"
| "doLBCall gates mgr (CallUpdate r s) = updateLB gates mgr (r, s)"
| "doLBCall gates mgr (CallDelete s) = onCloud (deleteLB mgr s)"

lemma LoadBalancer_Synthesize_plan:
  assumes "findLBs (cloud \<sigma>) = (Inr ss, w)" "matchResAndSDKLoadBalancers tagKey rs ss = Inr (m, ur, us)"
  shows "LoadBalancer_Synthesize gates tagKey mgr findLBs rs \<sigma> =
     io_iter (doLBCall gates mgr) (map CallDelete us @ map CallCreate ur @ map (\<lambda>(r, s). CallUpdate r s) m) (\<sigma>\<lparr>cloud := w\<rparr>)"
proof -
  have "doLBCall gates mgr \<circ> CallDelete = (\<lambda>s. onCloud (deleteLB mgr s))"
    "doLBCall gates mgr \<circ> CallCreate = createLB gates mgr"
    "doLBCall gates mgr \<circ> (\<lambda>(r, s). CallUpdate r s) = updateLB gates mgr"
    by auto
  then show ?thesis using assms
    by (simp add: LoadBalancer_Synthesize_def io_bind_def [of "onCloud findLBs"] onCloud_def [of findLBs]
        io_bind_def [of "io_lift _"] io_iter_append_fun io_iter_map_fun)
qed

text \<open>Every call keeps the statuses that are set, and a creation or an update sets one.\<close>

lemma setStatus_statuses: "setStatus i st \<sigma> = (r, \<sigma>') \<Longrightarrow> statuses \<sigma>' = mput i st (statuses \<sigma>)"
  by (auto simp: setStatus_def)

lemma onCloud_statuses: "onCloud f \<sigma> = (r, \<sigma>') \<Longrightarrow> statuses \<sigma>' = statuses \<sigma>"
  by (auto simp: onCloud_def Let_def split: prod.splits)

lemma doLBCall_statuses:
  assumes "doLBCall gates mgr c \<sigma> = (r, \<sigma>')"
  shows "dom (map_of (statuses \<sigma>)) \<subseteq> dom (map_of (statuses \<sigma>'))"
    and "r = Inr () \<Longrightarrow> c = CallCreate lb \<or> (\<exists>s. c = CallUpdate lb s) \<Longrightarrow> lbID lb \<in> dom (map_of (statuses \<sigma>'))"
  using assms
  by (cases c; force simp: createLB_def updateLB_def io_bind_def addDeferred_def split: prod.splits sum.splits if_splits
      dest!: setStatus_statuses onCloud_statuses)+

lemma io_iter_LBCalls_statuses:
  assumes "io_iter (doLBCall gates mgr) cs \<sigma> = (Inr (), \<sigma>')"
  shows "dom (map_of (statuses \<sigma>)) \<subseteq> dom (map_of (statuses \<sigma>'))"
    and "CallCreate lb \<in> set cs \<or> (\<exists>s. CallUpdate lb s \<in> set cs) \<Longrightarrow> lbID lb \<in> dom (map_of (statuses \<sigma>'))"
proof -
  have "dom (map_of (statuses \<sigma>)) \<subseteq> dom (map_of (statuses \<sigma>'))
     \<and> (CallCreate lb \<in> set cs \<or> (\<exists>s. CallUpdate lb s \<in> set cs) \<longrightarrow> lbID lb \<in> dom (map_of (statuses \<sigma>')))"
    using assms
  proof (induction cs arbitrary: \<sigma>)
    case (Cons c cs)
    obtain \<sigma>1 where c: "doLBCall gates mgr c \<sigma> = (Inr (), \<sigma>1)" "io_iter (doLBCall gates mgr) cs \<sigma>1 = (Inr (), \<sigma>')"
      using Cons.prems by (auto split: prod.splits sum.splits)
    show ?case using Cons.IH [OF c(2)] doLBCall_statuses(1) [OF c(1)] doLBCall_statuses(2) [OF c(1) refl, of lb]
      unfolding list.set insert_iff by blast
  qed simp
  then show "dom (map_of (statuses \<sigma>)) \<subseteq> dom (map_of (statuses \<sigma>'))"
    "CallCreate lb \<in> set cs \<or> (\<exists>s. CallUpdate lb s \<in> set cs) \<Longrightarrow> lbID lb \<in> dom (map_of (statuses \<sigma>'))" by blast+
qed

text \<open>
  C17. One run of the load balancer synthesizer: it pairs the load balancers of the cloud with the
  resources by resource ID, first deletes exactly the load balancers it could not pair, then creates
  the missing ones and updates every pair, stopping at the first failing call; and if it succeeds,
  every load balancer resource of the stack is fulfilled (its status is set).
\<close>

theorem LoadBalancer_synthesis:
  assumes "distinct (map lbID rs)" "findLBs (cloud \<sigma>) = (Inr ss, w)" "\<forall>s \<in> set ss. lbKey tagKey s \<noteq> None"
  shows "\<exists>m ur us.
     matching lbID (lbKey tagKey) (\<lambda>s r. \<not> isSDKLoadBalancerRequiresReplacement s r) rs ss (m, ur, us)
   \<and> LoadBalancer_Synthesize gates tagKey mgr findLBs rs \<sigma> =
       io_iter (doLBCall gates mgr)
         (map CallDelete us @ map CallCreate ur @ map (\<lambda>(r, s). CallUpdate r s) m) (\<sigma>\<lparr>cloud := w\<rparr>)
   \<and> (\<forall>\<sigma>'. LoadBalancer_Synthesize gates tagKey mgr findLBs rs \<sigma> = (Inr (), \<sigma>') \<longrightarrow>
        (\<forall>r \<in> set rs. mget (statuses \<sigma>') (lbID r) \<noteq> None))"
proof -
  obtain m ur us where p: "matchResAndSDKLoadBalancers tagKey rs ss = Inr (m, ur, us)"
    "matching lbID (lbKey tagKey) (\<lambda>s r. \<not> isSDKLoadBalancerRequiresReplacement s r) rs ss (m, ur, us)"
    using lb.match_ok [OF assms(1,3)] by (metis prod_cases3)
  note run = LoadBalancer_Synthesize_plan [of findLBs \<sigma>, OF assms(2) p(1), of gates mgr]
  let ?plan = "map CallDelete us @ map CallCreate ur @ map (\<lambda>(r, s). CallUpdate r s) m"
  have "mget (statuses \<sigma>') (lbID r) \<noteq> None"
    if ok: "LoadBalancer_Synthesize gates tagKey mgr findLBs rs \<sigma> = (Inr (), \<sigma>')" and r: "r \<in> set rs" for \<sigma>' r
  proof -
    have "CallCreate r \<in> set ?plan \<or> (\<exists>s. CallUpdate r s \<in> set ?plan)"
      using matchingD(4) [OF p(2)] r by (cases "r \<in> fst ` set m") force+
    then have "lbID r \<in> dom (map_of (statuses \<sigma>'))"
      using io_iter_LBCalls_statuses(2) ok unfolding run by blast
    then show ?thesis by auto
  qed
  then show ?thesis using p(2) run by blast
qed

definition exLB :: "string \<Rightarrow> string \<Rightarrow> LoadBalancer" where
  "exLB i scheme = \<lparr>lbStack = \<lparr>Namespace = ''ns'', Name = ''ing''\<rparr>, lbID = i, lbSpec =
     \<lparr>LBName = ''k8s-lb'', LBType = ''application'', Scheme = scheme, IPAddressType = ''ipv4'',
      EnablePrefixForIpv6SourceNat = '''', SubnetMappings = [], SecurityGroups = [Inr ''sg-1''],
      SecurityGroupsInboundRulesOnPrivateLink = None, CustomerOwnedIPv4Pool = None, LoadBalancerAttributes = [],
      MinimumLoadBalancerCapacity = None, LBTags = [], IPv4IPAMPool = None\<rparr>\<rparr>"

definition exSDKLB :: "string \<Rightarrow> string \<Rightarrow> string \<Rightarrow> LoadBalancerWithTags" where
  "exSDKLB i arn scheme = \<lparr>sdkObj = \<lparr>descArn = Some arn, descVpcId = None, descObj =
     \<lparr>sLBName = Some ''k8s-lb'', sLBType = ''application'', sScheme = scheme, sIpAddressType = ''ipv4'',
      sAvailabilityZones = [], sEnablePrefixForIpv6SourceNat = '''', sSecurityGroups = [''sg-1''],
      sEnforceSecurityGroupInboundRules = None, sCustomerOwnedIpv4Pool = None, sIpamPools = None,
      sDNSName = Some ''lb.example'', sState = Some ''active''\<rparr>\<rparr>,
     sdkTags = Some [(''ingress.k8s.aws/resource'', i)]\<rparr>"

text \<open>A cloud in memory: the ARNs that exist and those with deletion protection.\<close>

definition memLBManager :: "(string option set \<times> string option set) lb_manager" where
  "memLBManager = \<lparr>
     lbCreate = (\<lambda>r (ex, prot). (Inr (buildResLoadBalancerStatus (exSDKLB (lbID r) ''new'' (Scheme (lbSpec r))),
        exSDKLB (lbID r) ''new'' (Scheme (lbSpec r))), (insert (Some ''new'') ex, prot))),
     lbUpdate = (\<lambda>r s (ex, prot). (Inr (buildResLoadBalancerStatus s), (ex, prot))),
     lbDelete = (\<lambda>s (ex, prot).
        if descArn (sdkObj s) \<in> prot
        then (Inl (APIError ''OperationNotPermitted'' ''cannot be deleted because deletion protection is enabled''), (ex, prot))
        else (Inr (), (ex - {descArn (sdkObj s)}, prot))),
     disableDeletionProtection = (\<lambda>s (ex, prot). (Inr (), (ex, prot - {descArn (sdkObj s)})))\<rparr>"

theorem LoadBalancer_synthesis_witness:
  "\<exists>m ur us.
     matching lbID (lbKey ''ingress.k8s.aws/resource'') (\<lambda>s r. \<not> isSDKLoadBalancerRequiresReplacement s r)
       [exLB ''LoadBalancer'' ''internal''] [exSDKLB ''LoadBalancer'' ''old'' ''internet-facing''] (m, ur, us)
   \<and> LoadBalancer_Synthesize NewFeatureGates ''ingress.k8s.aws/resource'' memLBManager
       (\<lambda>w. (Inr [exSDKLB ''LoadBalancer'' ''old'' ''internet-facing''], w)) [exLB ''LoadBalancer'' ''internal'']
       \<lparr>deferred = [], statuses = [], cloud = ({Some ''old''}, {Some ''old''})\<rparr> =
       io_iter (doLBCall NewFeatureGates memLBManager)
         (map CallDelete us @ map CallCreate ur @ map (\<lambda>(r, s). CallUpdate r s) m)
         \<lparr>deferred = [], statuses = [], cloud = ({Some ''old''}, {Some ''old''})\<rparr>"
  using LoadBalancer_synthesis [of "[exLB ''LoadBalancer'' ''internal'']"
      "\<lambda>w. (Inr [exSDKLB ''LoadBalancer'' ''old'' ''internet-facing''], w)"
      "\<lparr>deferred = [], statuses = [], cloud = ({Some ''old''}, {Some ''old''})\<rparr>"
      "[exSDKLB ''LoadBalancer'' ''old'' ''internet-facing'']" "({Some ''old''}, {Some ''old''})"
      "''ingress.k8s.aws/resource''" NewFeatureGates memLBManager]
  by (fastforce simp: exSDKLB_def)

text \<open>
  What the API documents of deletion: a protected load balancer is not deleted, and the call fails
  with an \<open>OperationNotPermitted\<close> error that says so; an unprotected one is deleted; the attribute
  call removes the protection. \<open>ex\<close> and \<open>prot\<close> read the ARNs that exist and that are protected.
\<close>

definition lb_delete_ok :: "'w lb_manager \<Rightarrow> ('w \<Rightarrow> string option set) \<Rightarrow> ('w \<Rightarrow> string option set) \<Rightarrow> bool" where
  "lb_delete_ok mgr ex prot \<longleftrightarrow> (\<forall>s w.
     (if descArn (sdkObj s) \<in> prot w
      then \<exists>msg w'. lbDelete mgr s w = (Inl (APIError ''OperationNotPermitted'' msg), w')
             \<and> Contains msg ''deletion protection'' \<and> ex w' = ex w \<and> prot w' = prot w
      else \<exists>w'. lbDelete mgr s w = (Inr (), w') \<and> ex w' = ex w - {descArn (sdkObj s)} \<and> prot w' = prot w)
   \<and> (\<exists>r w'. disableDeletionProtection mgr s w = (r, w') \<and> ex w' = ex w \<and> prot w' = prot w - {descArn (sdkObj s)}))"

lemma isDeletionProtected_api:
  assumes "Contains msg ''deletion protection''"
  shows "isDeletionProtected (APIError ''OperationNotPermitted'' msg)"
proof -
  have "Contains (''api error '' @ ''OperationNotPermitted'' @ '': '' @ msg) ''OperationNotPermitted''"
    by (rule Contains_infix)
  moreover have "Contains (''api error '' @ ''OperationNotPermitted'' @ '': '' @ msg) ''deletion protection''"
    by (rule Contains_append, rule Contains_append, rule Contains_append, rule assms)
  ultimately show ?thesis unfolding isDeletionProtected_def errorText.simps by blast
qed

lemma lb_delete_okD:
  assumes "lb_delete_ok mgr ex prot"
  shows "descArn (sdkObj s) \<in> prot w \<Longrightarrow>
      \<exists>msg w'. lbDelete mgr s w = (Inl (APIError ''OperationNotPermitted'' msg), w')
        \<and> Contains msg ''deletion protection'' \<and> ex w' = ex w"
    and "descArn (sdkObj s) \<notin> prot w \<Longrightarrow> \<exists>w'. lbDelete mgr s w = (Inr (), w') \<and> ex w' = ex w - {descArn (sdkObj s)}"
    and "\<exists>r w'. disableDeletionProtection mgr s w = (r, w') \<and> ex w' = ex w \<and> prot w' = prot w - {descArn (sdkObj s)}"
proof -
  note A = assms [unfolded lb_delete_ok_def, rule_format, of s w]
  show "\<exists>r w'. disableDeletionProtection mgr s w = (r, w') \<and> ex w' = ex w \<and> prot w' = prot w - {descArn (sdkObj s)}"
    using A by (rule conjunct2)
  show "\<exists>msg w'. lbDelete mgr s w = (Inl (APIError ''OperationNotPermitted'' msg), w')
        \<and> Contains msg ''deletion protection'' \<and> ex w' = ex w" if "descArn (sdkObj s) \<in> prot w"
    using conjunct1 [OF A, unfolded if_P [OF that]] by blast
  show "\<exists>w'. lbDelete mgr s w = (Inr (), w') \<and> ex w' = ex w - {descArn (sdkObj s)}" if "descArn (sdkObj s) \<notin> prot w"
    using conjunct1 [OF A, unfolded if_not_P [OF that]] by blast
qed

lemma deleteLB_removes:
  assumes "lb_delete_ok mgr ex prot"
  shows "\<exists>w'. deleteLB mgr s w = (Inr (), w') \<and> ex w' = ex w - {descArn (sdkObj s)}"
proof (cases "descArn (sdkObj s) \<in> prot w")
  case False
  then show ?thesis using lb_delete_okD(2) [OF assms] by (fastforce simp: deleteLB_def)
next
  case True
  then obtain msg w1 where d: "lbDelete mgr s w = (Inl (APIError ''OperationNotPermitted'' msg), w1)"
      "Contains msg ''deletion protection''" "ex w1 = ex w"
    using lb_delete_okD(1) [OF assms] by blast
  obtain r w2 where p: "disableDeletionProtection mgr s w1 = (r, w2)" "ex w2 = ex w1"
      "prot w2 = prot w1 - {descArn (sdkObj s)}"
    using lb_delete_okD(3) [OF assms] by blast
  then have "descArn (sdkObj s) \<notin> prot w2" by simp
  then obtain w3 where "lbDelete mgr s w2 = (Inr (), w3)" "ex w3 = ex w2 - {descArn (sdkObj s)}"
    using lb_delete_okD(2) [OF assms] by blast
  then show ?thesis using d(1,3) p isDeletionProtected_api [OF d(2)] by (simp add: deleteLB_def)
qed


lemma memLBManager_ok: "lb_delete_ok memLBManager fst snd"
  unfolding lb_delete_ok_def memLBManager_def
  by (auto simp: HasPrefix_def split: prod.splits)


section \<open>Capacity reservations\<close>

text \<open>
  What the API documents: the description of a load balancer without a reservation has neither
  states nor a capacity, the one of a load balancer with a reservation has its capacity, and the
  modification sets or resets it. \<open>store\<close> reads the reserved units, 0 for none.
\<close>

definition capacity_api_ok :: "'w load_balancer_api \<Rightarrow> ('w \<Rightarrow> string option \<Rightarrow> int) \<Rightarrow> bool" where
  "capacity_api_ok api store \<longleftrightarrow>
     (\<forall>arn w r w'. DescribeCapacityReservation api arn w = (r, w') \<longrightarrow> store w' = store w
        \<and> (\<forall>states c. r = Inr (states, c) \<longrightarrow>
             (if store w arn = 0 then states = [] \<and> c = None else c = Some (Some (store w arn)))))
   \<and> (\<forall>arn u w r w'. ModifyCapacityReservation api arn u w = (r, w') \<longrightarrow>
        store w' = (if isl r then store w else (store w)(arn := ToInt32 u)))"

text \<open>
  Reconciling the capacity reservation gives the load balancer the reserved units of its
  specification, where 0 resets the reservation and a missing specification changes nothing; no
  other load balancer is touched, also when a call fails.
\<close>

theorem CapacityReservation_converges:
  assumes ok: "capacity_api_ok api store"
    and run: "CapacityReservation_Reconcile api resLB sdkLB w = (r, w')"
  shows "(\<forall>a. a \<noteq> descArn (sdkObj sdkLB) \<longrightarrow> store w' a = store w a)
     \<and> (r = Inr () \<longrightarrow> store w' (descArn (sdkObj sdkLB)) =
          (case MinimumLoadBalancerCapacity (lbSpec resLB) of
             None \<Rightarrow> store w (descArn (sdkObj sdkLB)) | Some units \<Rightarrow> units))"
proof (cases "MinimumLoadBalancerCapacity (lbSpec resLB)")
  case None
  then show ?thesis using run by (auto simp: CapacityReservation_Reconcile_def)
next
  case (Some units)
  let ?arn = "descArn (sdkObj sdkLB)" and ?d = "if units = 0 then None else Some units"
  obtain r0 w0 where d: "DescribeCapacityReservation api ?arn w = (r0, w0)" by force
  have st: "store w0 = store w"
    and S: "r0 = Inr (states, c) \<Longrightarrow> if store w ?arn = 0 then states = [] \<and> c = None else c = Some (Some (store w ?arn))"
    for states c
    using ok d unfolding capacity_api_ok_def by blast+
  show ?thesis
  proof (cases r0)
    case (Inl e)
    then have "r = Inl e \<and> w' = w0" using run Some d
      by (simp add: CapacityReservation_Reconcile_def getCurrentCapacityReservation_def io_bind_def Let_def)
    then show ?thesis using st by simp
  next
    case (Inr p)
    obtain states c where p: "p = (states, c)" by force
    let ?cur = "if store w ?arn = 0 then None else Some (store w ?arn)"
    have get: "getCurrentCapacityReservation api sdkLB w = (Inr ?cur, w0)"
      using S [of states c] Inr p d
      by (auto simp: getCurrentCapacityReservation_def io_bind_def ToInt32_def split: if_splits)
    show ?thesis
    proof (cases "?d = ?cur")
      case True
      then have "r = Inr () \<and> w' = w0" using run Some get
        by (simp add: CapacityReservation_Reconcile_def io_bind_def Let_def)
      then show ?thesis using True st Some by (auto split: if_splits)
    next
      case False
      then have "ModifyCapacityReservation api ?arn ?d w0 = (r, w')" using run Some get
        by (simp add: CapacityReservation_Reconcile_def io_bind_def Let_def)
      then have "store w' = (if isl r then store w0 else (store w0)(?arn := ToInt32 ?d))"
        using ok unfolding capacity_api_ok_def by blast
      then show ?thesis using st Some by (auto simp: ToInt32_def isl_unit split: if_splits)
    qed
  qed
qed

definition memLBApi :: "(string option, int) gomap load_balancer_api" where
  "memLBApi = \<lparr>CreateLoadBalancer = (\<lambda>_ w. (Inr [], w)), DeleteLoadBalancer = (\<lambda>_ w. (Inr (), w)),
     SetIpAddressType = (\<lambda>_ _ w. (Inr (), w)), SetSubnets = (\<lambda>_ _ _ w. (Inr (), w)),
     SetSecurityGroups = (\<lambda>_ _ _ w. (Inr (), w)), RemoveIpamPools = (\<lambda>_ w. (Inr (), w)),
     AddIpamPool = (\<lambda>_ _ w. (Inr (), w)), DescribeLB = (\<lambda>_ w. (Inr [], w)),
     DescribeCapacityReservation = (\<lambda>arn w. (Inr (if mget0 0 w arn = 0 then ([], None)
        else ([''provisioned''], Some (Some (mget0 0 w arn)))), w)),
     ModifyCapacityReservation = (\<lambda>arn u w. (Inr (), mput arn (ToInt32 u) w)),
     LBAttributes = \<lparr>DescribeAttributes = (\<lambda>_ w. (Inr [], w)), ModifyAttributes = (\<lambda>_ _ w. (Inr (), w))\<rparr>\<rparr>"

lemma memLBApi_capacity_ok: "capacity_api_ok memLBApi (mget0 0)"
  by (auto simp: capacity_api_ok_def memLBApi_def fun_eq_iff)

theorem CapacityReservation_converges_witness:
  "\<exists>w'. CapacityReservation_Reconcile memLBApi
       ((exLB ''lb'' ''internal'')\<lparr>lbSpec := (lbSpec (exLB ''lb'' ''internal''))\<lparr>MinimumLoadBalancerCapacity := Some 200\<rparr>\<rparr>)
       (exSDKLB ''lb'' ''arn'' ''internal'') [(Some ''arn'', 100), (Some ''x'', 7)] = (Inr (), w')
     \<and> mget0 0 w' (Some ''arn'') = 200"
proof -
  let ?lb = "(exLB ''lb'' ''internal'')\<lparr>lbSpec := (lbSpec (exLB ''lb'' ''internal''))\<lparr>MinimumLoadBalancerCapacity := Some 200\<rparr>\<rparr>"
  have "fst (CapacityReservation_Reconcile memLBApi ?lb (exSDKLB ''lb'' ''arn'' ''internal'')
      [(Some ''arn'', 100), (Some ''x'', 7)]) = Inr ()"
    by (simp add: CapacityReservation_Reconcile_def getCurrentCapacityReservation_def io_bind_def memLBApi_def exSDKLB_def
        exLB_def Let_def)
  then obtain w' where run: "CapacityReservation_Reconcile memLBApi ?lb (exSDKLB ''lb'' ''arn'' ''internal'')
      [(Some ''arn'', 100), (Some ''x'', 7)] = (Inr (), w')" by (metis prod.collapse)
  then show ?thesis using CapacityReservation_converges [OF memLBApi_capacity_ok run] by (simp add: exSDKLB_def)
qed

end
