(* ===== verification/Security_Group_Rules.thy ===== *)
theory Security_Group_Rules
  imports Target_Group
begin

text \<open>
  The ingress rules of security groups, \<^verbatim>\<open>pkg/networking\<close>: permissions, their hash codes and the
  labels kept in their descriptions (\<^verbatim>\<open>security_group_info.go\<close>), the manager that caches the
  groups it reads (\<^verbatim>\<open>security_group_manager.go\<close>) and the reconciler of the ingress rules
  (\<^verbatim>\<open>security_group_reconciler.go\<close>).

  The EC2 API, the clock, and the JSON text of an SDK permission (whose struct is declared in the
  AWS SDK) are parameters.
\<close>

section \<open>Permissions\<close>

text \<open>One entry of an IP range, IPv6 range, prefix list or group pair: its value and description.\<close>

record SourceEntry =
  srcValue :: "string option"
  srcDescription :: "string option"

record IpPermission =
  IpProtocol :: "string option"
  FromPort :: "int option"
  ToPort :: "int option"
  IpRanges :: "SourceEntry list"
  Ipv6Ranges :: "SourceEntry list"
  PrefixListIds :: "SourceEntry list"
  UserIdGroupPairs :: "SourceEntry list"

record IPPermissionInfo =
  Permission :: IpPermission
  Labels :: string_map

record SecurityGroupInfo =
  SecurityGroupID :: string
  Ingress :: "IPPermissionInfo list"
  SGTags :: string_map

definition labelKeyRawDescription :: string where
  "labelKeyRawDescription = ''raw/description''"

definition hashPerm :: "(IpPermission \<Rightarrow> string) \<Rightarrow> IpPermission \<Rightarrow> string" where
  "hashPerm marshal p =
     (let base = ''IpProtocol: '' @ ToString (IpProtocol p) @ '', FromPort: '' @ Itoa (ToInt32 (FromPort p))
            @ '', ToPort: '' @ Itoa (ToInt32 (ToPort p))
      in if length (IpRanges p) = 1 then base @ '', IpRange: '' @ ToString (srcValue (hd (IpRanges p)))
         else if length (Ipv6Ranges p) = 1 then base @ '', Ipv6Range: '' @ ToString (srcValue (hd (Ipv6Ranges p)))
         else if length (PrefixListIds p) = 1 then base @ '', PrefixListId: '' @ ToString (srcValue (hd (PrefixListIds p)))
         else if length (UserIdGroupPairs p) = 1 then base @ '', UserIdGroupPair: '' @ ToString (srcValue (hd (UserIdGroupPairs p)))
         else marshal p)"

definition HashCode :: "(IpPermission \<Rightarrow> string) \<Rightarrow> IPPermissionInfo \<Rightarrow> string" where
  "HashCode marshal perm = hashPerm marshal (Permission perm)"

section \<open>Labels in descriptions\<close>

definition buildIPPermissionDescriptionForLabels :: "string_map \<Rightarrow> string" where
  "buildIPPermissionDescriptionForLabels labels =
     (case mget labels labelKeyRawDescription of
        Some rawDescription \<Rightarrow> rawDescription
      | None \<Rightarrow> join_on CHR '','' (map (\<lambda>key. key @ ''='' @ mget0 '''' labels key) (keyset labels)))"

text \<open>
  The matches of the regular expression \<^verbatim>\<open>([^\s,=]+)=([^\s,=]+)(?:,|$)\<close>. A match at a position takes
  maximal runs of the character class, because the character after a run is none of the class; the
  leftmost match is found by trying the positions in order, and the search goes on after a match.
\<close>

definition kvChar :: "char \<Rightarrow> bool" where
  "kvChar c \<longleftrightarrow> c \<noteq> CHR '','' \<and> c \<noteq> CHR ''='' \<and> c \<notin> {CHR 0x20, CHR 0x09, CHR 0x0A, CHR 0x0C, CHR 0x0D}"

definition kvMatchAt :: "string \<Rightarrow> (string \<times> string \<times> string) option" where
  "kvMatchAt s =
     (let key = takeWhile kvChar s; r1 = dropWhile kvChar s
      in if key = [] then None
         else (case r1 of
                 [] \<Rightarrow> None
               | c # r2 \<Rightarrow>
                   if c \<noteq> CHR ''='' then None
                   else (let val = takeWhile kvChar r2; r3 = dropWhile kvChar r2
                         in if val = [] then None
                            else (case r3 of
                                    [] \<Rightarrow> Some (key, val, [])
                                  | d # r4 \<Rightarrow> if d = CHR '','' then Some (key, val, r4) else None))))"

lemma kvMatchAt_shorter: "kvMatchAt s = Some (k, v, rest) \<Longrightarrow> length rest < length s"
proof -
  assume m: "kvMatchAt s = Some (k, v, rest)"
  have l: "length (dropWhile kvChar t) \<le> length t" for t by (rule length_dropWhile_le)
  obtain c r2 where r1: "dropWhile kvChar s = c # r2" using m
    by (auto simp: kvMatchAt_def Let_def split: if_splits list.splits)
  have "length rest \<le> length (dropWhile kvChar r2)" using m r1
    by (auto simp: kvMatchAt_def Let_def split: if_splits list.splits)
  then show ?thesis using l [of s] l [of r2] r1 by simp
qed

function kvMatches :: "string \<Rightarrow> (string \<times> string) list" where
  "kvMatches s =
     (case kvMatchAt s of
        Some (k, v, rest) \<Rightarrow> (k, v) # kvMatches rest
      | None \<Rightarrow> (case s of [] \<Rightarrow> [] | c # cs \<Rightarrow> kvMatches cs))"
  by pat_completeness auto
termination
  by (relation "measure length") (auto dest: kvMatchAt_shorter)

declare kvMatches.simps [simp del]

definition buildIPPermissionLabelsForDescription :: "string \<Rightarrow> string_map" where
  "buildIPPermissionLabelsForDescription description =
     mbuild fst snd (kvMatches description) [(labelKeyRawDescription, description)]"

section \<open>Constructors\<close>

definition NewIPPermissionLabelsForRawDescription :: "string \<Rightarrow> string_map" where
  "NewIPPermissionLabelsForRawDescription description = [(labelKeyRawDescription, description)]"

definition basePermission :: "string option \<Rightarrow> int option \<Rightarrow> int option \<Rightarrow> IpPermission" where
  "basePermission protocol fromPort toPort = \<lparr>IpProtocol = protocol, FromPort = fromPort, ToPort = toPort,
     IpRanges = [], Ipv6Ranges = [], PrefixListIds = [], UserIdGroupPairs = []\<rparr>"

definition NewCIDRIPPermission :: "string \<Rightarrow> int option \<Rightarrow> int option \<Rightarrow> string \<Rightarrow> string_map \<Rightarrow> IPPermissionInfo" where
  "NewCIDRIPPermission ipProtocol fromPort toPort cidr labels =
     \<lparr>Permission = (basePermission (Some ipProtocol) fromPort toPort)
        \<lparr>IpRanges := [\<lparr>srcValue = Some cidr, srcDescription = Some (buildIPPermissionDescriptionForLabels labels)\<rparr>]\<rparr>,
      Labels = labels\<rparr>"

definition NewCIDRv6IPPermission :: "string \<Rightarrow> int option \<Rightarrow> int option \<Rightarrow> string \<Rightarrow> string_map \<Rightarrow> IPPermissionInfo" where
  "NewCIDRv6IPPermission ipProtocol fromPort toPort cidrV6 labels =
     \<lparr>Permission = (basePermission (Some ipProtocol) fromPort toPort)
        \<lparr>Ipv6Ranges := [\<lparr>srcValue = Some cidrV6, srcDescription = Some (buildIPPermissionDescriptionForLabels labels)\<rparr>]\<rparr>,
      Labels = labels\<rparr>"

definition NewGroupIDIPPermission :: "string \<Rightarrow> int option \<Rightarrow> int option \<Rightarrow> string \<Rightarrow> string_map \<Rightarrow> IPPermissionInfo" where
  "NewGroupIDIPPermission ipProtocol fromPort toPort groupID labels =
     \<lparr>Permission = (basePermission (Some ipProtocol) fromPort toPort)
        \<lparr>UserIdGroupPairs := [\<lparr>srcValue = Some groupID, srcDescription = Some (buildIPPermissionDescriptionForLabels labels)\<rparr>]\<rparr>,
      Labels = labels\<rparr>"

definition NewPrefixListIDPermission :: "string \<Rightarrow> int option \<Rightarrow> int option \<Rightarrow> string \<Rightarrow> string_map \<Rightarrow> IPPermissionInfo" where
  "NewPrefixListIDPermission ipProtocol fromPort toPort prefixListID labels =
     \<lparr>Permission = (basePermission (Some ipProtocol) fromPort toPort)
        \<lparr>PrefixListIds := [\<lparr>srcValue = Some prefixListID, srcDescription = Some (buildIPPermissionDescriptionForLabels labels)\<rparr>]\<rparr>,
      Labels = labels\<rparr>"

definition NewRawIPPermission :: "IpPermission \<Rightarrow> IPPermissionInfo" where
  "NewRawIPPermission p =
     \<lparr>Permission = p, Labels =
       (if length (IpRanges p) = 1 then buildIPPermissionLabelsForDescription (ToString (srcDescription (hd (IpRanges p))))
        else if length (Ipv6Ranges p) = 1 then buildIPPermissionLabelsForDescription (ToString (srcDescription (hd (Ipv6Ranges p))))
        else if length (PrefixListIds p) = 1 then buildIPPermissionLabelsForDescription (ToString (srcDescription (hd (PrefixListIds p))))
        else if length (UserIdGroupPairs p) = 1 then buildIPPermissionLabelsForDescription (ToString (srcDescription (hd (UserIdGroupPairs p))))
        else [])\<rparr>"

definition expandSDKIPPermission :: "IpPermission \<Rightarrow> IpPermission list" where
  "expandSDKIPPermission p =
     (let base = basePermission (IpProtocol p) (FromPort p) (ToPort p);
          expanded = map (\<lambda>r. base\<lparr>IpRanges := [r]\<rparr>) (IpRanges p)
            @ map (\<lambda>r. base\<lparr>Ipv6Ranges := [r]\<rparr>) (Ipv6Ranges p)
            @ map (\<lambda>r. base\<lparr>PrefixListIds := [r]\<rparr>) (PrefixListIds p)
            @ map (\<lambda>r. base\<lparr>UserIdGroupPairs := [r]\<rparr>) (UserIdGroupPairs p)
      in if length expanded = 0 then [p] else expanded)"

record sdkSecurityGroup =
  sgGroupId :: "string option"
  sgIpPermissions :: "IpPermission list"
  sgSDKTags :: "SDKTag list"

definition buildSecurityGroupTags :: "sdkSecurityGroup \<Rightarrow> string_map" where
  "buildSecurityGroupTags sg = mbuild (\<lambda>t. ToString (TagKey t)) (\<lambda>t. ToString (TagValue t)) (sgSDKTags sg) []"

definition NewRawSecurityGroupInfo :: "sdkSecurityGroup \<Rightarrow> SecurityGroupInfo" where
  "NewRawSecurityGroupInfo sg =
     \<lparr>SecurityGroupID = ToString (sgGroupId sg),
      Ingress = concat (map (\<lambda>p. map NewRawIPPermission (expandSDKIPPermission p)) (sgIpPermissions sg)),
      SGTags = buildSecurityGroupTags sg\<rparr>"

section \<open>The manager\<close>

record 'w ec2_sg_api =
  DescribeSecurityGroups :: "string list \<Rightarrow> (string \<times> string list) list \<Rightarrow> ('w, sdkSecurityGroup list) io"
  AuthorizeSecurityGroupIngress :: "string \<Rightarrow> IpPermission list \<Rightarrow> ('w, unit) io"
  RevokeSecurityGroupIngress :: "string \<Rightarrow> IpPermission list \<Rightarrow> ('w, unit) io"
  ec2Now :: "'w \<Rightarrow> nat"
  sgInfoCacheTTL :: nat

record 'w sgManager =
  sgInfoCache :: "(string, SecurityGroupInfo \<times> nat) gomap"
  sgCloud :: 'w

definition onSGCloud :: "('w, 'a) io \<Rightarrow> ('w sgManager, 'a) io" where
  "onSGCloud f \<sigma> = (let (r, w) = f (sgCloud \<sigma>) in (r, \<sigma>\<lparr>sgCloud := w\<rparr>))"

definition sgCacheGet :: "'w ec2_sg_api \<Rightarrow> 'w sgManager \<Rightarrow> string \<Rightarrow> SecurityGroupInfo option" where
  "sgCacheGet api \<sigma> sgID =
     (case mget (sgInfoCache \<sigma>) sgID of
        None \<Rightarrow> None
      | Some (info, expiry) \<Rightarrow> if ec2Now api (sgCloud \<sigma>) < expiry then Some info else None)"

fun fetchSGInfosFromCache :: "'w ec2_sg_api \<Rightarrow> 'w sgManager \<Rightarrow> string list \<Rightarrow> (string, SecurityGroupInfo) gomap \<Rightarrow>
    (string, SecurityGroupInfo) gomap" where
  "fetchSGInfosFromCache api \<sigma> [] m = m"
| "fetchSGInfosFromCache api \<sigma> (sgID # sgIDs) m =
     fetchSGInfosFromCache api \<sigma> sgIDs (case sgCacheGet api \<sigma> sgID of None \<Rightarrow> m | Some info \<Rightarrow> mput sgID info m)"

fun saveSGInfosToCache :: "'w ec2_sg_api \<Rightarrow> (string \<times> SecurityGroupInfo) list \<Rightarrow> 'w sgManager \<Rightarrow> 'w sgManager" where
  "saveSGInfosToCache api [] \<sigma> = \<sigma>"
| "saveSGInfosToCache api ((sgID, info) # kvs) \<sigma> =
     saveSGInfosToCache api kvs
       (\<sigma>\<lparr>sgInfoCache := mput sgID (info, ec2Now api (sgCloud \<sigma>) + sgInfoCacheTTL api) (sgInfoCache \<sigma>)\<rparr>)"

definition clearSGInfosFromCache :: "string \<Rightarrow> 'w sgManager \<Rightarrow> 'w sgManager" where
  "clearSGInfosFromCache sgID \<sigma> = \<sigma>\<lparr>sgInfoCache := mdel sgID (sgInfoCache \<sigma>)\<rparr>"

definition fetchSGInfosFromAWS :: "'w ec2_sg_api \<Rightarrow> string list \<Rightarrow> (string \<times> string list) list \<Rightarrow>
    ('w, (string, SecurityGroupInfo) gomap) io" where
  "fetchSGInfosFromAWS api groupIds filters =
     io_bind (DescribeSecurityGroups api groupIds filters) (\<lambda>sgs.
       io_ret (mbuild (\<lambda>sg. ToString (sgGroupId sg)) NewRawSecurityGroupInfo sgs []))"

definition FetchSGInfosByID :: "'w ec2_sg_api \<Rightarrow> string list \<Rightarrow> bool \<Rightarrow> ('w sgManager, (string, SecurityGroupInfo) gomap) io" where
  "FetchSGInfosByID api sgIDs reloadIgnoringCache \<sigma> =
     (let cached = (if reloadIgnoringCache then [] else fetchSGInfosFromCache api \<sigma> sgIDs []);
          unFetched = filter (\<lambda>i. \<not> mhas cached i) (set_list sgIDs)
      in io_bind
           (if length unFetched > 0
            then io_bind (onSGCloud (fetchSGInfosFromAWS api unFetched [])) (\<lambda>fromAWS \<sigma>.
                   (Inr (mbuild fst snd fromAWS cached), saveSGInfosToCache api fromAWS \<sigma>))
            else io_ret cached)
           (\<lambda>sgInfoByID.
              if set sgIDs \<noteq> fst ` set sgInfoByID
              then io_fail (Errorf ''couldn't fetch SecurityGroupInfos: %v''
                     [join_on CHR '' '' (filter (\<lambda>i. \<not> mhas sgInfoByID i) (set_list sgIDs))])
              else io_ret sgInfoByID) \<sigma>)"

definition FetchSGInfosByRequest :: "'w ec2_sg_api \<Rightarrow> (string \<times> string list) list \<Rightarrow>
    ('w sgManager, (string, SecurityGroupInfo) gomap) io" where
  "FetchSGInfosByRequest api filters =
     io_bind (onSGCloud (fetchSGInfosFromAWS api [] filters)) (\<lambda>infos \<sigma>. (Inr infos, saveSGInfosToCache api infos \<sigma>))"

definition buildSDKIPPermissions :: "IPPermissionInfo list \<Rightarrow> IpPermission list" where
  "buildSDKIPPermissions permissions = (if length permissions = 0 then [] else map Permission permissions)"

definition AuthorizeSGIngress :: "'w ec2_sg_api \<Rightarrow> string \<Rightarrow> IPPermissionInfo list \<Rightarrow> ('w sgManager, unit) io" where
  "AuthorizeSGIngress api sgID permissions =
     io_bind (onSGCloud (AuthorizeSecurityGroupIngress api sgID (buildSDKIPPermissions permissions))) (\<lambda>_ \<sigma>.
       (Inr (), clearSGInfosFromCache sgID \<sigma>))"

definition RevokeSGIngress :: "'w ec2_sg_api \<Rightarrow> string \<Rightarrow> IPPermissionInfo list \<Rightarrow> ('w sgManager, unit) io" where
  "RevokeSGIngress api sgID permissions =
     io_bind (onSGCloud (RevokeSecurityGroupIngress api sgID (buildSDKIPPermissions permissions))) (\<lambda>_ \<sigma>.
       (Inr (), clearSGInfosFromCache sgID \<sigma>))"

section \<open>The reconciler\<close>

text \<open>\<open>labels.Everything()\<close> and \<open>labels.SelectorFromSet\<close>\<close>

type_synonym selector = "string_map \<Rightarrow> bool"

definition Everything :: selector where
  "Everything labels = True"

definition SelectorFromSet :: "string_map \<Rightarrow> selector" where
  "SelectorFromSet s labels = list_all (\<lambda>(k, v). mget labels k = Some v) s"

record SecurityGroupReconcileOptions =
  PermissionSelector :: selector
  AuthorizeOnly :: bool

definition diffIPPermissionInfos :: "(IpPermission \<Rightarrow> string) \<Rightarrow> IPPermissionInfo list \<Rightarrow> IPPermissionInfo list \<Rightarrow> IPPermissionInfo list" where
  "diffIPPermissionInfos marshal source target =
     (let sourceByHashCode = mbuild (HashCode marshal) (\<lambda>p. p) source [];
          targetByHashCode = mbuild (HashCode marshal) (\<lambda>p. p) target []
      in mlookups sourceByHashCode (keys_diff sourceByHashCode targetByHashCode))"

definition shouldRetryWithoutCache :: "go_error \<Rightarrow> bool" where
  "shouldRetryWithoutCache err \<longleftrightarrow>
     errorCode err = Some ''InvalidPermission.Duplicate'' \<or> errorCode err = Some ''InvalidPermission.NotFound''
   \<or> errorCode err = Some ''RulesPerSecurityGroupLimitExceeded''"

definition shouldRemoveSGRulesFirst :: "go_error \<Rightarrow> bool" where
  "shouldRemoveSGRulesFirst err \<longleftrightarrow> errorCode err = Some ''RulesPerSecurityGroupLimitExceeded''"

definition revokeStep :: "'w ec2_sg_api \<Rightarrow> SecurityGroupReconcileOptions \<Rightarrow> string \<Rightarrow> IPPermissionInfo list \<Rightarrow> ('w sgManager, unit) io" where
  "revokeStep api opts sgID permissionsToRevoke =
     (if length permissionsToRevoke > 0 \<and> \<not> AuthorizeOnly opts then RevokeSGIngress api sgID permissionsToRevoke else io_ret ())"

definition grantStep :: "'w ec2_sg_api \<Rightarrow> string \<Rightarrow> IPPermissionInfo list \<Rightarrow> ('w sgManager, unit) io" where
  "grantStep api sgID permissionsToGrant =
     (if length permissionsToGrant > 0 then AuthorizeSGIngress api sgID permissionsToGrant else io_ret ())"

definition reconcileIngressWithSGInfo :: "(IpPermission \<Rightarrow> string) \<Rightarrow> 'w ec2_sg_api \<Rightarrow> SecurityGroupInfo \<Rightarrow>
    IPPermissionInfo list \<Rightarrow> bool \<Rightarrow> SecurityGroupReconcileOptions \<Rightarrow> ('w sgManager, unit) io" where
  "reconcileIngressWithSGInfo marshal api sgInfo desiredPermissions revokeFirst opts =
     (let extraPermissions = diffIPPermissionInfos marshal (Ingress sgInfo) desiredPermissions;
          permissionsToRevoke = filter (\<lambda>p. PermissionSelector opts (Labels p)) extraPermissions;
          permissionsToGrant = diffIPPermissionInfos marshal desiredPermissions (Ingress sgInfo);
          sgID = SecurityGroupID sgInfo
      in if revokeFirst
         then io_bind (revokeStep api opts sgID permissionsToRevoke) (\<lambda>_. grantStep api sgID permissionsToGrant)
         else io_bind (grantStep api sgID permissionsToGrant) (\<lambda>_. revokeStep api opts sgID permissionsToRevoke))"

text \<open>\<open>sgInfoByID[sgID]\<close> is present whenever the fetch succeeded.\<close>

definition zeroSGInfo :: SecurityGroupInfo where
  "zeroSGInfo = \<lparr>SecurityGroupID = '''', Ingress = [], SGTags = []\<rparr>"

definition ReconcileIngress :: "(IpPermission \<Rightarrow> string) \<Rightarrow> 'w ec2_sg_api \<Rightarrow> string \<Rightarrow> IPPermissionInfo list \<Rightarrow>
    SecurityGroupReconcileOptions \<Rightarrow> ('w sgManager, unit) io" where
  "ReconcileIngress marshal api sgID desiredPermissions opts =
     io_bind (FetchSGInfosByID api [sgID] False) (\<lambda>sgInfoByID \<sigma>.
       (case reconcileIngressWithSGInfo marshal api (mget0 zeroSGInfo sgInfoByID sgID) desiredPermissions False opts \<sigma> of
          (Inr _, \<sigma>') \<Rightarrow> (Inr (), \<sigma>')
        | (Inl err, \<sigma>') \<Rightarrow>
            if \<not> shouldRetryWithoutCache err then (Inl err, \<sigma>')
            else io_bind (FetchSGInfosByID api [sgID] True) (\<lambda>sgInfoByID'.
                   reconcileIngressWithSGInfo marshal api (mget0 zeroSGInfo sgInfoByID' sgID) desiredPermissions
                     (shouldRemoveSGRulesFirst err) opts) \<sigma>'))"

section \<open>The labels survive the description\<close>

text \<open>A label key or value that a description can carry: non-empty, without separators.\<close>

definition cleanToken :: "string \<Rightarrow> bool" where
  "cleanToken s \<longleftrightarrow> s \<noteq> [] \<and> list_all kvChar s"

lemma kvChar_sep [simp]: "\<not> kvChar CHR ''=''" "\<not> kvChar CHR '',''"
  by (simp_all add: kvChar_def)

lemma takeWhile_token:
  assumes "cleanToken k" "\<not> kvChar c"
  shows "takeWhile kvChar (k @ c # s) = k" "dropWhile kvChar (k @ c # s) = c # s"
    "takeWhile kvChar k = k" "dropWhile kvChar k = []"
proof -
  have "\<forall>x \<in> set k. kvChar x" using assms(1) by (simp add: cleanToken_def list_all_iff)
  then show "takeWhile kvChar (k @ c # s) = k" "dropWhile kvChar (k @ c # s) = c # s"
    "takeWhile kvChar k = k" "dropWhile kvChar k = []"
    using assms(2) by (simp_all add: takeWhile_append2 dropWhile_append2)
qed

lemma kvMatchAt_pair:
  assumes "cleanToken k" "cleanToken v"
  shows "kvMatchAt (k @ CHR ''='' # v) = Some (k, v, [])"
    and "kvMatchAt (k @ CHR ''='' # v @ CHR '','' # s) = Some (k, v, s)"
proof -
  have "k \<noteq> []" "v \<noteq> []" using assms by (simp_all add: cleanToken_def)
  then show "kvMatchAt (k @ CHR ''='' # v) = Some (k, v, [])"
    "kvMatchAt (k @ CHR ''='' # v @ CHR '','' # s) = Some (k, v, s)"
    by (simp_all add: kvMatchAt_def takeWhile_token [OF assms(1), of "CHR ''=''"] takeWhile_token [OF assms(2), of "CHR '',''"])
qed

lemma kvMatches_Nil [simp]: "kvMatches [] = []"
  by (simp add: kvMatches.simps kvMatchAt_def)

lemma kvMatches_join:
  assumes "\<forall>(k, v) \<in> set kvs. cleanToken k \<and> cleanToken v"
  shows "kvMatches (join_on CHR '','' (map (\<lambda>(k, v). k @ ''='' @ v) kvs)) = kvs"
  using assms
proof (induction kvs)
  case (Cons kv kvs)
  obtain k v where kv: "kv = (k, v)" by force
  have c: "cleanToken k" "cleanToken v" using Cons.prems kv by auto
  show ?case
  proof (cases kvs)
    case Nil
    then show ?thesis using kv kvMatchAt_pair(1) [OF c] by (simp add: kvMatches.simps [of "k @ _"])
  next
    case (Cons kv' kvs')
    then have j: "join_on CHR '','' (map (\<lambda>(k, v). k @ ''='' @ v) (kv # kvs)) =
        k @ CHR ''='' # v @ CHR '','' # join_on CHR '','' (map (\<lambda>(k, v). k @ ''='' @ v) kvs)"
      using kv by simp
    show ?thesis unfolding j
      using Cons.IH Cons.prems kv kvMatchAt_pair(2) [OF c] by (simp add: kvMatches.simps [of "k @ _"])
  qed
qed simp

text \<open>
  The labels the controller gives to a permission survive in its description: a permission that
  is read back from EC2 with the description written for a set of labels has these labels again, so
  the controller recognises the rules it manages.
\<close>

theorem labels_roundtrip:
  assumes "wf_map labels" "\<forall>(k, v) \<in> set labels. cleanToken k \<and> cleanToken v"
    and "mget labels labelKeyRawDescription = None" "mget labels k = Some v"
  shows "mget (buildIPPermissionLabelsForDescription (buildIPPermissionDescriptionForLabels labels)) k = Some v"
proof -
  define kvs where "kvs = map (\<lambda>key. (key, mget0 '''' labels key)) (keyset labels)"
  have kvs: "map_of kvs = map_of labels" unfolding kvs_def by (rule map_of_keyset_list [OF assms(1)])
  have d: "distinct (map fst kvs)" by (simp add: kvs_def comp_def)
  have "(k, v) \<in> set labels" if "(k, v) \<in> set kvs" for k v
    using that d kvs by (metis map_of_SomeD map_of_is_SomeI)
  then have clean: "\<forall>(k, v) \<in> set kvs. cleanToken k \<and> cleanToken v" using assms(2) by blast
  have "buildIPPermissionDescriptionForLabels labels = join_on CHR '','' (map (\<lambda>(k, v). k @ ''='' @ v) kvs)"
    using assms(3) by (simp add: buildIPPermissionDescriptionForLabels_def kvs_def comp_def)
  then have "kvMatches (buildIPPermissionDescriptionForLabels labels) = kvs"
    using kvMatches_join [OF clean] by simp
  moreover have "(k, v) \<in> set kvs" using kvs assms(4) by (metis map_of_SomeD)
  ultimately show ?thesis
    using mget_mbuild_distinct [OF d, of "(k, v)" snd] by (simp add: buildIPPermissionLabelsForDescription_def)
qed

theorem labels_roundtrip_witness:
  "mget (buildIPPermissionLabelsForDescription
      (buildIPPermissionDescriptionForLabels [(''elbv2.k8s.aws/targetGroupBinding'', ''shared'')]))
      ''elbv2.k8s.aws/targetGroupBinding'' = Some ''shared''"
  by (rule labels_roundtrip) (simp_all add: cleanToken_def kvChar_def labelKeyRawDescription_def)

section \<open>Hash codes\<close>

text \<open>The one source of an expanded permission, in the order in which the hash code looks for it.\<close>

definition oneSource :: "IpPermission \<Rightarrow> (string \<times> string) option" where
  "oneSource p =
     (if length (IpRanges p) = 1 then Some (''IpRange'', ToString (srcValue (hd (IpRanges p))))
      else if length (Ipv6Ranges p) = 1 then Some (''Ipv6Range'', ToString (srcValue (hd (Ipv6Ranges p))))
      else if length (PrefixListIds p) = 1 then Some (''PrefixListId'', ToString (srcValue (hd (PrefixListIds p))))
      else if length (UserIdGroupPairs p) = 1 then Some (''UserIdGroupPair'', ToString (srcValue (hd (UserIdGroupPairs p))))
      else None)"

lemma oneSource_kind: "oneSource p = Some (kind, v) \<Longrightarrow> kind \<in> {''IpRange'', ''Ipv6Range'', ''PrefixListId'', ''UserIdGroupPair''}"
  by (auto simp: oneSource_def split: if_splits)

lemma hashPerm_join:
  assumes "oneSource p = Some (kind, v)"
  shows "hashPerm marshal p = join_on CHR '',''
     [''IpProtocol: '' @ ToString (IpProtocol p), '' FromPort: '' @ Itoa (ToInt32 (FromPort p)),
      '' ToPort: '' @ Itoa (ToInt32 (ToPort p)), '' '' @ kind @ '': '' @ v]"
  using assms by (auto simp: hashPerm_def oneSource_def Let_def split: if_splits)

text \<open>
  C38. The hash code identifies a permission up to its description: two expanded permissions have the
  same hash code exactly if they have the same protocol, the same ports and the same kind and value
  of source (protocols, CIDRs and IDs contain no comma).
\<close>

theorem hash_identifies:
  assumes "oneSource p = Some (kind, v)" "oneSource q = Some (kind', v')"
    and "CHR '','' \<notin> set (ToString (IpProtocol p))" "CHR '','' \<notin> set (ToString (IpProtocol q))"
    and "CHR '','' \<notin> set v" "CHR '','' \<notin> set v'"
  shows "hashPerm marshal p = hashPerm marshal q \<longleftrightarrow>
     ToString (IpProtocol p) = ToString (IpProtocol q) \<and> ToInt32 (FromPort p) = ToInt32 (FromPort q)
   \<and> ToInt32 (ToPort p) = ToInt32 (ToPort q) \<and> kind = kind' \<and> v = v'" (is "?L \<longleftrightarrow> ?R")
proof
  assume ?R
  then show ?L by (simp add: hashPerm_join [OF assms(1)] hashPerm_join [OF assms(2)])
next
  assume L: ?L
  let ?ws = "\<lambda>p kind v. [''IpProtocol: '' @ ToString (IpProtocol p), '' FromPort: '' @ Itoa (ToInt32 (FromPort p)),
      '' ToPort: '' @ Itoa (ToInt32 (ToPort p)), '' '' @ kind @ '': '' @ v]"
  have "split_on CHR '','' (hashPerm marshal p) = ?ws p kind v"
    unfolding hashPerm_join [OF assms(1)] using assms(3,5) oneSource_kind [OF assms(1)] Itoa_no_comma
    by (intro split_join) auto
  moreover have "split_on CHR '','' (hashPerm marshal q) = ?ws q kind' v'"
    unfolding hashPerm_join [OF assms(2)] using assms(4,6) oneSource_kind [OF assms(2)] Itoa_no_comma
    by (intro split_join) auto
  ultimately have eq: "?ws p kind v = ?ws q kind' v'" using L by simp
  then have "kind @ '': '' @ v = kind' @ '': '' @ v'" by simp
  then have "kind = kind' \<and> v = v'"
    using oneSource_kind [OF assms(1)] oneSource_kind [OF assms(2)] by auto
  then show ?R using eq by (auto simp: Itoa_inj)
qed

definition exPerm :: "int \<Rightarrow> string \<Rightarrow> IPPermissionInfo" where
  "exPerm port groupID = NewGroupIDIPPermission ''tcp'' (Some port) (Some port) groupID
     [(''elbv2.k8s.aws/targetGroupBinding'', ''shared'')]"

theorem hash_identifies_witness:
  "hashPerm (\<lambda>_. []) (Permission (exPerm 80 ''sg-1'')) = hashPerm (\<lambda>_. []) (Permission (exPerm 443 ''sg-1'')) \<longleftrightarrow>
     ToString (IpProtocol (Permission (exPerm 80 ''sg-1''))) = ToString (IpProtocol (Permission (exPerm 443 ''sg-1'')))
   \<and> ToInt32 (FromPort (Permission (exPerm 80 ''sg-1''))) = ToInt32 (FromPort (Permission (exPerm 443 ''sg-1'')))
   \<and> ToInt32 (ToPort (Permission (exPerm 80 ''sg-1''))) = ToInt32 (ToPort (Permission (exPerm 443 ''sg-1'')))
   \<and> ''UserIdGroupPair'' = ''UserIdGroupPair'' \<and> ''sg-1'' = ''sg-1''"
  by (rule hash_identifies) (simp_all add: exPerm_def NewGroupIDIPPermission_def oneSource_def basePermission_def)

section \<open>Reconciling the ingress rules\<close>

lemma diffIPPermissionInfos_spec:
  "HashCode marshal ` set (diffIPPermissionInfos marshal s t) = HashCode marshal ` set s - HashCode marshal ` set t"
  "set (diffIPPermissionInfos marshal s t) \<subseteq> set s"
  "inj_on (HashCode marshal) (set (diffIPPermissionInfos marshal s t))"
  "inj_on (HashCode marshal) (set s) \<Longrightarrow>
     set (diffIPPermissionInfos marshal s t) = {p \<in> set s. HashCode marshal p \<notin> HashCode marshal ` set t}"
proof -
  let ?H = "HashCode marshal"
  let ?sm = "mbuild ?H (\<lambda>p. p) s []" and ?tm = "mbuild ?H (\<lambda>p. p) t []"
  have sm: "mget ?sm h = Some p \<Longrightarrow> p \<in> set s \<and> ?H p = h" for h p
    by (erule mget_mbuild_SomeD) auto
  have some: "h \<in> ?H ` set s \<Longrightarrow> \<exists>p. mget ?sm h = Some p" for h
    by (metis (no_types, lifting) keys_mbuild map_of_eq_None_iff not_None_eq UnI1 Un_empty_right)
  have D: "set (diffIPPermissionInfos marshal s t) = {p. \<exists>h. h \<in> ?H ` set s - ?H ` set t \<and> mget ?sm h = Some p}"
    by (auto simp: diffIPPermissionInfos_def Let_def set_mlookups)
  show h: "?H ` set (diffIPPermissionInfos marshal s t) = ?H ` set s - ?H ` set t"
  proof (rule equalityI; rule subsetI)
    fix x assume "x \<in> ?H ` set (diffIPPermissionInfos marshal s t)"
    then obtain p h where "x = ?H p" "h \<in> ?H ` set s - ?H ` set t" "mget ?sm h = Some p" unfolding D by blast
    then show "x \<in> ?H ` set s - ?H ` set t" using sm [of h p] by simp
  next
    fix h assume h: "h \<in> ?H ` set s - ?H ` set t"
    then obtain p where "mget ?sm h = Some p" using some by blast
    then have "p \<in> set (diffIPPermissionInfos marshal s t)" "?H p = h" unfolding D using h sm by blast+
    then show "h \<in> ?H ` set (diffIPPermissionInfos marshal s t)" by blast
  qed
  show sub: "set (diffIPPermissionInfos marshal s t) \<subseteq> set s" unfolding D using sm by blast
  show "inj_on ?H (set (diffIPPermissionInfos marshal s t))"
  proof (rule inj_onI)
    fix p q assume pq: "p \<in> set (diffIPPermissionInfos marshal s t)" "q \<in> set (diffIPPermissionInfos marshal s t)" "?H p = ?H q"
    then obtain h h' where hh: "mget ?sm h = Some p" "mget ?sm h' = Some q" unfolding D by blast
    have "h = h'" using sm [OF hh(1)] sm [OF hh(2)] pq(3) by simp
    then have "Some p = Some q" using hh by (metis (no_types))
    then show "p = q" by simp
  qed
  assume inj: "inj_on ?H (set s)"
  show "set (diffIPPermissionInfos marshal s t) = {p \<in> set s. ?H p \<notin> ?H ` set t}"
  proof
    show "set (diffIPPermissionInfos marshal s t) \<subseteq> {p \<in> set s. ?H p \<notin> ?H ` set t}"
      using sub h by blast
    show "{p \<in> set s. ?H p \<notin> ?H ` set t} \<subseteq> set (diffIPPermissionInfos marshal s t)"
    proof
      fix p assume p: "p \<in> {p \<in> set s. ?H p \<notin> ?H ` set t}"
      then obtain q where q: "mget ?sm (?H p) = Some q" using some by blast
      then have "q = p" using sm inj p by (auto simp: inj_on_def)
      then show "p \<in> set (diffIPPermissionInfos marshal s t)" unfolding D using p q by blast
    qed
  qed
qed

text \<open>
  What EC2 documents: DescribeSecurityGroups returns the rules of the groups, grouped in some way;
  AuthorizeSecurityGroupIngress adds rules and RevokeSecurityGroupIngress removes the rules given
  (matched without their descriptions) on the named group only; a failed call changes nothing.
  \<open>rules\<close> reads the rules a cloud holds, each with one source.
\<close>

type_synonym 'w sg_rules = "'w \<Rightarrow> string \<Rightarrow> IpPermission set"

definition sg_api_ok :: "(IpPermission \<Rightarrow> string) \<Rightarrow> 'w ec2_sg_api \<Rightarrow> 'w sg_rules \<Rightarrow> bool" where
  "sg_api_ok marshal api rules \<longleftrightarrow>
     (\<forall>ids fs w r w'. DescribeSecurityGroups api ids fs w = (r, w') \<longrightarrow> rules w' = rules w
        \<and> (\<forall>sgs. r = Inr sgs \<longrightarrow> (\<forall>sg \<in> set sgs.
             set (concat (map expandSDKIPPermission (sgIpPermissions sg))) = rules w (ToString (sgGroupId sg)))))
   \<and> (\<forall>sgID ps w r w'. AuthorizeSecurityGroupIngress api sgID ps w = (r, w') \<longrightarrow>
        rules w' = (if isl r then rules w else (rules w)(sgID := rules w sgID \<union> set ps)))
   \<and> (\<forall>sgID ps w r w'. RevokeSecurityGroupIngress api sgID ps w = (r, w') \<longrightarrow>
        rules w' = (if isl r then rules w
          else (rules w)(sgID := {p \<in> rules w sgID. hashPerm marshal p \<notin> hashPerm marshal ` set ps})))"

text \<open>The information about a group is what EC2 has.\<close>

definition infoFrom :: "(string \<Rightarrow> IpPermission set) \<Rightarrow> string \<Rightarrow> SecurityGroupInfo \<Rightarrow> bool" where
  "infoFrom rs sgID info \<longleftrightarrow> SecurityGroupID info = sgID \<and> set (Ingress info) = NewRawIPPermission ` rs sgID"

definition sgCoherent :: "'w sg_rules \<Rightarrow> 'w sgManager \<Rightarrow> bool" where
  "sgCoherent rules \<sigma> \<longleftrightarrow> (\<forall>sgID info e. mget (sgInfoCache \<sigma>) sgID = Some (info, e) \<longrightarrow> infoFrom (rules (sgCloud \<sigma>)) sgID info)"

lemma infoFrom_raw:
  assumes "set (concat (map expandSDKIPPermission (sgIpPermissions sg))) = rs (ToString (sgGroupId sg))"
  shows "infoFrom rs (ToString (sgGroupId sg)) (NewRawSecurityGroupInfo sg)"
proof -
  have "set (Ingress (NewRawSecurityGroupInfo sg)) =
      NewRawIPPermission ` set (concat (map expandSDKIPPermission (sgIpPermissions sg)))"
    by (simp add: NewRawSecurityGroupInfo_def image_UN)
  then show ?thesis unfolding infoFrom_def assms by (simp add: NewRawSecurityGroupInfo_def)
qed

lemma saveSGInfosToCache_coherent:
  assumes "sgCoherent rules \<sigma>" "\<forall>(i, info) \<in> set kvs. infoFrom (rules (sgCloud \<sigma>)) i info"
  shows "sgCoherent rules (saveSGInfosToCache api kvs \<sigma>) \<and> sgCloud (saveSGInfosToCache api kvs \<sigma>) = sgCloud \<sigma>"
  using assms
proof (induction api kvs \<sigma> rule: saveSGInfosToCache.induct)
  case (2 api sgID info kvs \<sigma>)
  let ?\<sigma> = "\<sigma>\<lparr>sgInfoCache := mput sgID (info, ec2Now api (sgCloud \<sigma>) + sgInfoCacheTTL api) (sgInfoCache \<sigma>)\<rparr>"
  have "sgCoherent rules ?\<sigma>" using 2(2,3) by (simp add: sgCoherent_def)
  then show ?case using 2(1) 2(3) by simp
qed simp

lemma fetchSGInfosFromAWS_spec:
  assumes ok: "sg_api_ok marshal api rules" and run: "fetchSGInfosFromAWS api ids fs w = (r, w')"
  shows "rules w' = rules w \<and> (\<forall>m. r = Inr m \<longrightarrow> wf_map m \<and> (\<forall>(i, info) \<in> set m. infoFrom (rules w) i info))"
proof -
  obtain r0 w0 where d: "DescribeSecurityGroups api ids fs w = (r0, w0)" by force
  have st: "rules w0 = rules w"
    and D: "r0 = Inr sgs \<Longrightarrow> sg \<in> set sgs \<Longrightarrow>
      set (concat (map expandSDKIPPermission (sgIpPermissions sg))) = rules w (ToString (sgGroupId sg))" for sgs sg
    using ok d unfolding sg_api_ok_def by blast+
  show ?thesis
  proof (cases r0)
    case (Inl e)
    then show ?thesis using run d st by (auto simp: fetchSGInfosFromAWS_def io_bind_def)
  next
    case (Inr sgs)
    let ?m = "mbuild (\<lambda>sg. ToString (sgGroupId sg)) NewRawSecurityGroupInfo sgs []"
    have "infoFrom (rules w) i info" if "(i, info) \<in> set ?m" for i info
    proof -
      have "mget ?m i = Some info" using that by simp
      then obtain sg where "sg \<in> set sgs" "ToString (sgGroupId sg) = i" "NewRawSecurityGroupInfo sg = info"
        by (rule mget_mbuild_SomeD)
      then show ?thesis using infoFrom_raw [of sg "rules w"] D [OF Inr] by metis
    qed
    then show ?thesis using run d st Inr by (auto simp: fetchSGInfosFromAWS_def io_bind_def)
  qed
qed

lemma FetchSGInfosByID_spec:
  assumes ok: "sg_api_ok marshal api rules" and coh: "sgCoherent rules \<sigma>"
    and run: "FetchSGInfosByID api [sgID] reload \<sigma> = (r, \<sigma>')"
  shows "sgCoherent rules \<sigma>' \<and> rules (sgCloud \<sigma>') = rules (sgCloud \<sigma>)
     \<and> (\<forall>m. r = Inr m \<longrightarrow> infoFrom (rules (sgCloud \<sigma>)) sgID (mget0 zeroSGInfo m sgID))"
proof (cases "\<not> reload \<and> sgCacheGet api \<sigma> sgID \<noteq> None")
  case True
  then obtain info where info: "sgCacheGet api \<sigma> sgID = Some info" by auto
  then have "infoFrom (rules (sgCloud \<sigma>)) sgID info"
    using coh by (auto simp: sgCacheGet_def sgCoherent_def split: option.splits if_splits)
  moreover have "r = Inr [(sgID, info)]" "\<sigma>' = \<sigma>"
    using run True info by (auto simp: FetchSGInfosByID_def set_list_def io_bind_def)
  ultimately show ?thesis using coh by simp
next
  case False
  then have c: "(if reload then [] else fetchSGInfosFromCache api \<sigma> [sgID] []) = []" by auto
  obtain r0 w0 where f: "fetchSGInfosFromAWS api [sgID] [] (sgCloud \<sigma>) = (r0, w0)" by force
  note F = fetchSGInfosFromAWS_spec [OF ok f]
  let ?\<sigma> = "\<sigma>\<lparr>sgCloud := w0\<rparr>"
  have coh0: "sgCoherent rules ?\<sigma>" using coh F by (simp add: sgCoherent_def)
  show ?thesis
  proof (cases r0)
    case (Inl e)
    then have "r = Inl e" "\<sigma>' = ?\<sigma>" using run f c
      by (simp_all add: FetchSGInfosByID_def set_list_def io_bind_def onSGCloud_def)
    then show ?thesis using F coh0 by simp
  next
    case (Inr m)
    then have m: "wf_map m" "\<forall>(i, info) \<in> set m. infoFrom (rules (sgCloud \<sigma>)) i info" using F by auto
    then have S: "sgCoherent rules (saveSGInfosToCache api m ?\<sigma>)" "sgCloud (saveSGInfosToCache api m ?\<sigma>) = w0"
      using saveSGInfosToCache_coherent [OF coh0, of m api] F by auto
    have run': "(if {sgID} \<noteq> fst ` set (mbuild fst snd m [])
        then (Inl (Errorf ''couldn't fetch SecurityGroupInfos: %v''
               [join_on CHR '' '' (filter (\<lambda>i. \<not> mhas (mbuild fst snd m []) i) (set_list [sgID]))]),
              saveSGInfosToCache api m ?\<sigma>)
        else (Inr (mbuild fst snd m []), saveSGInfosToCache api m ?\<sigma>)) = (r, \<sigma>')"
      using run f c Inr by (simp add: FetchSGInfosByID_def set_list_def io_bind_def onSGCloud_def split: if_splits)
    have "infoFrom (rules (sgCloud \<sigma>)) sgID (mget0 zeroSGInfo (mbuild fst snd m []) sgID)"
      if "{sgID} = fst ` set (mbuild fst snd m [])"
    proof -
      have "sgID \<in> fst ` set m" using that by (metis insertI1 keys_mbuild list.set(1) image_empty Un_empty_right)
      then obtain info where "(sgID, info) \<in> set m" by force
      then show ?thesis using m mget_mbuild_distinct [OF m(1), of "(sgID, info)" snd "[]"] by (auto simp: mget0_def)
    qed
    then show ?thesis using run' S F by (auto split: if_splits)
  qed
qed

lemma HashCode_raw [simp]: "HashCode marshal (NewRawIPPermission p) = hashPerm marshal p" "Permission (NewRawIPPermission p) = p"
  by (simp_all add: HashCode_def NewRawIPPermission_def)

lemma sgCoherent_change:
  assumes "sgCoherent rules \<sigma>" "\<And>i. i \<noteq> sgID \<Longrightarrow> rules w i = rules (sgCloud \<sigma>) i"
  shows "sgCoherent rules (clearSGInfosFromCache sgID (\<sigma>\<lparr>sgCloud := w\<rparr>))"
  using assms by (auto simp: sgCoherent_def clearSGInfosFromCache_def infoFrom_def)

lemma grantStep_spec:
  assumes ok: "sg_api_ok marshal api rules" and coh: "sgCoherent rules \<sigma>" and run: "grantStep api sgID ps \<sigma> = (r, \<sigma>')"
  shows "sgCoherent rules \<sigma>' \<and> rules (sgCloud \<sigma>') = (if isl r then rules (sgCloud \<sigma>)
     else (rules (sgCloud \<sigma>))(sgID := rules (sgCloud \<sigma>) sgID \<union> Permission ` set ps))"
proof (cases "ps = []")
  case True
  then show ?thesis using run coh by (auto simp: grantStep_def)
next
  case False
  obtain r0 w0 where a: "AuthorizeSecurityGroupIngress api sgID (buildSDKIPPermissions ps) (sgCloud \<sigma>) = (r0, w0)" by force
  have st: "rules w0 = (if isl r0 then rules (sgCloud \<sigma>)
      else (rules (sgCloud \<sigma>))(sgID := rules (sgCloud \<sigma>) sgID \<union> Permission ` set ps))"
    using ok a False unfolding sg_api_ok_def by (simp add: buildSDKIPPermissions_def)
  show ?thesis
  proof (cases r0)
    case (Inl e)
    then have "r = Inl e" "\<sigma>' = \<sigma>\<lparr>sgCloud := w0\<rparr>" using run a False
      by (simp_all add: grantStep_def AuthorizeSGIngress_def io_bind_def onSGCloud_def)
    then show ?thesis using st Inl coh by (simp add: sgCoherent_def)
  next
    case (Inr x)
    then have "r = Inr ()" "\<sigma>' = clearSGInfosFromCache sgID (\<sigma>\<lparr>sgCloud := w0\<rparr>)" using run a False
      by (simp_all add: grantStep_def AuthorizeSGIngress_def io_bind_def onSGCloud_def)
    then show ?thesis using st Inr sgCoherent_change [OF coh, of sgID w0] by (simp add: clearSGInfosFromCache_def)
  qed
qed

lemma revokeStep_spec:
  assumes ok: "sg_api_ok marshal api rules" and coh: "sgCoherent rules \<sigma>" and run: "revokeStep api opts sgID ps \<sigma> = (r, \<sigma>')"
  shows "sgCoherent rules \<sigma>' \<and> rules (sgCloud \<sigma>') = (if isl r then rules (sgCloud \<sigma>)
     else (rules (sgCloud \<sigma>))(sgID := {p \<in> rules (sgCloud \<sigma>) sgID.
            AuthorizeOnly opts \<or> hashPerm marshal p \<notin> HashCode marshal ` set ps}))"
proof (cases "ps = [] \<or> AuthorizeOnly opts")
  case True
  then have "r = Inr () \<and> \<sigma>' = \<sigma>" using run by (auto simp: revokeStep_def)
  then show ?thesis using True coh by auto
next
  case False
  obtain r0 w0 where a: "RevokeSecurityGroupIngress api sgID (buildSDKIPPermissions ps) (sgCloud \<sigma>) = (r0, w0)" by force
  have h: "hashPerm marshal ` set (buildSDKIPPermissions ps) = HashCode marshal ` set ps"
    using False by (simp add: buildSDKIPPermissions_def image_image HashCode_def)
  have "rules w0 = (if isl r0 then rules (sgCloud \<sigma>)
      else (rules (sgCloud \<sigma>))(sgID := {p \<in> rules (sgCloud \<sigma>) sgID. hashPerm marshal p \<notin> hashPerm marshal ` set (buildSDKIPPermissions ps)}))"
    using ok a unfolding sg_api_ok_def by blast
  then have st: "rules w0 = (if isl r0 then rules (sgCloud \<sigma>)
      else (rules (sgCloud \<sigma>))(sgID := {p \<in> rules (sgCloud \<sigma>) sgID. hashPerm marshal p \<notin> HashCode marshal ` set ps}))"
    unfolding h .
  show ?thesis
  proof (cases r0)
    case (Inl e)
    then have "r = Inl e" "\<sigma>' = \<sigma>\<lparr>sgCloud := w0\<rparr>" using run a False
      by (simp_all add: revokeStep_def RevokeSGIngress_def io_bind_def onSGCloud_def)
    then show ?thesis using st Inl coh by (simp add: sgCoherent_def)
  next
    case (Inr x)
    then have "r = Inr ()" "\<sigma>' = clearSGInfosFromCache sgID (\<sigma>\<lparr>sgCloud := w0\<rparr>)" using run a False
      by (simp_all add: revokeStep_def RevokeSGIngress_def io_bind_def onSGCloud_def)
    then show ?thesis using st Inr False sgCoherent_change [OF coh, of sgID w0] by (simp add: clearSGInfosFromCache_def)
  qed
qed

text \<open>The rules kept: those the selector does not cover, and in authorize-only mode all.\<close>

definition keptRules :: "SecurityGroupReconcileOptions \<Rightarrow> IpPermission set \<Rightarrow> IpPermission set" where
  "keptRules opts R = {p \<in> R. AuthorizeOnly opts \<or> \<not> PermissionSelector opts (Labels (NewRawIPPermission p))}"

definition ingressGoal :: "(IpPermission \<Rightarrow> string) \<Rightarrow> SecurityGroupReconcileOptions \<Rightarrow> IPPermissionInfo list \<Rightarrow>
    IpPermission set \<Rightarrow> string set" where
  "ingressGoal marshal opts desired R = HashCode marshal ` set desired \<union> hashPerm marshal ` keptRules opts R"

lemma toRevoke_hashes:
  assumes "infoFrom rs sgID info" "inj_on (hashPerm marshal) (rs sgID)" "p \<in> rs sgID"
  shows "hashPerm marshal p \<in> HashCode marshal ` set (filter (\<lambda>q. PermissionSelector opts (Labels q))
       (diffIPPermissionInfos marshal (Ingress info) desired)) \<longleftrightarrow>
     hashPerm marshal p \<notin> HashCode marshal ` set desired \<and> PermissionSelector opts (Labels (NewRawIPPermission p))"
proof -
  let ?H = "HashCode marshal"
  have I: "set (Ingress info) = NewRawIPPermission ` rs sgID" using assms(1) by (simp add: infoFrom_def)
  have inj: "inj_on ?H (set (Ingress info))"
    unfolding I using assms(2) by (auto simp: inj_on_def)
  have "?H (NewRawIPPermission p) \<in> ?H ` {q \<in> set (Ingress info). ?H q \<notin> ?H ` set desired \<and> PermissionSelector opts (Labels q)}
     \<longleftrightarrow> ?H (NewRawIPPermission p) \<notin> ?H ` set desired \<and> PermissionSelector opts (Labels (NewRawIPPermission p))"
    using inj_on_image_mem_iff [OF inj, of "NewRawIPPermission p"
        "{q \<in> set (Ingress info). ?H q \<notin> ?H ` set desired \<and> PermissionSelector opts (Labels q)}"] assms(3) I by auto
  moreover have "set (filter (\<lambda>q. PermissionSelector opts (Labels q)) (diffIPPermissionInfos marshal (Ingress info) desired)) =
      {q \<in> set (Ingress info). ?H q \<notin> ?H ` set desired \<and> PermissionSelector opts (Labels q)}"
    using diffIPPermissionInfos_spec(4) [OF inj, of desired] by auto
  ultimately show ?thesis by simp
qed

lemma reconcileIngressWithSGInfo_spec:
  assumes ok: "sg_api_ok marshal api rules" and coh: "sgCoherent rules \<sigma>"
    and info: "infoFrom (rules (sgCloud \<sigma>)) sgID info" and inj: "inj_on (hashPerm marshal) (rules (sgCloud \<sigma>) sgID)"
    and run: "reconcileIngressWithSGInfo marshal api info desired revokeFirst opts \<sigma> = (r, \<sigma>')"
  shows "sgCoherent rules \<sigma>' \<and> (\<forall>i. i \<noteq> sgID \<longrightarrow> rules (sgCloud \<sigma>') i = rules (sgCloud \<sigma>) i)
     \<and> (r = Inr () \<longrightarrow> hashPerm marshal ` rules (sgCloud \<sigma>') sgID = ingressGoal marshal opts desired (rules (sgCloud \<sigma>) sgID))
     \<and> (isl r \<and> \<not> revokeFirst \<longrightarrow> inj_on (hashPerm marshal) (rules (sgCloud \<sigma>') sgID)
         \<and> ingressGoal marshal opts desired (rules (sgCloud \<sigma>') sgID) = ingressGoal marshal opts desired (rules (sgCloud \<sigma>) sgID))"
proof -
  let ?H = "HashCode marshal" and ?h = "hashPerm marshal" and ?R = "rules (sgCloud \<sigma>) sgID"
  define rv where "rv = filter (\<lambda>q. PermissionSelector opts (Labels q)) (diffIPPermissionInfos marshal (Ingress info) desired)"
  define gr where "gr = diffIPPermissionInfos marshal desired (Ingress info)"
  have I: "set (Ingress info) = NewRawIPPermission ` ?R" and sid: "SecurityGroupID info = sgID"
    using info by (simp_all add: infoFrom_def)
  have hI: "?H ` set (Ingress info) = ?h ` ?R" unfolding I by (simp add: image_image)
  have hgr: "?h ` Permission ` set gr = ?H ` set desired - ?h ` ?R"
    using diffIPPermissionInfos_spec(1) [of marshal desired "Ingress info"] hI
    by (simp add: gr_def image_image flip: HashCode_def)
  have rv: "?h p \<in> ?H ` set rv \<longleftrightarrow> ?h p \<notin> ?H ` set desired \<and> PermissionSelector opts (Labels (NewRawIPPermission p))"
    if "p \<in> ?R" for p
    unfolding rv_def by (rule toRevoke_hashes [OF info inj that])
  have rvd: "?H ` set rv \<inter> ?H ` set desired = {}"
    using diffIPPermissionInfos_spec(1) [of marshal "Ingress info" desired] unfolding rv_def by auto
  have goal: "?h ` {p \<in> ?R. AuthorizeOnly opts \<or> ?h p \<notin> ?H ` set rv} \<union> (?H ` set desired - ?h ` ?R)
      = ingressGoal marshal opts desired ?R"
    unfolding ingressGoal_def keptRules_def using rv by (auto simp: image_iff) (metis image_eqI)+
  show ?thesis
  proof (cases revokeFirst)
    case True
    then have run': "io_bind (revokeStep api opts sgID rv) (\<lambda>_. grantStep api sgID gr) \<sigma> = (r, \<sigma>')"
      using run by (simp add: reconcileIngressWithSGInfo_def rv_def gr_def sid Let_def)
    obtain r1 \<sigma>1 where 1: "revokeStep api opts sgID rv \<sigma> = (r1, \<sigma>1)" by force
    note A = revokeStep_spec [OF ok coh 1]
    show ?thesis
    proof (cases r1)
      case (Inl e)
      then show ?thesis using run' 1 A True by auto
    next
      case (Inr x)
      then have 2: "grantStep api sgID gr \<sigma>1 = (r, \<sigma>')" using run' 1 by simp
      note B = grantStep_spec [OF ok conjunct1 [OF A] 2]
      have "?h ` rules (sgCloud \<sigma>') sgID = ingressGoal marshal opts desired ?R" if "r = Inr ()"
        using A B Inr that hgr goal by (simp add: image_Un)
      then show ?thesis using A B Inr True by auto
    qed
  next
    case False
    then have run': "io_bind (grantStep api sgID gr) (\<lambda>_. revokeStep api opts sgID rv) \<sigma> = (r, \<sigma>')"
      using run by (simp add: reconcileIngressWithSGInfo_def rv_def gr_def sid Let_def)
    obtain r1 \<sigma>1 where 1: "grantStep api sgID gr \<sigma> = (r1, \<sigma>1)" by force
    note A = grantStep_spec [OF ok coh 1]
    show ?thesis
    proof (cases r1)
      case (Inl e)
      then show ?thesis using run' 1 A inj by auto
    next
      case (Inr x)
      then have 2: "revokeStep api opts sgID rv \<sigma>1 = (r, \<sigma>')" using run' 1 by simp
      note B = revokeStep_spec [OF ok conjunct1 [OF A] 2]
      have R1: "rules (sgCloud \<sigma>1) sgID = ?R \<union> Permission ` set gr" using A Inr by simp
      have gr_ok: "?h p \<in> ?H ` set desired" "?h p \<notin> ?H ` set rv" if "p \<in> Permission ` set gr" for p
        using that hgr rvd by blast+
      have "?h ` rules (sgCloud \<sigma>') sgID = ingressGoal marshal opts desired ?R" if "r = Inr ()"
      proof -
        have "rules (sgCloud \<sigma>') sgID = {p \<in> ?R. AuthorizeOnly opts \<or> ?h p \<notin> ?H ` set rv} \<union> Permission ` set gr"
          using B that R1 gr_ok by auto
        then show ?thesis using goal hgr by (simp add: image_Un)
      qed
      moreover have "inj_on ?h (rules (sgCloud \<sigma>') sgID)" if "isl r"
      proof -
        have "inj_on ?h (Permission ` set gr)"
          using diffIPPermissionInfos_spec(3) [of marshal desired "Ingress info"] unfolding gr_def
          by (auto simp: inj_on_def HashCode_def)
        then have "inj_on ?h (?R \<union> Permission ` set gr)" using inj hgr by (auto simp: inj_on_Un)
        then show ?thesis using B that R1 by simp
      qed
      moreover have "ingressGoal marshal opts desired (rules (sgCloud \<sigma>') sgID) = ingressGoal marshal opts desired ?R" if "isl r"
        using B that R1 gr_ok by (auto simp: ingressGoal_def keptRules_def)
      ultimately show ?thesis using A B Inr by (auto split: if_splits)
    qed
  qed
qed

text \<open>Whatever the outcome: the rules that are not managed survive, and hashes stay unique.\<close>

lemma toGrant_inj:
  assumes "infoFrom rs sgID info" "inj_on (hashPerm marshal) (rs sgID)"
  shows "inj_on (hashPerm marshal) (rs sgID \<union> Permission ` set (diffIPPermissionInfos marshal desired (Ingress info)))"
proof -
  let ?gr = "diffIPPermissionInfos marshal desired (Ingress info)"
  have "HashCode marshal ` set (Ingress info) = hashPerm marshal ` rs sgID"
    using assms(1) by (simp add: infoFrom_def image_image)
  then have "hashPerm marshal ` Permission ` set ?gr \<inter> hashPerm marshal ` rs sgID = {}"
    using diffIPPermissionInfos_spec(1) [of marshal desired "Ingress info"] by (auto simp: image_image simp flip: HashCode_def)
  moreover have "inj_on (hashPerm marshal) (Permission ` set ?gr)"
    using diffIPPermissionInfos_spec(3) [of marshal desired "Ingress info"] by (auto simp: inj_on_def HashCode_def)
  ultimately show ?thesis using assms(2) by (auto simp: inj_on_Un)
qed

lemma reconcileIngressWithSGInfo_keeps:
  assumes ok: "sg_api_ok marshal api rules" and coh: "sgCoherent rules \<sigma>"
    and info: "infoFrom (rules (sgCloud \<sigma>)) sgID info" and inj: "inj_on (hashPerm marshal) (rules (sgCloud \<sigma>) sgID)"
    and run: "reconcileIngressWithSGInfo marshal api info desired revokeFirst opts \<sigma> = (r, \<sigma>')"
  shows "inj_on (hashPerm marshal) (rules (sgCloud \<sigma>') sgID) \<and> keptRules opts (rules (sgCloud \<sigma>) sgID) \<subseteq> rules (sgCloud \<sigma>') sgID"
proof -
  let ?R = "rules (sgCloud \<sigma>) sgID"
  define rv where "rv = filter (\<lambda>q. PermissionSelector opts (Labels q)) (diffIPPermissionInfos marshal (Ingress info) desired)"
  define gr where "gr = diffIPPermissionInfos marshal desired (Ingress info)"
  have sid: "SecurityGroupID info = sgID" using info by (simp add: infoFrom_def)
  have kept: "AuthorizeOnly opts \<or> hashPerm marshal p \<notin> HashCode marshal ` set rv" if "p \<in> keptRules opts ?R" for p
    using that toRevoke_hashes [OF info inj, of p opts desired] unfolding rv_def keptRules_def by auto
  have step: "rules (sgCloud \<sigma>2) sgID \<subseteq> ?R \<union> Permission ` set gr \<and> keptRules opts ?R \<subseteq> rules (sgCloud \<sigma>2) sgID \<and> sgCoherent rules \<sigma>2"
    if "sgCoherent rules \<sigma>1" "rules (sgCloud \<sigma>1) sgID \<subseteq> ?R \<union> Permission ` set gr" "keptRules opts ?R \<subseteq> rules (sgCloud \<sigma>1) sgID"
      and "grantStep api sgID gr \<sigma>1 = (r1, \<sigma>2) \<or> revokeStep api opts sgID rv \<sigma>1 = (r1, \<sigma>2)" for \<sigma>1 \<sigma>2 r1
    using that(4)
  proof
    assume "grantStep api sgID gr \<sigma>1 = (r1, \<sigma>2)"
    from grantStep_spec [OF ok that(1) this] show ?thesis using that(2,3) by auto
  next
    assume "revokeStep api opts sgID rv \<sigma>1 = (r1, \<sigma>2)"
    from revokeStep_spec [OF ok that(1) this] show ?thesis using that(2,3) kept by auto
  qed
  have start: "?R \<subseteq> ?R \<union> Permission ` set gr" "keptRules opts ?R \<subseteq> ?R" by (auto simp: keptRules_def)
  have "rules (sgCloud \<sigma>') sgID \<subseteq> ?R \<union> Permission ` set gr \<and> keptRules opts ?R \<subseteq> rules (sgCloud \<sigma>') sgID"
  proof (cases revokeFirst)
    case True
    then have run': "io_bind (revokeStep api opts sgID rv) (\<lambda>_. grantStep api sgID gr) \<sigma> = (r, \<sigma>')"
      using run by (simp add: reconcileIngressWithSGInfo_def rv_def gr_def sid Let_def)
    obtain r1 \<sigma>1 where 1: "revokeStep api opts sgID rv \<sigma> = (r1, \<sigma>1)" by force
    note A = step [OF coh start disjI2 [OF 1]]
    show ?thesis
    proof (cases r1)
      case (Inl e)
      then show ?thesis using A run' 1 by simp
    next
      case (Inr x)
      then have "grantStep api sgID gr \<sigma>1 = (r, \<sigma>')" using run' 1 by simp
      then show ?thesis using step [of \<sigma>1 r \<sigma>'] A by blast
    qed
  next
    case False
    then have run': "io_bind (grantStep api sgID gr) (\<lambda>_. revokeStep api opts sgID rv) \<sigma> = (r, \<sigma>')"
      using run by (simp add: reconcileIngressWithSGInfo_def rv_def gr_def sid Let_def)
    obtain r1 \<sigma>1 where 1: "grantStep api sgID gr \<sigma> = (r1, \<sigma>1)" by force
    note A = step [OF coh start disjI1 [OF 1]]
    show ?thesis
    proof (cases r1)
      case (Inl e)
      then show ?thesis using A run' 1 by simp
    next
      case (Inr x)
      then have "revokeStep api opts sgID rv \<sigma>1 = (r, \<sigma>')" using run' 1 by simp
      then show ?thesis using step [of \<sigma>1 r \<sigma>'] A by blast
    qed
  qed
  then show ?thesis using toGrant_inj [OF info inj, of desired] inj_on_subset unfolding gr_def by blast
qed

lemma ReconcileIngress_spec:
  assumes ok: "sg_api_ok marshal api rules" and coh: "sgCoherent rules \<sigma>"
    and inj: "inj_on (hashPerm marshal) (rules (sgCloud \<sigma>) sgID)"
    and run: "ReconcileIngress marshal api sgID desired opts \<sigma> = (r, \<sigma>')"
  shows "sgCoherent rules \<sigma>' \<and> (\<forall>i. i \<noteq> sgID \<longrightarrow> rules (sgCloud \<sigma>') i = rules (sgCloud \<sigma>) i)
     \<and> (r = Inr () \<longrightarrow> hashPerm marshal ` rules (sgCloud \<sigma>') sgID = ingressGoal marshal opts desired (rules (sgCloud \<sigma>) sgID))
     \<and> inj_on (hashPerm marshal) (rules (sgCloud \<sigma>') sgID) \<and> keptRules opts (rules (sgCloud \<sigma>) sgID) \<subseteq> rules (sgCloud \<sigma>') sgID"
proof -
  obtain r1 \<sigma>1 where f: "FetchSGInfosByID api [sgID] False \<sigma> = (r1, \<sigma>1)" by force
  note F = FetchSGInfosByID_spec [OF ok coh f]
  have K: "keptRules opts R \<subseteq> R" for R by (auto simp: keptRules_def)
  show ?thesis
  proof (cases r1)
    case (Inl e)
    then show ?thesis using run f F inj K by (auto simp: ReconcileIngress_def io_bind_def)
  next
    case (Inr m)
    obtain r2 \<sigma>2 where 2: "reconcileIngressWithSGInfo marshal api (mget0 zeroSGInfo m sgID) desired False opts \<sigma>1 = (r2, \<sigma>2)" by force
    have pre: "infoFrom (rules (sgCloud \<sigma>1)) sgID (mget0 zeroSGInfo m sgID)" "inj_on (hashPerm marshal) (rules (sgCloud \<sigma>1) sgID)"
      using F Inr inj by simp_all
    note A = reconcileIngressWithSGInfo_spec [OF ok conjunct1 [OF F] pre 2]
      and A' = reconcileIngressWithSGInfo_keeps [OF ok conjunct1 [OF F] pre 2]
    show ?thesis
    proof (cases "\<exists>e. r2 = Inl e \<and> shouldRetryWithoutCache e")
      case False
      then have "r = r2 \<and> \<sigma>' = \<sigma>2" using run f Inr 2
        by (cases r2) (auto simp: ReconcileIngress_def io_bind_def)
      then show ?thesis using A A' F by auto
    next
      case True
      then obtain e where e: "r2 = Inl e" "shouldRetryWithoutCache e" by blast
      obtain r3 \<sigma>3 where f3: "FetchSGInfosByID api [sgID] True \<sigma>2 = (r3, \<sigma>3)" by force
      note F3 = FetchSGInfosByID_spec [OF ok conjunct1 [OF A] f3]
      show ?thesis
      proof (cases r3)
        case Inl3: (Inl e3)
        then show ?thesis using run f Inr 2 e f3 F3 A A' F by (auto simp: ReconcileIngress_def io_bind_def)
      next
        case Inr3: (Inr m3)
        have 4: "reconcileIngressWithSGInfo marshal api (mget0 zeroSGInfo m3 sgID) desired (shouldRemoveSGRulesFirst e) opts \<sigma>3 = (r, \<sigma>')"
          using run f Inr 2 e f3 Inr3 by (simp add: ReconcileIngress_def io_bind_def)
        have pre3: "infoFrom (rules (sgCloud \<sigma>3)) sgID (mget0 zeroSGInfo m3 sgID)" "inj_on (hashPerm marshal) (rules (sgCloud \<sigma>3) sgID)"
          using F3 Inr3 A e by simp_all
        note B = reconcileIngressWithSGInfo_spec [OF ok conjunct1 [OF F3] pre3 4]
          and B' = reconcileIngressWithSGInfo_keeps [OF ok conjunct1 [OF F3] pre3 4]
        have "keptRules opts (rules (sgCloud \<sigma>) sgID) \<subseteq> keptRules opts (rules (sgCloud \<sigma>2) sgID)"
          using A' F by (auto simp: keptRules_def)
        then have "keptRules opts (rules (sgCloud \<sigma>) sgID) \<subseteq> rules (sgCloud \<sigma>') sgID"
          using B' F3 by auto
        then show ?thesis using A B B' F F3 e by auto
      qed
    qed
  qed
qed

text \<open>
  C22. Reconciling the ingress rules of a security group: on success the group has exactly the
  desired rules and the rules that were there before and are not selected for management (in
  authorize-only mode all that were there), up to descriptions; a rule that is not managed is never
  revoked. This holds for the first attempt and for the retry without cache, in either order of
  authorizing and revoking. Other groups are not touched and the cache stays coherent, also when a
  call fails.
\<close>

theorem ReconcileIngress_converges:
  assumes ok: "sg_api_ok marshal api rules" and coh: "sgCoherent rules \<sigma>"
    and inj: "inj_on (hashPerm marshal) (rules (sgCloud \<sigma>) sgID)"
    and run: "ReconcileIngress marshal api sgID desired opts \<sigma> = (r, \<sigma>')"
  shows "sgCoherent rules \<sigma>' \<and> (\<forall>i. i \<noteq> sgID \<longrightarrow> rules (sgCloud \<sigma>') i = rules (sgCloud \<sigma>) i)
     \<and> (r = Inr () \<longrightarrow> hashPerm marshal ` rules (sgCloud \<sigma>') sgID =
          HashCode marshal ` set desired \<union> hashPerm marshal ` {p \<in> rules (sgCloud \<sigma>) sgID.
            AuthorizeOnly opts \<or> \<not> PermissionSelector opts (Labels (NewRawIPPermission p))})"
  using ReconcileIngress_spec [OF ok coh inj run] unfolding ingressGoal_def keptRules_def by blast

text \<open>EC2 in memory, for the witness: the rules of each group, each with one source.\<close>

definition expandedPerm :: "IpPermission \<Rightarrow> bool" where
  "expandedPerm p \<longleftrightarrow> expandSDKIPPermission p = [p]"

definition memRules :: "(string, IpPermission list) gomap sg_rules" where
  "memRules w sgID = set (filter expandedPerm (mget0 [] w sgID))"

definition memEC2 :: "(string, IpPermission list) gomap ec2_sg_api" where
  "memEC2 = \<lparr>
     DescribeSecurityGroups = (\<lambda>ids fs w. (Inr (map (\<lambda>i. \<lparr>sgGroupId = Some i,
        sgIpPermissions = filter expandedPerm (mget0 [] w i), sgSDKTags = []\<rparr>) ids), w)),
     AuthorizeSecurityGroupIngress = (\<lambda>i ps w.
        if list_all expandedPerm ps then (Inr (), mput i (mget0 [] w i @ ps) w)
        else (Inl (APIError ''InvalidParameterValue'' ''''), w)),
     RevokeSecurityGroupIngress = (\<lambda>i ps w.
        (Inr (), mput i (filter (\<lambda>p. hashPerm (\<lambda>_. []) p \<notin> hashPerm (\<lambda>_. []) ` set ps) (mget0 [] w i)) w)),
     ec2Now = (\<lambda>_. 0), sgInfoCacheTTL = 10\<rparr>"

lemma memEC2_ok: "sg_api_ok (\<lambda>_. []) memEC2 memRules"
proof -
  have "concat (map expandSDKIPPermission (filter expandedPerm ps)) = filter expandedPerm ps" for ps
    by (induction ps) (auto simp: expandedPerm_def)
  then have "set (concat (map expandSDKIPPermission (sgIpPermissions sg))) = memRules w (ToString (sgGroupId sg))"
    if "DescribeSecurityGroups memEC2 ids fs w = (Inr sgs, w')" "sg \<in> set sgs" for ids fs w w' sgs sg
    using that by (auto simp: memEC2_def memRules_def simp del: set_concat)
  moreover have "memRules w' = memRules w" if "DescribeSecurityGroups memEC2 ids fs w = (r, w')" for ids fs w r w'
    using that by (auto simp: memEC2_def)
  moreover have "memRules w' = (if isl r then memRules w else (memRules w)(i := memRules w i \<union> set ps))"
    if "AuthorizeSecurityGroupIngress memEC2 i ps w = (r, w')" for i ps w r w'
    using that by (auto simp: memEC2_def memRules_def fun_eq_iff list_all_iff split: if_splits)
  moreover have "memRules w' = (if isl r then memRules w
      else (memRules w)(i := {p \<in> memRules w i. hashPerm (\<lambda>_. []) p \<notin> hashPerm (\<lambda>_. []) ` set ps}))"
    if "RevokeSecurityGroupIngress memEC2 i ps w = (r, w')" for i ps w r w'
    using that by (auto simp: memEC2_def memRules_def fun_eq_iff)
  ultimately show ?thesis unfolding sg_api_ok_def by blast
qed

definition exUnmanaged :: IPPermissionInfo where
  "exUnmanaged = NewCIDRIPPermission ''tcp'' (Some 1) (Some 1) ''10.0.0.0/8'' [(''raw/description'', ''by hand'')]"

definition exSGManager :: "(string, IpPermission list) gomap sgManager" where
  "exSGManager = \<lparr>sgInfoCache = [], sgCloud = [(''sg'', [Permission (exPerm 1 ''sg-1''), Permission exUnmanaged])]\<rparr>"

definition exSGOptions :: SecurityGroupReconcileOptions where
  "exSGOptions = \<lparr>PermissionSelector = SelectorFromSet [(''elbv2.k8s.aws/targetGroupBinding'', ''shared'')], AuthorizeOnly = False\<rparr>"

lemma exSGManager_run: "fst (ReconcileIngress (\<lambda>_. []) memEC2 ''sg'' [exPerm 2 ''sg-1''] exSGOptions exSGManager) = Inr ()"
  by code_simp

lemma exSGManager_inj: "inj_on (hashPerm (\<lambda>_. [])) (memRules (sgCloud exSGManager) ''sg'')"
proof -
  have "hashPerm (\<lambda>_. []) (Permission (exPerm 1 ''sg-1'')) \<noteq> hashPerm (\<lambda>_. []) (Permission exUnmanaged)" by code_simp
  then show ?thesis by (auto simp: memRules_def exSGManager_def inj_on_def)
qed

theorem ReconcileIngress_converges_witness:
  "\<exists>\<sigma>'. ReconcileIngress (\<lambda>_. []) memEC2 ''sg'' [exPerm 2 ''sg-1''] exSGOptions exSGManager = (Inr (), \<sigma>')
     \<and> hashPerm (\<lambda>_. []) ` memRules (sgCloud \<sigma>') ''sg'' =
          HashCode (\<lambda>_. []) ` set [exPerm 2 ''sg-1''] \<union> hashPerm (\<lambda>_. []) ` {p \<in> memRules (sgCloud exSGManager) ''sg''.
            AuthorizeOnly exSGOptions \<or> \<not> PermissionSelector exSGOptions (Labels (NewRawIPPermission p))}"
proof -
  obtain \<sigma>' where run: "ReconcileIngress (\<lambda>_. []) memEC2 ''sg'' [exPerm 2 ''sg-1''] exSGOptions exSGManager = (Inr (), \<sigma>')"
    using exSGManager_run by (metis prod.collapse)
  have "sgCoherent memRules exSGManager" by (simp add: sgCoherent_def exSGManager_def)
  then show ?thesis using ReconcileIngress_converges [OF memEC2_ok _ exSGManager_inj run] run by blast
qed

end
