(* ===== verification/Networking.thy ===== *)
theory Networking
  imports Security_Group_Rules
begin

text \<open>
  \<^verbatim>\<open>pkg/networking/networking_manager.go\<close>: the manager that opens the security groups of the
  endpoints for the traffic of the target group bindings. It keeps the permissions every binding
  needs per endpoint security group, aggregates them over all bindings, reconciles the groups in use
  and garbage-collects the rules of those no longer used.

  The Kubernetes client and the resolvers of network interfaces are parameters; validity of a CIDR
  (\<open>net.ParseCIDR\<close>) is a parameter as well, since only its error is used. A set is a list of its
  elements; loops over maps and sets take the order as an argument.
\<close>

section \<open>The networking specification of a binding\<close>

record NetworkingPort =
  npProtocol :: "string option"
  npPort :: "IntOrString option"

record NetworkingPeer =
  peerSecurityGroup :: "string option"
  peerIPBlock :: "string option"

record NetworkingIngressRule =
  ruleFrom :: "NetworkingPeer list"
  rulePorts :: "NetworkingPort list"

type_synonym NamespacedName = "string \<times> string"

record PodInfo =
  podKey :: NamespacedName
  ContainerPorts :: "(string \<times> int) list"

record networkedTGB =
  netTGBKey :: NamespacedName
  netTGBNetworking :: "NetworkingIngressRule list option"

record ENIInfo =
  NetworkInterfaceID :: string
  ENISecurityGroups :: "string list"

definition hybridNetworkInterfaceID :: string where
  "hybridNetworkInterfaceID = ''hybrid-no-eni''"

section \<open>The permissions of a binding\<close>

fun lookupPort :: "(string \<times> int) list \<Rightarrow> string \<Rightarrow> int option" where
  "lookupPort [] name = None"
| "lookupPort ((n, p) # ps) name = (if n = name then Some p else lookupPort ps name)"

definition LookupContainerPort :: "PodInfo \<Rightarrow> IntOrString \<Rightarrow> int res" where
  "LookupContainerPort pod port =
     (let notFound = Inl (Errorf ''unable to find port %s on pod %s''
            [IntOrString_String port, fst (podKey pod) @ ''/'' @ snd (podKey pod)])
      in (case port of
            IntVal i \<Rightarrow> Inr i
          | StrVal name \<Rightarrow> (case lookupPort (ContainerPorts pod) name of None \<Rightarrow> notFound | Some p \<Rightarrow> Inr p)))"

fun collectPorts :: "PodInfo list \<Rightarrow> IntOrString \<Rightarrow> int list \<Rightarrow> int list res" where
  "collectPorts [] port acc = Inr (set_list acc)"
| "collectPorts (pod # pods) port acc =
     res_bind (LookupContainerPort pod port) (\<lambda>p. collectPorts pods port (acc @ [to_int32 p]))"

definition computeNumericalPorts :: "IntOrString \<Rightarrow> PodInfo list \<Rightarrow> int list res" where
  "computeNumericalPorts port pods =
     (case port of
        IntVal i \<Rightarrow> Inr [i]
      | StrVal _ \<Rightarrow>
          if length pods = 0 then Inl (Errorf ''named ports can only be used with pod endpoints'' [])
          else collectPorts pods port [])"

definition tgbNetworkingLabels :: string_map where
  "tgbNetworkingLabels = [(''elbv2.k8s.aws/targetGroupBinding'', ''shared'')]"

definition computePermissionsForPeerPort :: "(string \<Rightarrow> bool) \<Rightarrow> NetworkingPeer \<Rightarrow> NetworkingPort \<Rightarrow> PodInfo list \<Rightarrow>
    IPPermissionInfo list res" where
  "computePermissionsForPeerPort validCIDR peer port pods =
     (let sdkProtocol = (if npProtocol port = Some ''UDP'' then ''udp'' else ''tcp'')
      in res_bind
           (case npPort port of
              Some p \<Rightarrow> res_bind (computeNumericalPorts p pods) (\<lambda>ps. Inr (map (\<lambda>i. (i, i)) ps))
            | None \<Rightarrow> Inr [(0, 65535)])
           (\<lambda>portPairs.
              case peerSecurityGroup peer of
                Some groupID \<Rightarrow>
                  Inr (map (\<lambda>(f, t). NewGroupIDIPPermission sdkProtocol (Some f) (Some t) groupID tgbNetworkingLabels) portPairs)
              | None \<Rightarrow>
                  (case peerIPBlock peer of
                     Some cidr \<Rightarrow>
                       if \<not> validCIDR cidr then Inl (Errorf ''invalid CIDR address: %v'' [cidr])
                       else Inr (map (\<lambda>(f, t).
                              if Contains cidr '':'' then NewCIDRv6IPPermission sdkProtocol (Some f) (Some t) cidr tgbNetworkingLabels
                              else NewCIDRIPPermission sdkProtocol (Some f) (Some t) cidr tgbNetworkingLabels) portPairs)
                   | None \<Rightarrow> Inl (Errorf ''either ipBlock or securityGroup should be specified'' []))))"

text \<open>The loop over the pairs of peers and ports; a rule without ports allows all TCP ports.\<close>

fun res_concat :: "('a \<Rightarrow> 'b list res) \<Rightarrow> 'a list \<Rightarrow> 'b list res" where
  "res_concat f [] = Inr []"
| "res_concat f (x # xs) = res_bind (f x) (\<lambda>ys. res_bind (res_concat f xs) (\<lambda>zs. Inr (ys @ zs)))"

definition computeIngressPermissionsForTGBNetworking :: "(string \<Rightarrow> bool) \<Rightarrow> NetworkingIngressRule list \<Rightarrow> PodInfo list \<Rightarrow>
    IPPermissionInfo list res" where
  "computeIngressPermissionsForTGBNetworking validCIDR ingress pods =
     res_concat (\<lambda>rule.
       res_concat (\<lambda>peer.
         res_concat (\<lambda>port. computePermissionsForPeerPort validCIDR peer port pods)
           (if length (rulePorts rule) = 0 then [\<lparr>npProtocol = Some ''TCP'', npPort = None\<rparr>] else rulePorts rule))
         (ruleFrom rule))
       ingress"

section \<open>The state of the manager\<close>

type_synonym permsPerSG = "(string, IPPermissionInfo list) gomap"

record 'w networkingManager =
  ingressPermissionsPerSGByTGB :: "(NamespacedName, permsPerSG) gomap"
  trackedEndpointSGs :: "string list"
  trackedEndpointSGsInitialized :: bool
  netSGs :: "'w sgManager"

record 'w networking_deps =
  netMarshal :: "IpPermission \<Rightarrow> string"
  netEC2 :: "'w ec2_sg_api"
  listTGBs :: "('w, networkedTGB list) io"
  podENIResolve :: "PodInfo list \<Rightarrow> ('w, (NamespacedName, ENIInfo) gomap) io"
  nodeENIResolve :: "string list \<Rightarrow> ('w, (string, ENIInfo) gomap) io"
  netVpcID :: string
  netClusterName :: string
  serviceTargetENISGTags :: string_map
  disableRestrictedSGRules :: bool
  netValidCIDR :: "string \<Rightarrow> bool"
  mapOrder :: "(string \<times> IPPermissionInfo list) list \<Rightarrow> (string \<times> IPPermissionInfo list) list"
  setOrder :: "string list \<Rightarrow> string list"

definition onNetSGs :: "('w sgManager, 'a) io \<Rightarrow> ('w networkingManager, 'a) io" where
  "onNetSGs f \<sigma> = (let (r, s) = f (netSGs \<sigma>) in (r, \<sigma>\<lparr>netSGs := s\<rparr>))"

definition onNetCloud :: "('w, 'a) io \<Rightarrow> ('w networkingManager, 'a) io" where
  "onNetCloud f = onNetSGs (onSGCloud f)"

definition trackEndpointSGs :: "string list \<Rightarrow> 'w networkingManager \<Rightarrow> 'w networkingManager" where
  "trackEndpointSGs sgIDs \<sigma> = \<sigma>\<lparr>trackedEndpointSGs := remdups (trackedEndpointSGs \<sigma> @ sgIDs)\<rparr>"

definition unTrackEndpointSGs :: "string list \<Rightarrow> 'w networkingManager \<Rightarrow> 'w networkingManager" where
  "unTrackEndpointSGs sgIDs \<sigma> = \<sigma>\<lparr>trackedEndpointSGs := filter (\<lambda>i. i \<notin> set sgIDs) (trackedEndpointSGs \<sigma>)\<rparr>"

definition fetchTGBsWithNetworking :: "'w networking_deps \<Rightarrow> ('w networkingManager, (NamespacedName, networkedTGB) gomap) io" where
  "fetchTGBsWithNetworking m =
     io_bind (onNetCloud (listTGBs m)) (\<lambda>tgbs.
       io_ret (mbuild netTGBKey (\<lambda>t. t) (filter (\<lambda>t. netTGBNetworking t \<noteq> None) tgbs) []))"

definition fetchEndpointSGsFromAWS :: "'w networking_deps \<Rightarrow> ('w networkingManager, string list) io" where
  "fetchEndpointSGsFromAWS m =
     io_bind (onNetSGs (FetchSGInfosByRequest (netEC2 m)
         [(''tag:kubernetes.io/cluster/'' @ netClusterName m, [''owned'', ''shared'']), (''vpc-id'', [netVpcID m])])) (\<lambda>infos.
       io_ret (keyset infos))"

definition fetchEndpointSGs :: "'w networking_deps \<Rightarrow> ('w networkingManager, string list) io" where
  "fetchEndpointSGs m \<sigma> =
     (if \<not> trackedEndpointSGsInitialized \<sigma>
      then io_bind (fetchEndpointSGsFromAWS m) (\<lambda>endpointSGs \<sigma>.
             let \<sigma>' = (trackEndpointSGs endpointSGs \<sigma>)\<lparr>trackedEndpointSGsInitialized := True\<rparr>
             in (Inr (trackedEndpointSGs \<sigma>'), \<sigma>')) \<sigma>
      else (Inr (trackedEndpointSGs \<sigma>), \<sigma>))"

text \<open>The endpoint group of a network interface: the only one, or the only one with the cluster tag.\<close>

definition matchesEndpointSGTags :: "'w networking_deps \<Rightarrow> SecurityGroupInfo \<Rightarrow> bool" where
  "matchesEndpointSGTags m info \<longleftrightarrow>
     mhas (SGTags info) (''kubernetes.io/cluster/'' @ netClusterName m)
   \<and> list_all (\<lambda>(k, v). mget (SGTags info) k = Some v) (serviceTargetENISGTags m)"

text \<open>A list and a map as \<open>%v\<close> prints them; the keys of a map are printed in order.\<close>

definition fmtList :: "string list \<Rightarrow> string" where
  "fmtList xs = ''['' @ join_on CHR '' '' xs @ '']''"

definition fmtMap :: "string_map \<Rightarrow> string" where
  "fmtMap m = ''map['' @ join_on CHR '' '' (map (\<lambda>k. k @ '':'' @ mget0 '''' m k) (keyset m)) @ '']''"

definition resolveEndpointSGForENI :: "'w networking_deps \<Rightarrow> ENIInfo \<Rightarrow> ('w networkingManager, string) io" where
  "resolveEndpointSGForENI m eni =
     (let sgIDs = ENISecurityGroups eni; clusterResourceTagKey = ''kubernetes.io/cluster/'' @ netClusterName m
      in if length sgIDs = 1 then io_ret (hd sgIDs)
         else io_bind (onNetSGs (FetchSGInfosByID (netEC2 m) sgIDs False)) (\<lambda>infos.
            let matching = filter (\<lambda>i. matchesEndpointSGTags m (mget0 zeroSGInfo infos i)) (keyset infos)
            in if length matching \<noteq> 1
               then (if length (serviceTargetENISGTags m) = 0
                     then io_fail (Errorf ''expected exactly one securityGroup tagged with %v for eni %v, got: %v (clusterName: %v)''
                       [clusterResourceTagKey, NetworkInterfaceID eni, fmtList matching, netClusterName m])
                     else io_fail (Errorf ''expected exactly one securityGroup tagged with %v and %v for eni %v, got: %v (clusterName: %v)''
                       [clusterResourceTagKey, fmtMap (serviceTargetENISGTags m), NetworkInterfaceID eni, fmtList matching, netClusterName m]))
               else io_ret (hd matching)))"

section \<open>The permissions of a binding per endpoint group\<close>

text \<open>
  The loops range over the map the resolver returns, in the order of that map. Of an endpoint only
  its pod, and of a node only its name are used here.
\<close>

definition emptyPod :: PodInfo where
  "emptyPod = \<lparr>podKey = ('''', ''''), ContainerPorts = []\<rparr>"

fun groupPodsBySG :: "'w networking_deps \<Rightarrow> (NamespacedName, PodInfo) gomap \<Rightarrow> (NamespacedName \<times> ENIInfo) list \<Rightarrow>
    (string, PodInfo list) gomap \<Rightarrow> ('w networkingManager, (string, PodInfo list) gomap) io" where
  "groupPodsBySG m podByPodKey [] podsBySG \<sigma> = (Inr podsBySG, \<sigma>)"
| "groupPodsBySG m podByPodKey ((k, eni) # enis) podsBySG \<sigma> =
     (if NetworkInterfaceID eni = hybridNetworkInterfaceID then groupPodsBySG m podByPodKey enis podsBySG \<sigma>
      else io_bind (resolveEndpointSGForENI m eni) (\<lambda>sgID.
             groupPodsBySG m podByPodKey enis
               (mput sgID (mget0 [] podsBySG sgID @ [mget0 emptyPod podByPodKey k]) podsBySG)) \<sigma>)"

fun permissionsOfPods :: "(string \<Rightarrow> bool) \<Rightarrow> NetworkingIngressRule list \<Rightarrow> (string \<times> PodInfo list) list \<Rightarrow>
    permsPerSG \<Rightarrow> permsPerSG res" where
  "permissionsOfPods validCIDR ingress [] perSG = Inr perSG"
| "permissionsOfPods validCIDR ingress ((sgID, pods) # kvs) perSG =
     res_bind (computeIngressPermissionsForTGBNetworking validCIDR ingress pods) (\<lambda>permissions.
       permissionsOfPods validCIDR ingress kvs (mput sgID permissions perSG))"

definition computeIngressPermissionsPerSGWithPodEndpoints :: "'w networking_deps \<Rightarrow> NetworkingIngressRule list \<Rightarrow>
    PodInfo list \<Rightarrow> ('w networkingManager, permsPerSG) io" where
  "computeIngressPermissionsPerSGWithPodEndpoints m ingress pods =
     io_bind (onNetCloud (podENIResolve m pods)) (\<lambda>eniInfoByPodKey.
     io_bind (groupPodsBySG m (mbuild podKey (\<lambda>p. p) pods []) eniInfoByPodKey []) (\<lambda>podsBySG.
       io_lift (permissionsOfPods (netValidCIDR m) ingress podsBySG [])))"

definition computeIngressPermissionsPerSGWithNodePortEndpoints :: "'w networking_deps \<Rightarrow> NetworkingIngressRule list \<Rightarrow>
    string list \<Rightarrow> ('w networkingManager, permsPerSG) io" where
  "computeIngressPermissionsPerSGWithNodePortEndpoints m ingress nodeNames =
     io_bind (onNetCloud (nodeENIResolve m nodeNames)) (\<lambda>eniInfoByNodeKey.
     io_bind (io_map (\<lambda>(k, eni). resolveEndpointSGForENI m eni) eniInfoByNodeKey) (\<lambda>sgIDs.
     io_bind (io_lift (computeIngressPermissionsForTGBNetworking (netValidCIDR m) ingress [])) (\<lambda>permissions.
       io_ret (map (\<lambda>sgID. (sgID, permissions)) (remdups sgIDs)))))"

section \<open>Aggregation over the bindings\<close>

type_synonym groupedPerms = "(string, (string, (string, IPPermissionInfo list) gomap) gomap) gomap"

definition isIPRangePerm :: "IPPermissionInfo \<Rightarrow> bool" where
  "isIPRangePerm p \<longleftrightarrow> length (UserIdGroupPairs (Permission p)) = 0
     \<and> (length (IpRanges (Permission p)) = 1 \<or> length (Ipv6Ranges (Permission p)) = 1)"

definition permGroupID :: "IPPermissionInfo \<Rightarrow> string" where
  "permGroupID p = (if length (UserIdGroupPairs (Permission p)) = 1
     then ToString (srcValue (hd (UserIdGroupPairs (Permission p)))) else '''')"

definition permProtocol :: "IPPermissionInfo \<Rightarrow> string" where
  "permProtocol p = ToString (IpProtocol (Permission p))"

fun groupPerms :: "string \<Rightarrow> IPPermissionInfo list \<Rightarrow> permsPerSG \<times> groupedPerms \<Rightarrow> permsPerSG \<times> groupedPerms" where
  "groupPerms sgID [] (ipr, grouped) = (ipr, grouped)"
| "groupPerms sgID (p # ps) (ipr, grouped) =
     groupPerms sgID ps
       (if isIPRangePerm p then (mput sgID (mget0 [] ipr sgID @ [p]) ipr, grouped)
        else let byProtocol = mget0 [] grouped sgID;
                 bySource = mget0 [] byProtocol (permProtocol p)
             in (ipr, mput sgID (mput (permProtocol p)
                        (mput (permGroupID p) (mget0 [] bySource (permGroupID p) @ [p]) bySource) byProtocol) grouped))"

fun groupPerSG :: "(string \<times> IPPermissionInfo list) list \<Rightarrow> permsPerSG \<times> groupedPerms \<Rightarrow> permsPerSG \<times> groupedPerms" where
  "groupPerSG [] acc = acc"
| "groupPerSG ((sgID, permissions) # kvs) (ipr, grouped) =
     groupPerSG kvs (groupPerms sgID permissions
       (ipr, if mhas grouped sgID then grouped else mput sgID [] grouped))"

definition groupIngressPermsBySourceAndProtocolPerSG :: "(NamespacedName, permsPerSG) gomap \<Rightarrow> permsPerSG \<times> groupedPerms" where
  "groupIngressPermsBySourceAndProtocolPerSG byTGB = fold (\<lambda>(tgb, perSG). groupPerSG perSG) byTGB ([], [])"

text \<open>One step of the loop that computes the port range of a group of permissions.\<close>

definition widenPorts :: "int \<times> int \<Rightarrow> IPPermissionInfo \<Rightarrow> int \<times> int" where
  "widenPorts = (\<lambda>(minPort, maxPort) perm.
     let f = ToInt32 (FromPort (Permission perm)); t = ToInt32 (ToPort (Permission perm))
     in if f = 0 \<and> t = 0 then (0, 65535)
        else (if f < minPort then f else minPort, if t > maxPort then t else maxPort))"

definition restrictGroup :: "IPPermissionInfo list \<Rightarrow> IPPermissionInfo list" where
  "restrictGroup perms =
     (case perms of
        [] \<Rightarrow> []
      | p # _ \<Rightarrow>
          (let (minPort, maxPort) = foldl widenPorts (65535, 0) perms
           in [p\<lparr>Permission := (Permission p)\<lparr>FromPort := Some minPort, ToPort := Some maxPort\<rparr>\<rparr>]))"

definition computeRestrictedIngressPermissionsPerSG :: "(NamespacedName, permsPerSG) gomap \<Rightarrow> permsPerSG" where
  "computeRestrictedIngressPermissionsPerSG byTGB =
     (let (ipr, grouped) = groupIngressPermsBySourceAndProtocolPerSG byTGB;
          restricted = mbuild fst (\<lambda>(sgID, byProtocol).
            concat (map (\<lambda>(protocol, bySource). concat (map (\<lambda>(source, perms). restrictGroup perms) bySource)) byProtocol)) grouped []
      in fold (\<lambda>(sgID, perms) m. mput sgID (mget0 [] m sgID @ perms) m) ipr restricted)"

fun hashPerms :: "(IpPermission \<Rightarrow> string) \<Rightarrow> (string \<times> IPPermissionInfo list) list \<Rightarrow>
    (string, (string, IPPermissionInfo) gomap) gomap \<Rightarrow> (string, (string, IPPermissionInfo) gomap) gomap" where
  "hashPerms marshal [] m = m"
| "hashPerms marshal ((sgID, permissions) # kvs) m =
     hashPerms marshal kvs (mput sgID (mbuild (HashCode marshal) (\<lambda>p. p) permissions (mget0 [] m sgID)) m)"

definition computeUnrestrictedIngressPermissionsPerSG :: "(IpPermission \<Rightarrow> string) \<Rightarrow> (NamespacedName, permsPerSG) gomap \<Rightarrow> permsPerSG" where
  "computeUnrestrictedIngressPermissionsPerSG marshal byTGB =
     (let permByHashCodePerSG = fold (\<lambda>(tgb, perSG). hashPerms marshal perSG) byTGB []
      in mbuild fst (\<lambda>(sgID, permByHashCode). mlookups permByHashCode (keyset permByHashCode)) permByHashCodePerSG [])"

definition computeAggregatedIngressPermissionsPerSG :: "'w networking_deps \<Rightarrow> 'w networkingManager \<Rightarrow> permsPerSG" where
  "computeAggregatedIngressPermissionsPerSG m \<sigma> =
     (if disableRestrictedSGRules m
      then computeUnrestrictedIngressPermissionsPerSG (netMarshal m) (ingressPermissionsPerSGByTGB \<sigma>)
      else computeRestrictedIngressPermissionsPerSG (ingressPermissionsPerSGByTGB \<sigma>))"

definition consolidateIngressPermissionsPerSGByTGB :: "(NamespacedName, networkedTGB) gomap \<Rightarrow> 'w networkingManager \<Rightarrow>
    bool \<times> 'w networkingManager" where
  "consolidateIngressPermissionsPerSGByTGB tgbs \<sigma> =
     (let kept = filter (\<lambda>(k, v). mhas tgbs k) (ingressPermissionsPerSGByTGB \<sigma>)
      in (length kept = length tgbs, \<sigma>\<lparr>ingressPermissionsPerSGByTGB := kept\<rparr>))"

section \<open>Reconciliation and garbage collection\<close>

definition tgbSelector :: selector where
  "tgbSelector = SelectorFromSet tgbNetworkingLabels"

definition isEC2SecurityGroupNotFoundError :: "go_error \<Rightarrow> bool" where
  "isEC2SecurityGroupNotFoundError err \<longleftrightarrow> errorCode err = Some ''InvalidGroup.NotFound''"

definition gcOne :: "'w networking_deps \<Rightarrow> string \<Rightarrow> ('w networkingManager, unit) io" where
  "gcOne m sgID \<sigma> =
     (case onNetSGs (ReconcileIngress (netMarshal m) (netEC2 m) sgID []
             \<lparr>PermissionSelector = tgbSelector, AuthorizeOnly = False\<rparr>) \<sigma> of
        (Inr _, \<sigma>') \<Rightarrow> (Inr (), \<sigma>')
      | (Inl err, \<sigma>') \<Rightarrow>
          if isEC2SecurityGroupNotFoundError err then (Inr (), unTrackEndpointSGs [sgID] \<sigma>') else (Inl err, \<sigma>'))"

definition gcIngressPermissionsFromUnusedEndpointSGs :: "'w networking_deps \<Rightarrow> permsPerSG \<Rightarrow> ('w networkingManager, unit) io" where
  "gcIngressPermissionsFromUnusedEndpointSGs m perSG =
     io_bind (fetchEndpointSGs m) (\<lambda>endpointSGs.
       io_iter (gcOne m) (setOrder m (filter (\<lambda>i. \<not> mhas perSG i) endpointSGs)))"

text \<open>The loop that reconciles every group and collects the errors.\<close>

fun reconcileAll :: "'w networking_deps \<Rightarrow> bool \<Rightarrow> (string \<times> IPPermissionInfo list) list \<Rightarrow> go_error list \<Rightarrow>
    'w networkingManager \<Rightarrow> go_error list \<times> 'w networkingManager" where
  "reconcileAll m authorizeOnly [] errs \<sigma> = (errs, \<sigma>)"
| "reconcileAll m authorizeOnly ((sgID, permissions) # kvs) errs \<sigma> =
     (case onNetSGs (ReconcileIngress (netMarshal m) (netEC2 m) sgID permissions
             \<lparr>PermissionSelector = tgbSelector, AuthorizeOnly = authorizeOnly\<rparr>) \<sigma> of
        (Inl err, \<sigma>') \<Rightarrow> reconcileAll m authorizeOnly kvs (errs @ [err]) \<sigma>'
      | (Inr _, \<sigma>') \<Rightarrow> reconcileAll m authorizeOnly kvs errs \<sigma>')"

definition reconcileWithIngressPermissionsPerSG :: "'w networking_deps \<Rightarrow> networkedTGB \<Rightarrow> permsPerSG \<Rightarrow> ('w networkingManager, unit) io" where
  "reconcileWithIngressPermissionsPerSG m tgb perSG \<sigma>0 =
     (let \<sigma>1 = trackEndpointSGs (keyset perSG)
            (\<sigma>0\<lparr>ingressPermissionsPerSGByTGB := mput (netTGBKey tgb) perSG (ingressPermissionsPerSGByTGB \<sigma>0)\<rparr>)
      in io_bind (fetchTGBsWithNetworking m) (\<lambda>tgbs \<sigma>2.
           let (computedForAllTGBs, \<sigma>3) = consolidateIngressPermissionsPerSGByTGB tgbs \<sigma>2;
               aggregated = computeAggregatedIngressPermissionsPerSG m \<sigma>3;
               (errs, \<sigma>4) = reconcileAll m (\<not> computedForAllTGBs) (mapOrder m aggregated) [] \<sigma>3
           in io_bind (if computedForAllTGBs then gcIngressPermissionsFromUnusedEndpointSGs m aggregated else io_ret ()) (\<lambda>_.
                if length errs > 0 then io_fail (Joined errs) else io_ret ()) \<sigma>4) \<sigma>1)"

definition ReconcileForPodEndpoints :: "'w networking_deps \<Rightarrow> networkedTGB \<Rightarrow> PodInfo list \<Rightarrow> ('w networkingManager, unit) io" where
  "ReconcileForPodEndpoints m tgb pods =
     io_bind (case netTGBNetworking tgb of
                None \<Rightarrow> io_ret []
              | Some ingress \<Rightarrow> computeIngressPermissionsPerSGWithPodEndpoints m ingress pods)
       (reconcileWithIngressPermissionsPerSG m tgb)"

definition ReconcileForNodePortEndpoints :: "'w networking_deps \<Rightarrow> networkedTGB \<Rightarrow> string list \<Rightarrow> ('w networkingManager, unit) io" where
  "ReconcileForNodePortEndpoints m tgb nodeNames =
     io_bind (case netTGBNetworking tgb of
                None \<Rightarrow> io_ret []
              | Some ingress \<Rightarrow> computeIngressPermissionsPerSGWithNodePortEndpoints m ingress nodeNames)
       (reconcileWithIngressPermissionsPerSG m tgb)"

definition Cleanup :: "'w networking_deps \<Rightarrow> networkedTGB \<Rightarrow> ('w networkingManager, unit) io" where
  "Cleanup m tgb = reconcileWithIngressPermissionsPerSG m tgb []"

definition AttemptGarbageCollection :: "'w networking_deps \<Rightarrow> ('w networkingManager, unit) io" where
  "AttemptGarbageCollection m =
     io_bind (fetchTGBsWithNetworking m) (\<lambda>tgbs \<sigma>.
       let (computedForAllTGBs, \<sigma>') = consolidateIngressPermissionsPerSGByTGB tgbs \<sigma>
       in if \<not> computedForAllTGBs then (Inr (), \<sigma>')
          else gcIngressPermissionsFromUnusedEndpointSGs m (computeAggregatedIngressPermissionsPerSG m \<sigma>') \<sigma>')"

section \<open>The aggregation loses no permission\<close>

text \<open>All permissions the bindings need for one group, and a group of the grouping.\<close>

definition permsOfBinding :: "string \<Rightarrow> permsPerSG \<Rightarrow> IPPermissionInfo list" where
  "permsOfBinding sgID perSG = concat (map snd (filter (\<lambda>(i, ps). i = sgID) perSG))"

definition permsForSG :: "string \<Rightarrow> (NamespacedName, permsPerSG) gomap \<Rightarrow> IPPermissionInfo list" where
  "permsForSG sgID byTGB = concat (map (\<lambda>(tgb, perSG). permsOfBinding sgID perSG) byTGB)"

definition groupOf :: "groupedPerms \<Rightarrow> string \<Rightarrow> string \<Rightarrow> string \<Rightarrow> IPPermissionInfo list" where
  "groupOf grouped sgID protocol source = mget0 [] (mget0 [] (mget0 [] grouped sgID) protocol) source"

abbreviation inGroup :: "string \<Rightarrow> string \<Rightarrow> IPPermissionInfo \<Rightarrow> bool" where
  "inGroup protocol source p \<equiv> \<not> isIPRangePerm p \<and> permProtocol p = protocol \<and> permGroupID p = source"

definition wfGrouped :: "groupedPerms \<Rightarrow> bool" where
  "wfGrouped g \<longleftrightarrow> wf_map g \<and> (\<forall>i. wf_map (mget0 [] g i) \<and> (\<forall>pr. wf_map (mget0 [] (mget0 [] g i) pr)))"

lemma groupPerms_spec:
  assumes "groupPerms sgID ps (ipr, g) = (ipr', g')" "wf_map ipr" "wfGrouped g"
  shows "wf_map ipr' \<and> wfGrouped g' \<and> fst ` set g' \<subseteq> insert sgID (fst ` set g) \<and> fst ` set g \<subseteq> fst ` set g'
    \<and> fst ` set ipr' \<subseteq> insert sgID (fst ` set ipr)
    \<and> (\<forall>i. mget0 [] ipr' i = mget0 [] ipr i @ (if i = sgID then filter isIPRangePerm ps else []))
    \<and> (\<forall>i pr s. groupOf g' i pr s = groupOf g i pr s @ (if i = sgID then filter (inGroup pr s) ps else []))"
  using assms
proof (induction ps arbitrary: ipr g)
  case Nil
  then show ?case by auto
next
  case (Cons p ps)
  show ?case
  proof (cases "isIPRangePerm p")
    case True
    with Cons.prems have "groupPerms sgID ps (mput sgID (mget0 [] ipr sgID @ [p]) ipr, g) = (ipr', g')" by simp
    from Cons.IH [OF this] Cons.prems True show ?thesis by auto
  next
    case False
    define bp where "bp = mget0 [] g sgID"
    define bs where "bs = mget0 [] bp (permProtocol p)"
    let ?g = "mput sgID (mput (permProtocol p) (mput (permGroupID p) (mget0 [] bs (permGroupID p) @ [p]) bs) bp) g"
    have run: "groupPerms sgID ps (ipr, ?g) = (ipr', g')" using Cons.prems(1) False by (simp add: Let_def bp_def bs_def)
    have "wf_map bp" "wf_map bs" using Cons.prems(3) by (simp_all add: wfGrouped_def bp_def bs_def)
    then have "wfGrouped ?g" using Cons.prems(3) by (auto simp: wfGrouped_def bp_def)
    note IH = Cons.IH [OF run Cons.prems(2) this]
    have "groupOf ?g i pr s = groupOf g i pr s @ (if i = sgID \<and> inGroup pr s p then [p] else [])" for i pr s
      using False by (auto simp: groupOf_def bp_def bs_def)
    then show ?thesis using IH False by auto
  qed
qed

lemma groupPerSG_spec:
  assumes "groupPerSG perSG (ipr, g) = (ipr', g')" "wf_map ipr" "wfGrouped g" "fst ` set ipr \<subseteq> fst ` set g"
  shows "wf_map ipr' \<and> wfGrouped g' \<and> fst ` set g' = fst ` set g \<union> fst ` set perSG \<and> fst ` set ipr' \<subseteq> fst ` set g'
    \<and> (\<forall>i. mget0 [] ipr' i = mget0 [] ipr i @ filter isIPRangePerm (permsOfBinding i perSG))
    \<and> (\<forall>i pr s. groupOf g' i pr s = groupOf g i pr s @ filter (inGroup pr s) (permsOfBinding i perSG))"
  using assms
proof (induction perSG arbitrary: ipr g)
  case Nil
  then show ?case by (simp add: permsOfBinding_def)
next
  case (Cons e perSG)
  obtain i0 ps where e: "e = (i0, ps)" by force
  define g1 where "g1 = (if mhas g i0 then g else mput i0 [] g)"
  obtain ipr2 g2 where 2: "groupPerms i0 ps (ipr, g1) = (ipr2, g2)" by force
  have lk: "mget0 [] g1 i = mget0 [] g i" for i by (simp add: g1_def mhas_def mget0_def)
  have keys: "fst ` set g1 = insert i0 (fst ` set g)" using mhas_iff [of g i0] by (auto simp: g1_def)
  have g1: "wfGrouped g1" "groupOf g1 i pr s = groupOf g i pr s" for i pr s
    using Cons.prems(3) lk by (simp_all add: wfGrouped_def groupOf_def) (simp add: g1_def)
  note A = groupPerms_spec [OF 2 Cons.prems(2) g1(1)]
  have A': "fst ` set ipr2 \<subseteq> insert i0 (fst ` set ipr)" "fst ` set g1 \<subseteq> fst ` set g2" "fst ` set g2 \<subseteq> insert i0 (fst ` set g1)"
    using A by simp_all
  have sub: "fst ` set ipr2 \<subseteq> fst ` set g2"
  proof -
    have "fst ` set ipr2 \<subseteq> fst ` set g1" using subset_trans [OF A'(1), of "insert i0 (fst ` set g)"] Cons.prems(4) unfolding keys by auto
    then show ?thesis using A'(2) by (rule subset_trans)
  qed
  have "groupPerSG perSG (ipr2, g2) = (ipr', g')" 
    using Cons.prems(1) unfolding e groupPerSG.simps g1_def [symmetric] 2 .
  note B = Cons.IH [OF this conjunct1 [OF A] conjunct1 [OF conjunct2 [OF A]] sub]
  have "fst ` set g2 = insert i0 (fst ` set g)" 
    using A'(2,3) unfolding keys by (intro subset_antisym) simp_all
  moreover have "fst ` set ipr' \<subseteq> fst ` set g'" using B by blast
  ultimately show ?case using A B g1(2) unfolding e by (simp add: permsOfBinding_def)
qed

lemma groupAll_spec:
  assumes "fold (\<lambda>(tgb, perSG). groupPerSG perSG) byTGB (ipr, g) = (ipr', g')" "wf_map ipr" "wfGrouped g" "fst ` set ipr \<subseteq> fst ` set g"
  shows "wf_map ipr' \<and> wfGrouped g' \<and> fst ` set g' = fst ` set g \<union> (\<Union>(tgb, perSG) \<in> set byTGB. fst ` set perSG)
    \<and> fst ` set ipr' \<subseteq> fst ` set g'
    \<and> (\<forall>i. mget0 [] ipr' i = mget0 [] ipr i @ filter isIPRangePerm (permsForSG i byTGB))
    \<and> (\<forall>i pr s. groupOf g' i pr s = groupOf g i pr s @ filter (inGroup pr s) (permsForSG i byTGB))"
  using assms
proof (induction byTGB arbitrary: ipr g)
  case Nil
  then show ?case by (simp add: permsForSG_def)
next
  case (Cons e byTGB)
  obtain k perSG where e: "e = (k, perSG)" by (cases e)
  obtain ipr2 g2 where 2: "groupPerSG perSG (ipr, g) = (ipr2, g2)" by force
  note A = groupPerSG_spec [OF 2 Cons.prems(2-4)]
  have A': "wf_map ipr2" "wfGrouped g2" "fst ` set ipr2 \<subseteq> fst ` set g2" using A by blast+
  have "fold (\<lambda>(tgb, perSG). groupPerSG perSG) byTGB (ipr2, g2) = (ipr', g')" using Cons.prems(1) 2 by (simp add: e)
  note B = Cons.IH [OF this A']
  have "fst ` set ipr' \<subseteq> fst ` set g'" using B by blast
  then show ?case using A B unfolding e by (simp add: permsForSG_def Un_assoc)
qed

lemma groupIngressPerms_spec:
  assumes "groupIngressPermsBySourceAndProtocolPerSG byTGB = (ipr, g)"
  shows "wf_map ipr" "wfGrouped g" "fst ` set g = (\<Union>(tgb, perSG) \<in> set byTGB. fst ` set perSG)" "fst ` set ipr \<subseteq> fst ` set g"
    "mget0 [] ipr i = filter isIPRangePerm (permsForSG i byTGB)"
    "groupOf g i pr s = filter (inGroup pr s) (permsForSG i byTGB)"
proof -
  have w: "wf_map ([] :: permsPerSG)" "wfGrouped []" "fst ` set ([] :: permsPerSG) \<subseteq> fst ` set ([] :: groupedPerms)"
    by (simp_all add: wfGrouped_def)
  note A = groupAll_spec [OF assms [unfolded groupIngressPermsBySourceAndProtocolPerSG_def] w]
  show "fst ` set ipr \<subseteq> fst ` set g" using A by blast
  show "wf_map ipr" "wfGrouped g" "fst ` set g = (\<Union>(tgb, perSG) \<in> set byTGB. fst ` set perSG)"
    "mget0 [] ipr i = filter isIPRangePerm (permsForSG i byTGB)"
    "groupOf g i pr s = filter (inGroup pr s) (permsForSG i byTGB)"
    using A by (simp_all add: groupOf_def)
qed

text \<open>The permissions of a restricted group: one per protocol and source, with a port range that covers all of them.\<close>

definition restrictedOf :: "(string, (string, IPPermissionInfo list) gomap) gomap \<Rightarrow> IPPermissionInfo list" where
  "restrictedOf byProtocol = concat (map (\<lambda>(protocol, bySource). concat (map (\<lambda>(source, perms). restrictGroup perms) bySource)) byProtocol)"

lemma restrictedOf_mem:
  assumes "wf_map bp" "\<And>pr. wf_map (mget0 [] bp pr)"
  shows "q \<in> set (restrictedOf bp) \<longleftrightarrow> (\<exists>pr s. q \<in> set (restrictGroup (mget0 [] (mget0 [] bp pr) s)))"
proof
  assume "q \<in> set (restrictedOf bp)"
  then obtain pr bs s ps where m: "(pr, bs) \<in> set bp" "(s, ps) \<in> set bs" "q \<in> set (restrictGroup ps)"
    by (auto simp: restrictedOf_def)
  then have "mget0 [] bp pr = bs" using assms(1) by (simp add: mget0_def)
  moreover then have "mget0 [] bs s = ps" using assms(2) [of pr] m(2) by (simp add: mget0_def)
  ultimately show "\<exists>pr s. q \<in> set (restrictGroup (mget0 [] (mget0 [] bp pr) s))" using m(3) by blast
next
  have lookup: "(k, mget0 z m k) \<in> set m \<or> mget0 z m k = z" for m :: "('k, 'v) gomap" and k z
    by (auto simp: mget0_def split: option.splits dest: map_of_SomeD)
  assume "\<exists>pr s. q \<in> set (restrictGroup (mget0 [] (mget0 [] bp pr) s))"
  then obtain pr s where q: "q \<in> set (restrictGroup (mget0 [] (mget0 [] bp pr) s))" by blast
  then have "mget0 [] (mget0 [] bp pr) s \<noteq> []" by (auto simp: restrictGroup_def)
  then have "(s, mget0 [] (mget0 [] bp pr) s) \<in> set (mget0 [] bp pr)" "(pr, mget0 [] bp pr) \<in> set bp"
    using lookup [of s "[]" "mget0 [] bp pr"] lookup [of pr "[]" bp] by auto
  then show "q \<in> set (restrictedOf bp)" using q unfolding restrictedOf_def by force
qed

lemma mget_mbuild_fst:
  assumes "wf_map m"
  shows "mget0 [] (mbuild fst (\<lambda>(k, v). h v) m []) i = (case mget m i of None \<Rightarrow> [] | Some v \<Rightarrow> h v)"
proof (cases "mget m i")
  case None
  then have "i \<notin> fst ` set (mbuild fst (\<lambda>(k, v). h v) m [])" by (simp add: map_of_eq_None_iff)
  from mget_None [OF this] show ?thesis using None by (simp add: mget0_def)
next
  case (Some v)
  then have "mget (mbuild fst (\<lambda>(k, v). h v) m []) i = Some (h v)"
    using mget_mbuild_distinct [OF assms map_of_SomeD [OF Some], of "\<lambda>(k, v). h v" "[]"] by simp
  with Some show ?thesis by (simp add: mget0_def)
qed

lemma fold_append_perms:
  assumes "wf_map m" "wf_map ipr"
  shows "wf_map (fold (\<lambda>(sgID, perms) m. mput sgID (mget0 [] m sgID @ perms) m) ipr m)
    \<and> fst ` set (fold (\<lambda>(sgID, perms) m. mput sgID (mget0 [] m sgID @ perms) m) ipr m) = fst ` set m \<union> fst ` set ipr
    \<and> mget0 [] (fold (\<lambda>(sgID, perms) m. mput sgID (mget0 [] m sgID @ perms) m) ipr m) i = mget0 [] m i @ mget0 [] ipr i"
  using assms
proof (induction ipr arbitrary: m)
  case Nil
  then show ?case by simp
next
  case (Cons e ipr)
  obtain k ps where e: "e = (k, ps)" by force
  then have "mget0 [] ipr k = []" using Cons.prems(2) mget_None [of k ipr] by (simp add: mget0_def)
  then show ?case using Cons e by auto
qed

lemma restricted_spec:
  "wf_map (computeRestrictedIngressPermissionsPerSG byTGB)"
  "fst ` set (computeRestrictedIngressPermissionsPerSG byTGB) = (\<Union>(tgb, perSG) \<in> set byTGB. fst ` set perSG)"
  "q \<in> set (mget0 [] (computeRestrictedIngressPermissionsPerSG byTGB) sgID) \<longleftrightarrow>
     (isIPRangePerm q \<and> q \<in> set (permsForSG sgID byTGB))
   \<or> (\<exists>pr s. q \<in> set (restrictGroup (filter (inGroup pr s) (permsForSG sgID byTGB))))"
proof -
  obtain ipr g where g: "groupIngressPermsBySourceAndProtocolPerSG byTGB = (ipr, g)" by force
  note G = groupIngressPerms_spec [OF g]
  have wg: "wf_map g" using G(2) by (simp add: wfGrouped_def)
  define restricted where "restricted = mbuild fst (\<lambda>(sgID, byProtocol). restrictedOf byProtocol) g []"
  have c: "computeRestrictedIngressPermissionsPerSG byTGB =
      fold (\<lambda>(sgID, perms) m. mput sgID (mget0 [] m sgID @ perms) m) ipr restricted"
    by (simp add: computeRestrictedIngressPermissionsPerSG_def g restricted_def restrictedOf_def Let_def case_prod_unfold)
  have wr: "wf_map restricted" "fst ` set restricted = fst ` set g" by (simp_all add: restricted_def)
  have lk: "mget0 [] restricted sgID = restrictedOf (mget0 [] g sgID)"
    unfolding restricted_def mget_mbuild_fst [OF wg] by (auto simp: mget0_def restrictedOf_def split: option.splits)
  note F = fold_append_perms [OF wr(1) G(1)]
  show "wf_map (computeRestrictedIngressPermissionsPerSG byTGB)"
    "fst ` set (computeRestrictedIngressPermissionsPerSG byTGB) = (\<Union>(tgb, perSG) \<in> set byTGB. fst ` set perSG)"
    unfolding c using F wr(2) G(3,4) by auto
  have "q \<in> set (restrictedOf (mget0 [] g sgID)) \<longleftrightarrow> (\<exists>pr s. q \<in> set (restrictGroup (groupOf g sgID pr s)))"
    using restrictedOf_mem [of "mget0 [] g sgID" q] G(2) by (simp add: wfGrouped_def groupOf_def)
  then show "q \<in> set (mget0 [] (computeRestrictedIngressPermissionsPerSG byTGB) sgID) \<longleftrightarrow>
     (isIPRangePerm q \<and> q \<in> set (permsForSG sgID byTGB))
   \<or> (\<exists>pr s. q \<in> set (restrictGroup (filter (inGroup pr s) (permsForSG sgID byTGB))))"
    unfolding c using F [of sgID] lk G(5) [of sgID] G(6) [of sgID] by auto
qed

lemma set_mlookups_keyset: "wf_map h \<Longrightarrow> set (mlookups h (keyset h)) = snd ` set h"
  by (force simp: set_mlookups dest: map_of_SomeD)

text \<open>Without restriction: the permissions by their hash codes.\<close>

definition wfHashed :: "(IpPermission \<Rightarrow> string) \<Rightarrow> (string, (string, IPPermissionInfo) gomap) gomap \<Rightarrow> bool" where
  "wfHashed marshal m \<longleftrightarrow> wf_map m \<and> (\<forall>i. wf_map (mget0 [] m i) \<and> (\<forall>(h, p) \<in> set (mget0 [] m i). HashCode marshal p = h))"

lemma mbuild_hashed:
  assumes "wf_map m" "\<forall>(h, p) \<in> set m. HashCode marshal p = h"
  shows "wf_map (mbuild (HashCode marshal) (\<lambda>p. p) ps m)
    \<and> (\<forall>(h, p) \<in> set (mbuild (HashCode marshal) (\<lambda>p. p) ps m). HashCode marshal p = h)"
  using assms
proof (induction ps arbitrary: m)
  case (Cons p ps)
  have "\<forall>(h, q) \<in> set (mput (HashCode marshal p) p m). HashCode marshal q = h"
    using Cons.prems(2) set_mput_subset [of "HashCode marshal p" p m] by auto
  from Cons.IH [OF _ this] show ?case using Cons.prems(1) by simp
qed simp

lemma hashPerms_spec:
  assumes "wfHashed marshal m"
  shows "wfHashed marshal (hashPerms marshal perSG m)
    \<and> fst ` set (hashPerms marshal perSG m) = fst ` set m \<union> fst ` set perSG
    \<and> fst ` set (mget0 [] (hashPerms marshal perSG m) i) = fst ` set (mget0 [] m i) \<union> HashCode marshal ` set (permsOfBinding i perSG)"
  using assms
proof (induction marshal perSG m rule: hashPerms.induct)
  case (1 marshal m)
  then show ?case by (simp add: permsOfBinding_def)
next
  case (2 marshal sgID permissions kvs m)
  let ?m = "mput sgID (mbuild (HashCode marshal) (\<lambda>p. p) permissions (mget0 [] m sgID)) m"
  have "wfHashed marshal ?m"
    using 2(2) mbuild_hashed [of "mget0 [] m sgID" marshal permissions] by (simp add: wfHashed_def)
  note IH = 2(1) [OF this]
  have "fst ` set (mget0 [] ?m i) = fst ` set (mget0 [] m i) \<union> (if i = sgID then HashCode marshal ` set permissions else {})"
    by auto
  then show ?case using IH by (auto simp: permsOfBinding_def)
qed

lemma hashAll_spec:
  assumes "wfHashed marshal m"
  shows "wfHashed marshal (fold (\<lambda>(tgb, perSG). hashPerms marshal perSG) byTGB m)
    \<and> fst ` set (fold (\<lambda>(tgb, perSG). hashPerms marshal perSG) byTGB m) = fst ` set m \<union> (\<Union>(tgb, perSG) \<in> set byTGB. fst ` set perSG)
    \<and> fst ` set (mget0 [] (fold (\<lambda>(tgb, perSG). hashPerms marshal perSG) byTGB m) i) =
        fst ` set (mget0 [] m i) \<union> HashCode marshal ` set (permsForSG i byTGB)"
  using assms
proof (induction byTGB arbitrary: m)
  case Nil
  then show ?case by (simp add: permsForSG_def)
next
  case (Cons e byTGB)
  obtain k perSG where e: "e = (k, perSG)" by (cases e)
  note A = hashPerms_spec [OF Cons.prems, of perSG i]
  note B = Cons.IH [OF conjunct1 [OF A]]
  show ?case using A B unfolding e by (simp add: permsForSG_def Un_assoc image_Un)
qed

lemma unrestricted_spec:
  "wf_map (computeUnrestrictedIngressPermissionsPerSG marshal byTGB)"
  "fst ` set (computeUnrestrictedIngressPermissionsPerSG marshal byTGB) = (\<Union>(tgb, perSG) \<in> set byTGB. fst ` set perSG)"
  "HashCode marshal ` set (mget0 [] (computeUnrestrictedIngressPermissionsPerSG marshal byTGB) i) = HashCode marshal ` set (permsForSG i byTGB)"
proof -
  let ?m = "fold (\<lambda>(tgb, perSG). hashPerms marshal perSG) byTGB []"
  have "wfHashed marshal []" by (simp add: wfHashed_def)
  note A = hashAll_spec [OF this, of byTGB]
  have c: "computeUnrestrictedIngressPermissionsPerSG marshal byTGB = mbuild fst (\<lambda>(sgID, h). mlookups h (keyset h)) ?m []"
    by (simp add: computeUnrestrictedIngressPermissionsPerSG_def Let_def)
  show "wf_map (computeUnrestrictedIngressPermissionsPerSG marshal byTGB)" unfolding c by simp
  show "fst ` set (computeUnrestrictedIngressPermissionsPerSG marshal byTGB) = (\<Union>(tgb, perSG) \<in> set byTGB. fst ` set perSG)"
    unfolding c using A by simp
  have wf: "wf_map ?m" "wf_map (mget0 [] ?m i)" "\<forall>(h, p) \<in> set (mget0 [] ?m i). HashCode marshal p = h"
    using conjunct1 [OF A] by (simp_all add: wfHashed_def)
  have "mget0 [] (computeUnrestrictedIngressPermissionsPerSG marshal byTGB) i = mlookups (mget0 [] ?m i) (keyset (mget0 [] ?m i))"
    unfolding c mget_mbuild_fst [OF wf(1)] by (auto simp: mget0_def keyset_def split: option.splits)
  moreover have "HashCode marshal ` set (mlookups h (keyset h)) = fst ` set h"
    if h: "wf_map h" "\<forall>(k, p) \<in> set h. HashCode marshal p = k" for h
    using h by (force simp: set_mlookups_keyset)
  ultimately show "HashCode marshal ` set (mget0 [] (computeUnrestrictedIngressPermissionsPerSG marshal byTGB) i)
      = HashCode marshal ` set (permsForSG i byTGB)"
    using wf(2,3) A by simp
qed
text \<open>The permissions of a binding: one CIDR or one source group, with ports of 16 bits.\<close>

definition portFrom :: "IPPermissionInfo \<Rightarrow> int" where
  "portFrom p = ToInt32 (FromPort (Permission p))"

definition portTo :: "IPPermissionInfo \<Rightarrow> int" where
  "portTo p = ToInt32 (ToPort (Permission p))"

definition bindingPerm :: "IPPermissionInfo \<Rightarrow> bool" where
  "bindingPerm p \<longleftrightarrow> isIPRangePerm p \<or>
     (length (UserIdGroupPairs (Permission p)) = 1 \<and> IpRanges (Permission p) = [] \<and> Ipv6Ranges (Permission p) = []
      \<and> PrefixListIds (Permission p) = [] \<and> 0 \<le> portFrom p \<and> portTo p \<le> 65535)"

definition sameSource :: "IPPermissionInfo \<Rightarrow> IPPermissionInfo \<Rightarrow> bool" where
  "sameSource q p \<longleftrightarrow> permProtocol q = permProtocol p \<and> oneSource (Permission q) = oneSource (Permission p)"

lemma widenPorts_foldl:
  assumes "foldl widenPorts (mn, mx) ps = (mn', mx')" "\<forall>p \<in> set ps. 0 \<le> portFrom p \<and> portTo p \<le> 65535" "0 \<le> mn" "mx \<le> 65535"
  shows "0 \<le> mn' \<and> mn' \<le> mn \<and> mx \<le> mx' \<and> mx' \<le> 65535 \<and> (\<forall>p \<in> set ps. mn' \<le> portFrom p \<and> portTo p \<le> mx')"
  using assms
proof (induction ps arbitrary: mn mx)
  case (Cons p ps)
  obtain mn1 mx1 where 1: "widenPorts (mn, mx) p = (mn1, mx1)" by force
  have b: "0 \<le> mn1 \<and> mn1 \<le> mn \<and> mx \<le> mx1 \<and> mx1 \<le> 65535 \<and> mn1 \<le> portFrom p \<and> portTo p \<le> mx1"
    using 1 Cons.prems(2-4) by (auto simp: widenPorts_def portFrom_def portTo_def Let_def split: if_splits)
  then have "0 \<le> mn' \<and> mn' \<le> mn1 \<and> mx1 \<le> mx' \<and> mx' \<le> 65535 \<and> (\<forall>p \<in> set ps. mn' \<le> portFrom p \<and> portTo p \<le> mx')"
    using Cons.IH [of mn1 mx1] Cons.prems 1 by simp
  then show ?case using b by auto
qed simp

lemma restrictGroup_covers:
  assumes "ps \<noteq> []" "\<forall>p \<in> set ps. 0 \<le> portFrom p \<and> portTo p \<le> 65535"
  shows "\<exists>q. restrictGroup ps = [q] \<and> permProtocol q = permProtocol (hd ps) \<and> oneSource (Permission q) = oneSource (Permission (hd ps))
     \<and> (\<forall>p \<in> set ps. portFrom q \<le> portFrom p \<and> portTo p \<le> portTo q)"
proof -
  obtain p ps' where ps: "ps = p # ps'" using assms(1) by (cases ps) auto
  obtain mn mx where f: "foldl widenPorts (65535, 0) ps = (mn, mx)" by force
  have "\<forall>p \<in> set ps. mn \<le> portFrom p \<and> portTo p \<le> mx" using widenPorts_foldl [OF f assms(2)] by simp
  then show ?thesis using f unfolding ps
    by (simp add: restrictGroup_def permProtocol_def oneSource_def portFrom_def portTo_def ToInt32_def)
qed

lemma bindingPerm_source:
  assumes "bindingPerm p" "\<not> isIPRangePerm p"
  shows "oneSource (Permission p) = Some (''UserIdGroupPair'', permGroupID p)"
  using assms by (auto simp: bindingPerm_def oneSource_def permGroupID_def)

text \<open>
  C29. Aggregating the permissions of all bindings for a security group. With restricted rules, every
  permission a binding asks for is covered by a rule with the same protocol and source and a port
  range that contains its ports, and no rule admits a protocol and source that no binding asked for.
  Without restriction the rules are the permissions of the bindings, each hash code once. In both
  modes the groups are those some binding mentions.
\<close>

theorem aggregation_covers:
  assumes "\<forall>p \<in> set (permsForSG sgID (ingressPermissionsPerSGByTGB \<sigma>)). bindingPerm p"
  shows "(let rules = mget0 [] (computeAggregatedIngressPermissionsPerSG m \<sigma>) sgID;
              needed = permsForSG sgID (ingressPermissionsPerSGByTGB \<sigma>)
          in (\<not> disableRestrictedSGRules m \<longrightarrow>
                (\<forall>p \<in> set needed. \<exists>q \<in> set rules. sameSource q p \<and> portFrom q \<le> portFrom p \<and> portTo p \<le> portTo q)
              \<and> (\<forall>q \<in> set rules. \<exists>p \<in> set needed. sameSource q p))
           \<and> (disableRestrictedSGRules m \<longrightarrow> HashCode (netMarshal m) ` set rules = HashCode (netMarshal m) ` set needed))
         \<and> fst ` set (computeAggregatedIngressPermissionsPerSG m \<sigma>) =
             (\<Union>(tgb, perSG) \<in> set (ingressPermissionsPerSGByTGB \<sigma>). fst ` set perSG)"
proof (cases "disableRestrictedSGRules m")
  case True
  then have c: "computeAggregatedIngressPermissionsPerSG m \<sigma> =
      computeUnrestrictedIngressPermissionsPerSG (netMarshal m) (ingressPermissionsPerSGByTGB \<sigma>)"
    by (simp add: computeAggregatedIngressPermissionsPerSG_def)
  show ?thesis unfolding c Let_def using True unrestricted_spec(2,3) by simp
next
  case False
  let ?N = "permsForSG sgID (ingressPermissionsPerSGByTGB \<sigma>)"
  let ?A = "computeRestrictedIngressPermissionsPerSG (ingressPermissionsPerSGByTGB \<sigma>)"
  have c: "computeAggregatedIngressPermissionsPerSG m \<sigma> = ?A"
    using False by (simp add: computeAggregatedIngressPermissionsPerSG_def)
  have grp: "\<exists>q. restrictGroup (filter (inGroup pr s) ?N) = [q] \<and> permProtocol q = pr \<and> oneSource (Permission q) = Some (''UserIdGroupPair'', s)
      \<and> (\<forall>p \<in> set (filter (inGroup pr s) ?N). portFrom q \<le> portFrom p \<and> portTo p \<le> portTo q)"
    if ne: "filter (inGroup pr s) ?N \<noteq> []" for pr s
  proof -
    have hd: "hd (filter (inGroup pr s) ?N) \<in> set (filter (inGroup pr s) ?N)" using ne by (rule hd_in_set)
    have "\<forall>p \<in> set (filter (inGroup pr s) ?N). 0 \<le> portFrom p \<and> portTo p \<le> 65535"
      using assms by (auto simp: bindingPerm_def)
    from restrictGroup_covers [OF ne this] show ?thesis
      using hd assms bindingPerm_source [of "hd (filter (inGroup pr s) ?N)"] by auto
  qed
  have "\<exists>q \<in> set (mget0 [] ?A sgID). sameSource q p \<and> portFrom q \<le> portFrom p \<and> portTo p \<le> portTo q" if p: "p \<in> set ?N" for p
  proof (cases "isIPRangePerm p")
    case True
    then show ?thesis using p restricted_spec(3) by (auto simp: sameSource_def)
  next
    case r: False
    then have mem: "p \<in> set (filter (inGroup (permProtocol p) (permGroupID p)) ?N)" using p by simp
    then have "filter (inGroup (permProtocol p) (permGroupID p)) ?N \<noteq> []" by (metis empty_iff list.set(1))
    from grp [OF this] mem obtain q where q: "restrictGroup (filter (inGroup (permProtocol p) (permGroupID p)) ?N) = [q]" "permProtocol q = permProtocol p"
        "oneSource (Permission q) = Some (''UserIdGroupPair'', permGroupID p)" "portFrom q \<le> portFrom p \<and> portTo p \<le> portTo q"
      by blast
    then have "q \<in> set (mget0 [] ?A sgID)" unfolding restricted_spec(3) by (metis list.set_intros(1))
    then show ?thesis using q bindingPerm_source [of p] assms p r unfolding sameSource_def by metis
  qed
  moreover have "\<exists>p \<in> set ?N. sameSource q p" if q: "q \<in> set (mget0 [] ?A sgID)" for q
  proof (cases "isIPRangePerm q \<and> q \<in> set ?N")
    case True
    then show ?thesis by (auto simp: sameSource_def)
  next
    case False
    then obtain pr s where g: "q \<in> set (restrictGroup (filter (inGroup pr s) ?N))" using q unfolding restricted_spec(3) by blast
    have "restrictGroup [] = []" by (simp add: restrictGroup_def)
    then have ne: "filter (inGroup pr s) ?N \<noteq> []" using g by (metis empty_iff list.set(1))
    define p where "p = hd (filter (inGroup pr s) ?N)"
    have p: "p \<in> set ?N" "inGroup pr s p" using hd_in_set [OF ne] by (auto simp: p_def)
    have "permProtocol q = pr \<and> oneSource (Permission q) = Some (''UserIdGroupPair'', s)" using grp [OF ne] g by auto
    then show ?thesis using p bindingPerm_source [of p] assms unfolding sameSource_def by metis
  qed
  ultimately show ?thesis unfolding c Let_def using False restricted_spec(2) by simp
qed

section \<open>Reconciliation is safe and converges\<close>

text \<open>The rules of a security group as the networking manager sees them, and its invariant.\<close>

abbreviation netRules :: "'w sg_rules \<Rightarrow> 'w networkingManager \<Rightarrow> string \<Rightarrow> IpPermission set" where
  "netRules rules \<sigma> \<equiv> rules (sgCloud (netSGs \<sigma>))"

definition netInv :: "'w networking_deps \<Rightarrow> 'w sg_rules \<Rightarrow> 'w networkingManager \<Rightarrow> bool" where
  "netInv m rules \<sigma> \<longleftrightarrow> sgCoherent rules (netSGs \<sigma>) \<and> wf_map (ingressPermissionsPerSGByTGB \<sigma>) \<and> distinct (trackedEndpointSGs \<sigma>)
     \<and> (\<forall>i. inj_on (hashPerm (netMarshal m)) (netRules rules \<sigma> i))"

text \<open>What is relied on: the laws of EC2, and that listing the bindings changes no rules.\<close>

definition networking_ok :: "'w networking_deps \<Rightarrow> 'w sg_rules \<Rightarrow> bool" where
  "networking_ok m rules \<longleftrightarrow> sg_api_ok (netMarshal m) (netEC2 m) rules
     \<and> (\<forall>w r w'. listTGBs m w = (r, w') \<longrightarrow> rules w' = rules w)
     \<and> go_order (mapOrder m) \<and> go_order (setOrder m)"

definition tgbOptions :: "bool \<Rightarrow> SecurityGroupReconcileOptions" where
  "tgbOptions authorizeOnly = \<lparr>PermissionSelector = tgbSelector, AuthorizeOnly = authorizeOnly\<rparr>"

lemma keptRules_mono: "R \<subseteq> R' \<Longrightarrow> keptRules opts R \<subseteq> keptRules opts R'"
  by (auto simp: keptRules_def)

lemma netReconcile_spec:
  assumes ok: "networking_ok m rules" and inv: "netInv m rules \<sigma>"
    and run: "onNetSGs (ReconcileIngress (netMarshal m) (netEC2 m) sgID desired opts) \<sigma> = (r, \<sigma>')"
  shows "netInv m rules \<sigma>' \<and> ingressPermissionsPerSGByTGB \<sigma>' = ingressPermissionsPerSGByTGB \<sigma>
    \<and> trackedEndpointSGs \<sigma>' = trackedEndpointSGs \<sigma> \<and> (\<forall>i. i \<noteq> sgID \<longrightarrow> netRules rules \<sigma>' i = netRules rules \<sigma> i)
    \<and> keptRules opts (netRules rules \<sigma> sgID) \<subseteq> netRules rules \<sigma>' sgID
    \<and> (r = Inr () \<longrightarrow> hashPerm (netMarshal m) ` netRules rules \<sigma>' sgID = ingressGoal (netMarshal m) opts desired (netRules rules \<sigma> sgID))"
proof -
  obtain s where s: "ReconcileIngress (netMarshal m) (netEC2 m) sgID desired opts (netSGs \<sigma>) = (r, s)" "\<sigma>' = \<sigma>\<lparr>netSGs := s\<rparr>"
    using run by (auto simp: onNetSGs_def split: prod.splits)
  have api: "sg_api_ok (netMarshal m) (netEC2 m) rules" using ok by (simp add: networking_ok_def)
  have coh: "sgCoherent rules (netSGs \<sigma>)" and inj: "inj_on (hashPerm (netMarshal m)) (netRules rules \<sigma> i)" for i
    using inv by (simp_all add: netInv_def)
  note A = ReconcileIngress_spec [OF api coh inj s(1)]
  have "inj_on (hashPerm (netMarshal m)) (rules (sgCloud s) i)" for i
    using A inj [of i] by (cases "i = sgID") simp_all
  then show ?thesis using A inv s(2) by (simp add: netInv_def)
qed

lemma reconcileAll_spec:
  assumes "networking_ok m rules" "netInv m rules \<sigma>" "distinct (map fst kvs)"
    and "reconcileAll m ao kvs errs \<sigma> = (errs', \<sigma>')"
  shows "netInv m rules \<sigma>' \<and> ingressPermissionsPerSGByTGB \<sigma>' = ingressPermissionsPerSGByTGB \<sigma>
    \<and> trackedEndpointSGs \<sigma>' = trackedEndpointSGs \<sigma> \<and> (\<forall>i. i \<notin> fst ` set kvs \<longrightarrow> netRules rules \<sigma>' i = netRules rules \<sigma> i)
    \<and> (\<forall>i. keptRules (tgbOptions ao) (netRules rules \<sigma> i) \<subseteq> netRules rules \<sigma>' i)
    \<and> (errs' = [] \<longrightarrow> errs = [] \<and> (\<forall>(i, ps) \<in> set kvs.
         hashPerm (netMarshal m) ` netRules rules \<sigma>' i = ingressGoal (netMarshal m) (tgbOptions ao) ps (netRules rules \<sigma> i)))"
  using assms(2-)
proof (induction kvs arbitrary: errs \<sigma>)
  case Nil
  then show ?case by (auto simp: keptRules_def)
next
  case (Cons e kvs)
  obtain i0 ps where e: "e = (i0, ps)" by (cases e)
  obtain r1 \<sigma>1 where 1: "onNetSGs (ReconcileIngress (netMarshal m) (netEC2 m) i0 ps (tgbOptions ao)) \<sigma> = (r1, \<sigma>1)" by force
  note A = netReconcile_spec [OF assms(1) Cons.prems(1) 1]
  define errs1 where "errs1 = (case r1 of Inl err \<Rightarrow> errs @ [err] | Inr _ \<Rightarrow> errs)"
  have run: "reconcileAll m ao kvs errs1 \<sigma>1 = (errs', \<sigma>')"
    using Cons.prems(3) 1 by (cases r1) (simp_all add: e errs1_def tgbOptions_def)
  have d: "distinct (map fst kvs)" "i0 \<notin> fst ` set kvs" using Cons.prems(2) by (simp_all add: e)
  note B = Cons.IH [OF conjunct1 [OF A] d(1) run]
  have others: "netRules rules \<sigma>1 i = netRules rules \<sigma> i" if "i \<noteq> i0" for i using A that by blast
  have i0: "netRules rules \<sigma>' i0 = netRules rules \<sigma>1 i0" using B d(2) by blast
  have "keptRules (tgbOptions ao) (netRules rules \<sigma> i) \<subseteq> netRules rules \<sigma>' i" for i
  proof (cases "i = i0")
    case True
    then show ?thesis using A i0 by simp
  next
    case False
    have "keptRules (tgbOptions ao) (netRules rules \<sigma>1 i) \<subseteq> netRules rules \<sigma>' i" using B by blast
    then show ?thesis using others [OF False] by simp
  qed
  moreover have "errs = [] \<and> (\<forall>(i, ps) \<in> set (e # kvs).
         hashPerm (netMarshal m) ` netRules rules \<sigma>' i = ingressGoal (netMarshal m) (tgbOptions ao) ps (netRules rules \<sigma> i))"
    if "errs' = []"
  proof -
    have "errs1 = []" and rest: "\<forall>(i, ps) \<in> set kvs.
         hashPerm (netMarshal m) ` netRules rules \<sigma>' i = ingressGoal (netMarshal m) (tgbOptions ao) ps (netRules rules \<sigma>1 i)"
      using B that by simp_all
    then have "errs = []" "r1 = Inr ()" by (auto simp: errs1_def split: sum.splits)
    moreover have "netRules rules \<sigma>1 i = netRules rules \<sigma> i" if "(i, ps) \<in> set kvs" for i ps
      using others [of i] d(2) that by (metis fst_conv image_eqI)
    ultimately show ?thesis using A i0 rest unfolding e by fastforce
  qed
  moreover have "\<forall>i. i \<notin> fst ` set (e # kvs) \<longrightarrow> netRules rules \<sigma>' i = netRules rules \<sigma> i" using B others by (simp add: e)
  ultimately show ?case using A B by simp
qed

lemma gcOne_spec:
  assumes "networking_ok m rules" "netInv m rules \<sigma>" "gcOne m sgID \<sigma> = (r, \<sigma>')"
  shows "netInv m rules \<sigma>' \<and> ingressPermissionsPerSGByTGB \<sigma>' = ingressPermissionsPerSGByTGB \<sigma>
    \<and> set (trackedEndpointSGs \<sigma>') \<subseteq> set (trackedEndpointSGs \<sigma>) \<and> (\<forall>i. i \<noteq> sgID \<longrightarrow> netRules rules \<sigma>' i = netRules rules \<sigma> i)
    \<and> keptRules (tgbOptions False) (netRules rules \<sigma> sgID) \<subseteq> netRules rules \<sigma>' sgID
    \<and> (r = Inr () \<longrightarrow> sgID \<notin> set (trackedEndpointSGs \<sigma>')
        \<or> hashPerm (netMarshal m) ` netRules rules \<sigma>' sgID = ingressGoal (netMarshal m) (tgbOptions False) [] (netRules rules \<sigma> sgID))"
proof -
  obtain r1 \<sigma>1 where 1: "onNetSGs (ReconcileIngress (netMarshal m) (netEC2 m) sgID [] (tgbOptions False)) \<sigma> = (r1, \<sigma>1)" by force
  note A = netReconcile_spec [OF assms(1,2) 1]
  show ?thesis
  proof (cases "\<exists>err. r1 = Inl err \<and> isEC2SecurityGroupNotFoundError err")
    case True
    then have "r = Inr ()" "\<sigma>' = unTrackEndpointSGs [sgID] \<sigma>1"
      using assms(3) 1 by (auto simp: gcOne_def tgbOptions_def)
    moreover have "distinct (trackedEndpointSGs \<sigma>)" using assms(2) by (simp add: netInv_def)
    ultimately show ?thesis using A by (auto simp: unTrackEndpointSGs_def netInv_def)
  next
    case False
    then have "r = r1" "\<sigma>' = \<sigma>1" using assms(3) 1 by (auto simp: gcOne_def tgbOptions_def split: sum.splits if_splits)
    then show ?thesis using A by simp
  qed
qed

lemma gcAll_spec:
  assumes "networking_ok m rules" "netInv m rules \<sigma>" "distinct is" "io_iter (gcOne m) is \<sigma> = (r, \<sigma>')"
  shows "netInv m rules \<sigma>' \<and> ingressPermissionsPerSGByTGB \<sigma>' = ingressPermissionsPerSGByTGB \<sigma>
    \<and> set (trackedEndpointSGs \<sigma>') \<subseteq> set (trackedEndpointSGs \<sigma>) \<and> (\<forall>i. i \<notin> set is \<longrightarrow> netRules rules \<sigma>' i = netRules rules \<sigma> i)
    \<and> (\<forall>i. keptRules (tgbOptions False) (netRules rules \<sigma> i) \<subseteq> netRules rules \<sigma>' i)
    \<and> (r = Inr () \<longrightarrow> (\<forall>i \<in> set is. i \<in> set (trackedEndpointSGs \<sigma>') \<longrightarrow>
        hashPerm (netMarshal m) ` netRules rules \<sigma>' i = ingressGoal (netMarshal m) (tgbOptions False) [] (netRules rules \<sigma> i)))"
  using assms(2-)
proof (induction "is" arbitrary: \<sigma>)
  case Nil
  then show ?case by (auto simp: keptRules_def)
next
  case (Cons i0 "is")
  obtain r1 \<sigma>1 where 1: "gcOne m i0 \<sigma> = (r1, \<sigma>1)" by force
  note A = gcOne_spec [OF assms(1) Cons.prems(1) 1]
  have others: "netRules rules \<sigma>1 i = netRules rules \<sigma> i" if "i \<noteq> i0" for i using A that by blast
  have K: "keptRules (tgbOptions False) R \<subseteq> R" for R by (auto simp: keptRules_def)
  show ?case
  proof (cases r1)
    case (Inl err)
    then have "r = Inl err" "\<sigma>' = \<sigma>1" using Cons.prems(3) 1 by simp_all
    moreover have "keptRules (tgbOptions False) (netRules rules \<sigma> i) \<subseteq> netRules rules \<sigma>1 i" for i
      using A others K by (cases "i = i0") auto
    ultimately show ?thesis using A others by simp
  next
    case (Inr x)
    then have run: "io_iter (gcOne m) is \<sigma>1 = (r, \<sigma>')" using Cons.prems(3) 1 by simp
    have d: "distinct is" "i0 \<notin> set is" using Cons.prems(2) by simp_all
    note B = Cons.IH [OF conjunct1 [OF A] d(1) run]
    have i0: "netRules rules \<sigma>' i0 = netRules rules \<sigma>1 i0" using B d(2) by blast
    have "keptRules (tgbOptions False) (netRules rules \<sigma> i) \<subseteq> netRules rules \<sigma>' i" for i
    proof (cases "i = i0")
      case True
      then show ?thesis using A i0 by simp
    next
      case False
      have "keptRules (tgbOptions False) (netRules rules \<sigma>1 i) \<subseteq> netRules rules \<sigma>' i" using B by blast
      then show ?thesis using others [OF False] by simp
    qed
    moreover have "hashPerm (netMarshal m) ` netRules rules \<sigma>' i = ingressGoal (netMarshal m) (tgbOptions False) [] (netRules rules \<sigma> i)"
      if "r = Inr ()" "i \<in> set (i0 # is)" "i \<in> set (trackedEndpointSGs \<sigma>')" for i
    proof (cases "i = i0")
      case True
      then have "i0 \<in> set (trackedEndpointSGs \<sigma>1)" using B that(3) by blast
      then show ?thesis using A Inr i0 True by auto
    next
      case False
      then show ?thesis using B others that by simp
    qed
    moreover have "set (trackedEndpointSGs \<sigma>') \<subseteq> set (trackedEndpointSGs \<sigma>)"
      by (rule subset_trans [of _ "set (trackedEndpointSGs \<sigma>1)"]) (use A B in simp_all)
    ultimately show ?thesis using A B others by simp
  qed
qed

lemma fetchEndpointSGs_spec:
  assumes ok: "networking_ok m rules" and inv: "netInv m rules \<sigma>" and run: "fetchEndpointSGs m \<sigma> = (r, \<sigma>')"
  shows "netInv m rules \<sigma>' \<and> netRules rules \<sigma>' = netRules rules \<sigma> \<and> ingressPermissionsPerSGByTGB \<sigma>' = ingressPermissionsPerSGByTGB \<sigma>
    \<and> (\<forall>sgs. r = Inr sgs \<longrightarrow> sgs = trackedEndpointSGs \<sigma>')"
proof (cases "trackedEndpointSGsInitialized \<sigma>")
  case True
  then show ?thesis using run inv by (auto simp: fetchEndpointSGs_def)
next
  case False
  let ?fs = "[(''tag:kubernetes.io/cluster/'' @ netClusterName m, [''owned'', ''shared'']), (''vpc-id'', [netVpcID m])]"
  obtain r1 w1 where f: "fetchSGInfosFromAWS (netEC2 m) [] ?fs (sgCloud (netSGs \<sigma>)) = (r1, w1)" by force
  have "sg_api_ok (netMarshal m) (netEC2 m) rules" using ok by (simp add: networking_ok_def)
  note F = fetchSGInfosFromAWS_spec [OF this f]
  let ?s = "(netSGs \<sigma>)\<lparr>sgCloud := w1\<rparr>"
  have coh: "sgCoherent rules ?s" using inv F by (simp add: netInv_def sgCoherent_def)
  show ?thesis
  proof (cases r1)
    case (Inl e)
    then have "r = Inl e" "\<sigma>' = \<sigma>\<lparr>netSGs := ?s\<rparr>" using run False f
      by (simp_all add: fetchEndpointSGs_def fetchEndpointSGsFromAWS_def FetchSGInfosByRequest_def onNetSGs_def onSGCloud_def io_bind_def)
    then show ?thesis using inv F coh by (simp add: netInv_def)
  next
    case (Inr infos)
    let ?s' = "saveSGInfosToCache (netEC2 m) infos ?s"
    have "\<forall>(i, info) \<in> set infos. infoFrom (rules (sgCloud ?s)) i info" using F Inr by simp
    note S = saveSGInfosToCache_coherent [OF coh this, of "netEC2 m"]
    have "r = Inr (trackedEndpointSGs \<sigma>') \<and> \<sigma>' = (trackEndpointSGs (keyset infos) (\<sigma>\<lparr>netSGs := ?s'\<rparr>))\<lparr>trackedEndpointSGsInitialized := True\<rparr>"
      using run False f Inr
      by (auto simp: fetchEndpointSGs_def fetchEndpointSGsFromAWS_def FetchSGInfosByRequest_def onNetSGs_def onSGCloud_def io_bind_def Let_def)
    then show ?thesis using inv F S by (simp add: netInv_def trackEndpointSGs_def)
  qed
qed

lemma gcIngress_spec:
  assumes ok: "networking_ok m rules" and inv: "netInv m rules \<sigma>"
    and run: "gcIngressPermissionsFromUnusedEndpointSGs m agg \<sigma> = (r, \<sigma>')"
  shows "netInv m rules \<sigma>' \<and> ingressPermissionsPerSGByTGB \<sigma>' = ingressPermissionsPerSGByTGB \<sigma>
    \<and> (\<forall>i \<in> fst ` set agg. netRules rules \<sigma>' i = netRules rules \<sigma> i)
    \<and> (\<forall>i. keptRules (tgbOptions False) (netRules rules \<sigma> i) \<subseteq> netRules rules \<sigma>' i)
    \<and> (r = Inr () \<longrightarrow> (\<forall>i \<in> set (trackedEndpointSGs \<sigma>') - fst ` set agg.
        hashPerm (netMarshal m) ` netRules rules \<sigma>' i = ingressGoal (netMarshal m) (tgbOptions False) [] (netRules rules \<sigma> i)))"
proof -
  obtain r1 \<sigma>1 where f: "fetchEndpointSGs m \<sigma> = (r1, \<sigma>1)" by force
  note F = fetchEndpointSGs_spec [OF ok inv f]
  show ?thesis
  proof (cases r1)
    case (Inl e)
    then have "r = Inl e" "\<sigma>' = \<sigma>1" using run f by (simp_all add: gcIngressPermissionsFromUnusedEndpointSGs_def)
    then show ?thesis using F by (auto simp: keptRules_def)
  next
    case (Inr sgs)
    let ?is = "setOrder m (filter (\<lambda>i. \<not> mhas agg i) sgs)"
    have sgs: "sgs = trackedEndpointSGs \<sigma>1" and inv1: "netInv m rules \<sigma>1" and R: "netRules rules \<sigma>1 = netRules rules \<sigma>"
      using F Inr by simp_all
    have ord: "go_order (setOrder m)" using ok by (simp add: networking_ok_def)
    have d: "distinct ?is" using ord inv1 by (simp add: sgs netInv_def)
    have "io_iter (gcOne m) ?is \<sigma>1 = (r, \<sigma>')"
      using run f Inr by (simp add: gcIngressPermissionsFromUnusedEndpointSGs_def)
    note A = gcAll_spec [OF ok inv1 d this]
    have iset: "set ?is = set (trackedEndpointSGs \<sigma>1) - fst ` set agg" using ord by (auto simp: sgs mhas_iff)
    have "hashPerm (netMarshal m) ` netRules rules \<sigma>' i = ingressGoal (netMarshal m) (tgbOptions False) [] (netRules rules \<sigma> i)"
      if "r = Inr ()" "i \<in> set (trackedEndpointSGs \<sigma>') - fst ` set agg" for i
    proof -
      have "i \<in> set ?is" using A that(2) unfolding iset by auto
      then show ?thesis using A that R by simp
    qed
    then show ?thesis using A F unfolding iset R by auto
  qed
qed

text \<open>The bindings with networking, and whether the permissions of all of them have been computed.\<close>

definition networkedKeys :: "networkedTGB list \<Rightarrow> NamespacedName set" where
  "networkedKeys tgbs = netTGBKey ` {t \<in> set tgbs. netTGBNetworking t \<noteq> None}"

lemma keys_filter: "fst ` set (filter (\<lambda>e. fst e \<in> K) T) = K \<inter> fst ` set T"
  by auto

lemma consolidate_spec:
  assumes "wf_map tgbs" "wf_map (ingressPermissionsPerSGByTGB \<sigma>)"
    and "consolidateIngressPermissionsPerSGByTGB tgbs \<sigma> = (b, \<sigma>')"
  shows "b \<longleftrightarrow> fst ` set tgbs \<subseteq> fst ` set (ingressPermissionsPerSGByTGB \<sigma>)"
    "\<sigma>' = \<sigma>\<lparr>ingressPermissionsPerSGByTGB := filter (\<lambda>(k, v). mhas tgbs k) (ingressPermissionsPerSGByTGB \<sigma>)\<rparr>"
proof -
  let ?T = "ingressPermissionsPerSGByTGB \<sigma>" and ?kept = "filter (\<lambda>(k, v). mhas tgbs k) (ingressPermissionsPerSGByTGB \<sigma>)"
  show "\<sigma>' = \<sigma>\<lparr>ingressPermissionsPerSGByTGB := ?kept\<rparr>" using assms(3) by (simp add: consolidateIngressPermissionsPerSGByTGB_def Let_def)
  have keys: "fst ` set ?kept = fst ` set ?T \<inter> fst ` set tgbs" 
  proof -
    have eq: "(\<lambda>(k, v). mhas tgbs k) = (\<lambda>e. fst e \<in> fst ` set tgbs)" by (auto simp: mhas_iff fun_eq_iff)
    show ?thesis unfolding eq keys_filter by (rule Int_commute)
  qed
  have "length ?kept = card (fst ` set ?kept)" "length tgbs = card (fst ` set tgbs)"
    using distinct_card [OF distinct_map_filter [OF assms(2)]] distinct_card [OF assms(1)] by simp_all
  then have "b \<longleftrightarrow> card (fst ` set ?T \<inter> fst ` set tgbs) = card (fst ` set tgbs)"
    using assms(3) keys by (auto simp: consolidateIngressPermissionsPerSGByTGB_def Let_def)
  also have "\<dots> \<longleftrightarrow> fst ` set tgbs \<subseteq> fst ` set ?T"
    using card_subset_eq [of "fst ` set tgbs" "fst ` set ?T \<inter> fst ` set tgbs"] by (auto simp: Int_absorb1)
  finally show "b \<longleftrightarrow> fst ` set tgbs \<subseteq> fst ` set ?T" .
qed

lemma aggregated_wf: "wf_map (computeAggregatedIngressPermissionsPerSG m \<sigma>)"
  using restricted_spec(1) unrestricted_spec(1) by (auto simp: computeAggregatedIngressPermissionsPerSG_def)

lemma aggregated_cong:
  "ingressPermissionsPerSGByTGB \<sigma>' = ingressPermissionsPerSGByTGB \<sigma> \<Longrightarrow>
   computeAggregatedIngressPermissionsPerSG m \<sigma>' = computeAggregatedIngressPermissionsPerSG m \<sigma>"
  by (simp add: computeAggregatedIngressPermissionsPerSG_def)

text \<open>Both phases after the permissions of the bindings have been consolidated.\<close>

lemma reconcilePhases_spec:
  assumes ok: "networking_ok m rules" and inv: "netInv m rules \<sigma>"
    and agg: "agg = computeAggregatedIngressPermissionsPerSG m \<sigma>"
    and 1: "reconcileAll m (\<not> b) (mapOrder m agg) [] \<sigma> = (errs, \<sigma>1)"
    and 2: "io_bind (if b then gcIngressPermissionsFromUnusedEndpointSGs m agg else io_ret ()) (\<lambda>_.
              if length errs > 0 then io_fail (Joined errs) else io_ret ()) \<sigma>1 = (r, \<sigma>')"
  shows "netInv m rules \<sigma>' \<and> ingressPermissionsPerSGByTGB \<sigma>' = ingressPermissionsPerSGByTGB \<sigma>
    \<and> (\<forall>i. keptRules (tgbOptions (\<not> b)) (netRules rules \<sigma> i) \<subseteq> netRules rules \<sigma>' i)
    \<and> (r = Inr () \<and> b \<longrightarrow> (\<forall>(i, ps) \<in> set agg. hashPerm (netMarshal m) ` netRules rules \<sigma>' i =
            ingressGoal (netMarshal m) (tgbOptions False) ps (netRules rules \<sigma> i))
        \<and> (\<forall>i \<in> set (trackedEndpointSGs \<sigma>') - fst ` set agg. hashPerm (netMarshal m) ` netRules rules \<sigma>' i =
            ingressGoal (netMarshal m) (tgbOptions False) [] (netRules rules \<sigma> i)))"
proof -
  have ord: "go_order (mapOrder m)" using ok by (simp add: networking_ok_def)
  have d: "distinct (map fst (mapOrder m agg))"
    using ord aggregated_wf [of m \<sigma>] wf_map_perm(1) [of agg "mapOrder m agg"] by (simp add: agg go_order_def)
  note A = reconcileAll_spec [OF ok inv d 1]
  have sets: "set (mapOrder m agg) = set agg" using ord by simp
  show ?thesis
  proof (cases b)
    case False
    then have "\<sigma>' = \<sigma>1" using 2 by (auto simp: io_bind_def split: if_splits)
    then show ?thesis using A False by auto
  next
    case True
    obtain r2 \<sigma>2 where g: "gcIngressPermissionsFromUnusedEndpointSGs m agg \<sigma>1 = (r2, \<sigma>2)" by force
    note G = gcIngress_spec [OF ok conjunct1 [OF A] g]
    have r: "\<sigma>' = \<sigma>2" "r = Inr () \<Longrightarrow> r2 = Inr () \<and> errs = []"
      using 2 g True by (cases r2; auto simp: io_bind_def split: if_splits)+
    have keep1: "keptRules (tgbOptions False) (netRules rules \<sigma> i) \<subseteq> netRules rules \<sigma>1 i" for i using A True by simp
    have keep2: "keptRules (tgbOptions False) (netRules rules \<sigma>1 i) \<subseteq> netRules rules \<sigma>' i" for i using G r by simp
    have kk: "keptRules (tgbOptions False) (keptRules (tgbOptions False) R) = keptRules (tgbOptions False) R" for R
      by (auto simp: keptRules_def)
    have "keptRules (tgbOptions False) (netRules rules \<sigma> i) \<subseteq> netRules rules \<sigma>' i" for i
      using keptRules_mono [OF keep1, of "tgbOptions False" i] keep2 [of i] unfolding kk by (rule subset_trans)
    moreover have "hashPerm (netMarshal m) ` netRules rules \<sigma>' i = ingressGoal (netMarshal m) (tgbOptions False) ps (netRules rules \<sigma> i)"
      if "r = Inr ()" "(i, ps) \<in> set agg" for i ps
    proof -
      have "netRules rules \<sigma>' i = netRules rules \<sigma>1 i" using G r that(2) by (metis fst_conv image_eqI)
      moreover have "hashPerm (netMarshal m) ` netRules rules \<sigma>1 i = ingressGoal (netMarshal m) (tgbOptions False) ps (netRules rules \<sigma> i)"
        using A r(2) [OF that(1)] that(2) True unfolding sets by fastforce
      ultimately show ?thesis by simp
    qed
    moreover have "hashPerm (netMarshal m) ` netRules rules \<sigma>' i = ingressGoal (netMarshal m) (tgbOptions False) [] (netRules rules \<sigma> i)"
      if "r = Inr ()" "i \<in> set (trackedEndpointSGs \<sigma>') - fst ` set agg" for i
    proof -
      have "netRules rules \<sigma>1 i = netRules rules \<sigma> i" using A that(2) unfolding sets by blast
      then show ?thesis using G r(1) r(2) [OF that(1)] that(2) by metis
    qed
    moreover have "ingressPermissionsPerSGByTGB \<sigma>' = ingressPermissionsPerSGByTGB \<sigma>" "netInv m rules \<sigma>'" using A G r by simp_all
    ultimately show ?thesis using True by (simp add: case_prod_unfold)
  qed
qed

text \<open>The state after the binding's own permissions are recorded and the bindings are listed.\<close>

lemma reconcileNet_cases:
  assumes ok: "networking_ok m rules" and inv: "netInv m rules \<sigma>"
    and run: "reconcileWithIngressPermissionsPerSG m tgb perSG \<sigma> = (r, \<sigma>')"
  obtains (list_failed) err w1 where "listTGBs m (sgCloud (netSGs \<sigma>)) = (Inl err, w1)" "r = Inl err" "netInv m rules \<sigma>'" "netRules rules \<sigma>' = netRules rules \<sigma>"
  | (listed) tgbs w1 \<sigma>3 b errs \<sigma>4 where "listTGBs m (sgCloud (netSGs \<sigma>)) = (Inr tgbs, w1)" "netInv m rules \<sigma>3" "netRules rules \<sigma>3 = netRules rules \<sigma>"
      "b \<longleftrightarrow> networkedKeys tgbs \<subseteq> insert (netTGBKey tgb) (fst ` set (ingressPermissionsPerSGByTGB \<sigma>))"
      "fst ` set (ingressPermissionsPerSGByTGB \<sigma>3) = networkedKeys tgbs \<inter> insert (netTGBKey tgb) (fst ` set (ingressPermissionsPerSGByTGB \<sigma>))"
      "reconcileAll m (\<not> b) (mapOrder m (computeAggregatedIngressPermissionsPerSG m \<sigma>3)) [] \<sigma>3 = (errs, \<sigma>4)"
      "io_bind (if b then gcIngressPermissionsFromUnusedEndpointSGs m (computeAggregatedIngressPermissionsPerSG m \<sigma>3) else io_ret ()) (\<lambda>_.
              if length errs > 0 then io_fail (Joined errs) else io_ret ()) \<sigma>4 = (r, \<sigma>')"
proof -
  let ?T = "mput (netTGBKey tgb) perSG (ingressPermissionsPerSGByTGB \<sigma>)"
  let ?\<sigma>1 = "trackEndpointSGs (keyset perSG) (\<sigma>\<lparr>ingressPermissionsPerSGByTGB := ?T\<rparr>)"
  obtain r1 w1 where l: "listTGBs m (sgCloud (netSGs \<sigma>)) = (r1, w1)" by force
  have R1: "rules w1 = netRules rules \<sigma>" using ok l by (auto simp: networking_ok_def)
  let ?\<sigma>2 = "?\<sigma>1\<lparr>netSGs := (netSGs \<sigma>)\<lparr>sgCloud := w1\<rparr>\<rparr>"
  have inv2: "netInv m rules ?\<sigma>2" using inv R1 by (simp add: netInv_def trackEndpointSGs_def sgCoherent_def)
  have io: "onNetCloud (listTGBs m) ?\<sigma>1 = (r1, ?\<sigma>2)" using l
    by (simp add: onNetCloud_def onNetSGs_def onSGCloud_def trackEndpointSGs_def)
  show ?thesis
  proof (cases r1)
    case (Inl err)
    then have "r = Inl err \<and> \<sigma>' = ?\<sigma>2" using run io
      by (simp add: reconcileWithIngressPermissionsPerSG_def fetchTGBsWithNetworking_def Let_def io_bind_def)
    then show ?thesis using list_failed [of err w1] l Inl inv2 R1 by simp
  next
    case (Inr tgbs)
    let ?tgbs = "mbuild netTGBKey (\<lambda>t. t) (filter (\<lambda>t. netTGBNetworking t \<noteq> None) tgbs) []"
    obtain b \<sigma>3 where c: "consolidateIngressPermissionsPerSGByTGB ?tgbs ?\<sigma>2 = (b, \<sigma>3)" by force
    have keys: "fst ` set ?tgbs = networkedKeys tgbs" by (auto simp: networkedKeys_def)
    have T2: "ingressPermissionsPerSGByTGB ?\<sigma>2 = ?T" by (simp add: trackEndpointSGs_def)
    have wfT: "wf_map ?T" using inv by (simp add: netInv_def)
    note C = consolidate_spec [OF _ _ c, unfolded T2 keys]
    have b: "b \<longleftrightarrow> networkedKeys tgbs \<subseteq> insert (netTGBKey tgb) (fst ` set (ingressPermissionsPerSGByTGB \<sigma>))"
      using C(1) wfT by simp
    have s3: "\<sigma>3 = ?\<sigma>2\<lparr>ingressPermissionsPerSGByTGB := filter (\<lambda>(k, v). mhas ?tgbs k) ?T\<rparr>" using C(2) wfT by simp
    have eq: "(\<lambda>(k, v). mhas ?tgbs k) = (\<lambda>e. fst e \<in> networkedKeys tgbs)" 
      using keys by (auto simp: mhas_iff fun_eq_iff)
    have k3: "fst ` set (ingressPermissionsPerSGByTGB \<sigma>3) = networkedKeys tgbs \<inter> insert (netTGBKey tgb) (fst ` set (ingressPermissionsPerSGByTGB \<sigma>))"

      unfolding s3 eq by (simp add: keys_filter del: set_filter)
    have inv3: "netInv m rules \<sigma>3" using inv2 distinct_map_filter [OF wfT] unfolding s3 by (simp add: netInv_def)
    have R3: "netRules rules \<sigma>3 = netRules rules \<sigma>" using R1 unfolding s3 by simp
    obtain errs \<sigma>4 where a: "reconcileAll m (\<not> b) (mapOrder m (computeAggregatedIngressPermissionsPerSG m \<sigma>3)) [] \<sigma>3 = (errs, \<sigma>4)" by force
    have "io_bind (if b then gcIngressPermissionsFromUnusedEndpointSGs m (computeAggregatedIngressPermissionsPerSG m \<sigma>3) else io_ret ()) (\<lambda>_.
              if length errs > 0 then io_fail (Joined errs) else io_ret ()) \<sigma>4 = (r, \<sigma>')"
      using run io Inr c a by (simp add: reconcileWithIngressPermissionsPerSG_def fetchTGBsWithNetworking_def Let_def io_bind_def)
    then show ?thesis using listed [of tgbs w1 \<sigma>3 b errs \<sigma>4] l Inr inv3 R3 b k3 a by simp
  qed
qed

text \<open>
  C19. Reconciling a binding's networking never removes a rule the controller does not own, in any
  security group and whatever call fails; and as long as the permissions of some binding in the
  cluster are not yet known (after a restart), it removes no rule at all. The manager's invariant
  (coherent cache, unique keys, unique hashes of the rules) is kept on every path.
\<close>

theorem networking_safe:
  assumes ok: "networking_ok m rules" and inv: "netInv m rules \<sigma>"
    and run: "reconcileWithIngressPermissionsPerSG m tgb perSG \<sigma> = (r, \<sigma>')"
  shows "netInv m rules \<sigma>'
    \<and> (\<forall>i. {p \<in> netRules rules \<sigma> i. \<not> tgbSelector (Labels (NewRawIPPermission p))} \<subseteq> netRules rules \<sigma>' i)
    \<and> (\<forall>tgbs w1. listTGBs m (sgCloud (netSGs \<sigma>)) = (Inr tgbs, w1)
         \<and> \<not> networkedKeys tgbs \<subseteq> insert (netTGBKey tgb) (fst ` set (ingressPermissionsPerSGByTGB \<sigma>))
         \<longrightarrow> (\<forall>i. netRules rules \<sigma> i \<subseteq> netRules rules \<sigma>' i))"
  using ok inv run
proof (cases rule: reconcileNet_cases)
  case (list_failed err w1)
  then show ?thesis by auto
next
  case (listed tgbs w1 \<sigma>3 b errs \<sigma>4)
  note A = reconcilePhases_spec [OF ok listed(2) refl listed(6,7), unfolded listed(3)]
  have "{p \<in> netRules rules \<sigma> i. \<not> tgbSelector (Labels (NewRawIPPermission p))} \<subseteq> keptRules (tgbOptions (\<not> b)) (netRules rules \<sigma> i)"
    and "\<not> b \<Longrightarrow> netRules rules \<sigma> i \<subseteq> keptRules (tgbOptions (\<not> b)) (netRules rules \<sigma> i)" for i
    by (auto simp: keptRules_def tgbOptions_def)
  moreover have "keptRules (tgbOptions (\<not> b)) (netRules rules \<sigma> i) \<subseteq> netRules rules \<sigma>' i" for i using A by blast
  ultimately have F: "{p \<in> netRules rules \<sigma> i. \<not> tgbSelector (Labels (NewRawIPPermission p))} \<subseteq> netRules rules \<sigma>' i"
    and all: "\<not> b \<Longrightarrow> netRules rules \<sigma> i \<subseteq> netRules rules \<sigma>' i" for i
    by (meson subset_trans)+
  have "\<forall>i. netRules rules \<sigma> i \<subseteq> netRules rules \<sigma>' i"
    if "listTGBs m (sgCloud (netSGs \<sigma>)) = (Inr tgbs', w1')"
      "\<not> networkedKeys tgbs' \<subseteq> insert (netTGBKey tgb) (fst ` set (ingressPermissionsPerSGByTGB \<sigma>))" for tgbs' w1'
    using that listed(1,4) all by simp
  then show ?thesis using conjunct1 [OF A] F by simp
qed

text \<open>
  C20. When the permissions of all bindings with networking are known and a reconciliation succeeds,
  the manager holds the permissions of exactly these bindings, every security group in use has
  exactly the aggregated rules besides the rules it does not own, and every other group it tracks
  has only rules it does not own (rules are compared up to their descriptions).
\<close>

theorem networking_converges:
  assumes ok: "networking_ok m rules" and inv: "netInv m rules \<sigma>"
    and list: "listTGBs m (sgCloud (netSGs \<sigma>)) = (Inr tgbs, w1)"
    and all: "networkedKeys tgbs \<subseteq> insert (netTGBKey tgb) (fst ` set (ingressPermissionsPerSGByTGB \<sigma>))"
    and run: "reconcileWithIngressPermissionsPerSG m tgb perSG \<sigma> = (Inr (), \<sigma>')"
  shows "fst ` set (ingressPermissionsPerSGByTGB \<sigma>') = networkedKeys tgbs
    \<and> (\<forall>(i, ps) \<in> set (computeAggregatedIngressPermissionsPerSG m \<sigma>').
         hashPerm (netMarshal m) ` netRules rules \<sigma>' i = HashCode (netMarshal m) ` set ps
           \<union> hashPerm (netMarshal m) ` {p \<in> netRules rules \<sigma> i. \<not> tgbSelector (Labels (NewRawIPPermission p))})
    \<and> (\<forall>i \<in> set (trackedEndpointSGs \<sigma>') - fst ` set (computeAggregatedIngressPermissionsPerSG m \<sigma>').
         hashPerm (netMarshal m) ` netRules rules \<sigma>' i =
           hashPerm (netMarshal m) ` {p \<in> netRules rules \<sigma> i. \<not> tgbSelector (Labels (NewRawIPPermission p))})"
  using ok inv run
proof (cases rule: reconcileNet_cases)
  case (list_failed err w1)
  then show ?thesis by simp
next
  case (listed tgbs' w1' \<sigma>3 b errs \<sigma>4)
  have t: "tgbs' = tgbs" using listed(1) list by simp
  have b: "b" using listed(4) all t by simp
  note A = reconcilePhases_spec [OF ok listed(2) refl listed(6,7), unfolded listed(3)]
  have g: "ingressGoal (netMarshal m) (tgbOptions False) ps R = HashCode (netMarshal m) ` set ps
      \<union> hashPerm (netMarshal m) ` {p \<in> R. \<not> tgbSelector (Labels (NewRawIPPermission p))}" for ps R
    by (simp add: ingressGoal_def keptRules_def tgbOptions_def)
  have tab: "ingressPermissionsPerSGByTGB \<sigma>' = ingressPermissionsPerSGByTGB \<sigma>3" using A by simp
  have "fst ` set (ingressPermissionsPerSGByTGB \<sigma>') = networkedKeys tgbs" using listed(5) all t unfolding tab by blast
  then show ?thesis using A b unfolding aggregated_cong [OF tab] g by simp
qed

text \<open>A cluster with two bindings, and EC2 in memory.\<close>

definition exTGB :: "string \<Rightarrow> networkedTGB" where
  "exTGB n = \<lparr>netTGBKey = (''ns'', n), netTGBNetworking = Some []\<rparr>"

definition exNetDeps :: "networkedTGB list \<Rightarrow> (string, IpPermission list) gomap networking_deps" where
  "exNetDeps tgbs = \<lparr>netMarshal = (\<lambda>_. []), netEC2 = memEC2, listTGBs = (\<lambda>w. (Inr tgbs, w)),
     podENIResolve = (\<lambda>_ w. (Inr [], w)), nodeENIResolve = (\<lambda>_ w. (Inr [], w)), netVpcID = ''vpc'', netClusterName = ''c'',
     serviceTargetENISGTags = [], disableRestrictedSGRules = False, netValidCIDR = (\<lambda>_. True), mapOrder = (\<lambda>xs. xs), setOrder = (\<lambda>xs. xs)\<rparr>"

definition exNet :: "(string, IpPermission list) gomap networkingManager" where
  "exNet = \<lparr>ingressPermissionsPerSGByTGB = [((''ns'', ''a''), [(''sg'', [exPerm 2 ''sg-1''])])], trackedEndpointSGs = [''sg'', ''old''],
     trackedEndpointSGsInitialized = True, netSGs = exSGManager\<rparr>"

lemma exTGB_keys: "networkedKeys [exTGB ''a'', exTGB ''b''] = {(''ns'', ''a''), (''ns'', ''b'')}"
proof -
  have "{t \<in> set [exTGB ''a'', exTGB ''b'']. netTGBNetworking t \<noteq> None} = {exTGB ''a'', exTGB ''b''}"
    by (auto simp: exTGB_def)
  then show ?thesis unfolding networkedKeys_def by (simp add: exTGB_def)
qed

lemma exNetDeps_ok: "networking_ok (exNetDeps tgbs) memRules"
  using memEC2_ok by (simp add: networking_ok_def exNetDeps_def)

lemma exNet_inv: "netInv (exNetDeps tgbs) memRules exNet"
proof -
  have "inj_on (hashPerm (\<lambda>_. [])) (memRules (sgCloud exSGManager) i)" for i
    using exSGManager_inj by (cases "i = ''sg''") (auto simp: memRules_def exSGManager_def)
  then show ?thesis by (simp add: netInv_def exNet_def exNetDeps_def sgCoherent_def exSGManager_def)
qed

lemma exNet_runs:
  "fst (reconcileWithIngressPermissionsPerSG (exNetDeps [exTGB ''a'', exTGB ''b'']) (exTGB ''b'') [(''sg'', [exPerm 3 ''sg-1''])] exNet) = Inr ()"
  by code_simp

theorem aggregation_covers_witness:
  "fst ` set (computeAggregatedIngressPermissionsPerSG (exNetDeps []) exNet) = {''sg''}
   \<and> (\<exists>q \<in> set (mget0 [] (computeAggregatedIngressPermissionsPerSG (exNetDeps []) exNet) ''sg''). sameSource q (exPerm 2 ''sg-1''))"
proof -
  have N: "permsForSG ''sg'' (ingressPermissionsPerSGByTGB exNet) = [exPerm 2 ''sg-1'']"
    by (simp add: permsForSG_def permsOfBinding_def exNet_def)
  have "bindingPerm (exPerm 2 ''sg-1'')"
    by (simp add: bindingPerm_def exPerm_def NewGroupIDIPPermission_def basePermission_def portFrom_def portTo_def ToInt32_def)
  then have "\<forall>p \<in> set (permsForSG ''sg'' (ingressPermissionsPerSGByTGB exNet)). bindingPerm p" unfolding N by simp
  from aggregation_covers [OF this, of "exNetDeps []"]
  show ?thesis unfolding N Let_def by (auto simp: exNetDeps_def exNet_def)
qed

theorem networking_safe_witness:
  "\<exists>r \<sigma>'. reconcileWithIngressPermissionsPerSG (exNetDeps [exTGB ''a'', exTGB ''b'']) (exTGB ''a'') [] exNet = (r, \<sigma>')
     \<and> memRules (sgCloud exSGManager) ''sg'' \<subseteq> netRules memRules \<sigma>' ''sg''"
proof -
  let ?m = "exNetDeps [exTGB ''a'', exTGB ''b'']"
  obtain r \<sigma>' where run: "reconcileWithIngressPermissionsPerSG ?m (exTGB ''a'') [] exNet = (r, \<sigma>')" by force
  have l: "listTGBs ?m (sgCloud (netSGs exNet)) = (Inr [exTGB ''a'', exTGB ''b''], sgCloud (netSGs exNet))" by (simp add: exNetDeps_def)
  have "\<not> networkedKeys [exTGB ''a'', exTGB ''b''] \<subseteq> insert (netTGBKey (exTGB ''a'')) (fst ` set (ingressPermissionsPerSGByTGB exNet))"
    unfolding exTGB_keys by (simp add: exTGB_def exNet_def)
  then have "\<forall>i. netRules memRules exNet i \<subseteq> netRules memRules \<sigma>' i" using networking_safe [OF exNetDeps_ok exNet_inv run] l by blast
  moreover have "netSGs exNet = exSGManager" by (simp add: exNet_def)
  ultimately show ?thesis using run by metis
qed

theorem networking_converges_witness:
  "\<exists>\<sigma>'. reconcileWithIngressPermissionsPerSG (exNetDeps [exTGB ''a'', exTGB ''b'']) (exTGB ''b'') [(''sg'', [exPerm 3 ''sg-1''])] exNet = (Inr (), \<sigma>')
     \<and> fst ` set (ingressPermissionsPerSGByTGB \<sigma>') = {(''ns'', ''a''), (''ns'', ''b'')}"
proof -
  let ?m = "exNetDeps [exTGB ''a'', exTGB ''b'']"
  obtain \<sigma>' where run: "reconcileWithIngressPermissionsPerSG ?m (exTGB ''b'') [(''sg'', [exPerm 3 ''sg-1''])] exNet = (Inr (), \<sigma>')"
    using exNet_runs by (metis prod.collapse)
  have l: "listTGBs ?m (sgCloud (netSGs exNet)) = (Inr [exTGB ''a'', exTGB ''b''], sgCloud (netSGs exNet))" by (simp add: exNetDeps_def)
  have "networkedKeys [exTGB ''a'', exTGB ''b''] \<subseteq> insert (netTGBKey (exTGB ''b'')) (fst ` set (ingressPermissionsPerSGByTGB exNet))"
    unfolding exTGB_keys by (simp add: exTGB_def exNet_def)
  from networking_converges [OF exNetDeps_ok exNet_inv l this run] 
  have "fst ` set (ingressPermissionsPerSGByTGB \<sigma>') = {(''ns'', ''a''), (''ns'', ''b'')}" unfolding exTGB_keys by (rule conjunct1)
  then show ?thesis using run by metis
qed

end
