(* ===== verification/Security_Group.thy ===== *)
theory Security_Group
  imports Networking
begin

text \<open>
  The security groups a stack asks for: the resource (\<^verbatim>\<open>pkg/model/ec2\<close>), and in
  \<^verbatim>\<open>pkg/deploy/ec2\<close> the EC2 tagging manager, the manager that creates, updates and deletes groups,
  and the synthesizer.

  The manager deletes through the networking manager of the bindings: when a group is still referred
  to, one garbage collection of the endpoint rules is attempted, once, and the deletion is retried.
\<close>

section \<open>The resource\<close>

record IPRange =
  CIDRIP :: string
  rangeDescription :: string

record IPv6Range =
  CIDRIPv6 :: string
  range6Description :: string

record UserIDGroupPair =
  pairGroupID :: string
  pairDescription :: string

record PrefixList =
  ListID :: string
  listDescription :: string

record IPPermission =
  permIPProtocol :: string
  permFromPort :: "int option"
  permToPort :: "int option"
  permIPRanges :: "IPRange list"
  permIPv6Range :: "IPv6Range list"
  permUserIDGroupPairs :: "UserIDGroupPair list"
  permPrefixLists :: "PrefixList list"

record SecurityGroupSpec =
  GroupName :: string
  sgDescription :: string
  sgSpecTags :: string_map
  sgIngress :: "IPPermission list"

record SecurityGroup =
  sgStack :: StackID
  sgResID :: string
  sgSpec :: SecurityGroupSpec

record SecurityGroupStatus =
  GroupID :: string

text \<open>The token of the group ID: resolving it before the group is fulfilled is an error.\<close>

definition SecurityGroup_GroupID :: "(string, SecurityGroupStatus) gomap \<Rightarrow> SecurityGroup \<Rightarrow> string res" where
  "SecurityGroup_GroupID status sg =
     (case mget status (sgResID sg) of
        None \<Rightarrow> Inl (Errorf ''SecurityGroup is not fulfilled yet: %v'' [sgResID sg])
      | Some st \<Rightarrow> Inr (GroupID st))"

section \<open>Tagging\<close>

record CreateSecurityGroupInput =
  csgVpcId :: string
  csgGroupName :: string
  csgDescription :: string
  csgTags :: "SDKTag list"

record 'w sg_deps =
  sgNetDeps :: "'w networking_deps"
  CreateSecurityGroup :: "CreateSecurityGroupInput \<Rightarrow> ('w, string option) io"
  DeleteSecurityGroup :: "string \<Rightarrow> ('w, unit) io"
  CreateTags :: "string list \<Rightarrow> SDKTag list \<Rightarrow> ('w, unit) io"
  DeleteTags :: "string list \<Rightarrow> SDKTag list \<Rightarrow> ('w, unit) io"
  sgProvider :: defaultProvider
  sgVpcID :: string
  sgExternalManagedTags :: "string list"
  sgDeletionPolls :: nat
  sgMapOrder :: "(string \<times> SecurityGroupInfo) list \<Rightarrow> (string \<times> SecurityGroupInfo) list"

definition EC2_ReconcileTags :: "'w sg_deps \<Rightarrow> string \<Rightarrow> string_map \<Rightarrow>
    (ReconcileTagsOptions \<Rightarrow> ReconcileTagsOptions) list \<Rightarrow> ('w networkingManager, unit) io" where
  "EC2_ReconcileTags m resID desiredTags opts =
     (let reconcileOpts = ApplyOptions opts \<lparr>CurrentTags = None, IgnoredTagKeys = []\<rparr>
      in (case CurrentTags reconcileOpts of
            None \<Rightarrow> io_fail (Errorf ''currentTags must be specified'' [])
          | Some currentTags \<Rightarrow>
              (let (modify, remove) = DiffStringMapIgnoreAWSTags desiredTags currentTags;
                   tagsToUpdate = deleteKeys (IgnoredTagKeys reconcileOpts) modify;
                   tagsToRemove = deleteKeys (IgnoredTagKeys reconcileOpts) remove
               in io_bind (if length tagsToUpdate > 0
                           then onNetCloud (CreateTags m [resID] (convertTagsToSDKTags tagsToUpdate)) else io_ret ()) (\<lambda>_.
                  if length tagsToRemove > 0
                  then onNetCloud (DeleteTags m [resID] (convertTagsToSDKTags tagsToRemove)) else io_ret ()))))"

definition tagFilterRequest :: "string \<Rightarrow> TagFilter \<Rightarrow> (string \<times> string list) list" where
  "tagFilterRequest vpcID tagFilter =
     (''vpc-id'', [vpcID]) # map (\<lambda>tagKey.
        let tagValues = mget0 [] tagFilter tagKey
        in if length tagValues = 0 then (''tag-key'', [tagKey]) else (''tag:'' @ tagKey, tagValues)) (keyset tagFilter)"

definition listSecurityGroupsWithTagFilter :: "'w sg_deps \<Rightarrow> TagFilter \<Rightarrow>
    ('w networkingManager, (string, SecurityGroupInfo) gomap) io" where
  "listSecurityGroupsWithTagFilter m tagFilter =
     onNetSGs (FetchSGInfosByRequest (netEC2 (sgNetDeps m)) (tagFilterRequest (sgVpcID m) tagFilter))"

fun collectSGs :: "'w sg_deps \<Rightarrow> TagFilter list \<Rightarrow> (string, SecurityGroupInfo) gomap \<Rightarrow>
    ('w networkingManager, (string, SecurityGroupInfo) gomap) io" where
  "collectSGs m [] sgInfoByID \<sigma> = (Inr sgInfoByID, \<sigma>)"
| "collectSGs m (f # fs) sgInfoByID \<sigma> =
     io_bind (listSecurityGroupsWithTagFilter m f) (\<lambda>found. collectSGs m fs (mbuild fst snd found sgInfoByID)) \<sigma>"

definition ListSecurityGroups :: "'w sg_deps \<Rightarrow> TagFilter list \<Rightarrow> ('w networkingManager, SecurityGroupInfo list) io" where
  "ListSecurityGroups m tagFilters =
     io_bind (collectSGs m tagFilters []) (\<lambda>sgInfoByID. io_ret (map snd (sgMapOrder m sgInfoByID)))"

section \<open>The manager\<close>

definition buildIPPermissionInfo :: "IPPermission \<Rightarrow> IPPermissionInfo res" where
  "buildIPPermissionInfo p =
     (let protocol = permIPProtocol p; fromPort = permFromPort p; toPort = permToPort p
      in if length (permIPRanges p) = 1
         then Inr (NewCIDRIPPermission protocol fromPort toPort (CIDRIP (hd (permIPRanges p)))
                (NewIPPermissionLabelsForRawDescription (rangeDescription (hd (permIPRanges p)))))
         else if length (permIPv6Range p) = 1
         then Inr (NewCIDRv6IPPermission protocol fromPort toPort (CIDRIPv6 (hd (permIPv6Range p)))
                (NewIPPermissionLabelsForRawDescription (range6Description (hd (permIPv6Range p)))))
         else if length (permUserIDGroupPairs p) = 1
         then Inr (NewGroupIDIPPermission protocol fromPort toPort (pairGroupID (hd (permUserIDGroupPairs p)))
                (NewIPPermissionLabelsForRawDescription (pairDescription (hd (permUserIDGroupPairs p)))))
         else if length (permPrefixLists p) = 1
         then Inr (NewPrefixListIDPermission protocol fromPort toPort (ListID (hd (permPrefixLists p)))
                (NewIPPermissionLabelsForRawDescription (listDescription (hd (permPrefixLists p)))))
         else Inl (Errorf ''invalid ipPermission'' []))"

fun buildIPPermissionInfos :: "IPPermission list \<Rightarrow> IPPermissionInfo list res" where
  "buildIPPermissionInfos [] = Inr []"
| "buildIPPermissionInfos (p # ps) =
     res_bind (buildIPPermissionInfo p) (\<lambda>i. res_bind (buildIPPermissionInfos ps) (\<lambda>is. Inr (i # is)))"

definition isSecurityGroupDependencyViolationError :: "go_error \<Rightarrow> bool" where
  "isSecurityGroupDependencyViolationError err \<longleftrightarrow> errorCode err = Some ''DependencyViolation''"

definition defaultReconcileOptions :: SecurityGroupReconcileOptions where
  "defaultReconcileOptions = \<lparr>PermissionSelector = Everything, AuthorizeOnly = False\<rparr>"

definition reconcileSGIngress :: "'w sg_deps \<Rightarrow> string \<Rightarrow> IPPermissionInfo list \<Rightarrow> ('w networkingManager, unit) io" where
  "reconcileSGIngress m sgID permissionInfos =
     onNetSGs (ReconcileIngress (netMarshal (sgNetDeps m)) (netEC2 (sgNetDeps m)) sgID permissionInfos defaultReconcileOptions)"

definition SecurityGroupManager_Create :: "'w sg_deps \<Rightarrow> SecurityGroup \<Rightarrow> ('w networkingManager, SecurityGroupStatus) io" where
  "SecurityGroupManager_Create m resSG =
     (let sgTags = ResourceTags (sgProvider m) (sgStack resSG) (sgResID resSG) (sgSpecTags (sgSpec resSG))
      in io_bind (io_lift (buildIPPermissionInfos (sgIngress (sgSpec resSG)))) (\<lambda>permissionInfos.
         io_bind (onNetCloud (CreateSecurityGroup m \<lparr>csgVpcId = sgVpcID m, csgGroupName = GroupName (sgSpec resSG),
             csgDescription = sgDescription (sgSpec resSG), csgTags = convertTagsToSDKTags sgTags\<rparr>)) (\<lambda>groupId.
         io_bind (reconcileSGIngress m (ToString groupId) permissionInfos) (\<lambda>_.
         io_ret \<lparr>GroupID = ToString groupId\<rparr>))))"

definition updateSDKSecurityGroupGroupWithTags :: "'w sg_deps \<Rightarrow> SecurityGroup \<Rightarrow> SecurityGroupInfo \<Rightarrow> ('w networkingManager, unit) io" where
  "updateSDKSecurityGroupGroupWithTags m resSG sdkSG =
     EC2_ReconcileTags m (SecurityGroupID sdkSG)
       (ResourceTags (sgProvider m) (sgStack resSG) (sgResID resSG) (sgSpecTags (sgSpec resSG)))
       [WithCurrentTags (Some (SGTags sdkSG)), WithIgnoredTagKeys (LegacyTagKeys (sgProvider m)),
        WithIgnoredTagKeys (sgExternalManagedTags m)]"

definition SecurityGroupManager_Update :: "'w sg_deps \<Rightarrow> SecurityGroup \<Rightarrow> SecurityGroupInfo \<Rightarrow>
    ('w networkingManager, SecurityGroupStatus) io" where
  "SecurityGroupManager_Update m resSG sdkSG =
     io_bind (io_lift (buildIPPermissionInfos (sgIngress (sgSpec resSG)))) (\<lambda>permissionInfos.
     io_bind (updateSDKSecurityGroupGroupWithTags m resSG sdkSG) (\<lambda>_.
     io_bind (reconcileSGIngress m (SecurityGroupID sdkSG) permissionInfos) (\<lambda>_.
     io_ret \<lparr>GroupID = SecurityGroupID sdkSG\<rparr>)))"

text \<open>
  One attempt to delete a group. The second component of the state is the \<open>sync.Once\<close>: whether the
  garbage collection has been attempted; its error is ignored.
\<close>

definition deleteAttempt :: "'w sg_deps \<Rightarrow> string \<Rightarrow> ('w networkingManager \<times> bool, unit) io" where
  "deleteAttempt m sgID = (\<lambda>(\<sigma>, done).
     case onNetCloud (DeleteSecurityGroup m sgID) \<sigma> of
       (Inr _, \<sigma>') \<Rightarrow> (Inr (), (\<sigma>', done))
     | (Inl err, \<sigma>') \<Rightarrow>
         if isSecurityGroupDependencyViolationError err \<and> \<not> done
         then (Inl err, (snd (AttemptGarbageCollection (sgNetDeps m) \<sigma>'), True))
         else (Inl err, (\<sigma>', done)))"

definition SecurityGroupManager_Delete :: "'w sg_deps \<Rightarrow> SecurityGroupInfo \<Rightarrow> ('w networkingManager, unit) io" where
  "SecurityGroupManager_Delete m sdkSG \<sigma> =
     (case RetryImmediateOnError (sgDeletionPolls m) isSecurityGroupDependencyViolationError
             (deleteAttempt m (SecurityGroupID sdkSG)) (\<sigma>, False) of
        (Inl err, (\<sigma>', _)) \<Rightarrow> (Inl (Wrapped ''failed to delete securityGroup'' err), \<sigma>')
      | (Inr _, (\<sigma>', _)) \<Rightarrow> (Inr (), \<sigma>'))"

definition securityGroupManager :: "'w sg_deps \<Rightarrow>
    (SecurityGroup, SecurityGroupInfo, SecurityGroupStatus, 'w networkingManager) resource_manager" where
  "securityGroupManager m = \<lparr>mCreate = SecurityGroupManager_Create m, mUpdate = SecurityGroupManager_Update m,
     mDelete = SecurityGroupManager_Delete m\<rparr>"

section \<open>The synthesizer\<close>

definition mapResSecurityGroupByResourceID :: "SecurityGroup list \<Rightarrow> (string, SecurityGroup) gomap" where
  "mapResSecurityGroupByResourceID resSGs = mbuild sgResID (\<lambda>resSG. resSG) resSGs []"

definition mapSDKSecurityGroupByResourceID :: "SecurityGroupInfo list \<Rightarrow> string \<Rightarrow> (string, SecurityGroupInfo list) gomap res" where
  "mapSDKSecurityGroupByResourceID sdkSGs resourceIDTagKey =
     groupByTag SGTags (\<lambda>sg. Errorf ''unexpected securityGroup with no resourceID: %v'' [SecurityGroupID sg]) resourceIDTagKey sdkSGs []"

text \<open>The keys both sides have: the first group is kept, the others are unmatched.\<close>

fun matchFirst :: "('k, 'r) gomap \<Rightarrow> ('k, 's list) gomap \<Rightarrow> 'k list \<Rightarrow> ('r \<times> 's) list \<times> 's list" where
  "matchFirst rm sm [] = ([], [])"
| "matchFirst rm sm (k # ks) =
     (let (m, us) = matchFirst rm sm ks
      in (case (mget rm k, mget0 [] sm k) of
            (Some r, s # rest) \<Rightarrow> ((r, s) # m, rest @ us)
          | _ \<Rightarrow> (m, us)))"

definition matchResAndSDKSecurityGroups :: "string \<Rightarrow> SecurityGroup list \<Rightarrow> SecurityGroupInfo list \<Rightarrow>
    ((SecurityGroup \<times> SecurityGroupInfo) list \<times> SecurityGroup list \<times> SecurityGroupInfo list) res" where
  "matchResAndSDKSecurityGroups resourceIDTagKey resSGs sdkSGs =
     res_bind (mapSDKSecurityGroupByResourceID sdkSGs resourceIDTagKey) (\<lambda>sdkSGsByID.
       let resSGsByID = mapResSecurityGroupByResourceID resSGs;
           (m, us) = matchFirst resSGsByID sdkSGsByID (keys_inter resSGsByID sdkSGsByID)
       in Inr (m, mlookups resSGsByID (keys_diff resSGsByID sdkSGsByID),
               us @ concat (mlookups sdkSGsByID (keys_diff sdkSGsByID resSGsByID))))"

definition findSDKSecurityGroups :: "'w sg_deps \<Rightarrow> StackID \<Rightarrow> ('w networkingManager, SecurityGroupInfo list) io" where
  "findSDKSecurityGroups m sid =
     ListSecurityGroups m [TagsAsTagFilter (StackTags (sgProvider m) sid), TagsAsTagFilter (StackTagsLegacy (sgProvider m) sid)]"

definition SecurityGroup_Synthesize :: "string \<Rightarrow> (SecurityGroup, SecurityGroupInfo, SecurityGroupStatus, 'w) resource_manager \<Rightarrow>
    ('w, SecurityGroupInfo list) io \<Rightarrow> SecurityGroup list \<Rightarrow> ((SecurityGroupInfo, SecurityGroupStatus, 'w) synth, unit) io" where
  "SecurityGroup_Synthesize resourceIDTagKey mgr findSGs resSGs =
     io_bind (onCloud findSGs) (\<lambda>sdkSGs.
     io_bind (io_lift (matchResAndSDKSecurityGroups resourceIDTagKey resSGs sdkSGs)) (\<lambda>(matched, unmatchedRes, unmatched).
     io_bind (\<lambda>\<sigma>. (Inr (), \<sigma>\<lparr>deferred := unmatched\<rparr>)) (\<lambda>_.
     io_bind (io_iter (createRes mgr sgResID) unmatchedRes) (\<lambda>_.
     io_iter (updateRes mgr sgResID) matched))))"

definition SecurityGroup_PostSynthesize :: "(SecurityGroup, SecurityGroupInfo, SecurityGroupStatus, 'w) resource_manager \<Rightarrow>
    ((SecurityGroupInfo, SecurityGroupStatus, 'w) synth, unit) io" where
  "SecurityGroup_PostSynthesize mgr \<sigma> = io_iter (\<lambda>sdkSG. onCloud (mDelete mgr sdkSG)) (deferred \<sigma>) \<sigma>"

section \<open>Correctness of the synthesizer\<close>

abbreviation sgKey :: "string \<Rightarrow> SecurityGroupInfo \<Rightarrow> string option" where
  "sgKey tagKey sg \<equiv> mget (SGTags sg) tagKey"

lemma matchFirst_spec:
  assumes "matchFirst rm sm ks = (m, us)" "\<forall>k \<in> set ks. mget rm k \<noteq> None \<and> mget0 [] sm k \<noteq> []"
  shows "map fst m = mlookups rm ks \<and> mset (map snd m) + mset us = mset (concat (map (mget0 [] sm) ks))
    \<and> (\<forall>(r, s) \<in> set m. \<exists>k \<in> set ks. mget rm k = Some r \<and> s \<in> set (mget0 [] sm k))"
  using assms
proof (induction ks arbitrary: m us)
  case (Cons k ks)
  obtain m0 us0 where rec: "matchFirst rm sm ks = (m0, us0)" by force
  obtain r s rest where k: "mget rm k = Some r" "mget0 [] sm k = s # rest"
    using Cons.prems(2) by (metis list.exhaust list.set_intros(1) not_None_eq)
  then have eq: "m = (r, s) # m0" "us = rest @ us0" using Cons.prems(1) rec by simp_all
  have P: "\<forall>k \<in> set ks. mget rm k \<noteq> None \<and> mget0 [] sm k \<noteq> []" using Cons.prems(2) by simp
  note IH = Cons.IH [OF rec P]
  have "\<forall>(r, s) \<in> set m. \<exists>k' \<in> set (k # ks). mget rm k' = Some r \<and> s \<in> set (mget0 [] sm k')"
    using IH k eq by fastforce
  moreover have "map fst m = mlookups rm (k # ks)" using IH k eq by simp
  moreover have "mset (map snd m) + mset us = mset (concat (map (mget0 [] sm) (k # ks)))"
    using IH k eq by (simp add: ac_simps)
  ultimately show ?case by blast
qed simp

lemmas matchFirst_parts = matchFirst_spec [THEN conjunct1] matchFirst_spec [THEN conjunct2, THEN conjunct1]
  matchFirst_spec [THEN conjunct2, THEN conjunct2]

lemma matchFirst_matching:
  fixes rid :: "'r \<Rightarrow> string" and sid :: "'s \<Rightarrow> string"
  assumes "distinct (map rid rs)"
    and "matchFirst (mbuild rid (\<lambda>r. r) rs []) (mgroup sid ss [])
           (keys_inter (mbuild rid (\<lambda>r. r) rs []) (mgroup sid ss [])) = (m, us)"
  shows "matching rid (\<lambda>s. Some (sid s)) (\<lambda>s r. True) rs ss
     (m, mlookups (mbuild rid (\<lambda>r. r) rs []) (keys_diff (mbuild rid (\<lambda>r. r) rs []) (mgroup sid ss [])),
      us @ concat (mlookups (mgroup sid ss []) (keys_diff (mgroup sid ss []) (mbuild rid (\<lambda>r. r) rs []))))"
proof -
  define rm where "rm = mbuild rid (\<lambda>r. r) rs []"
  define sm where "sm = mgroup sid ss []"
  have rm: "mget rm k = Some r \<longleftrightarrow> r \<in> set rs \<and> rid r = k" for k r
    unfolding rm_def by (rule mget_mbuild_iff [OF assms(1)])
  have keys: "fst ` set rm = rid ` set rs" "fst ` set sm = sid ` set ss" by (simp_all add: rm_def sm_def)
  have sm: "mget0 [] sm k = filter (\<lambda>s. sid s = k) ss" for k by (simp add: sm_def mget0_mgroup)
  have smf: "mget0 [] sm = (\<lambda>k. filter (\<lambda>s. sid s = k) ss)" by (rule ext) (rule sm)
  have both: "\<forall>k \<in> set (keys_inter rm sm). mget rm k \<noteq> None \<and> mget0 [] sm k \<noteq> []"
    using rm by (auto simp: keys sm filter_empty_conv)
  note F = matchFirst_parts [OF assms(2) [folded rm_def sm_def] both]
  have fstm: "fst ` set m = {r \<in> set rs. rid r \<in> sid ` set ss}"
  proof -
    have "fst ` set m = set (mlookups rm (keys_inter rm sm))" using F(1) by (metis list.set_map)
    then show ?thesis by (auto simp: set_mlookups rm keys)
  qed
  have us2: "mlookups sm ks = map (\<lambda>k. filter (\<lambda>s. sid s = k) ss) ks" if "set ks \<subseteq> sid ` set ss" for ks
    using that by (induction ks) (auto simp: sm_def mget_mgroup)
  have "mset (concat (map (\<lambda>k. filter (\<lambda>s. sid s = k) ss) (keys_inter rm sm @ keys_diff sm rm))) = mset ss"
    by (rule mset_concat_groups) (auto simp: keys)
  moreover have "concat (mlookups sm (keys_diff sm rm)) = concat (map (\<lambda>k. filter (\<lambda>s. sid s = k) ss) (keys_diff sm rm))"
    using us2 [of "keys_diff sm rm"] keys by auto
  ultimately have M: "mset (map snd m) + mset (us @ concat (mlookups sm (keys_diff sm rm))) = mset ss"
    using F(2) by (simp add: smf flip: add.assoc)
  have ur: "set (mlookups rm (keys_diff rm sm)) = set rs - fst ` set m"
    unfolding fstm by (auto simp: set_mlookups rm keys)
  have d: "distinct (mlookups rm (keys_diff rm sm))" by (rule mlookups_distinct) (simp_all add: rm)
  have "matching rid (\<lambda>s. Some (sid s)) (\<lambda>s r. True) rs ss
      (m, mlookups rm (keys_diff rm sm), us @ concat (mlookups sm (keys_diff sm rm)))"
  proof (rule matchingI [OF _ M d ur])
    fix r s assume "(r, s) \<in> set m"
    then show "r \<in> set rs \<and> Some (sid s) = Some (rid r) \<and> True" using F(3) by (fastforce simp: rm sm)
  next
    fix r s assume "r \<in> set (mlookups rm (keys_diff rm sm))" "s \<in> set ss" "Some (sid s) = Some (rid r)"
    then show "\<not> True" unfolding ur fstm by (auto simp: image_iff)
  next
    fix r s assume "s \<in> set (us @ concat (mlookups sm (keys_diff sm rm)))" "r \<in> set rs" "Some (sid s) = Some (rid r)"
    moreover have "s \<in> set ss" using calculation(1) M by (metis mset_append set_mset_mset union_iff)
    ultimately show "\<not> True \<or> r \<in> fst ` set m" unfolding fstm by (simp add: rev_image_eqI)
  qed
  then show ?thesis unfolding rm_def sm_def .
qed

interpretation sg: matcher sgResID "sgKey tagKey" "\<lambda>s r. True" "\<lambda>ss. \<forall>s \<in> set ss. sgKey tagKey s \<noteq> None"
    "matchResAndSDKSecurityGroups tagKey"
  for tagKey
proof
  fix rs :: "SecurityGroup list" and ss :: "SecurityGroupInfo list"
  assume d: "distinct (map sgResID rs)" and t: "\<forall>s \<in> set ss. sgKey tagKey s \<noteq> None"
  let ?sid = "\<lambda>s. the (sgKey tagKey s)" and ?rm = "mapResSecurityGroupByResourceID rs"
  have g: "mapSDKSecurityGroupByResourceID ss tagKey = Inr (mgroup ?sid ss [])"
    unfolding mapSDKSecurityGroupByResourceID_def by (rule groupByTag_ok [OF t])
  obtain m us where f: "matchFirst ?rm (mgroup ?sid ss []) (keys_inter ?rm (mgroup ?sid ss [])) = (m, us)" by force
  let ?p = "(m, mlookups ?rm (keys_diff ?rm (mgroup ?sid ss [])), us @ concat (mlookups (mgroup ?sid ss []) (keys_diff (mgroup ?sid ss []) ?rm)))"
  have "matchResAndSDKSecurityGroups tagKey rs ss = Inr ?p" using g f by (simp add: matchResAndSDKSecurityGroups_def Let_def)
  moreover have "matching sgResID (sgKey tagKey) (\<lambda>s r. True) rs ss ?p"
    unfolding mapResSecurityGroupByResourceID_def
  proof (rule matching_key)
    show "matching sgResID (\<lambda>s. Some (?sid s)) (\<lambda>s r. True) rs ss (m, mlookups (mbuild sgResID (\<lambda>r. r) rs [])
        (keys_diff (mbuild sgResID (\<lambda>r. r) rs []) (mgroup ?sid ss [])), us @ concat (mlookups (mgroup ?sid ss [])
        (keys_diff (mgroup ?sid ss []) (mbuild sgResID (\<lambda>r. r) rs []))))"
      by (rule matchFirst_matching [OF d f [unfolded mapResSecurityGroupByResourceID_def]])
    show "Some (?sid s) = sgKey tagKey s" if "s \<in> set ss" for s using t that by auto
  qed
  ultimately show "\<exists>p. matchResAndSDKSecurityGroups tagKey rs ss = Inr p \<and> matching sgResID (sgKey tagKey) (\<lambda>s r. True) rs ss p" by blast
qed

text \<open>
  C37. One run of the security group synthesizer: it keeps one security group of the stack per
  resource, creates groups for exactly the resources without one and updates the kept ones, in this
  order and stopping at the first error, and defers the deletion of exactly the surplus groups to the
  post-synthesis phase, when no load balancer uses them any more. After a successful run there is one
  group for every resource ID of the stack.
\<close>

theorem SecurityGroup_synthesis:
  assumes "distinct (map sgResID rs)" "findSGs (cloud \<sigma>) = (Inr ss, w)" "\<forall>s \<in> set ss. sgKey tagKey s \<noteq> None"
  shows "\<exists>m ur us.
     matching sgResID (sgKey tagKey) (\<lambda>s r. True) rs ss (m, ur, us)
   \<and> distinct (map fst m)
   \<and> SecurityGroup_Synthesize tagKey mgr findSGs rs \<sigma> =
       runPlan mgr sgResID (map CallCreate ur @ map (\<lambda>(r, s). CallUpdate r s) m) (\<sigma>\<lparr>cloud := w, deferred := us\<rparr>)
   \<and> SecurityGroup_PostSynthesize mgr (snd (SecurityGroup_Synthesize tagKey mgr findSGs rs \<sigma>)) =
       runPlan mgr sgResID (map CallDelete us) (snd (SecurityGroup_Synthesize tagKey mgr findSGs rs \<sigma>))
   \<and> sgKey tagKey ` snd ` set m \<union> (Some \<circ> sgResID) ` set ur = (Some \<circ> sgResID) ` set rs"
proof -
  obtain m ur us where p: "matchResAndSDKSecurityGroups tagKey rs ss = Inr (m, ur, us)"
    "matching sgResID (sgKey tagKey) (\<lambda>s r. True) rs ss (m, ur, us)"
    using sg.match_ok [OF assms(1,3)] by (metis prod_cases3)
  let ?plan = "map CallCreate ur @ map (\<lambda>(r, s). CallUpdate r s) m"
  have run: "SecurityGroup_Synthesize tagKey mgr findSGs rs \<sigma> = runPlan mgr sgResID ?plan (\<sigma>\<lparr>cloud := w, deferred := us\<rparr>)"
    using assms(2) p(1) by (simp add: SecurityGroup_Synthesize_def io_bind_def [of "onCloud findSGs"] onCloud_def
        io_bind_def [of "io_lift _"] io_bind_def [of "\<lambda>\<sigma>. (Inr (), \<sigma>\<lparr>deferred := _\<rparr>)"] runPlan_create_update)
  have "deferred (snd (runPlan mgr sgResID ?plan (\<sigma>\<lparr>cloud := w, deferred := us\<rparr>))) = us"
    using runPlan_deferred [of mgr sgResID ?plan "\<sigma>\<lparr>cloud := w, deferred := us\<rparr>"] by (metis prod.collapse
        synth.select_convs(1) synth.surjective synth.update_convs(1))
  then have post: "SecurityGroup_PostSynthesize mgr (snd (SecurityGroup_Synthesize tagKey mgr findSGs rs \<sigma>)) =
      runPlan mgr sgResID (map CallDelete us) (snd (SecurityGroup_Synthesize tagKey mgr findSGs rs \<sigma>))"
    by (simp add: SecurityGroup_PostSynthesize_def run runPlan_deletes)
  have "distinct (map fst m)"
  proof -
    let ?sm = "mgroup (\<lambda>s. the (sgKey tagKey s)) ss []" and ?rm = "mapResSecurityGroupByResourceID rs"
    have g: "mapSDKSecurityGroupByResourceID ss tagKey = Inr ?sm"
      unfolding mapSDKSecurityGroupByResourceID_def by (rule groupByTag_ok [OF assms(3)])
    obtain us0 where f: "matchFirst ?rm ?sm (keys_inter ?rm ?sm) = (m, us0)"
      using p(1) g by (auto simp: matchResAndSDKSecurityGroups_def Let_def split: prod.splits)
    have rm: "mget ?rm k = Some r \<longleftrightarrow> r \<in> set rs \<and> sgResID r = k" for k r
      unfolding mapResSecurityGroupByResourceID_def by (rule mget_mbuild_iff [OF assms(1)])
    have keys: "fst ` set ?rm = sgResID ` set rs" by (simp add: mapResSecurityGroupByResourceID_def)
    have "\<forall>k \<in> set (keys_inter ?rm ?sm). mget ?rm k \<noteq> None \<and> mget0 [] ?sm k \<noteq> []"
      using rm by (auto simp: keys mget0_mgroup filter_empty_conv)
    from matchFirst_parts(1) [OF f this] have "map fst m = mlookups ?rm (keys_inter ?rm ?sm)" .
    moreover have "distinct (mlookups ?rm (keys_inter ?rm ?sm))" by (rule mlookups_distinct) (simp_all add: rm)
    ultimately show ?thesis by simp
  qed
  then show ?thesis using p(2) run post sg.match_converges [OF assms(1,3) p(1)] by blast
qed

definition exSG :: "string \<Rightarrow> SecurityGroup" where
  "exSG i = \<lparr>sgStack = \<lparr>Namespace = ''ns'', Name = ''svc''\<rparr>, sgResID = i,
     sgSpec = \<lparr>GroupName = ''g'', sgDescription = ''d'', sgSpecTags = [], sgIngress =
       [\<lparr>permIPProtocol = ''tcp'', permFromPort = Some 3, permToPort = Some 3, permIPRanges = [\<lparr>CIDRIP = ''10.0.0.0/8'', rangeDescription = ''x''\<rparr>],
         permIPv6Range = [], permUserIDGroupPairs = [], permPrefixLists = []\<rparr>]\<rparr>\<rparr>"

definition exSGInfo :: "string \<Rightarrow> string \<Rightarrow> SecurityGroupInfo" where
  "exSGInfo i sid = \<lparr>SecurityGroupID = sid, Ingress = [], SGTags = [(''k'', i)]\<rparr>"

abbreviation sgLog :: "(SecurityGroup, SecurityGroupInfo, SecurityGroupStatus, (SecurityGroup, SecurityGroupInfo) call list) resource_manager" where
  "sgLog \<equiv> logManager (\<lambda>r. \<lparr>GroupID = sgResID r\<rparr>)"

theorem SecurityGroup_synthesis_witness:
  "\<exists>m ur us. matching sgResID (sgKey ''k'') (\<lambda>s r. True) [exSG ''a'', exSG ''b''] [exSGInfo ''a'' ''sg-1'', exSGInfo ''a'' ''sg-2''] (m, ur, us)
   \<and> SecurityGroup_Synthesize ''k'' sgLog (\<lambda>w. (Inr [exSGInfo ''a'' ''sg-1'', exSGInfo ''a'' ''sg-2''], w)) [exSG ''a'', exSG ''b'']
       \<lparr>deferred = [], statuses = [], cloud = []\<rparr> =
       runPlan sgLog sgResID (map CallCreate ur @ map (\<lambda>(r, s). CallUpdate r s) m) \<lparr>deferred = us, statuses = [], cloud = []\<rparr>"
  using SecurityGroup_synthesis [of "[exSG ''a'', exSG ''b'']" "\<lambda>w. (Inr [exSGInfo ''a'' ''sg-1'', exSGInfo ''a'' ''sg-2''], w)"
      "\<lparr>deferred = [], statuses = [], cloud = []\<rparr>" "[exSGInfo ''a'' ''sg-1'', exSGInfo ''a'' ''sg-2'']" "[]" "''k''" sgLog]
  by (fastforce simp: exSG_def exSGInfo_def)

section \<open>Correctness of the manager\<close>

lemma RetryImmediateOnError_inv:
  assumes step: "\<And>w e w'. I w \<Longrightarrow> fn w = (Inl e, w') \<Longrightarrow> I w'" and last: "\<And>w w'. I w \<Longrightarrow> fn w = (Inr (), w') \<Longrightarrow> Q w'"
    and "I w" "RetryImmediateOnError polls retryable fn w = (r, w')"
  shows "if isl r then I w' else Q w'"
  using assms(3,4)
proof (induction polls arbitrary: w)
  case 0
  obtain r1 w1 where f: "fn w = (r1, w1)" by force
  show ?case
  proof (cases r1)
    case (Inl e)
    then show ?thesis using 0(2) f step [OF 0(1)] by (auto simp: RetryImmediateOnError.simps [of 0] split: if_splits)
  next
    case (Inr x)
    then show ?thesis using 0(2) f last [OF 0(1)] by (auto simp: RetryImmediateOnError.simps [of 0])
  qed
next
  case (Suc n)
  obtain r1 w1 where f: "fn w = (r1, w1)" by force
  show ?case
  proof (cases r1)
    case (Inl e)
    then have "I w1" using step [OF Suc.prems(1)] f by simp
    then show ?thesis using Suc.prems(2) f Inl Suc.IH [of w1]
      by (cases "retryable e") (auto simp: RetryImmediateOnError.simps [of "Suc n"])
  next
    case (Inr x)
    then show ?thesis using Suc.prems f last [OF Suc.prems(1)] by (auto simp: RetryImmediateOnError.simps [of "Suc n"])
  qed
qed

text \<open>
  What is relied on besides the laws of the networking manager: tags are no rules, and deleting a
  group changes no other group.
\<close>

definition sg_deps_ok :: "'w sg_deps \<Rightarrow> 'w sg_rules \<Rightarrow> bool" where
  "sg_deps_ok m rules \<longleftrightarrow> networking_ok (sgNetDeps m) rules
     \<and> (\<forall>ids ts w r w'. CreateTags m ids ts w = (r, w') \<longrightarrow> rules w' = rules w)
     \<and> (\<forall>ids ts w r w'. DeleteTags m ids ts w = (r, w') \<longrightarrow> rules w' = rules w)
     \<and> (\<forall>i w r w'. DeleteSecurityGroup m i w = (r, w') \<longrightarrow> rules w' = (if isl r then rules w else (rules w)(i := {})))
     \<and> (\<forall>req w r w'. CreateSecurityGroup m req w = (r, w') \<longrightarrow> rules w' = (case r of Inr (Some i) \<Rightarrow> (rules w)(i := {}) | _ \<Rightarrow> rules w))"

lemma onNetCloud_run:
  assumes "onNetCloud f \<sigma> = (r, \<sigma>')"
  shows "\<exists>w. f (sgCloud (netSGs \<sigma>)) = (r, w) \<and> \<sigma>' = \<sigma>\<lparr>netSGs := (netSGs \<sigma>)\<lparr>sgCloud := w\<rparr>\<rparr>"
  using assms by (auto simp: onNetCloud_def onNetSGs_def onSGCloud_def split: prod.splits)

lemma netInv_same_rules:
  assumes "netInv m rules \<sigma>" "rules w = netRules rules \<sigma>"
  shows "netInv m rules (\<sigma>\<lparr>netSGs := (netSGs \<sigma>)\<lparr>sgCloud := w\<rparr>\<rparr>)"
  using assms by (simp add: netInv_def sgCoherent_def)

lemma EC2_ReconcileTags_rules:
  assumes ok: "sg_deps_ok m rules" and inv: "netInv (sgNetDeps m) rules \<sigma>" and run: "EC2_ReconcileTags m i tags opts \<sigma> = (r, \<sigma>')"
  shows "netInv (sgNetDeps m) rules \<sigma>' \<and> netRules rules \<sigma>' = netRules rules \<sigma>"
proof -
  let ?P = "\<lambda>\<sigma>'. netInv (sgNetDeps m) rules \<sigma>' \<and> netRules rules \<sigma>' = netRules rules \<sigma>"
  have step: "?P \<sigma>2" if p: "?P \<sigma>1" and run1: "onNetCloud f \<sigma>1 = (r1, \<sigma>2)" and f: "f = CreateTags m ids ts \<or> f = DeleteTags m ids ts" for \<sigma>1 \<sigma>2 f r1 ids ts
  proof -
    obtain w where w: "f (sgCloud (netSGs \<sigma>1)) = (r1, w)" "\<sigma>2 = \<sigma>1\<lparr>netSGs := (netSGs \<sigma>1)\<lparr>sgCloud := w\<rparr>\<rparr>"
      using onNetCloud_run [OF run1] by blast
    have "rules w = netRules rules \<sigma>1" using ok f w(1) unfolding sg_deps_ok_def by blast
    then show ?thesis using p netInv_same_rules [of _ rules \<sigma>1 w] w(2) by simp
  qed
  show ?thesis
  proof (cases "CurrentTags (ApplyOptions opts \<lparr>CurrentTags = None, IgnoredTagKeys = []\<rparr>)")
    case None
    then show ?thesis using run inv by (simp add: EC2_ReconcileTags_def Let_def)
  next
    case (Some cur)
    obtain md rmv where d: "DiffStringMapIgnoreAWSTags tags cur = (md, rmv)" by force
    define up where "up = deleteKeys (IgnoredTagKeys (ApplyOptions opts \<lparr>CurrentTags = None, IgnoredTagKeys = []\<rparr>)) md"
    define dn where "dn = deleteKeys (IgnoredTagKeys (ApplyOptions opts \<lparr>CurrentTags = None, IgnoredTagKeys = []\<rparr>)) rmv"
    define A where "A = (if length up > 0 then onNetCloud (CreateTags m [i] (convertTagsToSDKTags up)) else io_ret ())"
    define B where "B = (if length dn > 0 then onNetCloud (DeleteTags m [i] (convertTagsToSDKTags dn)) else io_ret ())"
    have run': "io_bind A (\<lambda>_. B) \<sigma> = (r, \<sigma>')"
      using run Some d unfolding EC2_ReconcileTags_def A_def B_def up_def dn_def by (simp only: Let_def option.case prod.case)
    obtain r1 \<sigma>1 where 1: "A \<sigma> = (r1, \<sigma>1)" by force
    have P1: "?P \<sigma>1"
      using 1 inv step [of \<sigma> "CreateTags m [i] (convertTagsToSDKTags up)" r1 \<sigma>1 "[i]" "convertTagsToSDKTags up"]
      by (cases "length up > 0") (simp_all add: A_def)
    have P2: "?P \<sigma>2" if "B \<sigma>1 = (r2, \<sigma>2)" for r2 \<sigma>2
      using that P1 step [of \<sigma>1 "DeleteTags m [i] (convertTagsToSDKTags dn)" r2 \<sigma>2 "[i]" "convertTagsToSDKTags dn"]
      by (cases "length dn > 0") (simp_all add: B_def)
    show ?thesis using run' 1 P1 P2 by (cases r1) simp_all
  qed
qed

text \<open>
  Updating a security group: after a successful update the group has exactly the ingress rules of
  its specification, compared by hash codes, whatever was there before (also rules added by hand), and
  its status names the group; no rule of another group changes, also if a call fails.
\<close>

theorem SecurityGroup_update_exact:
  assumes ok: "sg_deps_ok m rules" and inv: "netInv (sgNetDeps m) rules \<sigma>"
    and run: "SecurityGroupManager_Update m resSG sdkSG \<sigma> = (r, \<sigma>')"
  shows "netInv (sgNetDeps m) rules \<sigma>'
    \<and> (\<forall>i. i \<noteq> SecurityGroupID sdkSG \<longrightarrow> netRules rules \<sigma>' i = netRules rules \<sigma> i)
    \<and> (\<forall>st. r = Inr st \<longrightarrow> GroupID st = SecurityGroupID sdkSG
         \<and> (\<exists>infos. buildIPPermissionInfos (sgIngress (sgSpec resSG)) = Inr infos
              \<and> hashPerm (netMarshal (sgNetDeps m)) ` netRules rules \<sigma>' (SecurityGroupID sdkSG) = HashCode (netMarshal (sgNetDeps m)) ` set infos))"
proof (cases "buildIPPermissionInfos (sgIngress (sgSpec resSG))")
  case (Inl e)
  then have "r = Inl e" "\<sigma>' = \<sigma>" using run by (simp_all add: SecurityGroupManager_Update_def io_bind_def)
  then show ?thesis using inv by simp
next
  case (Inr infos)
  obtain r1 \<sigma>1 where 1: "updateSDKSecurityGroupGroupWithTags m resSG sdkSG \<sigma> = (r1, \<sigma>1)" by force
  note T = EC2_ReconcileTags_rules [OF ok inv 1 [unfolded updateSDKSecurityGroupGroupWithTags_def]]
  show ?thesis
  proof (cases r1)
    case Inl1: (Inl e)
    then show ?thesis using run Inr 1 T by (auto simp: SecurityGroupManager_Update_def io_bind_def)
  next
    case Inr1: (Inr x)
    obtain r2 \<sigma>2 where 2: "reconcileSGIngress m (SecurityGroupID sdkSG) infos \<sigma>1 = (r2, \<sigma>2)" by force
    have ok': "networking_ok (sgNetDeps m) rules" using ok by (simp add: sg_deps_ok_def)
    note R = netReconcile_spec [OF ok' conjunct1 [OF T] 2 [unfolded reconcileSGIngress_def]]
    have goal: "ingressGoal (netMarshal (sgNetDeps m)) defaultReconcileOptions infos S = HashCode (netMarshal (sgNetDeps m)) ` set infos" for S
      by (simp add: ingressGoal_def keptRules_def defaultReconcileOptions_def Everything_def)
    have "\<sigma>' = \<sigma>2" "r = (case r2 of Inl e \<Rightarrow> Inl e | Inr _ \<Rightarrow> Inr \<lparr>GroupID = SecurityGroupID sdkSG\<rparr>)"
      using run Inr 1 Inr1 2 by (auto simp: SecurityGroupManager_Update_def io_bind_def split: sum.splits)
    then show ?thesis using R T Inr unfolding goal by (cases r2) auto
  qed
qed

lemma AttemptGC_keeps:
  assumes ok: "networking_ok m rules" and inv: "netInv m rules \<sigma>" and run: "AttemptGarbageCollection m \<sigma> = (r, \<sigma>')"
  shows "netInv m rules \<sigma>' \<and> (\<forall>i. keptRules (tgbOptions False) (netRules rules \<sigma> i) \<subseteq> netRules rules \<sigma>' i)"
proof -
  obtain r1 \<sigma>1 where l: "onNetCloud (listTGBs m) \<sigma> = (r1, \<sigma>1)" by force
  obtain w where w: "listTGBs m (sgCloud (netSGs \<sigma>)) = (r1, w)" "\<sigma>1 = \<sigma>\<lparr>netSGs := (netSGs \<sigma>)\<lparr>sgCloud := w\<rparr>\<rparr>"
    using onNetCloud_run [OF l] by blast
  have "rules w = netRules rules \<sigma>" using ok w(1) unfolding networking_ok_def by blast
  then have inv1: "netInv m rules \<sigma>1" and R1: "netRules rules \<sigma>1 = netRules rules \<sigma>" using netInv_same_rules [OF inv] w(2) by simp_all
  have K: "keptRules (tgbOptions False) R \<subseteq> R" for R by (auto simp: keptRules_def)
  show ?thesis
  proof (cases r1)
    case (Inl e)
    then have "\<sigma>' = \<sigma>1" using run l by (simp add: AttemptGarbageCollection_def fetchTGBsWithNetworking_def io_bind_def)
    then show ?thesis using inv1 R1 K by simp
  next
    case (Inr tgbs)
    let ?tgbs = "mbuild netTGBKey (\<lambda>t. t) (filter (\<lambda>t. netTGBNetworking t \<noteq> None) tgbs) []"
    obtain b \<sigma>2 where c: "consolidateIngressPermissionsPerSGByTGB ?tgbs \<sigma>1 = (b, \<sigma>2)" by force
    have s2: "\<sigma>2 = \<sigma>1\<lparr>ingressPermissionsPerSGByTGB := filter (\<lambda>(k, v). mhas ?tgbs k) (ingressPermissionsPerSGByTGB \<sigma>1)\<rparr>"
      using c by (simp add: consolidateIngressPermissionsPerSGByTGB_def Let_def)
    have "wf_map (ingressPermissionsPerSGByTGB \<sigma>1)" using inv1 by (simp add: netInv_def)
    then have inv2: "netInv m rules \<sigma>2" and R2: "netRules rules \<sigma>2 = netRules rules \<sigma>"
      using inv1 R1 distinct_map_filter unfolding s2 by (simp_all add: netInv_def)
    have run': "(if \<not> b then (Inr (), \<sigma>2) else gcIngressPermissionsFromUnusedEndpointSGs m (computeAggregatedIngressPermissionsPerSG m \<sigma>2) \<sigma>2) = (r, \<sigma>')"
      using run l Inr c by (simp add: AttemptGarbageCollection_def fetchTGBsWithNetworking_def io_bind_def)
    show ?thesis
    proof (cases b)
      case False
      then show ?thesis using run' inv2 R2 K by simp
    next
      case True
      then have "gcIngressPermissionsFromUnusedEndpointSGs m (computeAggregatedIngressPermissionsPerSG m \<sigma>2) \<sigma>2 = (r, \<sigma>')" using run' by simp
      from gcIngress_spec [OF ok inv2 this] show ?thesis using R2 by simp
    qed
  qed
qed

text \<open>
  C38. Deleting a security group, with retries and the garbage collection of endpoint rules that a
  dependency violation triggers, removes no rule that the controller does not own from any other
  group, however many attempts are made and whatever fails.
\<close>

theorem SecurityGroup_delete_safe:
  assumes ok: "sg_deps_ok m rules" and inv: "netInv (sgNetDeps m) rules \<sigma>"
    and run: "SecurityGroupManager_Delete m sdkSG \<sigma> = (r, \<sigma>')"
  shows "\<forall>i. i \<noteq> SecurityGroupID sdkSG \<longrightarrow>
      {p \<in> netRules rules \<sigma> i. \<not> tgbSelector (Labels (NewRawIPPermission p))} \<subseteq> netRules rules \<sigma>' i"
proof -
  let ?id = "SecurityGroupID sdkSG" and ?net = "sgNetDeps m" and ?kept = "keptRules (tgbOptions False)"
  have net: "networking_ok ?net rules" using ok by (simp add: sg_deps_ok_def)
  have kept: "?kept R \<subseteq> R'" if "?kept R \<subseteq> S" "?kept S \<subseteq> R'" for R S R'
    using that by (auto simp: keptRules_def)
  define I where "I = (\<lambda>(\<tau>, b :: bool). netInv ?net rules \<tau> \<and> (\<forall>i. ?kept (netRules rules \<sigma> i) \<subseteq> netRules rules \<tau> i))"
  define Q where "Q = (\<lambda>(\<tau>, b :: bool). \<forall>i. i \<noteq> ?id \<longrightarrow> ?kept (netRules rules \<sigma> i) \<subseteq> netRules rules \<tau> i)"
  have del: "rules w = (if isl r1 then netRules rules \<tau> else (netRules rules \<tau>)(?id := {}))"
    if "DeleteSecurityGroup m ?id (sgCloud (netSGs \<tau>)) = (r1, w)" for \<tau> r1 w
    using ok that unfolding sg_deps_ok_def by blast
  have "if isl r1 then I w1 else Q w1"
    if a: "RetryImmediateOnError (sgDeletionPolls m) isSecurityGroupDependencyViolationError (deleteAttempt m ?id) (\<sigma>, False) = (r1, w1)" for r1 w1
  proof (rule RetryImmediateOnError_inv [OF _ _ _ a])
    show "I (\<sigma>, False)" using inv by (auto simp: I_def keptRules_def)
  next
    fix p e p' assume I: "I p" and run1: "deleteAttempt m ?id p = (Inl e, p')"
    obtain \<tau> b where p: "p = (\<tau>, b)" by force
    obtain r1 \<tau>1 where d: "onNetCloud (DeleteSecurityGroup m ?id) \<tau> = (r1, \<tau>1)" by force
    then obtain w where w: "DeleteSecurityGroup m ?id (sgCloud (netSGs \<tau>)) = (r1, w)" "\<tau>1 = \<tau>\<lparr>netSGs := (netSGs \<tau>)\<lparr>sgCloud := w\<rparr>\<rparr>"
      using onNetCloud_run by blast
    have r1: "r1 = Inl e" using run1 p d by (auto simp: deleteAttempt_def split: sum.splits if_splits)
    have same: "rules w = netRules rules \<tau>" using del [OF w(1)] r1 by simp
    have i1: "netInv ?net rules \<tau>1" "\<And>i. ?kept (netRules rules \<sigma> i) \<subseteq> netRules rules \<tau>1 i"
      using I netInv_same_rules [OF _ same] same w(2) by (simp_all add: I_def p)
    obtain r2 \<tau>2 where gc: "AttemptGarbageCollection ?net \<tau>1 = (r2, \<tau>2)" by force
    note G = AttemptGC_keeps [OF net i1(1) gc]
    have "p' = (\<tau>2, True) \<or> p' = (\<tau>1, b)" using run1 p d r1 gc by (auto simp: deleteAttempt_def split: if_splits)
    moreover have "?kept (netRules rules \<sigma> i) \<subseteq> netRules rules \<tau>2 i" for i
      using kept [OF i1(2), of i "netRules rules \<tau>2 i"] G by blast
    ultimately show "I p'" using G i1 by (auto simp: I_def)
  next
    fix p p' assume I: "I p" and run1: "deleteAttempt m ?id p = (Inr (), p')"
    obtain \<tau> b where p: "p = (\<tau>, b)" by force
    obtain r1 \<tau>1 where d: "onNetCloud (DeleteSecurityGroup m ?id) \<tau> = (r1, \<tau>1)" by force
    then obtain w where w: "DeleteSecurityGroup m ?id (sgCloud (netSGs \<tau>)) = (r1, w)" "\<tau>1 = \<tau>\<lparr>netSGs := (netSGs \<tau>)\<lparr>sgCloud := w\<rparr>\<rparr>"
      using onNetCloud_run by blast
    have "r1 = Inr ()" "p' = (\<tau>1, b)" using run1 p d by (auto simp: deleteAttempt_def split: sum.splits if_splits)
    then show "Q p'" using I del [OF w(1)] w(2) by (simp add: I_def Q_def p)
  qed
  then have "Q (\<sigma>', b)" for b using run
    by (auto simp: SecurityGroupManager_Delete_def I_def Q_def split: prod.splits sum.splits)
  then show ?thesis by (auto simp: Q_def keptRules_def tgbOptions_def)
qed

text \<open>EC2 in memory with the group calls; deleting a group that is in use fails.\<close>

definition exSGDeps :: "(string, IpPermission list) gomap sg_deps" where
  "exSGDeps = \<lparr>sgNetDeps = exNetDeps [exTGB ''a''], CreateSecurityGroup = (\<lambda>req w. (Inr (Some (csgGroupName req)), mput (csgGroupName req) [] w)),
     DeleteSecurityGroup = (\<lambda>i w. if i = ''used'' then (Inl (APIError ''DependencyViolation'' ''in use''), w) else (Inr (), mput i [] w)),
     CreateTags = (\<lambda>ids ts w. (Inr (), w)), DeleteTags = (\<lambda>ids ts w. (Inr (), w)), sgProvider = NewDefaultProvider ''p'' ''c'' [],
     sgVpcID = ''vpc'', sgExternalManagedTags = [], sgDeletionPolls = 1, sgMapOrder = (\<lambda>xs. xs)\<rparr>"

lemma memRules_put: "memRules (mput i [] w) = (memRules w)(i := {})"
  by (auto simp: memRules_def fun_eq_iff)

lemma exSGDeps_ok: "sg_deps_ok exSGDeps memRules"
  using exNetDeps_ok [of "[exTGB ''a'']"] unfolding sg_deps_ok_def exSGDeps_def
  by (auto simp: memRules_put split: if_splits)

lemma exSGDeps_inv: "netInv (sgNetDeps exSGDeps) memRules exNet"
  using exNet_inv by (simp add: exSGDeps_def)

lemma exSGDeps_run: "fst (SecurityGroupManager_Update exSGDeps (exSG ''a'') (exSGInfo ''a'' ''sg'') exNet) = Inr \<lparr>GroupID = ''sg''\<rparr>"
  by code_simp

theorem SecurityGroup_update_exact_witness:
  "\<exists>st \<sigma>'. SecurityGroupManager_Update exSGDeps (exSG ''a'') (exSGInfo ''a'' ''sg'') exNet = (Inr st, \<sigma>') \<and> GroupID st = ''sg''
     \<and> (\<exists>infos. buildIPPermissionInfos (sgIngress (sgSpec (exSG ''a''))) = Inr infos
              \<and> hashPerm (netMarshal (sgNetDeps exSGDeps)) ` netRules memRules \<sigma>' ''sg'' = HashCode (netMarshal (sgNetDeps exSGDeps)) ` set infos)"
proof -
  obtain st \<sigma>' where run: "SecurityGroupManager_Update exSGDeps (exSG ''a'') (exSGInfo ''a'' ''sg'') exNet = (Inr st, \<sigma>')"
    using exSGDeps_run by (metis prod.collapse)
  have "SecurityGroupID (exSGInfo ''a'' ''sg'') = ''sg''" by (simp add: exSGInfo_def)
  with SecurityGroup_update_exact [OF exSGDeps_ok exSGDeps_inv run] run show ?thesis by auto
qed

theorem SecurityGroup_delete_safe_witness:
  "\<exists>r \<sigma>'. SecurityGroupManager_Delete exSGDeps (exSGInfo ''a'' ''used'') exNet = (r, \<sigma>')
     \<and> {p \<in> netRules memRules exNet ''sg''. \<not> tgbSelector (Labels (NewRawIPPermission p))} \<subseteq> netRules memRules \<sigma>' ''sg''"
proof -
  obtain r \<sigma>' where run: "SecurityGroupManager_Delete exSGDeps (exSGInfo ''a'' ''used'') exNet = (r, \<sigma>')" by force
  have "''sg'' \<noteq> SecurityGroupID (exSGInfo ''a'' ''used'')" by (simp add: exSGInfo_def)
  with SecurityGroup_delete_safe [OF exSGDeps_ok exSGDeps_inv run] run show ?thesis by blast
qed

end
