(* ===== verification/Listener_Actions.thy ===== *)
theory Listener_Actions
  imports Target_Group
begin

text \<open>
  The actions, conditions and transforms of listeners and listener rules: the types of
  \<^verbatim>\<open>pkg/model/elbv2/listener.go\<close> and \<^verbatim>\<open>listener_rule.go\<close>, their translation into the types of the AWS
  SDK (\<^verbatim>\<open>pkg/deploy/elbv2/listener_utils.go\<close>) and the comparisons that decide whether an object of the
  cloud has drifted (\<^verbatim>\<open>pkg/equality\<close>).

  A token (\<open>core.StringToken\<close>) is the result of resolving it, as in the theory of the load balancers.
  \<open>cmp.Equal\<close> compares structures field by field; the options ignore fields, sort slices and normalise.
  \<open>cmpopts.SortSlices\<close> sorts with \<open>sort.SliceStable\<close>, which is insertion sort on slices of at most twenty
  elements (an ELB action, condition or transform list has at most ten).
\<close>

section \<open>Actions\<close>

record AuthenticateCognitoActionConfig =
  cogExtraParams :: string_map
  cogOnUnauthenticatedRequest :: string
  cogScope :: "string option"
  cogSessionCookieName :: "string option"
  cogSessionTimeout :: "int option"
  cogUserPoolARN :: string
  cogUserPoolClientID :: string
  cogUserPoolDomain :: string

record AuthenticateOIDCActionConfig =
  oidcExtraParams :: string_map
  oidcOnUnauthenticatedRequest :: string
  oidcScope :: "string option"
  oidcSessionCookieName :: "string option"
  oidcSessionTimeout :: "int option"
  oidcIssuer :: string
  oidcAuthorizationEndpoint :: string
  oidcTokenEndpoint :: string
  oidcUserInfoEndpoint :: string
  oidcClientID :: string
  oidcClientSecret :: string

record JwtAdditionalClaim =
  claimFormat :: string
  claimName :: string
  claimValues :: "string list"

record JwtValidationConfig =
  jwtJwksEndpoint :: string
  jwtIssuer :: string
  jwtAdditionalClaims :: "JwtAdditionalClaim list"

record FixedResponseActionConfig =
  fixedContentType :: "string option"
  fixedMessageBody :: "string option"
  fixedStatusCode :: string

record RedirectActionConfig =
  redirectHost :: "string option"
  redirectPath :: "string option"
  redirectPort :: "string option"
  redirectProtocol :: "string option"
  redirectQuery :: "string option"
  redirectStatusCode :: string

record TargetGroupTuple =
  tupleARN :: "string res"
  tupleWeight :: "int option"

record TargetGroupStickinessConfig =
  stickyEnabled :: "bool option"
  stickyDurationSeconds :: "int option"

record ForwardActionConfig =
  forwardTargetGroups :: "TargetGroupTuple list"
  forwardStickiness :: "TargetGroupStickinessConfig option"

record Action =
  actionType :: string
  AuthenticateCognitoConfig :: "AuthenticateCognitoActionConfig option"
  AuthenticateOIDCConfig :: "AuthenticateOIDCActionConfig option"
  actJwtValidationConfig :: "JwtValidationConfig option"
  FixedResponseConfig :: "FixedResponseActionConfig option"
  RedirectConfig :: "RedirectActionConfig option"
  ForwardConfig :: "ForwardActionConfig option"

section \<open>Actions of the SDK\<close>

record sdkCognitoConfig =
  scogExtraParams :: string_map
  scogOnUnauthenticatedRequest :: string
  scogScope :: "string option"
  scogSessionCookieName :: "string option"
  scogSessionTimeout :: "int option"
  scogUserPoolArn :: "string option"
  scogUserPoolClientId :: "string option"
  scogUserPoolDomain :: "string option"

record sdkOidcConfig =
  soidcExtraParams :: string_map
  soidcOnUnauthenticatedRequest :: string
  soidcScope :: "string option"
  soidcSessionCookieName :: "string option"
  soidcSessionTimeout :: "int option"
  soidcClientId :: "string option"
  soidcClientSecret :: "string option"
  soidcIssuer :: "string option"
  soidcAuthorizationEndpoint :: "string option"
  soidcTokenEndpoint :: "string option"
  soidcUserInfoEndpoint :: "string option"

record sdkJwtClaim =
  sclaimFormat :: string
  sclaimName :: "string option"
  sclaimValues :: "string list"

record sdkJwtConfig =
  sjwtJwksEndpoint :: "string option"
  sjwtIssuer :: "string option"
  sjwtAdditionalClaims :: "sdkJwtClaim list"

record sdkFixedResponse =
  sfixedContentType :: "string option"
  sfixedMessageBody :: "string option"
  sfixedStatusCode :: "string option"

record sdkRedirect =
  sredirectHost :: "string option"
  sredirectPath :: "string option"
  sredirectPort :: "string option"
  sredirectProtocol :: "string option"
  sredirectQuery :: "string option"
  sredirectStatusCode :: string

record sdkTargetGroupTuple =
  stupleArn :: "string option"
  stupleWeight :: "int option"

record sdkForward =
  sforwardTargetGroups :: "sdkTargetGroupTuple list"
  sforwardStickiness :: "TargetGroupStickinessConfig option"

record sdkAction =
  sactType :: string
  sactCognito :: "sdkCognitoConfig option"
  sactOidc :: "sdkOidcConfig option"
  sactJwt :: "sdkJwtConfig option"
  sactFixedResponse :: "sdkFixedResponse option"
  sactRedirect :: "sdkRedirect option"
  sactForward :: "sdkForward option"
  sactTargetGroupArn :: "string option"
  sactOrder :: "int option"

definition buildSDKAuthenticateCognitoActionConfig :: "AuthenticateCognitoActionConfig \<Rightarrow> sdkCognitoConfig" where
  "buildSDKAuthenticateCognitoActionConfig c = \<lparr>
     scogExtraParams = cogExtraParams c, scogOnUnauthenticatedRequest = cogOnUnauthenticatedRequest c,
     scogScope = cogScope c, scogSessionCookieName = cogSessionCookieName c, scogSessionTimeout = cogSessionTimeout c,
     scogUserPoolArn = Some (cogUserPoolARN c), scogUserPoolClientId = Some (cogUserPoolClientID c),
     scogUserPoolDomain = Some (cogUserPoolDomain c)\<rparr>"

definition buildSDKAuthenticateOidcActionConfig :: "AuthenticateOIDCActionConfig \<Rightarrow> sdkOidcConfig" where
  "buildSDKAuthenticateOidcActionConfig c = \<lparr>
     soidcExtraParams = oidcExtraParams c, soidcOnUnauthenticatedRequest = oidcOnUnauthenticatedRequest c,
     soidcScope = oidcScope c, soidcSessionCookieName = oidcSessionCookieName c, soidcSessionTimeout = oidcSessionTimeout c,
     soidcClientId = Some (oidcClientID c), soidcClientSecret = Some (oidcClientSecret c), soidcIssuer = Some (oidcIssuer c),
     soidcAuthorizationEndpoint = Some (oidcAuthorizationEndpoint c), soidcTokenEndpoint = Some (oidcTokenEndpoint c),
     soidcUserInfoEndpoint = Some (oidcUserInfoEndpoint c)\<rparr>"

definition buildSDKJwtValidationConfig :: "JwtValidationConfig \<Rightarrow> sdkJwtConfig" where
  "buildSDKJwtValidationConfig c = \<lparr>
     sjwtJwksEndpoint = Some (jwtJwksEndpoint c), sjwtIssuer = Some (jwtIssuer c),
     sjwtAdditionalClaims = map (\<lambda>claim. \<lparr>sclaimFormat = claimFormat claim, sclaimName = Some (claimName claim),
        sclaimValues = claimValues claim\<rparr>) (jwtAdditionalClaims c)\<rparr>"

definition buildSDKFixedResponseActionConfig :: "FixedResponseActionConfig \<Rightarrow> sdkFixedResponse" where
  "buildSDKFixedResponseActionConfig c = \<lparr>sfixedContentType = fixedContentType c, sfixedMessageBody = fixedMessageBody c,
     sfixedStatusCode = Some (fixedStatusCode c)\<rparr>"

definition buildSDKRedirectActionConfig :: "RedirectActionConfig \<Rightarrow> sdkRedirect" where
  "buildSDKRedirectActionConfig c = \<lparr>sredirectHost = redirectHost c, sredirectPath = redirectPath c, sredirectPort = redirectPort c,
     sredirectProtocol = redirectProtocol c, sredirectQuery = redirectQuery c, sredirectStatusCode = redirectStatusCode c\<rparr>"

fun buildSDKTuples :: "TargetGroupTuple list \<Rightarrow> sdkTargetGroupTuple list res" where
  "buildSDKTuples [] = Inr []"
| "buildSDKTuples (t # ts) =
     res_bind (tupleARN t) (\<lambda>arn. res_bind (buildSDKTuples ts) (\<lambda>us.
       Inr (\<lparr>stupleArn = Some arn, stupleWeight = tupleWeight t\<rparr> # us)))"

definition buildSDKForwardActionConfig :: "ForwardActionConfig \<Rightarrow> sdkForward res" where
  "buildSDKForwardActionConfig c =
     res_bind (buildSDKTuples (forwardTargetGroups c)) (\<lambda>ts.
       Inr \<lparr>sforwardTargetGroups = ts, sforwardStickiness = forwardStickiness c\<rparr>)"

definition buildSDKAction :: "defaultFeatureGates \<Rightarrow> Action \<Rightarrow> sdkAction res" where
  "buildSDKAction gates a =
     (let sdkObj = \<lparr>sactType = actionType a,
            sactCognito = map_option buildSDKAuthenticateCognitoActionConfig (AuthenticateCognitoConfig a),
            sactOidc = map_option buildSDKAuthenticateOidcActionConfig (AuthenticateOIDCConfig a),
            sactJwt = map_option buildSDKJwtValidationConfig (actJwtValidationConfig a),
            sactFixedResponse = map_option buildSDKFixedResponseActionConfig (FixedResponseConfig a),
            sactRedirect = map_option buildSDKRedirectActionConfig (RedirectConfig a),
            sactForward = None, sactTargetGroupArn = None, sactOrder = None\<rparr>
      in (case ForwardConfig a of
            None \<Rightarrow> Inr sdkObj
          | Some fc \<Rightarrow>
              res_bind (buildSDKForwardActionConfig fc) (\<lambda>forwardConfig.
                if \<not> Enabled gates ''WeightedTargetGroups''
                then (if length (sforwardTargetGroups forwardConfig) = 1
                      then Inr (sdkObj\<lparr>sactTargetGroupArn := stupleArn (hd (sforwardTargetGroups forwardConfig))\<rparr>)
                      else Inl (Errorf ''weighted target groups feature is disabled'' []))
                else Inr (sdkObj\<lparr>sactForward := Some forwardConfig\<rparr>))))"

fun buildSDKActionsFrom :: "defaultFeatureGates \<Rightarrow> int \<Rightarrow> Action list \<Rightarrow> sdkAction list res" where
  "buildSDKActionsFrom gates index [] = Inr []"
| "buildSDKActionsFrom gates index (a # as) =
     res_bind (buildSDKAction gates a) (\<lambda>s. res_bind (buildSDKActionsFrom gates (index + 1) as) (\<lambda>ss.
       Inr (s\<lparr>sactOrder := Some (to_int32 index + 1)\<rparr> # ss)))"

definition buildSDKActions :: "defaultFeatureGates \<Rightarrow> Action list \<Rightarrow> sdkAction list res" where
  "buildSDKActions gates as = (if length as \<noteq> 0 then buildSDKActionsFrom gates 0 as else Inr [])"

section \<open>Conditions and transforms\<close>

record HostHeaderConditionConfig =
  hostRegexValues :: "string list"
  hostValues :: "string list"

record HTTPHeaderConditionConfig =
  HTTPHeaderName :: string
  headerRegexValues :: "string list"
  headerValues :: "string list"

record PathPatternConditionConfig =
  pathRegexValues :: "string list"
  pathValues :: "string list"

record QueryStringKeyValuePair =
  queryKey :: "string option"
  queryValue :: string

record RuleCondition =
  conditionField :: string
  HostHeaderConfig :: "HostHeaderConditionConfig option"
  HTTPHeaderConfig :: "HTTPHeaderConditionConfig option"
  HTTPRequestMethodConfig :: "string list option"
  PathPatternConfig :: "PathPatternConditionConfig option"
  QueryStringConfig :: "QueryStringKeyValuePair list option"
  SourceIPConfig :: "string list option"

record sdkHTTPHeaderConfig =
  sheaderName :: "string option"
  sheaderRegexValues :: "string list"
  sheaderValues :: "string list"

record sdkRuleCondition =
  scondField :: "string option"
  scondHostHeader :: "HostHeaderConditionConfig option"
  scondHttpHeader :: "sdkHTTPHeaderConfig option"
  scondHttpRequestMethod :: "string list option"
  scondPathPattern :: "PathPatternConditionConfig option"
  scondQueryString :: "(string option \<times> string option) list option"
  scondSourceIp :: "string list option"
  scondValues :: "string list"
  scondRegexValues :: "string list"

definition buildSDKHTTPHeaderConditionConfig :: "HTTPHeaderConditionConfig \<Rightarrow> sdkHTTPHeaderConfig" where
  "buildSDKHTTPHeaderConditionConfig c = \<lparr>sheaderName = Some (HTTPHeaderName c), sheaderRegexValues = headerRegexValues c,
     sheaderValues = headerValues c\<rparr>"

definition buildSDKHostHeaderConditionConfig :: "HostHeaderConditionConfig \<Rightarrow> HostHeaderConditionConfig" where
  "buildSDKHostHeaderConditionConfig c = \<lparr>hostRegexValues = hostRegexValues c, hostValues = hostValues c\<rparr>"

definition buildSDKPathPatternConditionConfig :: "PathPatternConditionConfig \<Rightarrow> PathPatternConditionConfig" where
  "buildSDKPathPatternConditionConfig c = \<lparr>pathRegexValues = pathRegexValues c, pathValues = pathValues c\<rparr>"

definition buildSDKQueryStringConditionConfig :: "QueryStringKeyValuePair list \<Rightarrow> (string option \<times> string option) list" where
  "buildSDKQueryStringConditionConfig values = map (\<lambda>v. (queryKey v, Some (queryValue v))) values"

definition buildSDKRuleCondition :: "RuleCondition \<Rightarrow> sdkRuleCondition" where
  "buildSDKRuleCondition c = \<lparr>
     scondField = Some (conditionField c),
     scondHostHeader = map_option buildSDKHostHeaderConditionConfig (HostHeaderConfig c),
     scondHttpHeader = map_option buildSDKHTTPHeaderConditionConfig (HTTPHeaderConfig c),
     scondHttpRequestMethod = HTTPRequestMethodConfig c,
     scondPathPattern = map_option buildSDKPathPatternConditionConfig (PathPatternConfig c),
     scondQueryString = map_option buildSDKQueryStringConditionConfig (QueryStringConfig c),
     scondSourceIp = SourceIPConfig c, scondValues = [], scondRegexValues = []\<rparr>"

definition buildSDKRuleConditions :: "RuleCondition list \<Rightarrow> sdkRuleCondition list" where
  "buildSDKRuleConditions cs = map buildSDKRuleCondition cs"

record RewriteConfig =
  Regex :: string
  Replace :: string

record Transform =
  transformType :: string
  HostHeaderRewriteConfig :: "RewriteConfig list option"
  UrlRewriteConfig :: "RewriteConfig list option"

record sdkTransform =
  stransType :: string
  stransHostHeaderRewrite :: "(string option \<times> string option) list option"
  stransUrlRewrite :: "(string option \<times> string option) list option"

definition buildSDKRewrites :: "RewriteConfig list \<Rightarrow> (string option \<times> string option) list" where
  "buildSDKRewrites rs = map (\<lambda>r. (Some (Regex r), Some (Replace r))) rs"

definition buildSDKTransform :: "Transform \<Rightarrow> sdkTransform" where
  "buildSDKTransform t = \<lparr>stransType = transformType t,
     stransHostHeaderRewrite = map_option buildSDKRewrites (HostHeaderRewriteConfig t),
     stransUrlRewrite = map_option buildSDKRewrites (UrlRewriteConfig t)\<rparr>"

definition buildSDKTransforms :: "Transform list \<Rightarrow> sdkTransform list" where
  "buildSDKTransforms ts = map buildSDKTransform ts"

section \<open>Comparisons\<close>

text \<open>Insertion sort as \<open>sort.SliceStable\<close> does it: an element moves left past those it is less than.\<close>

fun insertLeft :: "('a \<Rightarrow> 'a \<Rightarrow> bool) \<Rightarrow> 'a \<Rightarrow> 'a list \<Rightarrow> 'a list" where
  "insertLeft lt x [] = [x]"
| "insertLeft lt x (y # ys) = (if lt x y then y # insertLeft lt x ys else x # y # ys)"

definition sliceStable :: "('a \<Rightarrow> 'a \<Rightarrow> bool) \<Rightarrow> 'a list \<Rightarrow> 'a list" where
  "sliceStable lt xs = rev (foldl (\<lambda>done x. insertLeft lt x done) [] xs)"

definition actionLess :: "sdkAction \<Rightarrow> sdkAction \<Rightarrow> bool" where
  "actionLess lhs rhs \<longleftrightarrow> sactOrder lhs \<noteq> None \<and> sactOrder rhs \<noteq> None \<and> ToInt32 (sactOrder lhs) < ToInt32 (sactOrder rhs)"

definition normalizeTuples :: "sdkTargetGroupTuple list \<Rightarrow> sdkTargetGroupTuple list" where
  "normalizeTuples tgt =
     (let result = sliceStable (\<lambda>x y. ToString (stupleArn x) < ToString (stupleArn y)) tgt
      in if length result = 1 then map (\<lambda>t. t\<lparr>stupleWeight := None\<rparr>) result else result)"

definition forwardEqual :: "sdkForward \<Rightarrow> sdkForward \<Rightarrow> bool" where
  "forwardEqual desired current \<longleftrightarrow>
     normalizeTuples (sforwardTargetGroups desired) = normalizeTuples (sforwardTargetGroups current)
   \<and> (sforwardStickiness desired = None \<or> sforwardStickiness desired = sforwardStickiness current)"

definition normalizeRedirect :: "sdkRedirect \<Rightarrow> sdkRedirect" where
  "normalizeRedirect c = c\<lparr>
     sredirectHost := Some (case sredirectHost c of None \<Rightarrow> ''#{host}'' | Some h \<Rightarrow> h),
     sredirectPath := Some (case sredirectPath c of None \<Rightarrow> ''/#{path}'' | Some h \<Rightarrow> h),
     sredirectPort := Some (case sredirectPort c of None \<Rightarrow> ''#{port}'' | Some h \<Rightarrow> h),
     sredirectProtocol := Some (case sredirectProtocol c of None \<Rightarrow> ''#{protocol}'' | Some h \<Rightarrow> h),
     sredirectQuery := Some (case sredirectQuery c of None \<Rightarrow> ''#{query}'' | Some h \<Rightarrow> h)\<rparr>"

definition optEqual :: "('a \<Rightarrow> 'a \<Rightarrow> bool) \<Rightarrow> 'a option \<Rightarrow> 'a option \<Rightarrow> bool" where
  "optEqual eq x y = (case (x, y) of (None, None) \<Rightarrow> True | (Some a, Some b) \<Rightarrow> eq a b | _ \<Rightarrow> False)"

text \<open>The maps of extra parameters are compared as maps.\<close>

definition mapEqual :: "string_map \<Rightarrow> string_map \<Rightarrow> bool" where
  "mapEqual m n \<longleftrightarrow> keyset m = keyset n \<and> list_all (\<lambda>k. mget m k = mget n k) (keyset m)"

definition cognitoEqual :: "sdkCognitoConfig \<Rightarrow> sdkCognitoConfig \<Rightarrow> bool" where
  "cognitoEqual x y \<longleftrightarrow> mapEqual (scogExtraParams x) (scogExtraParams y) \<and> x\<lparr>scogExtraParams := []\<rparr> = y\<lparr>scogExtraParams := []\<rparr>"

definition oidcEqual :: "sdkOidcConfig \<Rightarrow> sdkOidcConfig \<Rightarrow> bool" where
  "oidcEqual x y \<longleftrightarrow> mapEqual (soidcExtraParams x) (soidcExtraParams y) \<and> x\<lparr>soidcExtraParams := []\<rparr> = y\<lparr>soidcExtraParams := []\<rparr>"

definition actionEqual :: "sdkAction \<Rightarrow> sdkAction \<Rightarrow> bool" where
  "actionEqual x y \<longleftrightarrow> sactType x = sactType y \<and> optEqual cognitoEqual (sactCognito x) (sactCognito y)
     \<and> optEqual oidcEqual (sactOidc x) (sactOidc y) \<and> sactJwt x = sactJwt y \<and> sactFixedResponse x = sactFixedResponse y
     \<and> map_option normalizeRedirect (sactRedirect x) = map_option normalizeRedirect (sactRedirect y)
     \<and> optEqual forwardEqual (sactForward x) (sactForward y)"

definition actionsEqual :: "sdkAction list \<Rightarrow> sdkAction list \<Rightarrow> bool" where
  "actionsEqual desired current = list_all2 actionEqual (sliceStable actionLess desired) (sliceStable actionLess current)"

definition conditionEqual :: "sdkRuleCondition \<Rightarrow> sdkRuleCondition \<Rightarrow> bool" where
  "conditionEqual x y \<longleftrightarrow> x\<lparr>scondValues := [], scondRegexValues := []\<rparr> = y\<lparr>scondValues := [], scondRegexValues := []\<rparr>"

definition conditionsEqual :: "sdkRuleCondition list \<Rightarrow> sdkRuleCondition list \<Rightarrow> bool" where
  "conditionsEqual desired current =
     list_all2 conditionEqual (sliceStable (\<lambda>x y. ToString (scondField x) < ToString (scondField y)) desired)
       (sliceStable (\<lambda>x y. ToString (scondField x) < ToString (scondField y)) current)"

definition transformsEqual :: "sdkTransform list \<Rightarrow> sdkTransform list \<Rightarrow> bool" where
  "transformsEqual desired current \<longleftrightarrow>
     sliceStable (\<lambda>x y. stransType x < stransType y) desired = sliceStable (\<lambda>x y. stransType x < stransType y) current"

end
