(* ===== verification/Listener.thy ===== *)
theory Listener
  imports Listener_Actions Load_Balancer
begin

text \<open>
  Listeners: the resource (\<^verbatim>\<open>pkg/model/elbv2/listener.go\<close>), the manager that creates, updates and
  deletes one, with its settings, certificates, tags and attributes
  (\<^verbatim>\<open>pkg/deploy/elbv2/listener_manager.go\<close>), and the synthesizer that matches the listeners of every
  load balancer by port (\<^verbatim>\<open>pkg/deploy/elbv2/listener_synthesizer.go\<close>).

  A nil slice and an empty one are the same list: the sources test both the same way. The field
  \<open>AdvertiseTrustStoreCaNames\<close> of the SDK is a string enumeration, the empty string when unset.
\<close>

section \<open>The resource\<close>

record MutualAuthenticationAttributes =
  mtlsMode :: string
  TrustStoreArn :: "string option"
  IgnoreClientCertificateExpiry :: "bool option"
  AdvertiseTrustStoreCaNames :: "string option"

record ListenerSpec =
  lsLoadBalancerARN :: token
  lsPort :: int
  lsProtocol :: string
  lsDefaultActions :: "Action list"
  lsCertificates :: "token list"
  lsSSLPolicy :: "string option"
  lsALPNPolicy :: "string list"
  lsMutualAuthentication :: "MutualAuthenticationAttributes option"
  lsTags :: string_map
  lsAttributes :: "(string \<times> string) list"

record Listener =
  lsStack :: StackID
  lsID :: string
  lsSpec :: ListenerSpec

type_synonym ListenerStatus = string

section \<open>The SDK objects and calls\<close>

record sdkMutualAuth =
  smtlsMode :: "string option"
  smtlsTrustStoreArn :: "string option"
  smtlsIgnoreExpiry :: "bool option"
  smtlsAdvertise :: string

record sdkListener =
  sPort :: "int option"
  sLSProtocol :: string
  sDefaultActions :: "sdkAction list"
  sCertificates :: "string option list"
  sSslPolicy :: "string option"
  sAlpnPolicy :: "string list"
  sMutualAuthentication :: "sdkMutualAuth option"

type_synonym ListenerWithTags = "sdkListener WithTags"

record CreateListenerInput =
  nLoadBalancerArn :: string
  nListener :: sdkListener
  nTags :: "SDKTag list"

record ModifyListenerInput =
  mListenerArn :: "string option"
  mListener :: sdkListener

record 'w listener_api =
  CreateListener :: "CreateListenerInput \<Rightarrow> ('w, sdkListener described list) io"
  ModifyListener :: "ModifyListenerInput \<Rightarrow> ('w, unit) io"
  DeleteListener :: "string option \<Rightarrow> ('w, unit) io"
  DescribeListenerCertificates :: "string option \<Rightarrow> ('w, (string option \<times> bool option) list) io"
  AddListenerCertificates :: "string option \<Rightarrow> string \<Rightarrow> ('w, unit) io"
  RemoveListenerCertificates :: "string option \<Rightarrow> string \<Rightarrow> ('w, unit) io"
  LSAttributes :: "'w attributes_api"

section \<open>The manager\<close>

record 'w listener_manager_cfg =
  lsApi :: "'w listener_api"
  lsGates :: defaultFeatureGates
  enhancedDefaultingPolicyEnabled :: bool
  lsExistencePolls :: nat

definition isListenerNotFoundError :: "go_error \<Rightarrow> bool" where
  "isListenerNotFoundError err \<longleftrightarrow>
     errorCode err = Some ''ListenerNotFoundException'' \<or> errorCode err = Some ''ListenerNotFound''"

definition buildSDKCertificate :: "token \<Rightarrow> string option" where
  "buildSDKCertificate cert = Some (case cert of Inl _ \<Rightarrow> '''' | Inr arn \<Rightarrow> arn)"

definition buildSDKCertificates :: "token list \<Rightarrow> string option list \<times> string option list" where
  "buildSDKCertificates certs =
     (case certs of
        [] \<Rightarrow> ([], [])
      | c # _ \<Rightarrow> ([buildSDKCertificate c], map buildSDKCertificate certs))"

definition translateAdvertiseCAToEnum :: "string option \<Rightarrow> string" where
  "translateAdvertiseCAToEnum s = (case s of None \<Rightarrow> ''off'' | Some v \<Rightarrow> v)"

definition buildSDKMutualAuthenticationConfig :: "MutualAuthenticationAttributes option \<Rightarrow> sdkMutualAuth option" where
  "buildSDKMutualAuthenticationConfig cfg =
     map_option (\<lambda>c. \<lparr>smtlsMode = Some (mtlsMode c), smtlsTrustStoreArn = TrustStoreArn c,
       smtlsIgnoreExpiry = IgnoreClientCertificateExpiry c,
       smtlsAdvertise = (if mtlsMode c = ''verify'' then translateAdvertiseCAToEnum (AdvertiseTrustStoreCaNames c) else '''')\<rparr>) cfg"

definition mTLSOff :: sdkMutualAuth where
  "mTLSOff = \<lparr>smtlsMode = Some ''off'', smtlsTrustStoreArn = None, smtlsIgnoreExpiry = None, smtlsAdvertise = ''''\<rparr>"

definition alpnNone :: "string list" where
  "alpnNone = [''None'']"

definition buildSDKCreateListenerInput :: "defaultFeatureGates \<Rightarrow> ListenerSpec \<Rightarrow> CreateListenerInput res" where
  "buildSDKCreateListenerInput gates spec =
     res_bind (lsLoadBalancerARN spec) (\<lambda>lbARN.
     res_bind (buildSDKActions gates (lsDefaultActions spec)) (\<lambda>defaultActions.
       Inr \<lparr>nLoadBalancerArn = lbARN,
            nListener = \<lparr>sPort = Some (lsPort spec), sLSProtocol = lsProtocol spec, sDefaultActions = defaultActions,
              sCertificates = fst (buildSDKCertificates (lsCertificates spec)), sSslPolicy = lsSSLPolicy spec,
              sAlpnPolicy = (if length (lsALPNPolicy spec) \<noteq> 0 then lsALPNPolicy spec else []),
              sMutualAuthentication = buildSDKMutualAuthenticationConfig (lsMutualAuthentication spec)\<rparr>,
            nTags = []\<rparr>))"

definition buildSDKModifyListenerInput :: "ListenerSpec \<Rightarrow> sdkAction list \<Rightarrow> string option list \<Rightarrow> bool \<Rightarrow> bool \<Rightarrow>
    ModifyListenerInput" where
  "buildSDKModifyListenerInput spec desiredDefaultActions desiredDefaultCerts removeMTLS removeALPN =
     \<lparr>mListenerArn = None,
      mListener = \<lparr>sPort = Some (lsPort spec), sLSProtocol = lsProtocol spec, sDefaultActions = desiredDefaultActions,
        sCertificates = desiredDefaultCerts, sSslPolicy = lsSSLPolicy spec,
        sAlpnPolicy = (if removeALPN then alpnNone
                       else if length (lsALPNPolicy spec) \<noteq> 0 then lsALPNPolicy spec else []),
        sMutualAuthentication = (if removeMTLS then Some mTLSOff
                       else buildSDKMutualAuthenticationConfig (lsMutualAuthentication spec))\<rparr>\<rparr>"

definition alpnNilOrNone :: "string list \<Rightarrow> bool" where
  "alpnNilOrNone p \<longleftrightarrow> p = [] \<or> hd p = ''None''"

definition mtlsNilOrOff :: "sdkMutualAuth \<Rightarrow> bool" where
  "mtlsNilOrOff a \<longleftrightarrow> smtlsMode a = None \<or> smtlsMode a = Some ''off''"

text \<open>
  The desired configuration of \<open>buildSDKMutualAuthenticationConfig\<close> always has a mode; without one the sources
  would read the mode of the listener's configuration, which has to be there.
\<close>

definition isMTLSDrifted :: "sdkMutualAuth option \<Rightarrow> sdkMutualAuth option \<Rightarrow> bool" where
  "isMTLSDrifted desired current =
     (case desired of
        None \<Rightarrow> (case current of None \<Rightarrow> False | Some c \<Rightarrow> \<not> mtlsNilOrOff c)
      | Some d \<Rightarrow>
          if smtlsMode d = None
          then (case current of None \<Rightarrow> True | Some c \<Rightarrow> \<not> mtlsNilOrOff c)
          else if smtlsMode d = Some ''off''
          then \<not> (case current of None \<Rightarrow> True | Some c \<Rightarrow> mtlsNilOrOff c)
          else Some d \<noteq> current)"

definition isALPNDrifted :: "bool \<Rightarrow> string list \<Rightarrow> string list \<Rightarrow> bool" where
  "isALPNDrifted enhanced desired current =
     (if enhanced
      then (if alpnNilOrNone desired \<and> \<not> alpnNilOrNone current then True
            else if alpnNilOrNone current \<and> \<not> alpnNilOrNone desired then True
            else if \<not> alpnNilOrNone desired \<and> \<not> alpnNilOrNone current then desired \<noteq> current
            else False)
      else length desired \<noteq> 0 \<and> desired \<noteq> current)"

definition isSDKListenerSettingsDrifted :: "bool \<Rightarrow> ListenerSpec \<Rightarrow> ListenerWithTags \<Rightarrow> sdkAction list \<Rightarrow> string option list \<Rightarrow>
    sdkMutualAuth option \<Rightarrow> bool" where
  "isSDKListenerSettingsDrifted enhanced spec sdkLS desiredDefaultActions desiredDefaultCerts desiredMutualAuth =
     (let obj = descObj (sdkObj sdkLS) in
      if lsPort spec \<noteq> ToInt32 (sPort obj) then True
      else if lsProtocol spec \<noteq> sLSProtocol obj then True
      else if \<not> actionsEqual desiredDefaultActions (sDefaultActions obj) then True
      else if desiredDefaultCerts \<noteq> sCertificates obj then True
      else if lsSSLPolicy spec \<noteq> None \<and> ToString (lsSSLPolicy spec) \<noteq> ToString (sSslPolicy obj) then True
      else if isALPNDrifted enhanced (lsALPNPolicy spec) (sAlpnPolicy obj) then True
      else if \<not> enhanced \<and> desiredMutualAuth = None then False
      else isMTLSDrifted desiredMutualAuth (sMutualAuthentication obj))"

definition isRemoveMTLS :: "ListenerWithTags \<Rightarrow> sdkMutualAuth option \<Rightarrow> bool" where
  "isRemoveMTLS sdkLS desired =
     (if desired \<noteq> None then False
      else (case sMutualAuthentication (descObj (sdkObj sdkLS)) of None \<Rightarrow> False | Some c \<Rightarrow> \<not> mtlsNilOrOff c))"

definition isRemoveALPN :: "ListenerWithTags \<Rightarrow> ListenerSpec \<Rightarrow> bool" where
  "isRemoveALPN sdkLS spec =
     (if length (lsALPNPolicy spec) > 0 then False
      else \<not> alpnNilOrNone (sAlpnPolicy (descObj (sdkObj sdkLS))))"

definition buildResListenerStatus :: "ListenerWithTags \<Rightarrow> ListenerStatus" where
  "buildResListenerStatus sdkLS = ToString (descArn (sdkObj sdkLS))"

definition areListenerAttributesSupported :: "string \<Rightarrow> bool" where
  "areListenerAttributesSupported protocol \<longleftrightarrow> protocol \<notin> {''TLS''}"

definition fetchSDKListenerExtraCertificateARNs :: "'w listener_api \<Rightarrow> ListenerWithTags \<Rightarrow> ('w, string list) io" where
  "fetchSDKListenerExtraCertificateARNs api sdkLS =
     io_bind (DescribeListenerCertificates api (descArn (sdkObj sdkLS))) (\<lambda>sdkCerts.
       io_ret (map (\<lambda>(arn, d). ToString arn) (filter (\<lambda>(arn, isDefault). isDefault \<noteq> Some True) sdkCerts)))"

definition updateSDKListenerWithExtraCertificates :: "'w listener_api \<Rightarrow> Listener \<Rightarrow> ListenerWithTags \<Rightarrow> bool \<Rightarrow> ('w, unit) io" where
  "updateSDKListenerWithExtraCertificates api resLS sdkLS isNewSDKListener =
     (if lsSSLPolicy (lsSpec resLS) = None \<and> sSslPolicy (descObj (sdkObj sdkLS)) = None then io_ret ()
      else
        (let desired = map ToString (snd (buildSDKCertificates (lsCertificates (lsSpec resLS)))); arn = descArn (sdkObj sdkLS)
         in io_bind (if isNewSDKListener then io_ret [] else fetchSDKListenerExtraCertificateARNs api sdkLS) (\<lambda>current.
            io_bind (io_iter (RemoveListenerCertificates api arn) (filter (\<lambda>c. c \<notin> set desired) (set_list current))) (\<lambda>_.
            io_iter (AddListenerCertificates api arn) (filter (\<lambda>c. c \<notin> set current) (set_list desired))))))"

definition updateSDKListenerWithTags :: "('lb, 'tg, 'ls, 'lr, 'w) elbv2_deps \<Rightarrow> Listener \<Rightarrow> ListenerWithTags \<Rightarrow>
    ('w taggingManager, unit) io" where
  "updateSDKListenerWithTags m resLS sdkLS =
     ReconcileTags (taggingApi m) (taggingCfg m) (ToString (descArn (sdkObj sdkLS)))
       (ResourceTags (trackingProvider m) (lsStack resLS) (lsID resLS) (lsTags (lsSpec resLS)))
       [WithCurrentTags (sdkTags sdkLS), WithIgnoredTagKeys (externalManagedTags m)]"

definition updateSDKListenerWithSettings :: "'w listener_manager_cfg \<Rightarrow> Listener \<Rightarrow> ListenerWithTags \<Rightarrow> ('w, unit) io" where
  "updateSDKListenerWithSettings cfg resLS sdkLS =
     io_bind (io_lift (buildSDKActions (lsGates cfg) (lsDefaultActions (lsSpec resLS)))) (\<lambda>desiredDefaultActions.
       let desiredDefaultCerts = fst (buildSDKCertificates (lsCertificates (lsSpec resLS)));
           desiredMutualAuth = buildSDKMutualAuthenticationConfig (lsMutualAuthentication (lsSpec resLS));
           enhanced = enhancedDefaultingPolicyEnabled cfg
       in if \<not> isSDKListenerSettingsDrifted enhanced (lsSpec resLS) sdkLS desiredDefaultActions desiredDefaultCerts desiredMutualAuth
          then io_ret ()
          else ModifyListener (lsApi cfg)
            ((buildSDKModifyListenerInput (lsSpec resLS) desiredDefaultActions desiredDefaultCerts
                (enhanced \<and> isRemoveMTLS sdkLS desiredMutualAuth) (enhanced \<and> isRemoveALPN sdkLS (lsSpec resLS)))
              \<lparr>mListenerArn := descArn (sdkObj sdkLS)\<rparr>))"

definition reconcileListenerAttributes :: "'w listener_manager_cfg \<Rightarrow> Listener \<Rightarrow> ListenerWithTags \<Rightarrow> ('w taggingManager, unit) io" where
  "reconcileListenerAttributes cfg resLS sdkLS =
     (if areListenerAttributesSupported (lsProtocol (lsSpec resLS))
      then onTagCloud (Attributes_Reconcile (LSAttributes (lsApi cfg)) (lsAttributes (lsSpec resLS)) (descArn (sdkObj sdkLS)))
      else io_ret ())"

definition wrapErr :: "string \<Rightarrow> ('w, 'a) io \<Rightarrow> ('w, 'a) io" where
  "wrapErr msg f w = (case f w of (Inl err, w') \<Rightarrow> (Inl (Wrapped msg err), w') | (Inr x, w') \<Rightarrow> (Inr x, w'))"

definition ListenerManager_Create :: "'w listener_manager_cfg \<Rightarrow> ('lb, 'tg, 'ls, 'lr, 'w) elbv2_deps \<Rightarrow> Listener \<Rightarrow>
    ('w taggingManager, ListenerStatus) io" where
  "ListenerManager_Create cfg m resLS =
     io_bind (io_lift (buildSDKCreateListenerInput (lsGates cfg) (lsSpec resLS))) (\<lambda>req.
       let tags = (if Enabled (lsGates cfg) ''ListenerRulesTagging''
                   then Some (ResourceTags (trackingProvider m) (lsStack resLS) (lsID resLS) (lsTags (lsSpec resLS))) else None)
       in io_bind (onTagCloud (CreateListener (lsApi cfg) (req\<lparr>nTags := convertTagsToSDKTags (mapOf tags)\<rparr>))) (\<lambda>resp.
            case resp of
              [] \<Rightarrow> io_fail (Errorf ''panic: index out of range'' [])
            | ls # _ \<Rightarrow>
                (let sdkLS = \<lparr>sdkObj = ls, sdkTags = tags\<rparr>
                 in io_bind (wrapErr ''failed to update extra certificates on listener''
                      (RetryImmediateOnError (lsExistencePolls cfg) isListenerNotFoundError
                        (onTagCloud (updateSDKListenerWithExtraCertificates (lsApi cfg) resLS sdkLS True)))) (\<lambda>_.
                    io_bind (reconcileListenerAttributes cfg resLS sdkLS) (\<lambda>_.
                    io_ret (buildResListenerStatus sdkLS))))))"

definition ListenerManager_Update :: "'w listener_manager_cfg \<Rightarrow> ('lb, 'tg, 'ls, 'lr, 'w) elbv2_deps \<Rightarrow> Listener \<Rightarrow>
    ListenerWithTags \<Rightarrow> ('w taggingManager, ListenerStatus) io" where
  "ListenerManager_Update cfg m resLS sdkLS =
     io_bind (if Enabled (lsGates cfg) ''ListenerRulesTagging'' then updateSDKListenerWithTags m resLS sdkLS else io_ret ()) (\<lambda>_.
     io_bind (onTagCloud (updateSDKListenerWithSettings cfg resLS sdkLS)) (\<lambda>_.
     io_bind (onTagCloud (updateSDKListenerWithExtraCertificates (lsApi cfg) resLS sdkLS False)) (\<lambda>_.
     io_bind (reconcileListenerAttributes cfg resLS sdkLS) (\<lambda>_.
     io_ret (buildResListenerStatus sdkLS)))))"

definition ListenerManager_Delete :: "'w listener_manager_cfg \<Rightarrow> ListenerWithTags \<Rightarrow> ('w taggingManager, unit) io" where
  "ListenerManager_Delete cfg sdkLS = onTagCloud (DeleteListener (lsApi cfg) (descArn (sdkObj sdkLS)))"

definition listenerManager :: "'w listener_manager_cfg \<Rightarrow> ('lb, 'tg, 'ls, 'lr, 'w) elbv2_deps \<Rightarrow>
    (Listener, ListenerWithTags, ListenerStatus, 'w taggingManager) resource_manager" where
  "listenerManager cfg m = \<lparr>mCreate = ListenerManager_Create cfg m, mUpdate = ListenerManager_Update cfg m,
     mDelete = ListenerManager_Delete cfg\<rparr>"

section \<open>The synthesizer\<close>

definition mapResListenerByPort :: "Listener list \<Rightarrow> (int, Listener) gomap" where
  "mapResListenerByPort resLSs = mbuild (\<lambda>ls. lsPort (lsSpec ls)) (\<lambda>ls. ls) resLSs []"

definition sdkLSPort :: "ListenerWithTags \<Rightarrow> int" where
  "sdkLSPort sdkLS = ToInt32 (sPort (descObj (sdkObj sdkLS)))"

definition mapSDKListenerByPort :: "ListenerWithTags list \<Rightarrow> (int, ListenerWithTags) gomap" where
  "mapSDKListenerByPort sdkLSs = mbuild sdkLSPort (\<lambda>ls. ls) sdkLSs []"

definition matchResAndSDKListeners :: "Listener list \<Rightarrow> ListenerWithTags list \<Rightarrow>
    (Listener \<times> ListenerWithTags) list \<times> Listener list \<times> ListenerWithTags list" where
  "matchResAndSDKListeners resLSs sdkLSs = matchByKey (mapResListenerByPort resLSs) (mapSDKListenerByPort sdkLSs)"

fun mapResListenerByLoadBalancerARN :: "Listener list \<Rightarrow> (string, Listener list) gomap \<Rightarrow> (string, Listener list) gomap res" where
  "mapResListenerByLoadBalancerARN [] m = Inr m"
| "mapResListenerByLoadBalancerARN (ls # lss) m =
     (case lsLoadBalancerARN (lsSpec ls) of
        Inl err \<Rightarrow> Inl err
      | Inr lbARN \<Rightarrow> mapResListenerByLoadBalancerARN lss (mput lbARN (mget0 [] m lbARN @ [ls]) m))"

type_synonym 'w listener_synth = "(unit, ListenerStatus, 'w) synth"

definition synthesizeListenersOnLB :: "(Listener, ListenerWithTags, ListenerStatus, 'w) resource_manager \<Rightarrow>
    (string \<Rightarrow> ('w, ListenerWithTags list) io) \<Rightarrow> string \<Rightarrow> Listener list \<Rightarrow> ('w listener_synth, unit) io" where
  "synthesizeListenersOnLB mgr findSDKListenersOnLB lbARN resLSs =
     io_bind (onCloud (findSDKListenersOnLB lbARN)) (\<lambda>sdkLSs.
       let (matched, unmatchedRes, unmatchedSDK) = matchResAndSDKListeners resLSs sdkLSs
       in io_bind (io_iter (\<lambda>sdkLS. onCloud (mDelete mgr sdkLS)) unmatchedSDK) (\<lambda>_.
          io_bind (io_iter (createRes mgr lsID) unmatchedRes) (\<lambda>_.
          io_iter (updateRes mgr lsID) matched)))"

text \<open>
  The synthesizer: \<open>ord\<close> is the order in which Go iterates over the map of listeners by load balancer,
  \<open>resLBs\<close> the resolved ARN of every load balancer of the stack.
\<close>

definition Listener_Synthesize :: "((string \<times> Listener list) list \<Rightarrow> (string \<times> Listener list) list) \<Rightarrow>
    (Listener, ListenerWithTags, ListenerStatus, 'w) resource_manager \<Rightarrow> (string \<Rightarrow> ('w, ListenerWithTags list) io) \<Rightarrow>
    token list \<Rightarrow> Listener list \<Rightarrow> ('w listener_synth, unit) io" where
  "Listener_Synthesize ord mgr findSDKListenersOnLB resLBs resLSs =
     io_bind (io_lift (mapResListenerByLoadBalancerARN resLSs [])) (\<lambda>byLB.
       if length byLB = 0
       then io_iter (\<lambda>lb. io_bind (io_lift lb) (\<lambda>lbARN. synthesizeListenersOnLB mgr findSDKListenersOnLB lbARN [])) resLBs
       else io_iter (\<lambda>(lbARN, lss). synthesizeListenersOnLB mgr findSDKListenersOnLB lbARN lss) (ord byLB))"

section \<open>Correctness of the synthesizer\<close>

interpretation ls: matcher "\<lambda>ls. lsPort (lsSpec ls)" "\<lambda>s. Some (sdkLSPort s)" "\<lambda>s r. True"
    "\<lambda>ss. distinct (map sdkLSPort ss)" "\<lambda>rs ss. Inr (matchResAndSDKListeners rs ss)"
  by unfold_locales (simp add: matchResAndSDKListeners_def mapResListenerByPort_def mapSDKListenerByPort_def
      matchByKey_matching)

lemma mapResListenerByLoadBalancerARN_ok:
  assumes "\<forall>ls \<in> set lss. lsLoadBalancerARN (lsSpec ls) = Inr (lb ls)"
  shows "mapResListenerByLoadBalancerARN lss m = Inr (mgroup lb lss m)"
  using assms by (induction lss arbitrary: m) auto

lemma synthesizeListenersOnLB_plan:
  assumes "findLS lbARN (cloud \<sigma>) = (Inr ss, w)" "matchResAndSDKListeners rs ss = (m, ur, us)"
  shows "synthesizeListenersOnLB mgr findLS lbARN rs \<sigma> =
     runPlan mgr lsID (map CallDelete us @ map CallCreate ur @ map (\<lambda>(r, s). CallUpdate r s) m) (\<sigma>\<lparr>cloud := w\<rparr>)"
proof -
  have D: "io_iter (\<lambda>sdkLS. onCloud (mDelete mgr sdkLS)) us = runPlan mgr lsID (map CallDelete us)"
    by (rule ext) (rule runPlan_deletes)
  have C: "io_bind (io_iter (createRes mgr lsID) ur) (\<lambda>_. io_iter (updateRes mgr lsID) m)
      = runPlan mgr lsID (map CallCreate ur @ map (\<lambda>(r, s). CallUpdate r s) m)"
    by (rule ext) (rule runPlan_create_update)
  show ?thesis using assms
    by (simp add: synthesizeListenersOnLB_def io_bind_def [of "onCloud (findLS lbARN)"] onCloud_def [of "findLS lbARN"]
        Let_def D C runPlan_append [of mgr lsID "map CallDelete us"])
qed


text \<open>Example listeners, for the witnesses.\<close>

definition exAction :: "string \<Rightarrow> Action" where
  "exAction arn = \<lparr>actionType = ''forward'', AuthenticateCognitoConfig = None, AuthenticateOIDCConfig = None,
     actJwtValidationConfig = None, FixedResponseConfig = None, RedirectConfig = None,
     ForwardConfig = Some \<lparr>forwardTargetGroups = [\<lparr>tupleARN = Inr arn, tupleWeight = Some 1\<rparr>], forwardStickiness = None\<rparr>\<rparr>"

definition exSDKAction :: "string \<Rightarrow> sdkAction" where
  "exSDKAction arn = \<lparr>sactType = ''forward'', sactCognito = None, sactOidc = None, sactJwt = None, sactFixedResponse = None,
     sactRedirect = None, sactForward = Some \<lparr>sforwardTargetGroups = [\<lparr>stupleArn = Some arn, stupleWeight = Some 1\<rparr>],
       sforwardStickiness = None\<rparr>, sactTargetGroupArn = None, sactOrder = Some 1\<rparr>"

definition exLS :: "int \<Rightarrow> string \<Rightarrow> Listener" where
  "exLS port proto = \<lparr>lsStack = \<lparr>Namespace = ''ns'', Name = ''svc''\<rparr>, lsID = Itoa port,
     lsSpec = \<lparr>lsLoadBalancerARN = Inr ''lb'', lsPort = port, lsProtocol = proto, lsDefaultActions = [exAction ''tg1''],
       lsCertificates = [Inr ''cert1'', Inr ''cert2''], lsSSLPolicy = Some ''policy'', lsALPNPolicy = [],
       lsMutualAuthentication = None, lsTags = [], lsAttributes = []\<rparr>\<rparr>"

definition exSDKLS :: "int \<Rightarrow> string \<Rightarrow> ListenerWithTags" where
  "exSDKLS port arn = \<lparr>sdkObj = \<lparr>descArn = Some arn, descVpcId = None, descObj =
     \<lparr>sPort = Some port, sLSProtocol = ''TLS'', sDefaultActions = [exSDKAction ''tg0''], sCertificates = [Some ''cert0''],
      sSslPolicy = Some ''policy'', sAlpnPolicy = [''HTTP2Only''],
      sMutualAuthentication = Some \<lparr>smtlsMode = Some ''passthrough'', smtlsTrustStoreArn = None, smtlsIgnoreExpiry = None,
        smtlsAdvertise = ''''\<rparr>\<rparr>\<rparr>, sdkTags = None\<rparr>"


section \<open>The settings converge\<close>

text \<open>
  What the API documents of \<open>ModifyListener\<close>: it replaces the properties the request specifies, the others
  remain unchanged, except that a listener whose new protocol is not a secure one loses its default
  certificate and its security policy. An empty list or an unset field specifies nothing.
\<close>

definition modified :: "sdkListener \<Rightarrow> sdkListener \<Rightarrow> sdkListener \<Rightarrow> bool" where
  "modified req old new \<longleftrightarrow>
     sPort new = sPort req \<and> sLSProtocol new = sLSProtocol req
   \<and> sDefaultActions new = (if sDefaultActions req = [] then sDefaultActions old else sDefaultActions req)
   \<and> sCertificates new = (if sCertificates req \<noteq> [] then sCertificates req
        else if sLSProtocol req \<in> {''HTTPS'', ''TLS''} then sCertificates old else [])
   \<and> sSslPolicy new = (if sSslPolicy req \<noteq> None then sSslPolicy req
        else if sLSProtocol req \<in> {''HTTPS'', ''TLS''} then sSslPolicy old else None)
   \<and> sAlpnPolicy new = (if sAlpnPolicy req = [] then sAlpnPolicy old else sAlpnPolicy req)
   \<and> sMutualAuthentication new = (if sMutualAuthentication req = None then sMutualAuthentication old
        else sMutualAuthentication req)"

definition modify_ok :: "'w listener_api \<Rightarrow> ('w \<Rightarrow> string option \<Rightarrow> sdkListener) \<Rightarrow> bool" where
  "modify_ok api get \<longleftrightarrow> (\<forall>req w w'. ModifyListener api req w = (Inr (), w') \<longrightarrow>
     modified (mListener req) (get w (mListenerArn req)) (get w' (mListenerArn req)))"

lemma optEqual_refl [simp]: "(\<And>a. eq a a) \<Longrightarrow> optEqual eq x x"
  by (simp add: optEqual_def split: option.splits)

lemma actionEqual_refl [simp]: "actionEqual a a"
  by (simp add: actionEqual_def cognitoEqual_def oidcEqual_def forwardEqual_def mapEqual_def list_all_iff)

lemma actionsEqual_refl [simp]: "actionsEqual as as"
  by (simp add: actionsEqual_def list.rel_refl)

lemma ALPN_modified:
  assumes "new = (if req = [] then old else req)"
    "req = (if enhanced \<and> \<not> length desired > 0 \<and> \<not> alpnNilOrNone old then alpnNone
            else if length desired \<noteq> 0 then desired else [])"
  shows "\<not> isALPNDrifted enhanced desired new"
  using assms by (auto simp: isALPNDrifted_def alpnNilOrNone_def alpnNone_def)

lemma MTLS_modified:
  assumes "new = (if req = None then old else req)" "enhanced \<or> desired \<noteq> None"
    "desired = buildSDKMutualAuthenticationConfig c"
    "req = (if enhanced \<and> desired = None \<and> (case old of None \<Rightarrow> False | Some a \<Rightarrow> \<not> mtlsNilOrOff a) then Some mTLSOff
            else desired)"
  shows "\<not> isMTLSDrifted desired new"
  using assms
  by (cases c) (auto simp: isMTLSDrifted_def mTLSOff_def mtlsNilOrOff_def buildSDKMutualAuthenticationConfig_def
      split: option.splits if_splits)

lemma modified_stable:
  assumes "buildSDKActions gates (lsDefaultActions spec) = Inr acts" "acts \<noteq> []"
    "lsCertificates spec \<noteq> [] \<or> lsProtocol spec \<notin> {''HTTPS'', ''TLS''}"
    "certs = fst (buildSDKCertificates (lsCertificates spec))"
    "mtls = buildSDKMutualAuthenticationConfig (lsMutualAuthentication spec)"
    "modified (mListener (buildSDKModifyListenerInput spec acts certs (enhanced \<and> isRemoveMTLS old mtls) (enhanced \<and> isRemoveALPN old spec)))
       (descObj (sdkObj old)) (descObj (sdkObj new))"
  shows "\<not> isSDKListenerSettingsDrifted enhanced spec new acts certs mtls"
proof -
  let ?o = "descObj (sdkObj old)" and ?n = "descObj (sdkObj new)"
  have S: "sPort ?n = Some (lsPort spec)" "sLSProtocol ?n = lsProtocol spec" "sDefaultActions ?n = acts"
    using assms(2,6) by (simp_all add: modified_def buildSDKModifyListenerInput_def)
  have C: "sCertificates ?n = certs"
    using assms(3,4,6) by (cases "lsCertificates spec")
      (simp_all add: modified_def buildSDKModifyListenerInput_def buildSDKCertificates_def)
  have P: "\<not> (lsSSLPolicy spec \<noteq> None \<and> ToString (lsSSLPolicy spec) \<noteq> ToString (sSslPolicy ?n))"
    using assms(6) by (simp add: modified_def buildSDKModifyListenerInput_def)
  have "\<not> isALPNDrifted enhanced (lsALPNPolicy spec) (sAlpnPolicy ?n)"
  proof (rule ALPN_modified [OF _ refl])
    show "sAlpnPolicy ?n = (if (if enhanced \<and> \<not> 0 < length (lsALPNPolicy spec) \<and> \<not> alpnNilOrNone (sAlpnPolicy ?o) then alpnNone
        else if length (lsALPNPolicy spec) \<noteq> 0 then lsALPNPolicy spec else []) = [] then sAlpnPolicy ?o
        else (if enhanced \<and> \<not> 0 < length (lsALPNPolicy spec) \<and> \<not> alpnNilOrNone (sAlpnPolicy ?o) then alpnNone
        else if length (lsALPNPolicy spec) \<noteq> 0 then lsALPNPolicy spec else []))"
      using assms(6) by (simp add: modified_def buildSDKModifyListenerInput_def isRemoveALPN_def)
  qed
  moreover have "\<not> isMTLSDrifted mtls (sMutualAuthentication ?n)" if "enhanced \<or> mtls \<noteq> None"
  proof (rule MTLS_modified [OF _ that assms(5) refl])
    show "sMutualAuthentication ?n = (if (if enhanced \<and> mtls = None \<and> (case sMutualAuthentication ?o of None \<Rightarrow> False
        | Some a \<Rightarrow> \<not> mtlsNilOrOff a) then Some mTLSOff else mtls) = None then sMutualAuthentication ?o
        else (if enhanced \<and> mtls = None \<and> (case sMutualAuthentication ?o of None \<Rightarrow> False
        | Some a \<Rightarrow> \<not> mtlsNilOrOff a) then Some mTLSOff else mtls))"
      using assms(6) by (cases mtls) (simp_all add: modified_def buildSDKModifyListenerInput_def isRemoveMTLS_def assms(5) [symmetric])
  qed
  ultimately show ?thesis using S C P
    by (cases "enhanced \<or> mtls \<noteq> None") (simp_all add: isSDKListenerSettingsDrifted_def Let_def ToInt32_def)
qed


text \<open>A cloud in memory with one listener and its extra certificates.\<close>

record lsCloud =
  lcListener :: sdkListener
  lcCerts :: "(string option, string list) gomap"

definition applyModify :: "sdkListener \<Rightarrow> sdkListener \<Rightarrow> sdkListener" where
  "applyModify req old = \<lparr>sPort = sPort req, sLSProtocol = sLSProtocol req,
     sDefaultActions = (if sDefaultActions req = [] then sDefaultActions old else sDefaultActions req),
     sCertificates = (if sCertificates req \<noteq> [] then sCertificates req
       else if sLSProtocol req \<in> {''HTTPS'', ''TLS''} then sCertificates old else []),
     sSslPolicy = (if sSslPolicy req \<noteq> None then sSslPolicy req
       else if sLSProtocol req \<in> {''HTTPS'', ''TLS''} then sSslPolicy old else None),
     sAlpnPolicy = (if sAlpnPolicy req = [] then sAlpnPolicy old else sAlpnPolicy req),
     sMutualAuthentication = (if sMutualAuthentication req = None then sMutualAuthentication old
       else sMutualAuthentication req)\<rparr>"

definition memListener :: "lsCloud listener_api" where
  "memListener = \<lparr>CreateListener = (\<lambda>_ w. (Inr [], w)),
     ModifyListener = (\<lambda>req w. (Inr (), w\<lparr>lcListener := applyModify (mListener req) (lcListener w)\<rparr>)),
     DeleteListener = (\<lambda>_ w. (Inr (), w)),
     DescribeListenerCertificates = (\<lambda>arn w. (Inr ((Some ''cert1'', Some True) #
       map (\<lambda>c. (Some c, Some False)) (mget0 [] (lcCerts w) arn)), w)),
     AddListenerCertificates = (\<lambda>arn c w. (Inr (), w\<lparr>lcCerts := mput arn (c # mget0 [] (lcCerts w) arn) (lcCerts w)\<rparr>)),
     RemoveListenerCertificates = (\<lambda>arn c w. (Inr (), w\<lparr>lcCerts := mput arn (filter (\<lambda>x. x \<noteq> c)
       (mget0 [] (lcCerts w) arn)) (lcCerts w)\<rparr>)),
     LSAttributes = \<lparr>DescribeAttributes = (\<lambda>_ w. (Inr [], w)), ModifyAttributes = (\<lambda>_ _ w. (Inr (), w))\<rparr>\<rparr>"

definition exLSCfg :: "lsCloud listener_manager_cfg" where
  "exLSCfg = \<lparr>lsApi = memListener, lsGates = NewFeatureGates, enhancedDefaultingPolicyEnabled = True, lsExistencePolls = 3\<rparr>"

definition exLSCloud :: lsCloud where
  "exLSCloud = \<lparr>lcListener = descObj (sdkObj (exSDKLS 443 ''ls'')), lcCerts = [(Some ''ls'', [''cert0'', ''cert1''])]\<rparr>"

lemma modify_ok_mem: "modify_ok memListener (\<lambda>w arn. lcListener w)"
  by (auto simp: modify_ok_def memListener_def modified_def applyModify_def)

lemma exLS_update: "fst (updateSDKListenerWithSettings exLSCfg (exLS 443 ''TLS'') (exSDKLS 443 ''ls'') exLSCloud) = Inr ()"
  by code_simp


section \<open>The extra certificates converge\<close>

text \<open>
  What the API documents of the certificates of a listener: the list has the default certificate and the extra
  ones, apart by \<open>IsDefault\<close>; adding one adds it to the extra ones, removing one removes it, of that listener only.
\<close>

definition certs_ok :: "'w listener_api \<Rightarrow> ('w \<Rightarrow> string option \<Rightarrow> string set) \<Rightarrow> bool" where
  "certs_ok api extra \<longleftrightarrow>
     (\<forall>arn w cs w'. DescribeListenerCertificates api arn w = (Inr cs, w') \<longrightarrow>
        extra w' = extra w \<and> {ToString c |c d. (c, d) \<in> set cs \<and> d \<noteq> Some True} = extra w arn)
   \<and> (\<forall>arn c w w'. AddListenerCertificates api arn c w = (Inr (), w') \<longrightarrow> extra w' = (extra w)(arn := insert c (extra w arn)))
   \<and> (\<forall>arn c w w'. RemoveListenerCertificates api arn c w = (Inr (), w') \<longrightarrow> extra w' = (extra w)(arn := extra w arn - {c}))"

lemma removeCerts_run:
  assumes "certs_ok api extra" "io_iter (RemoveListenerCertificates api arn) cs w = (Inr (), w')"
  shows "extra w' = (extra w)(arn := extra w arn - set cs)"
  using assms(2)
proof (induction cs arbitrary: w)
  case (Cons c cs)
  then obtain w1 where w1: "RemoveListenerCertificates api arn c w = (Inr (), w1)"
      "io_iter (RemoveListenerCertificates api arn) cs w1 = (Inr (), w')"
    by (auto split: prod.splits sum.splits)
  have "extra w1 = (extra w)(arn := extra w arn - {c})"
    using assms(1) w1(1) unfolding certs_ok_def by blast
  then have "extra w' = (extra w)(arn := extra w arn - {c} - set cs)"
    unfolding Cons.IH [OF w1(2)] by (simp only: fun_upd_upd fun_upd_same)
  then show ?case by (simp only: list.set Diff_insert2 [of _ c "set cs"])
qed simp

lemma addCerts_run:
  assumes "certs_ok api extra" "io_iter (AddListenerCertificates api arn) cs w = (Inr (), w')"
  shows "extra w' = (extra w)(arn := extra w arn \<union> set cs)"
  using assms(2)
proof (induction cs arbitrary: w)
  case (Cons c cs)
  then obtain w1 where w1: "AddListenerCertificates api arn c w = (Inr (), w1)"
      "io_iter (AddListenerCertificates api arn) cs w1 = (Inr (), w')"
    by (auto split: prod.splits sum.splits)
  have "extra w1 = (extra w)(arn := insert c (extra w arn))"
    using assms(1) w1(1) unfolding certs_ok_def by blast
  then have "extra w' = (extra w)(arn := insert c (extra w arn) \<union> set cs)"
    unfolding Cons.IH [OF w1(2)] by (simp only: fun_upd_upd fun_upd_same)
  then show ?case by (simp only: list.set Un_insert_left Un_insert_right)
qed simp

text \<open>
  C33. The certificates of a secure listener: when the update returns without an error, the extra certificates
  of the listener are exactly those of the resource, the default certificate among them, whatever the listener
  had before; a new listener, which starts with none, gets them all; no other listener's certificates change.
\<close>

theorem listener_certificates_converge:
  assumes "certs_ok api extra" "updateSDKListenerWithExtraCertificates api resLS sdkLS isNew w = (Inr (), w')"
    "lsSSLPolicy (lsSpec resLS) \<noteq> None \<or> sSslPolicy (descObj (sdkObj sdkLS)) \<noteq> None"
    "isNew \<longrightarrow> extra w (descArn (sdkObj sdkLS)) = {}"
  shows "extra w' = (extra w)(descArn (sdkObj sdkLS) := (\<lambda>c. case c of Inl _ \<Rightarrow> '''' | Inr arn \<Rightarrow> arn) ` set (lsCertificates (lsSpec resLS)))"
proof -
  let ?arn = "descArn (sdkObj sdkLS)"
  define desired where "desired = map ToString (snd (buildSDKCertificates (lsCertificates (lsSpec resLS))))"
  have D: "set desired = (\<lambda>c. case c of Inl _ \<Rightarrow> '''' | Inr arn \<Rightarrow> arn) ` set (lsCertificates (lsSpec resLS))"
    by (cases "lsCertificates (lsSpec resLS)") (auto simp: desired_def buildSDKCertificates_def buildSDKCertificate_def)
  define fetch where "fetch = (if isNew then io_ret [] else fetchSDKListenerExtraCertificateARNs api sdkLS)"
  define k where "k = (\<lambda>current. io_bind (io_iter (RemoveListenerCertificates api ?arn) (filter (\<lambda>c. c \<notin> set desired) (set_list current)))
    (\<lambda>_. io_iter (AddListenerCertificates api ?arn) (filter (\<lambda>c. c \<notin> set current) (set_list desired))))"
  have run: "io_bind fetch k w = (Inr (), w')"
    using assms(2,3) by (auto simp: updateSDKListenerWithExtraCertificates_def Let_def desired_def fetch_def k_def)
  obtain current w1 where w1: "fetch w = (Inr current, w1)" "k current w1 = (Inr (), w')"
    using run by (auto simp: io_bind_def split: prod.splits sum.splits)
  have C: "extra w1 = extra w \<and> set current = extra w ?arn"
  proof (cases isNew)
    case True
    then show ?thesis using w1(1) assms(4) by (simp add: fetch_def)
  next
    case False
    then obtain cs where cs: "DescribeListenerCertificates api ?arn w = (Inr cs, w1)"
        "current = map (\<lambda>(arn, d). ToString arn) (filter (\<lambda>(arn, isDefault). isDefault \<noteq> Some True) cs)"
      using w1(1) by (auto simp: fetch_def fetchSDKListenerExtraCertificateARNs_def io_bind_def split: prod.splits sum.splits)
    have "extra w1 = extra w \<and> {ToString c |c d. (c, d) \<in> set cs \<and> d \<noteq> Some True} = extra w ?arn"
      using assms(1) cs(1) unfolding certs_ok_def by blast
    moreover have "set current = {ToString c |c d. (c, d) \<in> set cs \<and> d \<noteq> Some True}"
      unfolding cs(2) by force
    ultimately show ?thesis by simp
  qed
  obtain w2 where w2: "io_iter (RemoveListenerCertificates api ?arn) (filter (\<lambda>c. c \<notin> set desired) (set_list current)) w1 = (Inr (), w2)"
      "io_iter (AddListenerCertificates api ?arn) (filter (\<lambda>c. c \<notin> set current) (set_list desired)) w2 = (Inr (), w')"
    using w1(2) by (auto simp: k_def io_bind_def split: prod.splits sum.splits)
  have "extra w' = (extra w)(?arn := extra w ?arn - (set current - set desired) \<union> (set desired - set current))"
    using removeCerts_run [OF assms(1) w2(1)] addCerts_run [OF assms(1) w2(2)] C by (simp add: set_diff_eq)
  moreover have "extra w ?arn - (set current - set desired) \<union> (set desired - set current) = set desired"
    using C by auto
  ultimately show ?thesis unfolding D by simp
qed

definition extraOf :: "lsCloud \<Rightarrow> string option \<Rightarrow> string set" where
  "extraOf w arn = set (mget0 [] (lcCerts w) arn)"

lemma certs_ok_mem: "certs_ok memListener extraOf"
  by (auto simp: certs_ok_def memListener_def extraOf_def fun_eq_iff image_iff)
    (metis ToString_simps(2) option.inject)

lemma exLS_certs: "fst (updateSDKListenerWithExtraCertificates memListener (exLS 443 ''TLS'') (exSDKLS 443 ''ls'') False exLSCloud) = Inr ()"
  by code_simp

theorem listener_certificates_converge_witness:
  "\<exists>w'. updateSDKListenerWithExtraCertificates memListener (exLS 443 ''TLS'') (exSDKLS 443 ''ls'') False exLSCloud = (Inr (), w')
     \<and> extraOf w' = (extraOf exLSCloud)(Some ''ls'' := {''cert1'', ''cert2''})"
proof -
  obtain w' where run: "updateSDKListenerWithExtraCertificates memListener (exLS 443 ''TLS'') (exSDKLS 443 ''ls'') False exLSCloud
      = (Inr (), w')"
    using exLS_certs by (metis prod.collapse)
  then show ?thesis
    using listener_certificates_converge [OF certs_ok_mem run] by (simp add: exLS_def exSDKLS_def)
qed

section \<open>Forward actions without the weighted form\<close>

text \<open>
  When the feature gate \<open>WeightedTargetGroups\<close> is off, a forward action names its target group only in the field
  \<open>TargetGroupArn\<close>, which the comparison of actions ignores: two such actions are equal whatever their
  target groups are, so a change of the target group alone is not seen as drift.
\<close>

lemma forward_change_undetected:
  assumes "\<not> Enabled gates ''WeightedTargetGroups''"
  shows "\<exists>xs ys. buildSDKActions gates [exAction tg1] = Inr xs \<and> buildSDKActions gates [exAction tg2] = Inr ys
     \<and> map sactTargetGroupArn xs = [Some tg1] \<and> map sactTargetGroupArn ys = [Some tg2] \<and> actionsEqual xs ys"
  using assms
  by (simp add: buildSDKActions_def buildSDKAction_def exAction_def buildSDKForwardActionConfig_def Let_def
      actionsEqual_def sliceStable_def actionEqual_def optEqual_def)

end
