(* ===== verification/Target_Group_Binding.thy ===== *)
theory Target_Group_Binding
  imports Listener Networking
begin

text \<open>
  The bindings of a stack, which tell the binding controller which pods or nodes serve a target group:
  the resource (\<^verbatim>\<open>pkg/model/elbv2/k8s/target_group_binding.go\<close>), its manager and its synthesizer
  (\<^verbatim>\<open>pkg/deploy/elbv2/target_group_binding_manager.go\<close>, \<^verbatim>\<open>target_group_binding_synthesizer.go\<close>), and the
  synthesizer of the targets of a front-end NLB
  (\<^verbatim>\<open>frontend_nlb_target_synthesizer.go\<close>, \<^verbatim>\<open>frontend_nlb_targets_manager.go\<close>).

  The Kubernetes client is a record of functions. The metrics collector is left out. The polling functions of
  the client library run a number of rounds that the interval and the timeout give (300 for 200 ms and 60 s).
  \<open>equality.Semantic.DeepEqual\<close> compares maps as maps and takes nil and empty collections as equal.
\<close>

section \<open>The resource and the Kubernetes object\<close>

record LabelSelector =
  matchLabels :: string_map
  matchExpressions :: "(string \<times> string \<times> string list) list"

record resNetworkingPeer =
  resIPBlock :: "string option"
  resSecurityGroup :: "token option"

record resIngressRule =
  resFrom :: "resNetworkingPeer list"
  resPorts :: "NetworkingPort list"

record TargetGroupBindingTemplate =
  tplNamespace :: string
  tplName :: string
  tplAnnotations :: string_map
  tplLabels :: "string_map option"
  tplTargetGroupARN :: token
  tplTargetType :: "string option"
  tplServiceRef :: "string \<times> IntOrString"
  tplNetworking :: "resIngressRule list option"
  tplNodeSelector :: "LabelSelector option"
  tplIPAddressType :: string
  tplVpcID :: string
  tplMultiCluster :: bool
  tplProtocol :: "string option"

record TargetGroupBindingResource =
  tgbStack :: StackID
  tgbID :: string
  tgbTemplate :: TargetGroupBindingTemplate

record TargetGroupBindingSpec =
  TargetGroupARN :: string
  TargetGroupName :: string
  tgbMultiCluster :: bool
  tgbTargetType :: "string option"
  TargetGroupProtocol :: "string option"
  ServiceRef :: "string \<times> IntOrString"
  tgbNetworking :: "NetworkingIngressRule list option"
  NodeSelector :: "LabelSelector option"
  tgbIPAddressType :: "string option"
  tgbVpcID :: string
  IamRoleArnToAssume :: string
  AssumeRoleExternalId :: string
  RegisterTargetsWithPodAvailabilityZone :: "bool option"

record TargetGroupBinding =
  k8sNamespace :: string
  k8sName :: string
  k8sUID :: string
  k8sAnnotations :: string_map
  k8sLabels :: string_map
  k8sGeneration :: int
  k8sSpec :: TargetGroupBindingSpec
  ObservedGeneration :: "int option"

record TargetGroupBindingResourceStatus =
  refNamespace :: string
  refName :: string
  refUID :: string

record 'w tgb_client =
  k8sCreate :: "TargetGroupBinding \<Rightarrow> ('w, TargetGroupBinding) io"
  k8sPatch :: "TargetGroupBinding \<Rightarrow> TargetGroupBinding \<Rightarrow> ('w, TargetGroupBinding) io"
  k8sDelete :: "NamespacedName \<Rightarrow> ('w, unit) io"
  k8sGet :: "NamespacedName \<Rightarrow> ('w, TargetGroupBinding) io"
  k8sList :: "string_map \<Rightarrow> ('w, TargetGroupBinding list) io"

record 'w tgb_manager_cfg =
  tgbClient :: "'w tgb_client"
  tgbTracking :: defaultProvider
  waitTGBObservedPolls :: nat
  waitTGBDeletionPolls :: nat

section \<open>The manager\<close>

definition AnnotationCheckPoint :: string where
  "AnnotationCheckPoint = ''elbv2.k8s.aws/checkpoint''"

definition AnnotationCheckPointTimestamp :: string where
  "AnnotationCheckPointTimestamp = AnnotationCheckPoint @ ''-timestamp''"

definition buildK8sNetworkingPeer :: "resNetworkingPeer \<Rightarrow> NetworkingPeer res" where
  "buildK8sNetworkingPeer peer =
     (case resIPBlock peer of
        Some b \<Rightarrow> Inr \<lparr>peerSecurityGroup = None, peerIPBlock = Some b\<rparr>
      | None \<Rightarrow>
          (case resSecurityGroup peer of
             Some groupToken \<Rightarrow> res_bind groupToken (\<lambda>groupID. Inr \<lparr>peerSecurityGroup = Some groupID, peerIPBlock = None\<rparr>)
           | None \<Rightarrow> Inl (Errorf ''either ipBlock or securityGroup should be specified'' [])))"

fun buildK8sPeers :: "resNetworkingPeer list \<Rightarrow> NetworkingPeer list res" where
  "buildK8sPeers [] = Inr []"
| "buildK8sPeers (p # ps) = res_bind (buildK8sNetworkingPeer p) (\<lambda>q. res_bind (buildK8sPeers ps) (\<lambda>qs. Inr (q # qs)))"

fun buildK8sTargetGroupBindingNetworking :: "resIngressRule list \<Rightarrow> NetworkingIngressRule list res" where
  "buildK8sTargetGroupBindingNetworking [] = Inr []"
| "buildK8sTargetGroupBindingNetworking (rule # rules) =
     res_bind (buildK8sPeers (resFrom rule)) (\<lambda>peers.
     res_bind (buildK8sTargetGroupBindingNetworking rules) (\<lambda>rest.
       Inr (\<lparr>ruleFrom = peers, rulePorts = resPorts rule\<rparr> # rest)))"

definition buildK8sTargetGroupBindingSpec :: "TargetGroupBindingResource \<Rightarrow> TargetGroupBindingSpec res" where
  "buildK8sTargetGroupBindingSpec resTGB =
     (let t = tgbTemplate resTGB in
      res_bind (tplTargetGroupARN t) (\<lambda>tgARN.
      res_bind (case tplNetworking t of
                  None \<Rightarrow> Inr None
                | Some rules \<Rightarrow> res_bind (buildK8sTargetGroupBindingNetworking rules) (\<lambda>n. Inr (Some n))) (\<lambda>networking.
        Inr \<lparr>TargetGroupARN = tgARN, TargetGroupName = '''', tgbMultiCluster = tplMultiCluster t,
             tgbTargetType = tplTargetType t, TargetGroupProtocol = tplProtocol t, ServiceRef = tplServiceRef t,
             tgbNetworking = networking, NodeSelector = tplNodeSelector t, tgbIPAddressType = Some (tplIPAddressType t),
             tgbVpcID = tplVpcID t, IamRoleArnToAssume = '''', AssumeRoleExternalId = '''',
             RegisterTargetsWithPodAvailabilityZone = None\<rparr>)))"

definition selectorEqual :: "LabelSelector \<Rightarrow> LabelSelector \<Rightarrow> bool" where
  "selectorEqual x y \<longleftrightarrow> mapEqual (matchLabels x) (matchLabels y) \<and> matchExpressions x = matchExpressions y"

definition tgbSpecEqual :: "TargetGroupBindingSpec \<Rightarrow> TargetGroupBindingSpec \<Rightarrow> bool" where
  "tgbSpecEqual x y \<longleftrightarrow> optEqual selectorEqual (NodeSelector x) (NodeSelector y) \<and> x\<lparr>NodeSelector := None\<rparr> = y\<lparr>NodeSelector := None\<rparr>"

definition tgbAnnotationsSame :: "TargetGroupBindingResource \<Rightarrow> TargetGroupBinding \<Rightarrow> bool" where
  "tgbAnnotationsSame resTGB k8sTGB =
     mapEqual (filter (\<lambda>(k, v). k \<noteq> AnnotationCheckPointTimestamp \<and> k \<noteq> AnnotationCheckPoint) (k8sAnnotations k8sTGB))
       (tplAnnotations (tgbTemplate resTGB))"

definition buildResTargetGroupBindingStatus :: "TargetGroupBinding \<Rightarrow> TargetGroupBindingResourceStatus" where
  "buildResTargetGroupBindingStatus tgb = \<lparr>refNamespace = k8sNamespace tgb, refName = k8sName tgb, refUID = k8sUID tgb\<rparr>"

definition tgbLabels :: "defaultProvider \<Rightarrow> TargetGroupBindingResource \<Rightarrow> string_map" where
  "tgbLabels p resTGB =
     (let labels = StackLabels p (tgbStack resTGB)
      in case tplLabels (tgbTemplate resTGB) of None \<Rightarrow> labels | Some ls \<Rightarrow> MergeStringMap [labels, ls])"

definition k8sTGBKey :: "TargetGroupBinding \<Rightarrow> NamespacedName" where
  "k8sTGBKey tgb = (k8sNamespace tgb, k8sName tgb)"

definition TargetGroupBindingManager_Create :: "'w tgb_manager_cfg \<Rightarrow> TargetGroupBindingResource \<Rightarrow>
    ('w, TargetGroupBindingResourceStatus) io" where
  "TargetGroupBindingManager_Create m resTGB =
     io_bind (io_lift (buildK8sTargetGroupBindingSpec resTGB)) (\<lambda>spec.
     io_bind (k8sCreate (tgbClient m) \<lparr>k8sNamespace = tplNamespace (tgbTemplate resTGB), k8sName = tplName (tgbTemplate resTGB),
         k8sUID = '''', k8sAnnotations = tplAnnotations (tgbTemplate resTGB), k8sLabels = tgbLabels (tgbTracking m) resTGB,
         k8sGeneration = 0, k8sSpec = spec, ObservedGeneration = None\<rparr>) (\<lambda>k8sTGB.
     io_ret (buildResTargetGroupBindingStatus k8sTGB)))"

text \<open>\<open>wait.PollImmediateUntil\<close>: check at once, then after every interval, until the context is done.\<close>

fun pollImmediate :: "nat \<Rightarrow> ('w, bool) io \<Rightarrow> ('w, unit) io" where
  "pollImmediate polls cond w =
     (case cond w of
        (Inl err, w') \<Rightarrow> (Inl err, w')
      | (Inr True, w') \<Rightarrow> (Inr (), w')
      | (Inr False, w') \<Rightarrow> (case polls of 0 \<Rightarrow> (Inl timeoutError, w') | Suc n \<Rightarrow> pollImmediate n cond w'))"

declare pollImmediate.simps [simp del]

definition waitUntilTargetGroupBindingObserved :: "'w tgb_manager_cfg \<Rightarrow> TargetGroupBinding \<Rightarrow> ('w, unit) io" where
  "waitUntilTargetGroupBindingObserved m tgb =
     pollImmediate (waitTGBObservedPolls m) (io_bind (k8sGet (tgbClient m) (k8sTGBKey tgb)) (\<lambda>observed.
       io_ret ((case ObservedGeneration observed of None \<Rightarrow> 0 | Some g \<Rightarrow> g) \<ge> k8sGeneration tgb)))"

definition isNotFound :: "go_error \<Rightarrow> bool" where
  "isNotFound err \<longleftrightarrow> errorCode err = Some ''NotFound''"

definition goneCheck :: "'w tgb_client \<Rightarrow> NamespacedName \<Rightarrow> ('w, bool) io" where
  "goneCheck client key w =
     (case k8sGet client key w of
        (Inl err, w') \<Rightarrow> if isNotFound err then (Inr True, w') else (Inl err, w')
      | (Inr _, w') \<Rightarrow> (Inr False, w'))"

definition waitUntilTargetGroupBindingDeleted :: "'w tgb_manager_cfg \<Rightarrow> TargetGroupBinding \<Rightarrow> ('w, unit) io" where
  "waitUntilTargetGroupBindingDeleted m tgb = pollImmediate (waitTGBDeletionPolls m) (goneCheck (tgbClient m) (k8sTGBKey tgb))"

definition TargetGroupBindingManager_Update :: "'w tgb_manager_cfg \<Rightarrow> TargetGroupBindingResource \<Rightarrow> TargetGroupBinding \<Rightarrow>
    ('w, TargetGroupBindingResourceStatus) io" where
  "TargetGroupBindingManager_Update m resTGB k8sTGB =
     io_bind (io_lift (buildK8sTargetGroupBindingSpec resTGB)) (\<lambda>spec.
       let calculatedLabels = tgbLabels (tgbTracking m) resTGB
       in if tgbSpecEqual (k8sSpec k8sTGB) spec \<and> mapEqual (k8sLabels k8sTGB) calculatedLabels \<and> tgbAnnotationsSame resTGB k8sTGB
          then io_ret (buildResTargetGroupBindingStatus k8sTGB)
          else io_bind (k8sPatch (tgbClient m) k8sTGB
                 (k8sTGB\<lparr>k8sSpec := spec, k8sAnnotations := tplAnnotations (tgbTemplate resTGB), k8sLabels := calculatedLabels\<rparr>)) (\<lambda>patched.
               io_bind (waitUntilTargetGroupBindingObserved m patched) (\<lambda>_.
               io_ret (buildResTargetGroupBindingStatus patched))))"

definition TargetGroupBindingManager_Delete :: "'w tgb_manager_cfg \<Rightarrow> TargetGroupBinding \<Rightarrow> ('w, unit) io" where
  "TargetGroupBindingManager_Delete m tgb =
     io_bind (k8sDelete (tgbClient m) (k8sTGBKey tgb)) (\<lambda>_.
       wrapErr ''failed to wait targetGroupBinding deletion'' (waitUntilTargetGroupBindingDeleted m tgb))"

definition targetGroupBindingManager :: "'w tgb_manager_cfg \<Rightarrow>
    (TargetGroupBindingResource, TargetGroupBinding, TargetGroupBindingResourceStatus, 'w) resource_manager" where
  "targetGroupBindingManager m = \<lparr>mCreate = TargetGroupBindingManager_Create m, mUpdate = TargetGroupBindingManager_Update m,
     mDelete = TargetGroupBindingManager_Delete m\<rparr>"

section \<open>The synthesizer\<close>

fun mapResTargetGroupBindingByARN :: "TargetGroupBindingResource list \<Rightarrow> (string, TargetGroupBindingResource) gomap \<Rightarrow>
    (string, TargetGroupBindingResource) gomap res" where
  "mapResTargetGroupBindingByARN [] m = Inr m"
| "mapResTargetGroupBindingByARN (r # rs) m =
     (case tplTargetGroupARN (tgbTemplate r) of
        Inl err \<Rightarrow> Inl err
      | Inr tgARN \<Rightarrow> mapResTargetGroupBindingByARN rs (mput tgARN r m))"

definition mapK8sTargetGroupBindingByARN :: "TargetGroupBinding list \<Rightarrow> (string, TargetGroupBinding) gomap" where
  "mapK8sTargetGroupBindingByARN tgbs = mbuild (\<lambda>tgb. TargetGroupARN (k8sSpec tgb)) (\<lambda>tgb. tgb) tgbs []"

definition matchResAndK8sTargetGroupBindings :: "TargetGroupBindingResource list \<Rightarrow> TargetGroupBinding list \<Rightarrow>
    ((TargetGroupBindingResource \<times> TargetGroupBinding) list \<times> TargetGroupBindingResource list \<times> TargetGroupBinding list) res" where
  "matchResAndK8sTargetGroupBindings resTGBs k8sTGBs =
     res_bind (mapResTargetGroupBindingByARN resTGBs []) (\<lambda>resTGBsByARN.
       Inr (matchByKey resTGBsByARN (mapK8sTargetGroupBindingByARN k8sTGBs)))"

definition findK8sTargetGroupBindings :: "'w tgb_manager_cfg \<Rightarrow> StackID \<Rightarrow> ('w, TargetGroupBinding list) io" where
  "findK8sTargetGroupBindings m sid = k8sList (tgbClient m) (StackLabels (tgbTracking m) sid)"

definition TargetGroupBinding_Synthesize ::
    "(TargetGroupBindingResource, TargetGroupBinding, TargetGroupBindingResourceStatus, 'w) resource_manager \<Rightarrow>
     ('w, TargetGroupBinding list) io \<Rightarrow> TargetGroupBindingResource list \<Rightarrow>
     ((TargetGroupBinding, TargetGroupBindingResourceStatus, 'w) synth, unit) io" where
  "TargetGroupBinding_Synthesize mgr findK8sTGBs resTGBs =
     io_bind (onCloud findK8sTGBs) (\<lambda>k8sTGBs.
     io_bind (io_lift (matchResAndK8sTargetGroupBindings resTGBs k8sTGBs)) (\<lambda>(matched, unmatchedRes, unmatched).
     io_bind (\<lambda>\<sigma>. (Inr (), \<sigma>\<lparr>deferred := unmatched\<rparr>)) (\<lambda>_.
     io_bind (io_iter (createRes mgr tgbID) unmatchedRes) (\<lambda>_.
     io_iter (updateRes mgr tgbID) matched))))"

definition TargetGroupBinding_PostSynthesize ::
    "(TargetGroupBindingResource, TargetGroupBinding, TargetGroupBindingResourceStatus, 'w) resource_manager \<Rightarrow>
     ((TargetGroupBinding, TargetGroupBindingResourceStatus, 'w) synth, unit) io" where
  "TargetGroupBinding_PostSynthesize mgr \<sigma> = io_iter (\<lambda>tgb. onCloud (mDelete mgr tgb)) (deferred \<sigma>) \<sigma>"

section \<open>The targets of a front-end NLB\<close>

record FrontendNlbTargetGroupState =
  feName :: string
  feTargetARN :: token
  feTargetPort :: int

type_synonym TargetDescription = "string option \<times> int option"

record 'w nlb_targets_api =
  RegisterTargets :: "string \<Rightarrow> TargetDescription list \<Rightarrow> ('w, unit) io"
  DeregisterTargets :: "string \<Rightarrow> TargetDescription list \<Rightarrow> ('w, unit) io"
  DescribeTargetHealth :: "string \<Rightarrow> ('w, TargetDescription option list) io"

definition NlbTargets_RegisterTargets :: "'w nlb_targets_api \<Rightarrow> string \<Rightarrow> TargetDescription \<Rightarrow> ('w, unit) io" where
  "NlbTargets_RegisterTargets api tgARN t = wrapErr ''failed to register targets'' (RegisterTargets api tgARN [t])"

definition NlbTargets_DeregisterTargets :: "'w nlb_targets_api \<Rightarrow> string \<Rightarrow> TargetDescription \<Rightarrow> ('w, unit) io" where
  "NlbTargets_DeregisterTargets api tgARN t = wrapErr ''failed to deregister targets'' (DeregisterTargets api tgARN [t])"

definition NlbTargets_ListTargets :: "'w nlb_targets_api \<Rightarrow> string \<Rightarrow> ('w, TargetDescription option list) io" where
  "NlbTargets_ListTargets api tgARN = DescribeTargetHealth api tgARN"

text \<open>A nil target, identifier or port that the sources dereference is a panic.\<close>

definition deregisterCurrentTarget :: "'w nlb_targets_api \<Rightarrow> TargetGroupWithTags \<Rightarrow> ('w, unit) io" where
  "deregisterCurrentTarget api sdkTG =
     (case descArn (sdkObj sdkTG) of
        None \<Rightarrow> io_fail (Errorf ''panic: nil pointer dereference'' [])
      | Some arn \<Rightarrow>
          io_bind (wrapErr (''failed to list current target for target group: '' @ arn) (NlbTargets_ListTargets api arn)) (\<lambda>currentTargets.
            case currentTargets of
              [] \<Rightarrow> io_ret ()
            | Some (Some targetID, Some port) # _ \<Rightarrow>
                wrapErr (''failed to deregister targets for target group: '' @ arn)
                  (NlbTargets_DeregisterTargets api arn (Some targetID, Some port))
            | _ \<Rightarrow> io_fail (Errorf ''panic: nil pointer dereference'' [])))"

definition FrontendNlb_Synthesize :: "'w nlb_targets_api \<Rightarrow> defaultFeatureGates \<Rightarrow> string \<Rightarrow> ('w, TargetGroupWithTags list) io \<Rightarrow>
    TargetGroup list \<Rightarrow> ('w, unit) io" where
  "FrontendNlb_Synthesize api gates resourceIDTagKey findSDKTargetGroups resTGs =
     io_bind findSDKTargetGroups (\<lambda>sdkTGs.
     io_bind (io_lift (matchResAndSDKTargetGroups gates resourceIDTagKey resTGs sdkTGs)) (\<lambda>(_, _, unmatched).
       io_iter (\<lambda>sdkTG. if sTargetType (descObj (sdkObj sdkTG)) \<noteq> ''alb'' then io_ret ()
                 else wrapErr (''failed to deregister target for the target group: '' @ ToString (descArn (sdkObj sdkTG)))
                        (deregisterCurrentTarget api sdkTG)) unmatched))"

definition filterALBTargetGroups :: "TargetGroup list \<Rightarrow> TargetGroup list" where
  "filterALBTargetGroups tgs = filter (\<lambda>tg. TargetType (tgSpec tg) = ''alb'') tgs"

definition targetIs :: "TargetDescription option list \<Rightarrow> string \<Rightarrow> bool" where
  "targetIs currentTargets desired =
     (case currentTargets of Some (Some targetID, _) # _ \<Rightarrow> targetID = desired | _ \<Rightarrow> False)"

definition registerFrontendTarget :: "'w nlb_targets_api \<Rightarrow> (string, FrontendNlbTargetGroupState) gomap \<Rightarrow> (string, TargetGroupStatus) gomap \<Rightarrow>
    TargetGroup \<Rightarrow> ('w, unit) io" where
  "registerFrontendTarget api desiredState tgStatus resTG =
     (case mget tgStatus (tgID resTG) of
        None \<Rightarrow> io_fail (Errorf ''panic: nil pointer dereference'' [])
      | Some arn \<Rightarrow>
          if arn = '''' then io_ret ()
          else io_bind (NlbTargets_ListTargets api arn) (\<lambda>currentTargets.
            case mget desiredState (TGName (tgSpec resTG)) of
              None \<Rightarrow> io_fail (Errorf ''panic: nil pointer dereference'' [])
            | Some st \<Rightarrow>
                io_bind (wrapErr ''failed to resolve the desiredTarget for target group: '' (io_lift (feTargetARN st))) (\<lambda>desiredTarget.
                  if targetIs currentTargets desiredTarget then io_ret ()
                  else (\<lambda>w. case NlbTargets_RegisterTargets api arn (Some desiredTarget, Some (feTargetPort st)) w of
                          (Inl err, w') \<Rightarrow>
                            (Inl (RequeueNeededAfter (''Failed to register target, retrying after deplay for target group: '' @ arn) 15), w')
                        | (Inr _, w') \<Rightarrow> (Inr (), w')))))"

definition FrontendNlb_PostSynthesize :: "'w nlb_targets_api \<Rightarrow> (string, FrontendNlbTargetGroupState) gomap option \<Rightarrow>
    (string, TargetGroupStatus) gomap \<Rightarrow> TargetGroup list \<Rightarrow> ('w, unit) io" where
  "FrontendNlb_PostSynthesize api desiredState tgStatus resTGs =
     (case desiredState of
        None \<Rightarrow> io_ret ()
      | Some st \<Rightarrow> io_iter (registerFrontendTarget api st tgStatus) (filterALBTargetGroups resTGs))"

section \<open>Correctness\<close>

abbreviation resTGBARN :: "TargetGroupBindingResource \<Rightarrow> string" where
  "resTGBARN r \<equiv> (case tplTargetGroupARN (tgbTemplate r) of Inl _ \<Rightarrow> '''' | Inr arn \<Rightarrow> arn)"

lemma mapResTargetGroupBindingByARN_ok:
  assumes "\<forall>r \<in> set rs. \<exists>arn. tplTargetGroupARN (tgbTemplate r) = Inr arn"
  shows "mapResTargetGroupBindingByARN rs m = Inr (mbuild resTGBARN (\<lambda>r. r) rs m)"
  using assms by (induction rs arbitrary: m) (auto split: sum.splits)

text \<open>
  C36. One run of the binding synthesizer: it pairs the bindings of the cluster with those of the stack by
  target group, creates a binding for exactly the target groups that have none, updates the paired ones, in that
  order and stopping at the first failure, and leaves the deletion of the others to the post-synthesis phase,
  when the listeners and rules no longer send traffic to their target groups. If some target group of the stack
  has no ARN yet, nothing is changed.
\<close>

theorem TargetGroupBinding_synthesis:
  assumes "findTGBs (cloud \<sigma>) = (Inr ss, w)" "distinct (map (\<lambda>s. TargetGroupARN (k8sSpec s)) ss)" "distinct (map resTGBARN rs)"
  shows "if \<forall>r \<in> set rs. \<exists>arn. tplTargetGroupARN (tgbTemplate r) = Inr arn
     then \<exists>m ur us. matching resTGBARN (\<lambda>s. Some (TargetGroupARN (k8sSpec s))) (\<lambda>s r. True) rs ss (m, ur, us)
        \<and> TargetGroupBinding_Synthesize mgr findTGBs rs \<sigma> =
            runPlan mgr tgbID (map CallCreate ur @ map (\<lambda>(r, s). CallUpdate r s) m) (\<sigma>\<lparr>cloud := w, deferred := us\<rparr>)
        \<and> TargetGroupBinding_PostSynthesize mgr (snd (TargetGroupBinding_Synthesize mgr findTGBs rs \<sigma>)) =
            runPlan mgr tgbID (map CallDelete us) (snd (TargetGroupBinding_Synthesize mgr findTGBs rs \<sigma>))
     else \<exists>err. TargetGroupBinding_Synthesize mgr findTGBs rs \<sigma> = (Inl err, \<sigma>\<lparr>cloud := w\<rparr>)"
proof (cases "\<forall>r \<in> set rs. \<exists>arn. tplTargetGroupARN (tgbTemplate r) = Inr arn")
  case True
  obtain m ur us where p: "matchByKey (mbuild resTGBARN (\<lambda>r. r) rs []) (mapK8sTargetGroupBindingByARN ss) = (m, ur, us)"
    by (metis prod_cases3)
  have M: "matching resTGBARN (\<lambda>s. Some (TargetGroupARN (k8sSpec s))) (\<lambda>s r. True) rs ss (m, ur, us)"
    using matchByKey_matching [OF assms(3,2)] p by (simp add: mapK8sTargetGroupBindingByARN_def)
  have mt: "matchResAndK8sTargetGroupBindings rs ss = Inr (m, ur, us)"
    by (simp add: matchResAndK8sTargetGroupBindings_def mapResTargetGroupBindingByARN_ok [OF True] p)
  let ?plan = "map CallCreate ur @ map (\<lambda>(r, s). CallUpdate r s) m"
  have run: "TargetGroupBinding_Synthesize mgr findTGBs rs \<sigma> = runPlan mgr tgbID ?plan (\<sigma>\<lparr>cloud := w, deferred := us\<rparr>)"
    using assms(1) mt by (simp add: TargetGroupBinding_Synthesize_def io_bind_def [of "onCloud findTGBs"] onCloud_def
        io_bind_def [of "io_lift _"] io_bind_def [of "\<lambda>\<sigma>. (Inr (), \<sigma>\<lparr>deferred := _\<rparr>)"] runPlan_create_update)
  have "deferred (snd (runPlan mgr tgbID ?plan (\<sigma>\<lparr>cloud := w, deferred := us\<rparr>))) = us"
    using runPlan_deferred [of mgr tgbID ?plan "\<sigma>\<lparr>cloud := w, deferred := us\<rparr>"] by (metis prod.collapse
        synth.select_convs(1) synth.surjective synth.update_convs(1))
  then have "TargetGroupBinding_PostSynthesize mgr (snd (TargetGroupBinding_Synthesize mgr findTGBs rs \<sigma>)) =
      runPlan mgr tgbID (map CallDelete us) (snd (TargetGroupBinding_Synthesize mgr findTGBs rs \<sigma>))"
    by (simp add: TargetGroupBinding_PostSynthesize_def run runPlan_deletes)
  then show ?thesis using True M run by auto
next
  case False
  have "\<exists>err. mapResTargetGroupBindingByARN rs m = Inl err" for m
    using False by (induction rs arbitrary: m) (auto split: sum.splits)
  then obtain err where "mapResTargetGroupBindingByARN rs [] = Inl err" by blast
  then have "TargetGroupBinding_Synthesize mgr findTGBs rs \<sigma> = (Inl err, \<sigma>\<lparr>cloud := w\<rparr>)"
    using assms(1) by (simp add: TargetGroupBinding_Synthesize_def io_bind_def onCloud_def matchResAndK8sTargetGroupBindings_def)
  then show ?thesis unfolding if_not_P [OF False] by blast
qed

text \<open>Example bindings.\<close>

definition exTGBRes :: "string \<Rightarrow> TargetGroupBindingResource" where
  "exTGBRes arn = \<lparr>tgbStack = \<lparr>Namespace = ''ns'', Name = ''svc''\<rparr>, tgbID = arn,
     tgbTemplate = \<lparr>tplNamespace = ''ns'', tplName = ''k8s-'' @ arn, tplAnnotations = [(''a'', ''1'')], tplLabels = None,
       tplTargetGroupARN = Inr arn, tplTargetType = Some ''ip'', tplServiceRef = (''svc'', IntVal 80),
       tplNetworking = Some [\<lparr>resFrom = [\<lparr>resIPBlock = None, resSecurityGroup = Some (Inr ''sg-1'')\<rparr>], resPorts = []\<rparr>],
       tplNodeSelector = None, tplIPAddressType = ''ipv4'', tplVpcID = ''vpc'', tplMultiCluster = False, tplProtocol = Some ''HTTP''\<rparr>\<rparr>"

definition exK8sTGB :: "string \<Rightarrow> TargetGroupBinding" where
  "exK8sTGB arn = \<lparr>k8sNamespace = ''ns'', k8sName = ''k8s-'' @ arn, k8sUID = ''u'', k8sAnnotations = [], k8sLabels = [], k8sGeneration = 1,
     k8sSpec = \<lparr>TargetGroupARN = arn, TargetGroupName = '''', tgbMultiCluster = False, tgbTargetType = None, TargetGroupProtocol = None,
       ServiceRef = (''svc'', IntVal 80), tgbNetworking = None, NodeSelector = None, tgbIPAddressType = None, tgbVpcID = '''',
       IamRoleArnToAssume = '''', AssumeRoleExternalId = '''', RegisterTargetsWithPodAvailabilityZone = None\<rparr>,
     ObservedGeneration = Some 1\<rparr>"

definition tgbLog :: "(TargetGroupBindingResource, TargetGroupBinding, TargetGroupBindingResourceStatus,
    (TargetGroupBindingResource, TargetGroupBinding) call list) resource_manager" where
  "tgbLog = logManager (\<lambda>r. \<lparr>refNamespace = ''ns'', refName = tgbID r, refUID = ''u''\<rparr>)"

theorem TargetGroupBinding_synthesis_witness:
  "\<exists>m ur us. matching resTGBARN (\<lambda>s. Some (TargetGroupARN (k8sSpec s))) (\<lambda>s r. True)
       [exTGBRes ''t1'', exTGBRes ''t2''] [exK8sTGB ''t2'', exK8sTGB ''t3''] (m, ur, us)
   \<and> TargetGroupBinding_Synthesize tgbLog (\<lambda>w. (Inr [exK8sTGB ''t2'', exK8sTGB ''t3''], w)) [exTGBRes ''t1'', exTGBRes ''t2'']
        \<lparr>deferred = [], statuses = [], cloud = []\<rparr> =
       runPlan tgbLog tgbID (map CallCreate ur @ map (\<lambda>(r, s). CallUpdate r s) m) \<lparr>deferred = us, statuses = [], cloud = []\<rparr>"
proof -
  have r: "\<forall>r \<in> set [exTGBRes ''t1'', exTGBRes ''t2'']. \<exists>arn. tplTargetGroupARN (tgbTemplate r) = Inr arn"
    by (simp add: exTGBRes_def)
  show ?thesis
    using TargetGroupBinding_synthesis [of "\<lambda>w. (Inr [exK8sTGB ''t2'', exK8sTGB ''t3''], w)" "\<lparr>deferred = [], statuses = [], cloud = []\<rparr>"
        "[exK8sTGB ''t2'', exK8sTGB ''t3'']" "[]" "[exTGBRes ''t1'', exTGBRes ''t2'']" tgbLog]
    unfolding if_P [OF r] by (auto simp: exTGBRes_def exK8sTGB_def)
qed

lemma mapEqual_refl [simp]: "mapEqual m m"
  by (simp add: mapEqual_def list_all_iff)

lemma tgbSpecEqual_refl [simp]: "tgbSpecEqual s s"
  by (simp add: tgbSpecEqual_def selectorEqual_def)

lemma filter_checkpoints:
  assumes "fst ` set cps \<subseteq> {AnnotationCheckPoint, AnnotationCheckPointTimestamp}"
    "AnnotationCheckPoint \<notin> fst ` set m" "AnnotationCheckPointTimestamp \<notin> fst ` set m"
  shows "filter (\<lambda>(k, v). k \<noteq> AnnotationCheckPointTimestamp \<and> k \<noteq> AnnotationCheckPoint) (cps @ m) = m"
proof -
  have "filter (\<lambda>(k, v). k \<noteq> AnnotationCheckPointTimestamp \<and> k \<noteq> AnnotationCheckPoint) cps = []"
    using assms(1) by (fastforce simp: filter_empty_conv)
  moreover have "filter (\<lambda>(k, v). k \<noteq> AnnotationCheckPointTimestamp \<and> k \<noteq> AnnotationCheckPoint) m = m"
    using assms(2,3) by (force simp: filter_id_conv)
  ultimately show ?thesis by simp
qed

text \<open>
  A binding does not flap. The manager creates one object; whatever identity, generation, status and checkpoint
  annotations the cluster and the binding controller have added to it since, an update for the same resource
  finds it in the desired state and calls nothing.
\<close>

theorem created_binding_stable:
  assumes "buildK8sTargetGroupBindingSpec resTGB = Inr spec"
    "AnnotationCheckPoint \<notin> fst ` set (tplAnnotations (tgbTemplate resTGB))"
    "AnnotationCheckPointTimestamp \<notin> fst ` set (tplAnnotations (tgbTemplate resTGB))"
    "fst ` set cps \<subseteq> {AnnotationCheckPoint, AnnotationCheckPointTimestamp}"
  shows "\<exists>obj. TargetGroupBindingManager_Create m resTGB w =
       io_bind (k8sCreate (tgbClient m) obj) (\<lambda>tgb. io_ret (buildResTargetGroupBindingStatus tgb)) w
     \<and> TargetGroupBindingManager_Update m resTGB
         (obj\<lparr>k8sUID := uid, k8sGeneration := gen, ObservedGeneration := og, k8sAnnotations := cps @ k8sAnnotations obj\<rparr>) w'
       = (Inr \<lparr>refNamespace = tplNamespace (tgbTemplate resTGB), refName = tplName (tgbTemplate resTGB), refUID = uid\<rparr>, w')"
proof (intro exI conjI)
  let ?t = "tgbTemplate resTGB"
  let ?obj = "\<lparr>k8sNamespace = tplNamespace ?t, k8sName = tplName ?t, k8sUID = '''', k8sAnnotations = tplAnnotations ?t,
    k8sLabels = tgbLabels (tgbTracking m) resTGB, k8sGeneration = 0, k8sSpec = spec, ObservedGeneration = None\<rparr>"
  show "TargetGroupBindingManager_Create m resTGB w =
      io_bind (k8sCreate (tgbClient m) ?obj) (\<lambda>tgb. io_ret (buildResTargetGroupBindingStatus tgb)) w"
    using assms(1) by (simp add: TargetGroupBindingManager_Create_def io_bind_def [of "io_lift _"])
  show "TargetGroupBindingManager_Update m resTGB
         (?obj\<lparr>k8sUID := uid, k8sGeneration := gen, ObservedGeneration := og, k8sAnnotations := cps @ k8sAnnotations ?obj\<rparr>) w'
       = (Inr \<lparr>refNamespace = tplNamespace ?t, refName = tplName ?t, refUID = uid\<rparr>, w')"
    using assms(1) filter_checkpoints [OF assms(4,2,3)]
    by (simp add: TargetGroupBindingManager_Update_def io_bind_def tgbAnnotationsSame_def buildResTargetGroupBindingStatus_def
        del: filter_append)
qed

text \<open>A client that answers every call and keeps nothing.\<close>

definition exClient :: "unit tgb_client" where
  "exClient = \<lparr>k8sCreate = (\<lambda>o1 w. (Inr o1, w)), k8sPatch = (\<lambda>_ o1 w. (Inr o1, w)), k8sDelete = (\<lambda>_ w. (Inr (), w)),
     k8sGet = (\<lambda>_ w. (Inl (APIError ''NotFound'' ''''), w)), k8sList = (\<lambda>_ w. (Inr [], w))\<rparr>"

definition exTGBCfg :: "unit tgb_manager_cfg" where
  "exTGBCfg = \<lparr>tgbClient = exClient, tgbTracking = \<lparr>tagPrefix = ''service.k8s.aws'', clusterName = ''c'', region = None\<rparr>,
     waitTGBObservedPolls = 3, waitTGBDeletionPolls = 3\<rparr>"

theorem created_binding_stable_witness:
  "\<exists>obj. TargetGroupBindingManager_Create exTGBCfg (exTGBRes ''t1'') () =
       io_bind (k8sCreate exClient obj) (\<lambda>tgb. io_ret (buildResTargetGroupBindingStatus tgb)) ()
     \<and> TargetGroupBindingManager_Update exTGBCfg (exTGBRes ''t1'')
         (obj\<lparr>k8sUID := ''u'', k8sGeneration := 2, ObservedGeneration := Some 2,
              k8sAnnotations := [(AnnotationCheckPoint, ''x'')] @ k8sAnnotations obj\<rparr>) ()
       = (Inr \<lparr>refNamespace = ''ns'', refName = ''k8s-t1'', refUID = ''u''\<rparr>, ())"
proof -
  obtain spec where spec: "buildK8sTargetGroupBindingSpec (exTGBRes ''t1'') = Inr spec"
    by (simp add: buildK8sTargetGroupBindingSpec_def exTGBRes_def buildK8sNetworkingPeer_def Let_def)
  show ?thesis
    using created_binding_stable [OF spec, where cps = "[(AnnotationCheckPoint, ''x'')]" and m = exTGBCfg and uid = "''u''" and gen = 2
        and og = "Some 2"]
    by (simp add: exTGBRes_def AnnotationCheckPoint_def AnnotationCheckPointTimestamp_def exTGBCfg_def)
qed

lemma pollImmediate_returns:
  assumes "pollImmediate polls cond w = (Inr (), w')"
  shows "\<exists>w0. cond w0 = (Inr True, w')"
  using assms
proof (induction polls arbitrary: w)
  case 0
  then show ?case by (subst (asm) pollImmediate.simps) (auto split: prod.splits sum.splits bool.splits)
next
  case (Suc n)
  then show ?case by (subst (asm) (2) pollImmediate.simps) (auto split: prod.splits sum.splits bool.splits)
qed

text \<open>
  The deletion of a binding is observed before it is reported: if the manager's delete returns without an error,
  the last thing it did was to ask the cluster for the binding and to be told that it does not exist. The target group of
  the binding is only deleted after that, so no binding controller still works on a deleted target group.
\<close>

theorem binding_delete_observed:
  assumes "TargetGroupBindingManager_Delete m tgb w = (Inr (), w')"
  shows "\<exists>w0 err. k8sGet (tgbClient m) (k8sTGBKey tgb) w0 = (Inl err, w') \<and> isNotFound err"
proof -
  obtain w1 where "wrapErr ''failed to wait targetGroupBinding deletion'' (waitUntilTargetGroupBindingDeleted m tgb) w1 = (Inr (), w')"
    using assms by (auto simp: TargetGroupBindingManager_Delete_def io_bind_def split: prod.splits sum.splits)
  then have "pollImmediate (waitTGBDeletionPolls m) (goneCheck (tgbClient m) (k8sTGBKey tgb)) w1 = (Inr (), w')"
    by (auto simp: wrapErr_def waitUntilTargetGroupBindingDeleted_def split: prod.splits sum.splits)
  then obtain w0 where "goneCheck (tgbClient m) (k8sTGBKey tgb) w0 = (Inr True, w')" by (metis pollImmediate_returns)
  then show ?thesis by (auto simp: goneCheck_def split: prod.splits sum.splits if_splits)
qed

theorem binding_delete_observed_witness:
  "TargetGroupBindingManager_Delete exTGBCfg (exK8sTGB ''t1'') () = (Inr (), ())
   \<and> (\<exists>w0 err. k8sGet (tgbClient exTGBCfg) (k8sTGBKey (exK8sTGB ''t1'')) w0 = (Inl err, ()) \<and> isNotFound err)"
proof -
  have run: "TargetGroupBindingManager_Delete exTGBCfg (exK8sTGB ''t1'') () = (Inr (), ())" by code_simp
  show ?thesis using binding_delete_observed [OF run] run by blast
qed

end
