(* ===== verification/Stack_Deployer.thy ===== *)
theory Stack_Deployer
  imports Target_Group_Binding
begin

text \<open>
  The deployment of a stack (\<^verbatim>\<open>pkg/deploy/stack_deployer.go\<close>): which synthesizers run, in which order, and what
  happens when one of them fails. A synthesizer is known by its kind; what it does in its two phases is an
  interface (\<open>synthesizer_ops\<close>) that the theories of the single synthesizers implement.
\<close>

section \<open>The synthesizers\<close>

datatype synth_kind = SynthSecurityGroup | SynthFrontendNlbTarget | SynthCertificate | SynthTargetGroup | SynthLoadBalancer
  | SynthListener | SynthListenerRule | SynthTargetGroupBinding | SynthWAFv2 | SynthWAFRegional | SynthShield

record deploy_config =
  enableFrontendNLB :: bool
  deployGates :: defaultFeatureGates
  WAFV2Enabled :: bool
  WAFEnabled :: bool
  WAFRegionalAvailable :: bool
  ShieldEnabled :: bool

record 'w synthesizer_ops =
  opSynthesize :: "synth_kind \<Rightarrow> ('w, unit) io"
  opPostSynthesize :: "synth_kind \<Rightarrow> ('w, unit) io"
  IsSubscribed :: "('w, bool) io"

definition baseSynthesizers :: "deploy_config \<Rightarrow> synth_kind list" where
  "baseSynthesizers cfg =
     [SynthSecurityGroup]
     @ (if enableFrontendNLB cfg then [SynthFrontendNlbTarget] else [])
     @ (if Enabled (deployGates cfg) ''EnableCertificateManagement'' then [SynthCertificate] else [])
     @ [SynthTargetGroup, SynthLoadBalancer, SynthListener, SynthListenerRule, SynthTargetGroupBinding]
     @ (if WAFV2Enabled cfg then [SynthWAFv2] else [])
     @ (if WAFEnabled cfg \<and> WAFRegionalAvailable cfg then [SynthWAFRegional] else [])"

text \<open>An error of the subscription check is logged and shield is left out.\<close>

definition buildSynthesizers :: "deploy_config \<Rightarrow> 'w synthesizer_ops \<Rightarrow> ('w, synth_kind list) io" where
  "buildSynthesizers cfg ops w =
     (if ShieldEnabled cfg
      then (case IsSubscribed ops w of
              (Inl _, w') \<Rightarrow> (Inr (baseSynthesizers cfg), w')
            | (Inr subscribed, w') \<Rightarrow> (Inr (baseSynthesizers cfg @ (if subscribed then [SynthShield] else [])), w'))
      else (Inr (baseSynthesizers cfg), w))"

text \<open>\<open>NewErrorWithMetrics\<close> keeps the error for \<open>errors.As\<close>; its own text is that of the error.\<close>

definition NewErrorWithMetrics :: "synth_kind \<Rightarrow> go_error \<Rightarrow> go_error" where
  "NewErrorWithMetrics kind err = Joined [err]"

definition synthesizeOne :: "'w synthesizer_ops \<Rightarrow> synth_kind \<Rightarrow> ('w, unit) io" where
  "synthesizeOne ops kind w =
     (case opSynthesize ops kind w of
        (Inl err, w') \<Rightarrow> (Inl (NewErrorWithMetrics kind err), w')
      | (Inr _, w') \<Rightarrow> (Inr (), w'))"

definition Deploy :: "deploy_config \<Rightarrow> 'w synthesizer_ops \<Rightarrow> ('w, unit) io" where
  "Deploy cfg ops =
     io_bind (buildSynthesizers cfg ops) (\<lambda>synthesizers.
     io_bind (io_iter (synthesizeOne ops) synthesizers) (\<lambda>_.
     io_iter (opPostSynthesize ops) (rev synthesizers)))"

text \<open>
  \<open>sync.OnceValue\<close>: the list of target groups is fetched once and its result, error included, is shared by the
  two synthesizers that need it. The state is the cached result beside the cloud.
\<close>

definition onceValue :: "('w, 'a) io \<Rightarrow> ('a res option \<times> 'w, 'a) io" where
  "onceValue f = (\<lambda>(c, w). case c of
       Some r \<Rightarrow> (r, (Some r, w))
     | None \<Rightarrow> (case f w of (r, w') \<Rightarrow> (r, (Some r, w'))))"

lemma onceValue_shared:
  "io_bind (onceValue f) (\<lambda>x. io_bind (onceValue f) (\<lambda>y. io_ret (x, y))) (None, w) =
     (case f w of (Inl e, w') \<Rightarrow> (Inl e, (Some (Inl e), w')) | (Inr x, w') \<Rightarrow> (Inr (x, x), (Some (Inr x), w')))"
  by (simp add: onceValue_def io_bind_def io_ret_def split: prod.splits sum.splits)

section \<open>The order of the synthesizers\<close>

text \<open>
  Which resources refer to which: the specifications of the right kind hold tokens that the status of a resource
  of the left kind resolves (\<open>registerDependencies\<close> in the files of \<^verbatim>\<open>pkg/model\<close>, and the actions of
  listeners and rules).
\<close>

definition refersTo :: "(synth_kind \<times> synth_kind) list" where
  "refersTo = [(SynthSecurityGroup, SynthLoadBalancer), (SynthSecurityGroup, SynthTargetGroupBinding),
     (SynthCertificate, SynthListener), (SynthTargetGroup, SynthListener), (SynthTargetGroup, SynthListenerRule),
     (SynthTargetGroup, SynthTargetGroupBinding), (SynthLoadBalancer, SynthListener), (SynthListener, SynthListenerRule),
     (SynthLoadBalancer, SynthWAFv2), (SynthLoadBalancer, SynthWAFRegional), (SynthLoadBalancer, SynthShield)]"

text \<open>\<open>before xs a b\<close>: no \<open>b\<close> of the list is followed by an \<open>a\<close>.\<close>

fun before :: "'a list \<Rightarrow> 'a \<Rightarrow> 'a \<Rightarrow> bool" where
  "before [] a b = True"
| "before (x # xs) a b \<longleftrightarrow> (x = b \<longrightarrow> a \<notin> set xs) \<and> before xs a b"

lemma before_append: "before (xs @ ys) a b \<longleftrightarrow> before xs a b \<and> before ys a b \<and> (b \<in> set xs \<longrightarrow> a \<notin> set ys)"
  by (induction xs) auto

lemma before_rev: "before (rev xs) a b \<longleftrightarrow> before xs b a"
  by (induction xs) (auto simp: before_append)

lemma synthesizers_ordered:
  assumes "buildSynthesizers cfg ops w = (Inr ks, w')" "(a, b) \<in> set refersTo"
  shows "distinct ks \<and> before ks a b"
proof -
  have "ks = baseSynthesizers cfg \<or> ks = baseSynthesizers cfg @ [SynthShield]"
    using assms(1) by (auto simp: buildSynthesizers_def split: if_splits prod.splits sum.splits)
  moreover have "distinct (baseSynthesizers cfg @ [SynthShield])" by (simp add: baseSynthesizers_def)
  moreover have "before (baseSynthesizers cfg @ [SynthShield]) a b"
    using assms(2) by (auto simp: baseSynthesizers_def before_append refersTo_def)
  ultimately show ?thesis by (auto simp: before_append)
qed

text \<open>The steps of a deployment that were started, in order.\<close>

datatype deploy_step = Synthesized synth_kind | PostSynthesized synth_kind

text \<open>
  Operations that record each step they start in a log before they run, whatever they do: the log of a deployment.
\<close>

definition logged :: "'w synthesizer_ops \<Rightarrow> (deploy_step list \<times> 'w) synthesizer_ops" where
  "logged ops = \<lparr>
     opSynthesize = (\<lambda>k (l, w). case opSynthesize ops k w of (r, w') \<Rightarrow> (r, (l @ [Synthesized k], w'))),
     opPostSynthesize = (\<lambda>k (l, w). case opPostSynthesize ops k w of (r, w') \<Rightarrow> (r, (l @ [PostSynthesized k], w'))),
     IsSubscribed = (\<lambda>(l, w). case IsSubscribed ops w of (r, w') \<Rightarrow> (r, (l, w')))\<rparr>"

lemma synthesizeOne_logged:
  "synthesizeOne (logged ops) k (l, w) =
     (case opSynthesize ops k w of
        (Inl err, w') \<Rightarrow> (Inl (NewErrorWithMetrics k err), (l @ [Synthesized k], w'))
      | (Inr _, w') \<Rightarrow> (Inr (), (l @ [Synthesized k], w')))"
  by (simp add: synthesizeOne_def logged_def split: prod.splits sum.splits)

lemma post_logged:
  "opPostSynthesize (logged ops) k (l, w) = (case opPostSynthesize ops k w of (r, w') \<Rightarrow> (r, (l @ [PostSynthesized k], w')))"
  by (simp add: logged_def)

lemma subscribed_logged:
  "IsSubscribed (logged ops) (l, w) = (case IsSubscribed ops w of (r, w') \<Rightarrow> (r, (l, w')))"
  by (simp add: logged_def)

lemma io_iter_logged_synth:
  assumes "io_iter (synthesizeOne (logged ops)) ks (l, w) = (r, (l', w'))"
  shows "\<exists>n \<le> length ks. l' = l @ map Synthesized (take n ks) \<and> (r = Inr () \<longrightarrow> n = length ks)"
  using assms
proof (induction ks arbitrary: l w)
  case (Cons k ks)
  obtain r1 w1 where o: "opSynthesize ops k w = (r1, w1)" by (cases "opSynthesize ops k w")
  show ?case
  proof (cases r1)
    case (Inl e)
    then show ?thesis using Cons.prems o by (intro exI [of _ 1]) (auto simp: synthesizeOne_logged)
  next
    case (Inr u)
    then have "io_iter (synthesizeOne (logged ops)) ks (l @ [Synthesized k], w1) = (r, (l', w'))"
      using Cons.prems o by (simp add: synthesizeOne_logged)
    from Cons.IH [OF this] obtain n where "n \<le> length ks" "l' = (l @ [Synthesized k]) @ map Synthesized (take n ks)"
      "r = Inr () \<longrightarrow> n = length ks" by blast
    then show ?thesis by (intro exI [of _ "Suc n"]) auto
  qed
qed simp

lemma io_iter_logged_post:
  assumes "io_iter (opPostSynthesize (logged ops)) ks (l, w) = (r, (l', w'))"
  shows "\<exists>n \<le> length ks. l' = l @ map PostSynthesized (take n ks) \<and> (r = Inr () \<longrightarrow> n = length ks)"
  using assms
proof (induction ks arbitrary: l w)
  case (Cons k ks)
  obtain r1 w1 where o: "opPostSynthesize ops k w = (r1, w1)" by (cases "opPostSynthesize ops k w")
  show ?case
  proof (cases r1)
    case (Inl e)
    then show ?thesis using Cons.prems o by (intro exI [of _ 1]) (auto simp: post_logged)
  next
    case (Inr u)
    then have "io_iter (opPostSynthesize (logged ops)) ks (l @ [PostSynthesized k], w1) = (r, (l', w'))"
      using Cons.prems o by (simp add: post_logged)
    from Cons.IH [OF this] obtain n where "n \<le> length ks" "l' = (l @ [PostSynthesized k]) @ map PostSynthesized (take n ks)"
      "r = Inr () \<longrightarrow> n = length ks" by blast
    then show ?thesis by (intro exI [of _ "Suc n"]) auto
  qed
qed simp


text \<open>A deployment in which the listener rules fail.\<close>

definition failingOps :: "unit synthesizer_ops" where
  "failingOps = \<lparr>opSynthesize = (\<lambda>k w. if k = SynthListenerRule then (Inl (RequeueNeeded ''later''), w) else (Inr (), w)),
     opPostSynthesize = (\<lambda>_ w. (Inr (), w)), IsSubscribed = (\<lambda>w. (Inr True, w))\<rparr>"

definition exDeployCfg :: deploy_config where
  "exDeployCfg = \<lparr>enableFrontendNLB = True, deployGates = NewFeatureGates, WAFV2Enabled = True, WAFEnabled = True,
     WAFRegionalAvailable = False, ShieldEnabled = True\<rparr>"


end
