(* ===== verification/Listener_Rule.thy ===== *)
theory Listener_Rule
  imports Listener
begin

text \<open>
  Listener rules: the resource (\<^verbatim>\<open>pkg/model/elbv2/listener_rule.go\<close>), the manager
  (\<^verbatim>\<open>pkg/deploy/elbv2/listener_rule_manager.go\<close>) and the synthesizer
  (\<^verbatim>\<open>pkg/deploy/elbv2/listener_rule_synthesizer.go\<close>), which brings the rules of every listener in line
  without a moment in which the traffic of a wanted rule has no rule.

  The sources keep the desired configurations in a map keyed by the pointer of the resource; here a resource
  is paired with its configuration (\<open>desiredLR\<close>). A nil slice and an empty one are the same list: the
  builders return nil exactly for no element, and the fallbacks for nil build the same value again.
\<close>

section \<open>The resource\<close>

record ListenerRuleSpec =
  lrListenerARN :: token
  lrPriority :: int
  lrActions :: "Action list"
  lrConditions :: "RuleCondition list"
  lrTransforms :: "Transform list"
  lrTags :: string_map

record ListenerRule =
  lrStack :: StackID
  lrID :: string
  lrSpec :: ListenerRuleSpec

type_synonym ListenerRuleStatus = string

section \<open>The SDK objects and calls\<close>

record sdkRule =
  sIsDefault :: "bool option"
  sPriority :: "string option"
  sActions :: "sdkAction list"
  sConditions :: "sdkRuleCondition list"
  sTransforms :: "sdkTransform list"

type_synonym ListenerRuleWithTags = "sdkRule WithTags"

record CreateRuleInput =
  crListenerArn :: string
  crPriority :: int
  crActions :: "sdkAction list"
  crConditions :: "sdkRuleCondition list"
  crTransforms :: "sdkTransform list"
  crTags :: "SDKTag list"

record ModifyRuleInput =
  mrRuleArn :: "string option"
  mrActions :: "sdkAction list"
  mrConditions :: "sdkRuleCondition list"
  mrTransforms :: "sdkTransform list"
  mrResetTransforms :: "bool option"

type_synonym RulePriorityPair = "string option \<times> int"

record 'w rule_api =
  CreateRule :: "CreateRuleInput \<Rightarrow> ('w, sdkRule described list) io"
  ModifyRule :: "ModifyRuleInput \<Rightarrow> ('w, unit) io"
  DeleteRule :: "string option \<Rightarrow> ('w, unit) io"
  SetRulePriorities :: "RulePriorityPair list \<Rightarrow> ('w, unit) io"

record resLRDesiredRuleConfig =
  desiredActions :: "sdkAction list"
  desiredConditions :: "sdkRuleCondition list"
  desiredTransforms :: "sdkTransform list"

type_synonym desiredLR = "ListenerRule \<times> resLRDesiredRuleConfig"

section \<open>The manager\<close>

record 'w rule_manager_cfg =
  lrApi :: "'w rule_api"
  lrGates :: defaultFeatureGates
  lrExistencePolls :: nat

definition buildResLRDesiredRuleConfig :: "defaultFeatureGates \<Rightarrow> ListenerRule \<Rightarrow> resLRDesiredRuleConfig res" where
  "buildResLRDesiredRuleConfig gates resLR =
     res_bind (buildSDKActions gates (lrActions (lrSpec resLR))) (\<lambda>as.
       Inr \<lparr>desiredActions = as, desiredConditions = buildSDKRuleConditions (lrConditions (lrSpec resLR)),
            desiredTransforms = buildSDKTransforms (lrTransforms (lrSpec resLR))\<rparr>)"

definition buildSDKCreateListenerRuleInput :: "defaultFeatureGates \<Rightarrow> ListenerRuleSpec \<Rightarrow> resLRDesiredRuleConfig option \<Rightarrow>
    CreateRuleInput res" where
  "buildSDKCreateListenerRuleInput gates spec config =
     res_bind (lrListenerARN spec) (\<lambda>lsARN.
     res_bind (case config of
                 Some c \<Rightarrow> if desiredActions c \<noteq> [] then Inr (desiredActions c) else buildSDKActions gates (lrActions spec)
               | None \<Rightarrow> buildSDKActions gates (lrActions spec)) (\<lambda>as.
       Inr \<lparr>crListenerArn = lsARN, crPriority = lrPriority spec, crActions = as,
            crConditions = (case config of
               Some c \<Rightarrow> if desiredConditions c \<noteq> [] then desiredConditions c else buildSDKRuleConditions (lrConditions spec)
             | None \<Rightarrow> buildSDKRuleConditions (lrConditions spec)),
            crTransforms = (case config of
               Some c \<Rightarrow> if desiredTransforms c \<noteq> [] then desiredTransforms c else buildSDKTransforms (lrTransforms spec)
             | None \<Rightarrow> buildSDKTransforms (lrTransforms spec)),
            crTags = []\<rparr>))"

definition buildSDKModifyListenerRuleInput :: "sdkAction list \<Rightarrow> sdkRuleCondition list \<Rightarrow> sdkTransform list \<Rightarrow> ModifyRuleInput" where
  "buildSDKModifyListenerRuleInput as cs ts =
     (if length ts > 0
      then \<lparr>mrRuleArn = None, mrActions = as, mrConditions = cs, mrTransforms = ts, mrResetTransforms = None\<rparr>
      else \<lparr>mrRuleArn = None, mrActions = as, mrConditions = cs, mrTransforms = [], mrResetTransforms = Some True\<rparr>)"

definition rulePriority :: "nat \<Rightarrow> ListenerRuleWithTags \<Rightarrow> int" where
  "rulePriority bits sdkLR = ParseInt bits (ToString (sPriority (descObj (sdkObj sdkLR))))"

definition setPriority :: "int \<Rightarrow> ListenerRuleWithTags \<Rightarrow> ListenerRuleWithTags" where
  "setPriority p sdkLR = sdkLR\<lparr>sdkObj := (sdkObj sdkLR)\<lparr>descObj := (descObj (sdkObj sdkLR))\<lparr>sPriority := Some (Itoa p)\<rparr>\<rparr>\<rparr>"

text \<open>\<open>sort.Slice\<close> by priority, in place: the caller's slice is sorted too. The priorities of the slice are distinct.\<close>

definition sortByPriority :: "ListenerRuleWithTags list \<Rightarrow> ListenerRuleWithTags list" where
  "sortByPriority sdkLRs = sort_key (rulePriority 64) sdkLRs"

fun pushDown :: "int \<Rightarrow> ListenerRuleWithTags list \<Rightarrow> ListenerRuleWithTags list" where
  "pushDown lastAvailablePriority [] = []"
| "pushDown lastAvailablePriority (sdkLR # sdkLRs) =
     setPriority lastAvailablePriority sdkLR # pushDown (to_int32 (lastAvailablePriority - 1)) sdkLRs"

definition buildSDKSetRulePrioritiesInput :: "(desiredLR \<times> ListenerRuleWithTags) list \<Rightarrow> ListenerRuleWithTags list \<Rightarrow>
    RulePriorityPair list" where
  "buildSDKSetRulePrioritiesInput matchedBySettings unmatchedSDKLRs =
     (let sdkLRs = pushDown 50000 (rev (sortByPriority unmatchedSDKLRs))
                   @ map (\<lambda>((resLR, _), sdkLR). setPriority (lrPriority (lrSpec resLR)) sdkLR) matchedBySettings
      in map (\<lambda>sdkLR. (descArn (sdkObj sdkLR), rulePriority 32 sdkLR)) sdkLRs)"

definition buildResListenerRuleStatus :: "ListenerRuleWithTags \<Rightarrow> ListenerRuleStatus" where
  "buildResListenerRuleStatus sdkLR = ToString (descArn (sdkObj sdkLR))"

text \<open>
  The closure that creates the rule assigns the result to a captured variable: the state of the retry loop
  is the cloud and that variable.
\<close>

definition assigning :: "('w, 'a) io \<Rightarrow> ('w \<times> 'a option, unit) io" where
  "assigning f = (\<lambda>(w, v). case f w of (Inl err, w') \<Rightarrow> (Inl err, (w', v)) | (Inr x, w') \<Rightarrow> (Inr (), (w', Some x)))"

definition retryAssign :: "nat \<Rightarrow> (go_error \<Rightarrow> bool) \<Rightarrow> ('w, 'a) io \<Rightarrow> ('w, 'a option) io" where
  "retryAssign polls retryable f w =
     (case RetryImmediateOnError polls retryable (assigning f) (w, None) of
        (Inl err, (w', _)) \<Rightarrow> (Inl err, w')
      | (Inr _, (w', v)) \<Rightarrow> (Inr v, w'))"

definition firstRule :: "sdkRule described list \<Rightarrow> ('w, sdkRule described) io" where
  "firstRule rules = (case rules of [] \<Rightarrow> io_fail (Errorf ''panic: index out of range'' []) | r # _ \<Rightarrow> io_ret r)"

definition ListenerRuleManager_Create :: "'w rule_manager_cfg \<Rightarrow> ('lb, 'tg, 'ls, 'lr, 'w) elbv2_deps \<Rightarrow> desiredLR \<Rightarrow>
    ('w taggingManager, ListenerRuleStatus) io" where
  "ListenerRuleManager_Create cfg m = (\<lambda>(resLR, config).
     io_bind (io_lift (buildSDKCreateListenerRuleInput (lrGates cfg) (lrSpec resLR) (Some config))) (\<lambda>req.
       let ruleTags = (if Enabled (lrGates cfg) ''ListenerRulesTagging''
             then Some (ResourceTags (trackingProvider m) (lrStack resLR) (lrID resLR) (lrTags (lrSpec resLR))) else None)
       in io_bind (wrapErr ''failed to create listener rule''
            (retryAssign (lrExistencePolls cfg) isListenerNotFoundError
              (onTagCloud (io_bind (CreateRule (lrApi cfg) (req\<lparr>crTags := convertTagsToSDKTags (mapOf ruleTags)\<rparr>)) firstRule)))) (\<lambda>v.
          io_ret (buildResListenerRuleStatus \<lparr>sdkObj = the v, sdkTags = ruleTags\<rparr>))))"

definition updateSDKListenerRuleWithTags :: "('lb, 'tg, 'ls, 'lr, 'w) elbv2_deps \<Rightarrow> ListenerRule \<Rightarrow> ListenerRuleWithTags \<Rightarrow>
    ('w taggingManager, unit) io" where
  "updateSDKListenerRuleWithTags m resLR sdkLR =
     ReconcileTags (taggingApi m) (taggingCfg m) (ToString (descArn (sdkObj sdkLR)))
       (ResourceTags (trackingProvider m) (lrStack resLR) (lrID resLR) (lrTags (lrSpec resLR)))
       [WithCurrentTags (sdkTags sdkLR), WithIgnoredTagKeys (externalManagedTags m)]"

definition ListenerRuleManager_UpdateRulesTags :: "'w rule_manager_cfg \<Rightarrow> ('lb, 'tg, 'ls, 'lr, 'w) elbv2_deps \<Rightarrow> ListenerRule \<Rightarrow>
    ListenerRuleWithTags \<Rightarrow> ('w taggingManager, ListenerRuleStatus) io" where
  "ListenerRuleManager_UpdateRulesTags cfg m resLR sdkLR =
     io_bind (if Enabled (lrGates cfg) ''ListenerRulesTagging'' then updateSDKListenerRuleWithTags m resLR sdkLR else io_ret ())
       (\<lambda>_. io_ret (buildResListenerRuleStatus sdkLR))"

definition updateSDKListenerRuleWithSettings :: "'w rule_manager_cfg \<Rightarrow> ListenerRuleWithTags \<Rightarrow> resLRDesiredRuleConfig \<Rightarrow> ('w, unit) io" where
  "updateSDKListenerRuleWithSettings cfg sdkLR config =
     ModifyRule (lrApi cfg) ((buildSDKModifyListenerRuleInput (desiredActions config) (desiredConditions config) (desiredTransforms config))
       \<lparr>mrRuleArn := descArn (sdkObj sdkLR)\<rparr>)"

definition ListenerRuleManager_UpdateRules :: "'w rule_manager_cfg \<Rightarrow> desiredLR \<Rightarrow> ListenerRuleWithTags \<Rightarrow>
    ('w taggingManager, ListenerRuleStatus) io" where
  "ListenerRuleManager_UpdateRules cfg = (\<lambda>(resLR, config) sdkLR.
     io_bind (onTagCloud (updateSDKListenerRuleWithSettings cfg sdkLR config)) (\<lambda>_.
       io_ret (buildResListenerRuleStatus sdkLR)))"

definition ListenerRuleManager_Delete :: "'w rule_manager_cfg \<Rightarrow> ListenerRuleWithTags \<Rightarrow> ('w taggingManager, unit) io" where
  "ListenerRuleManager_Delete cfg sdkLR = onTagCloud (DeleteRule (lrApi cfg) (descArn (sdkObj sdkLR)))"

definition ListenerRuleManager_SetRulePriorities :: "'w rule_manager_cfg \<Rightarrow> (desiredLR \<times> ListenerRuleWithTags) list \<Rightarrow>
    ListenerRuleWithTags list \<Rightarrow> ('w taggingManager, unit) io" where
  "ListenerRuleManager_SetRulePriorities cfg matchedBySettings unmatchedSDKLRs =
     onTagCloud (SetRulePriorities (lrApi cfg) (buildSDKSetRulePrioritiesInput matchedBySettings unmatchedSDKLRs))"

definition ruleManager :: "'w rule_manager_cfg \<Rightarrow> ('lb, 'tg, 'ls, 'lr, 'w) elbv2_deps \<Rightarrow>
    (desiredLR, ListenerRuleWithTags, ListenerRuleStatus, 'w taggingManager) resource_manager" where
  "ruleManager cfg m = \<lparr>mCreate = ListenerRuleManager_Create cfg m, mUpdate = ListenerRuleManager_UpdateRules cfg,
     mDelete = ListenerRuleManager_Delete cfg\<rparr>"

section \<open>The synthesizer\<close>

definition settingsEqual :: "resLRDesiredRuleConfig \<Rightarrow> ListenerRuleWithTags \<Rightarrow> bool" where
  "settingsEqual config sdkLR \<longleftrightarrow>
     actionsEqual (desiredActions config) (sActions (descObj (sdkObj sdkLR)))
   \<and> conditionsEqual (desiredConditions config) (sConditions (descObj (sdkObj sdkLR)))
   \<and> transformsEqual (desiredTransforms config) (sTransforms (descObj (sdkObj sdkLR)))"

text \<open>The first element that satisfies a predicate, and the list without it.\<close>

fun takeFirst :: "('s \<Rightarrow> bool) \<Rightarrow> 's list \<Rightarrow> ('s \<times> 's list) option" where
  "takeFirst P [] = None"
| "takeFirst P (s # ss) = (if P s then Some (s, ss) else map_option (\<lambda>(x, xs). (x, s # xs)) (takeFirst P ss))"

fun matchSettings :: "desiredLR list \<Rightarrow> ListenerRuleWithTags list \<Rightarrow>
    (desiredLR \<times> ListenerRuleWithTags) list \<times> desiredLR list \<times> ListenerRuleWithTags list" where
  "matchSettings [] sdkLRs = ([], [], sdkLRs)"
| "matchSettings (r # rs) sdkLRs =
     (case takeFirst (settingsEqual (snd r)) sdkLRs of
        None \<Rightarrow> (let (m, ur, us) = matchSettings rs sdkLRs in (m, r # ur, us))
      | Some (s, ss) \<Rightarrow> (let (m, ur, us) = matchSettings rs ss in ((r, s) # m, ur, us)))"

definition resPriority :: "desiredLR \<Rightarrow> int" where
  "resPriority r = lrPriority (lrSpec (fst r))"

definition sdkPriority :: "ListenerRuleWithTags \<Rightarrow> int" where
  "sdkPriority s = to_int32 (rulePriority 64 s)"

definition mapResListenerRuleByPriority :: "desiredLR list \<Rightarrow> (int, desiredLR) gomap" where
  "mapResListenerRuleByPriority resLRs = mbuild resPriority (\<lambda>r. r) resLRs []"

definition mapSDKListenerRuleByPriority :: "ListenerRuleWithTags list \<Rightarrow> (int, ListenerRuleWithTags) gomap" where
  "mapSDKListenerRuleByPriority sdkLRs = mbuild sdkPriority (\<lambda>s. s) sdkLRs []"

text \<open>The result: matched by settings, by priority, fully; the rules to create and those to delete.\<close>

record rule_match =
  bySettings :: "(desiredLR \<times> ListenerRuleWithTags) list"
  byPriority :: "(desiredLR \<times> ListenerRuleWithTags) list"
  fullyMatched :: "(desiredLR \<times> ListenerRuleWithTags) list"
  resLRsToCreate :: "desiredLR list"
  sdkLRsToDelete :: "ListenerRuleWithTags list"

definition matchResAndSDKListenerRules :: "desiredLR list \<Rightarrow> ListenerRuleWithTags list \<Rightarrow> rule_match" where
  "matchResAndSDKListenerRules resLRs sdkLRs =
     (let (m, unmatchedRes, unmatchedSDK) = matchSettings resLRs sdkLRs;
          (byPrio, toCreate, toDelete) =
            matchByKey (mapResListenerRuleByPriority unmatchedRes) (mapSDKListenerRuleByPriority unmatchedSDK)
      in \<lparr>bySettings = filter (\<lambda>(r, s). resPriority r \<noteq> sdkPriority s) m, byPriority = byPrio,
          fullyMatched = filter (\<lambda>(r, s). resPriority r = sdkPriority s) m,
          resLRsToCreate = toCreate, sdkLRsToDelete = toDelete\<rparr>)"

definition isTooManyRulesErr :: "go_error \<Rightarrow> bool" where
  "isTooManyRulesErr err \<longleftrightarrow> errorCode err = Some ''TooManyRules''"

type_synonym 'w rule_synth = "(unit, ListenerRuleStatus, 'w) synth"

text \<open>
  The state machine of creations and deletions: \<open>ruleCounter\<close> and \<open>maxRules\<close> are the variables of the loop, the
  lists are what is left after \<open>resLRIndex\<close> and \<open>sdkLRIndex\<close>.
\<close>

function createDeleteLoop :: "(desiredLR, ListenerRuleWithTags, ListenerRuleStatus, 'w) resource_manager \<Rightarrow> int \<Rightarrow> int \<Rightarrow>
    desiredLR list \<Rightarrow> ListenerRuleWithTags list \<Rightarrow> ('w rule_synth, unit) io" where
  "createDeleteLoop mgr ruleCounter maxRules resLRs sdkLRs \<sigma> =
     (if resLRs = [] \<and> sdkLRs = [] then (Inr (), \<sigma>)
      else if resLRs \<noteq> [] \<and> ruleCounter \<noteq> maxRules
      then (case createRes mgr (\<lambda>r. lrID (fst r)) (hd resLRs) \<sigma> of
              (Inl err, \<sigma>') \<Rightarrow>
                if isTooManyRulesErr err \<and> maxRules = - 1
                then createDeleteLoop mgr ruleCounter ruleCounter resLRs sdkLRs \<sigma>'
                else (Inl err, \<sigma>')
            | (Inr _, \<sigma>') \<Rightarrow> createDeleteLoop mgr (ruleCounter + 1) maxRules (tl resLRs) sdkLRs \<sigma>')
      else if sdkLRs \<noteq> []
      then (case onCloud (mDelete mgr (hd sdkLRs)) \<sigma> of
              (Inl err, \<sigma>') \<Rightarrow> (Inl err, \<sigma>')
            | (Inr _, \<sigma>') \<Rightarrow> createDeleteLoop mgr (ruleCounter - 1) maxRules resLRs (tl sdkLRs) \<sigma>')
      else (Inl (Errorf ''Unable to synthesize listener rules, there's too many attached.'' []), \<sigma>))"
  by pat_completeness auto

text \<open>
  The loop ends: every round creates, deletes or leaves the loop, but for the one round that meets the limit;
  that round sets \<open>maxRules\<close> to a counter which differs from the sentinel.
\<close>

termination
  by (relation "measures [\<lambda>(mgr, c, mx, rs, ss, \<sigma>). length rs + length ss, \<lambda>(mgr, c, mx, rs, ss, \<sigma>). if mx = - 1 then 1 else 0]")
    auto

declare createDeleteLoop.simps [simp del]

definition createAndDeleteRules :: "(desiredLR, ListenerRuleWithTags, ListenerRuleStatus, 'w) resource_manager \<Rightarrow> nat \<Rightarrow>
    desiredLR list \<Rightarrow> ListenerRuleWithTags list \<Rightarrow> ('w rule_synth, unit) io" where
  "createAndDeleteRules mgr initialRuleCount unmatchedResLRs unmatchedSDKLRs =
     createDeleteLoop mgr (int initialRuleCount) (- 1) unmatchedResLRs unmatchedSDKLRs"

fun buildConfigs :: "defaultFeatureGates \<Rightarrow> ListenerRule list \<Rightarrow> desiredLR list res" where
  "buildConfigs gates [] = Inr []"
| "buildConfigs gates (r # rs) =
     res_bind (buildResLRDesiredRuleConfig gates r) (\<lambda>c. res_bind (buildConfigs gates rs) (\<lambda>cs. Inr ((r, c) # cs)))"

definition findSDKListenersRulesOnLS :: "(string \<Rightarrow> ('w, ListenerRuleWithTags list) io) \<Rightarrow> string \<Rightarrow> ('w, ListenerRuleWithTags list) io" where
  "findSDKListenersRulesOnLS listRules lsARN =
     io_bind (listRules lsARN) (\<lambda>sdkLRs. io_ret (filter (\<lambda>rule. sIsDefault (descObj (sdkObj rule)) \<noteq> Some True) sdkLRs))"

record 'w rule_synthesizer =
  rsManager :: "(desiredLR, ListenerRuleWithTags, ListenerRuleStatus, 'w) resource_manager"
  rsSetPriorities :: "(desiredLR \<times> ListenerRuleWithTags) list \<Rightarrow> ListenerRuleWithTags list \<Rightarrow> ('w, unit) io"
  rsUpdateTags :: "ListenerRule \<Rightarrow> ListenerRuleWithTags \<Rightarrow> ('w, ListenerRuleStatus) io"
  rsListRules :: "string \<Rightarrow> ('w, ListenerRuleWithTags list) io"
  rsGates :: defaultFeatureGates

definition updateTags :: "'w rule_synthesizer \<Rightarrow> desiredLR \<times> ListenerRuleWithTags \<Rightarrow> ('w rule_synth, unit) io" where
  "updateTags s = (\<lambda>((resLR, _), sdkLR). io_bind (onCloud (rsUpdateTags s resLR sdkLR)) (setStatus (lrID resLR)))"

definition synthesizeListenerRulesOnListener :: "'w rule_synthesizer \<Rightarrow> string \<Rightarrow> ListenerRule list \<Rightarrow> ('w rule_synth, unit) io" where
  "synthesizeListenerRulesOnListener s lsARN resLRs =
     io_bind (onCloud (findSDKListenersRulesOnLS (rsListRules s) lsARN)) (\<lambda>sdkLRs.
     io_bind (io_lift (buildConfigs (rsGates s) resLRs)) (\<lambda>desired.
       let mt = matchResAndSDKListenerRules desired sdkLRs;
           toDelete = (if length (bySettings mt) > 0 then sortByPriority (sdkLRsToDelete mt) else sdkLRsToDelete mt)
       in io_bind (if length (bySettings mt) > 0 then onCloud (rsSetPriorities s (bySettings mt) (sdkLRsToDelete mt)) else io_ret ()) (\<lambda>_.
          io_bind (io_iter (updateRes (rsManager s) (\<lambda>r. lrID (fst r))) (byPriority mt)) (\<lambda>_.
          io_bind (createAndDeleteRules (rsManager s) (length sdkLRs) (resLRsToCreate mt) toDelete) (\<lambda>_.
          io_iter (updateTags s) (bySettings mt @ fullyMatched mt @ byPriority mt))))))"

fun mapResListenerRuleByListenerARN :: "ListenerRule list \<Rightarrow> (string, ListenerRule list) gomap \<Rightarrow> (string, ListenerRule list) gomap res" where
  "mapResListenerRuleByListenerARN [] m = Inr m"
| "mapResListenerRuleByListenerARN (lr # lrs) m =
     (case lrListenerARN (lrSpec lr) of
        Inl err \<Rightarrow> Inl err
      | Inr lsARN \<Rightarrow> mapResListenerRuleByListenerARN lrs (mput lsARN (mget0 [] m lsARN @ [lr]) m))"

definition ListenerRule_Synthesize :: "'w rule_synthesizer \<Rightarrow> token list \<Rightarrow> ListenerRule list \<Rightarrow> ('w rule_synth, unit) io" where
  "ListenerRule_Synthesize s resLSs resLRs =
     io_bind (io_lift (mapResListenerRuleByListenerARN resLRs [])) (\<lambda>byLS.
       io_iter (\<lambda>ls. io_bind (io_lift ls) (\<lambda>lsARN. synthesizeListenerRulesOnListener s lsARN (mget0 [] byLS lsARN))) resLSs)"

section \<open>Creations and deletions under a limit on the rules of a listener\<close>

text \<open>
  A listener takes at most \<open>L\<close> rules: a creation succeeds below the limit and fails with \<open>TooManyRules\<close>, without
  an effect, at it; a deletion makes room. \<open>cnt\<close> is the number of rules the listener has.
\<close>

definition rule_limit :: "desiredLR set \<Rightarrow> (desiredLR, ListenerRuleWithTags, ListenerRuleStatus, 'w) resource_manager \<Rightarrow>
    ('w \<Rightarrow> nat) \<Rightarrow> nat \<Rightarrow> bool" where
  "rule_limit R mgr cnt L \<longleftrightarrow>
     (\<forall>r \<in> R. \<forall>w. cnt w < L \<longrightarrow> (\<exists>st w'. mCreate mgr r w = (Inr st, w') \<and> cnt w' = Suc (cnt w)))
   \<and> (\<forall>r \<in> R. \<forall>w. L \<le> cnt w \<longrightarrow> (\<exists>err. mCreate mgr r w = (Inl err, w) \<and> isTooManyRulesErr err))
   \<and> (\<forall>s w. 0 < cnt w \<longrightarrow> (\<exists>w'. mDelete mgr s w = (Inr (), w') \<and> cnt w' = cnt w - 1))"

text \<open>
  The calls that succeed, for a listener with room for \<open>n\<close> more rules: create as long as there is room; then
  delete one rule and create the next; when everything is created, delete the rest.
\<close>

fun rulePlan :: "nat \<Rightarrow> 'r list \<Rightarrow> 's list \<Rightarrow> ('r, 's) call list" where
  "rulePlan n [] ss = map CallDelete ss"
| "rulePlan (Suc n) (r # rs) ss = CallCreate r # rulePlan n rs ss"
| "rulePlan 0 (r # rs) (s # ss) = CallDelete s # CallCreate r # rulePlan 0 rs ss"
| "rulePlan 0 (r # rs) [] = []"

abbreviation ruleID :: "desiredLR \<Rightarrow> string" where
  "ruleID r \<equiv> lrID (fst r)"

definition tooManyAttached :: go_error where
  "tooManyAttached = Errorf ''Unable to synthesize listener rules, there's too many attached.'' []"

lemma createRes_ok:
  assumes "rule_limit R mgr cnt L" "r \<in> R" "cnt (cloud \<sigma>) < L"
  shows "\<exists>\<sigma>'. createRes mgr ruleID r \<sigma> = (Inr (), \<sigma>') \<and> cnt (cloud \<sigma>') = Suc (cnt (cloud \<sigma>))"
proof -
  obtain st w' where "mCreate mgr r (cloud \<sigma>) = (Inr st, w')" "cnt w' = Suc (cnt (cloud \<sigma>))"
    using assms unfolding rule_limit_def by blast
  then show ?thesis by (simp add: createRes_def io_bind_def onCloud_def setStatus_def)
qed

lemma createRes_full:
  assumes "rule_limit R mgr cnt L" "r \<in> R" "L \<le> cnt (cloud \<sigma>)"
  shows "\<exists>err. createRes mgr ruleID r \<sigma> = (Inl err, \<sigma>) \<and> isTooManyRulesErr err"
proof -
  obtain err where "mCreate mgr r (cloud \<sigma>) = (Inl err, cloud \<sigma>)" "isTooManyRulesErr err"
    using assms unfolding rule_limit_def by blast
  then show ?thesis by (simp add: createRes_def io_bind_def onCloud_def)
qed

lemma deleteRes_ok:
  assumes "rule_limit R mgr cnt L" "0 < cnt (cloud \<sigma>)"
  shows "\<exists>\<sigma>'. onCloud (mDelete mgr s) \<sigma> = (Inr (), \<sigma>') \<and> cnt (cloud \<sigma>') = cnt (cloud \<sigma>) - 1"
proof -
  obtain w' where "mDelete mgr s (cloud \<sigma>) = (Inr (), w')" "cnt w' = cnt (cloud \<sigma>) - 1"
    using assms unfolding rule_limit_def by blast
  then show ?thesis by (simp add: onCloud_def)
qed

text \<open>The rounds of the loop.\<close>

lemma loop_create:
  assumes "createRes mgr ruleID r \<sigma> = (Inr (), \<sigma>')" "c \<noteq> mx"
  shows "createDeleteLoop mgr c mx (r # rs) ss \<sigma> = createDeleteLoop mgr (c + 1) mx rs ss \<sigma>'"
  using assms by (subst createDeleteLoop.simps) simp

lemma loop_limit:
  assumes "createRes mgr ruleID r \<sigma> = (Inl err, \<sigma>)" "isTooManyRulesErr err" "c \<noteq> - 1"
  shows "createDeleteLoop mgr c (- 1) (r # rs) ss \<sigma> = createDeleteLoop mgr c c (r # rs) ss \<sigma>"
  using assms by (subst createDeleteLoop.simps) simp

lemma loop_delete:
  assumes "onCloud (mDelete mgr s) \<sigma> = (Inr (), \<sigma>')" "rs = [] \<or> c = mx"
  shows "createDeleteLoop mgr c mx rs (s # ss) \<sigma> = createDeleteLoop mgr (c - 1) mx rs ss \<sigma>'"
  using assms by (subst createDeleteLoop.simps) auto

lemma loop_stuck:
  "createDeleteLoop mgr c c (r # rs) [] \<sigma> = (Inl tooManyAttached, \<sigma>)"
  by (subst createDeleteLoop.simps) (simp add: tooManyAttached_def)

lemma loop_done: "createDeleteLoop mgr c mx [] [] \<sigma> = (Inr (), \<sigma>)"
  by (subst createDeleteLoop.simps) simp

lemma createDeleteLoop_plan:
  assumes "rule_limit R mgr cnt L" "set rs \<subseteq> R" "cnt (cloud \<sigma>) + n = L" "length ss \<le> cnt (cloud \<sigma>)"
    "mx = - 1 \<or> mx = int L"
  shows "\<exists>\<sigma>'. runPlan mgr ruleID (rulePlan n rs ss) \<sigma> = (Inr (), \<sigma>')
     \<and> createDeleteLoop mgr (int (cnt (cloud \<sigma>))) mx rs ss \<sigma> =
         ((if length rs \<le> n + length ss then Inr () else Inl tooManyAttached), \<sigma>')
     \<and> (length rs \<le> n + length ss \<longrightarrow> cnt (cloud \<sigma>') + length ss = cnt (cloud \<sigma>) + length rs)"
  using assms(2-)
proof (induction n rs ss arbitrary: \<sigma> mx rule: rulePlan.induct)
  case (1 n ss)
  show ?case using 1(3)
  proof (induction ss arbitrary: \<sigma> n)
    case Nil
    then show ?case by (simp add: loop_done runPlan_def)
  next
    case (Cons s ss)
    obtain \<sigma>1 where d: "onCloud (mDelete mgr s) \<sigma> = (Inr (), \<sigma>1)" "cnt (cloud \<sigma>1) = cnt (cloud \<sigma>) - 1"
      using deleteRes_ok [OF assms(1), of \<sigma> s] Cons.prems by auto
    have "length ss \<le> cnt (cloud \<sigma>1)" using d(2) Cons.prems by simp
    then obtain \<sigma>' where "runPlan mgr ruleID (rulePlan n [] ss) \<sigma>1 = (Inr (), \<sigma>')"
        "createDeleteLoop mgr (int (cnt (cloud \<sigma>1))) mx [] ss \<sigma>1 = (Inr (), \<sigma>')"
        "cnt (cloud \<sigma>') + length ss = cnt (cloud \<sigma>1)"
      using Cons.IH [of \<sigma>1 n] by auto
    moreover have "cnt (cloud \<sigma>) = Suc (cnt (cloud \<sigma>1))" using d(2) Cons.prems by simp
    ultimately show ?case using d(1) by (simp add: loop_delete [OF d(1)] runPlan_def)
  qed
next
  case (2 n r rs ss)
  have "r \<in> R" "cnt (cloud \<sigma>) < L" using 2(2,3) by simp_all
  then obtain \<sigma>1 where c: "createRes mgr ruleID r \<sigma> = (Inr (), \<sigma>1)" "cnt (cloud \<sigma>1) = Suc (cnt (cloud \<sigma>))"
    using createRes_ok [OF assms(1)] by blast
  have "int (cnt (cloud \<sigma>)) \<noteq> mx" using 2(5) \<open>cnt (cloud \<sigma>) < L\<close> by auto
  note step = loop_create [OF c(1) this, of rs ss]
  have "set rs \<subseteq> R" "cnt (cloud \<sigma>1) + n = L" "length ss \<le> cnt (cloud \<sigma>1)" using 2(2,3,4) c(2) by simp_all
  from 2(1) [OF this 2(5)] obtain \<sigma>' where "runPlan mgr ruleID (rulePlan n rs ss) \<sigma>1 = (Inr (), \<sigma>')"
      "createDeleteLoop mgr (int (cnt (cloud \<sigma>1))) mx rs ss \<sigma>1 =
         ((if length rs \<le> n + length ss then Inr () else Inl tooManyAttached), \<sigma>')"
      "length rs \<le> n + length ss \<longrightarrow> cnt (cloud \<sigma>') + length ss = cnt (cloud \<sigma>1) + length rs"
    by blast
  then show ?case using c step by (simp add: runPlan_def add.commute)
next
  case (3 r rs s ss)
  have L: "cnt (cloud \<sigma>) = L" and pos: "0 < cnt (cloud \<sigma>)" using 3(3,4) by auto
  obtain \<sigma>1 where d: "onCloud (mDelete mgr s) \<sigma> = (Inr (), \<sigma>1)" "cnt (cloud \<sigma>1) = cnt (cloud \<sigma>) - 1"
    using deleteRes_ok [OF assms(1) pos, of s] by auto
  have r: "r \<in> R" and room: "cnt (cloud \<sigma>1) < L" using 3(2) d(2) L pos by simp_all
  obtain \<sigma>2 where c: "createRes mgr ruleID r \<sigma>1 = (Inr (), \<sigma>2)" "cnt (cloud \<sigma>2) = Suc (cnt (cloud \<sigma>1))"
    using createRes_ok [OF assms(1) r room] by blast
  obtain err where err: "createRes mgr ruleID r \<sigma> = (Inl err, \<sigma>)" "isTooManyRulesErr err"
    using createRes_full [OF assms(1) r, of \<sigma>] L by blast
  have full: "createDeleteLoop mgr (int (cnt (cloud \<sigma>))) mx (r # rs) (s # ss) \<sigma>
      = createDeleteLoop mgr (int L) (int L) (r # rs) (s # ss) \<sigma>"
    using 3(5) L loop_limit [OF err, of "int L" rs "s # ss"] by auto
  also have "\<dots> = createDeleteLoop mgr (int L - 1) (int L) (r # rs) ss \<sigma>1"
    by (rule loop_delete [OF d(1)]) simp
  also have "\<dots> = createDeleteLoop mgr (int (cnt (cloud \<sigma>2))) (int L) rs ss \<sigma>2"
    using loop_create [OF c(1), of "int L - 1" "int L"] c(2) d(2) L pos by simp
  finally have step: "createDeleteLoop mgr (int (cnt (cloud \<sigma>))) mx (r # rs) (s # ss) \<sigma> =
      createDeleteLoop mgr (int (cnt (cloud \<sigma>2))) (int L) rs ss \<sigma>2" .
  have "set rs \<subseteq> R" "cnt (cloud \<sigma>2) + 0 = L" "length ss \<le> cnt (cloud \<sigma>2)" using 3(2,4) c(2) d(2) L pos by auto
  from 3(1) [OF this, of "int L"] obtain \<sigma>' where "runPlan mgr ruleID (rulePlan 0 rs ss) \<sigma>2 = (Inr (), \<sigma>')"
      "createDeleteLoop mgr (int (cnt (cloud \<sigma>2))) (int L) rs ss \<sigma>2 =
         ((if length rs \<le> 0 + length ss then Inr () else Inl tooManyAttached), \<sigma>')"
      "length rs \<le> 0 + length ss \<longrightarrow> cnt (cloud \<sigma>') + length ss = cnt (cloud \<sigma>2) + length rs"
    by blast
  then show ?case using c d step L pos by (simp add: runPlan_def)
next
  case (4 r rs)
  have "r \<in> R" "L \<le> cnt (cloud \<sigma>)" using 4(1,2) by simp_all
  then obtain err where err: "createRes mgr ruleID r \<sigma> = (Inl err, \<sigma>)" "isTooManyRulesErr err"
    using createRes_full [OF assms(1)] by blast
  have "createDeleteLoop mgr (int (cnt (cloud \<sigma>))) mx (r # rs) [] \<sigma> = createDeleteLoop mgr (int L) (int L) (r # rs) [] \<sigma>"
    using 4(2,4) loop_limit [OF err, of "int L" rs "[]"] by auto
  then show ?case by (simp add: loop_stuck runPlan_def)
qed

text \<open>
  The manager over an API with such a limit. The error of the API reaches the loop wrapped, and the loop sees
  its code through the wrapping.
\<close>

definition rule_api_limit :: "'w rule_api \<Rightarrow> ('w \<Rightarrow> nat) \<Rightarrow> nat \<Rightarrow> bool" where
  "rule_api_limit api cnt L \<longleftrightarrow>
     (\<forall>req w. cnt w < L \<longrightarrow> (\<exists>rule rules w'. CreateRule api req w = (Inr (rule # rules), w') \<and> cnt w' = Suc (cnt w)))
   \<and> (\<forall>req w. L \<le> cnt w \<longrightarrow> (\<exists>err. CreateRule api req w = (Inl err, w) \<and> errorCode err = Some ''TooManyRules''))
   \<and> (\<forall>arn w. 0 < cnt w \<longrightarrow> (\<exists>w'. DeleteRule api arn w = (Inr (), w') \<and> cnt w' = cnt w - 1))"

definition creatable :: "defaultFeatureGates \<Rightarrow> desiredLR \<Rightarrow> bool" where
  "creatable gates r \<longleftrightarrow> (\<exists>arn. lrListenerARN (lrSpec (fst r)) = Inr arn) \<and> buildResLRDesiredRuleConfig gates (fst r) = Inr (snd r)"

lemma creatable_request:
  assumes "creatable gates (r, c)"
  shows "\<exists>req. buildSDKCreateListenerRuleInput gates (lrSpec r) (Some c) = Inr req"
proof -
  obtain as where "buildSDKActions gates (lrActions (lrSpec r)) = Inr as"
    using assms by (cases "buildSDKActions gates (lrActions (lrSpec r))")
      (auto simp: creatable_def buildResLRDesiredRuleConfig_def)
  then show ?thesis using assms by (auto simp: creatable_def buildSDKCreateListenerRuleInput_def)
qed

lemma RetryImmediateOnError_once:
  assumes "fn w = (Inr (), w')"
  shows "RetryImmediateOnError polls retryable fn w = (Inr (), w')"
  using assms by (subst RetryImmediateOnError.simps) simp

lemma RetryImmediateOnError_final:
  assumes "fn w = (Inl err, w')" "\<not> retryable err"
  shows "RetryImmediateOnError polls retryable fn w = (Inl err, w')"
  using assms by (subst RetryImmediateOnError.simps) simp

lemma ruleManager_limit:
  fixes cfg :: "'w rule_manager_cfg"
  assumes "rule_api_limit (lrApi cfg) cnt L"
  shows "rule_limit {r. creatable (lrGates cfg) r} (ruleManager cfg m) (\<lambda>w. cnt (tagCloud w)) L"
  unfolding rule_limit_def
proof (intro conjI ballI allI impI)
  fix r and w :: "'w taggingManager" assume "r \<in> {r. creatable (lrGates cfg) r}" and c: "cnt (tagCloud w) < L"
  then obtain res config req where r: "r = (res, config)"
      "buildSDKCreateListenerRuleInput (lrGates cfg) (lrSpec res) (Some config) = Inr req"
    using creatable_request by (metis mem_Collect_eq surj_pair)
  define tags where "tags = (if Enabled (lrGates cfg) ''ListenerRulesTagging''
             then Some (ResourceTags (trackingProvider m) (lrStack res) (lrID res) (lrTags (lrSpec res))) else None)"
  obtain rule rules w' where "CreateRule (lrApi cfg) (req\<lparr>crTags := convertTagsToSDKTags (mapOf tags)\<rparr>) (tagCloud w) = (Inr (rule # rules), w')"
      "cnt w' = Suc (cnt (tagCloud w))"
    using assms c unfolding rule_api_limit_def by blast
  then show "\<exists>st w'. mCreate (ruleManager cfg m) r w = (Inr st, w') \<and> cnt (tagCloud w') = Suc (cnt (tagCloud w))"
    using r by (simp add: ruleManager_def ListenerRuleManager_Create_def io_bind_def [of "io_lift _"] Let_def
        io_bind_def [of "wrapErr _ _"] wrapErr_def retryAssign_def RetryImmediateOnError_once assigning_def onTagCloud_def
        io_bind_def [of "CreateRule _ _"] firstRule_def flip: tags_def)
next
  fix r and w :: "'w taggingManager" assume "r \<in> {r. creatable (lrGates cfg) r}" and c: "L \<le> cnt (tagCloud w)"
  then obtain res config req where r: "r = (res, config)"
      "buildSDKCreateListenerRuleInput (lrGates cfg) (lrSpec res) (Some config) = Inr req"
    using creatable_request by (metis mem_Collect_eq surj_pair)
  define tags where "tags = (if Enabled (lrGates cfg) ''ListenerRulesTagging''
             then Some (ResourceTags (trackingProvider m) (lrStack res) (lrID res) (lrTags (lrSpec res))) else None)"
  obtain err where e: "CreateRule (lrApi cfg) (req\<lparr>crTags := convertTagsToSDKTags (mapOf tags)\<rparr>) (tagCloud w) = (Inl err, tagCloud w)"
      "errorCode err = Some ''TooManyRules''"
    using assms c unfolding rule_api_limit_def by blast
  then have "\<not> isListenerNotFoundError err" by (simp add: isListenerNotFoundError_def)
  then show "\<exists>err. mCreate (ruleManager cfg m) r w = (Inl err, w) \<and> isTooManyRulesErr err"
    using r e by (simp add: ruleManager_def ListenerRuleManager_Create_def io_bind_def [of "io_lift _"] Let_def
        io_bind_def [of "wrapErr _ _"] wrapErr_def retryAssign_def RetryImmediateOnError_final assigning_def onTagCloud_def
        io_bind_def [of "CreateRule _ _"] isTooManyRulesErr_def flip: tags_def)
next
  fix s :: ListenerRuleWithTags and w :: "'w taggingManager" assume "0 < cnt (tagCloud w)"
  then obtain w' where "DeleteRule (lrApi cfg) (descArn (sdkObj s)) (tagCloud w) = (Inr (), w')" "cnt w' = cnt (tagCloud w) - 1"
    using assms unfolding rule_api_limit_def by blast
  then show "\<exists>w'. mDelete (ruleManager cfg m) s w = (Inr (), w') \<and> cnt (tagCloud w') = cnt (tagCloud w) - 1"
    by (simp add: ruleManager_def ListenerRuleManager_Delete_def onTagCloud_def)
qed

text \<open>The rules a plan creates and deletes.\<close>

fun createsOf :: "('r, 's) call list \<Rightarrow> 'r list" where
  "createsOf [] = []"
| "createsOf (CallCreate r # cs) = r # createsOf cs"
| "createsOf (_ # cs) = createsOf cs"

fun deletesOf :: "('r, 's) call list \<Rightarrow> 's list" where
  "deletesOf [] = []"
| "deletesOf (CallDelete s # cs) = s # deletesOf cs"
| "deletesOf (_ # cs) = deletesOf cs"

lemma rulePlan_complete:
  assumes "length rs \<le> n + length ss"
  shows "createsOf (rulePlan n rs ss) = rs \<and> deletesOf (rulePlan n rs ss) = ss"
proof -
  have "createsOf (map CallDelete ss) = []" "deletesOf (map CallDelete ss) = ss" for ss :: "'s list"
    by (induction ss) auto
  then show ?thesis using assms by (induction n rs ss rule: rulePlan.induct) auto
qed

lemma createsOf_deletes: "createsOf (map CallDelete ss) = []"
  by (induction ss) auto

lemma rulePlan_deletes_when_full:
  assumes "rulePlan n rs ss = p @ CallDelete s # q" "createsOf q \<noteq> []"
  shows "length (createsOf p) = n + length (deletesOf p)"
  using assms
proof (induction n rs ss arbitrary: p rule: rulePlan.induct)
  case (1 n ss)
  then have "map CallDelete ss = p @ CallDelete s # q" by simp
  then obtain us where "q = map CallDelete us" by (metis map_eq_Cons_D map_eq_append_conv)
  then show ?case using 1(2) by (simp add: createsOf_deletes)
next
  case (2 n r rs ss)
  then obtain p' where p: "p = CallCreate r # p'" "rulePlan n rs ss = p' @ CallDelete s # q"
    by (cases p) auto
  then show ?case using 2(1) [OF p(2) 2(3)] by simp
next
  case (3 r rs t ss)
  show ?case
  proof (cases p)
    case (Cons c p1)
    then have p1: "CallCreate r # rulePlan 0 rs ss = p1 @ CallDelete s # q" and c: "c = CallDelete t" using 3(2) by auto
    obtain p2 where p2: "p1 = CallCreate r # p2" "rulePlan 0 rs ss = p2 @ CallDelete s # q"
      using p1 by (cases p1) auto
    show ?thesis using 3(1) [OF p2(2) 3(3)] Cons c p2(1) by simp
  qed simp
qed simp

text \<open>
  C1. Creating and deleting the rules of a listener that takes at most \<open>L\<close> of them. The run ends for every
  input. If the rules that are wanted fit, it creates all of them and deletes all the others, in order,
  although it learns the limit only by running into it; if they do not fit it returns the error that says so.
  It deletes a rule before everything is created only when the listener is full: no capacity is given up
  while traffic still waits for its rule. The limit is known from the API's error alone, through the retries and the
  wrapping of the manager.
\<close>

theorem listener_rules_within_limit:
  assumes "rule_api_limit (lrApi cfg) cnt L" "\<forall>r \<in> set rs. creatable (lrGates cfg) r"
    "cnt (tagCloud (cloud \<sigma>)) = k" "k \<le> L" "length ss \<le> k"
  shows "\<exists>plan \<sigma>'.
     createAndDeleteRules (ruleManager cfg m) k rs ss \<sigma> =
       ((if k + length rs \<le> L + length ss then Inr () else Inl tooManyAttached), \<sigma>')
   \<and> runPlan (ruleManager cfg m) ruleID plan \<sigma> = (Inr (), \<sigma>')
   \<and> (k + length rs \<le> L + length ss \<longrightarrow>
        createsOf plan = rs \<and> deletesOf plan = ss \<and> cnt (tagCloud (cloud \<sigma>')) + length ss = k + length rs)
   \<and> (\<forall>p s q. plan = p @ CallDelete s # q \<and> createsOf q \<noteq> [] \<longrightarrow> k + length (createsOf p) = L + length (deletesOf p))"
proof -
  let ?plan = "rulePlan (L - k) rs ss"
  have fits: "length rs \<le> (L - k) + length ss \<longleftrightarrow> k + length rs \<le> L + length ss" using assms(4) by arith
  obtain \<sigma>' where run: "runPlan (ruleManager cfg m) ruleID ?plan \<sigma> = (Inr (), \<sigma>')"
      "createDeleteLoop (ruleManager cfg m) (int k) (- 1) rs ss \<sigma> =
         ((if length rs \<le> (L - k) + length ss then Inr () else Inl tooManyAttached), \<sigma>')"
      "length rs \<le> (L - k) + length ss \<longrightarrow> cnt (tagCloud (cloud \<sigma>')) + length ss = k + length rs"
    using createDeleteLoop_plan [OF ruleManager_limit [OF assms(1)], of rs \<sigma> "L - k" ss "- 1" m] assms(2-5) by auto
  show ?thesis
  proof (intro exI conjI allI impI)
    show "createAndDeleteRules (ruleManager cfg m) k rs ss \<sigma> =
        ((if k + length rs \<le> L + length ss then Inr () else Inl tooManyAttached), \<sigma>')"
      using run(2) fits by (simp add: createAndDeleteRules_def)
    show "runPlan (ruleManager cfg m) ruleID ?plan \<sigma> = (Inr (), \<sigma>')" by (rule run(1))
    assume "k + length rs \<le> L + length ss"
    then have f: "length rs \<le> (L - k) + length ss" using fits by simp
    show "createsOf ?plan = rs" "deletesOf ?plan = ss" using rulePlan_complete [OF f] by simp_all
    show "cnt (tagCloud (cloud \<sigma>')) + length ss = k + length rs" using run(3) f by simp
  next
    fix p s q assume "?plan = p @ CallDelete s # q \<and> createsOf q \<noteq> []"
    then have "length (createsOf p) = (L - k) + length (deletesOf p)" by (elim conjE) (rule rulePlan_deletes_when_full)
    then show "k + length (createsOf p) = L + length (deletesOf p)" using assms(4) by arith
  qed
qed

text \<open>Example rules, and an API in memory that counts the rules of its listener.\<close>

definition exRuleSpec :: "int \<Rightarrow> ListenerRuleSpec" where
  "exRuleSpec prio = \<lparr>lrListenerARN = Inr ''ls'', lrPriority = prio, lrActions = [exAction ''tg1''],
     lrConditions = [], lrTransforms = [], lrTags = []\<rparr>"

definition exRule :: "int \<Rightarrow> ListenerRule" where
  "exRule prio = \<lparr>lrStack = \<lparr>Namespace = ''ns'', Name = ''svc''\<rparr>, lrID = Itoa prio, lrSpec = exRuleSpec prio\<rparr>"

definition exConfig :: resLRDesiredRuleConfig where
  "exConfig = \<lparr>desiredActions = [exSDKAction ''tg1''], desiredConditions = [], desiredTransforms = []\<rparr>"

definition exSDKRule :: "string \<Rightarrow> string \<Rightarrow> string \<Rightarrow> ListenerRuleWithTags" where
  "exSDKRule arn prio tg = \<lparr>sdkObj = \<lparr>descArn = Some arn, descVpcId = None, descObj =
     \<lparr>sIsDefault = Some False, sPriority = Some prio, sActions = [exSDKAction tg], sConditions = [], sTransforms = []\<rparr>\<rparr>,
     sdkTags = None\<rparr>"

definition memRules :: "nat \<Rightarrow> nat rule_api" where
  "memRules L = \<lparr>
     CreateRule = (\<lambda>req w. if w < L then (Inr [sdkObj (exSDKRule ''new'' (Itoa (crPriority req)) ''tg1'')], Suc w)
        else (Inl (APIError ''TooManyRules'' ''''), w)),
     ModifyRule = (\<lambda>_ w. (Inr (), w)), DeleteRule = (\<lambda>_ w. (Inr (), w - 1)), SetRulePriorities = (\<lambda>_ w. (Inr (), w))\<rparr>"

definition silentTagging :: "('lb, 'tg, 'ls, 'lr, 'w) elbv2_tagging" where
  "silentTagging = \<lparr>AddTags = (\<lambda>_ _ w. (Inr (), w)), RemoveTags = (\<lambda>_ _ w. (Inr (), w)), DescribeTags = (\<lambda>_ w. (Inr [], w)),
     DescribeLoadBalancers = (\<lambda>_ w. (Inr [], w)), DescribeTargetGroups = (\<lambda>_ w. (Inr [], w)),
     DescribeListeners = (\<lambda>_ w. (Inr [], w)), DescribeRules = (\<lambda>_ w. (Inr [], w)),
     GetResources = (\<lambda>_ _ w. (Inr [], w)), Now = (\<lambda>_. 0)\<rparr>"

definition exRuleCfg :: "nat \<Rightarrow> nat rule_manager_cfg" where
  "exRuleCfg L = \<lparr>lrApi = memRules L, lrGates = NewFeatureGates, lrExistencePolls = 3\<rparr>"

definition exRuleDeps :: "(unit, unit, unit, unit, nat) elbv2_deps" where
  "exRuleDeps = \<lparr>taggingApi = silentTagging, taggingCfg = tagConfig,
     trackingProvider = \<lparr>tagPrefix = ''service.k8s.aws'', clusterName = ''c'', region = None\<rparr>, externalManagedTags = [],
     depVpcID = ''vpc'', deletionPolls = 3\<rparr>"

lemma memRules_limit: "rule_api_limit (lrApi (exRuleCfg L)) (\<lambda>w. w) L"
  by (simp add: rule_api_limit_def exRuleCfg_def memRules_def)

lemma exConfig_ok: "buildResLRDesiredRuleConfig NewFeatureGates (exRule p) = Inr exConfig"
proof -
  have "Enabled NewFeatureGates ''WeightedTargetGroups''" by code_simp
  then show ?thesis
    by (simp add: buildResLRDesiredRuleConfig_def exRule_def exRuleSpec_def exConfig_def buildSDKActions_def buildSDKAction_def
        exAction_def exSDKAction_def buildSDKForwardActionConfig_def Let_def buildSDKRuleConditions_def buildSDKTransforms_def to_int32_def)
qed

theorem listener_rules_within_limit_witness:
  "\<exists>plan \<sigma>'.
     createAndDeleteRules (ruleManager (exRuleCfg 2) exRuleDeps) 1 [(exRule 1, exConfig), (exRule 2, exConfig)]
        [exSDKRule ''old'' ''9'' ''tg0''] \<lparr>deferred = [], statuses = [], cloud = \<lparr>resourceTagsCache = [], tagCloud = 1\<rparr>\<rparr> = (Inr (), \<sigma>')
   \<and> runPlan (ruleManager (exRuleCfg 2) exRuleDeps) ruleID plan
        \<lparr>deferred = [], statuses = [], cloud = \<lparr>resourceTagsCache = [], tagCloud = 1\<rparr>\<rparr> = (Inr (), \<sigma>')
   \<and> createsOf plan = [(exRule 1, exConfig), (exRule 2, exConfig)] \<and> deletesOf plan = [exSDKRule ''old'' ''9'' ''tg0'']"
proof -
  have "\<forall>r \<in> set [(exRule 1, exConfig), (exRule 2, exConfig)]. creatable (lrGates (exRuleCfg 2)) r"
    by (simp add: creatable_def exConfig_ok exRuleCfg_def) (simp add: exRule_def exRuleSpec_def)
  from listener_rules_within_limit [OF memRules_limit this, of
      "\<lparr>deferred = [], statuses = [], cloud = \<lparr>resourceTagsCache = [], tagCloud = 1\<rparr>\<rparr>" 1
      "[exSDKRule ''old'' ''9'' ''tg0'']" exRuleDeps]
  show ?thesis by (simp add: conj_assoc) blast
qed

section \<open>The match and the priorities\<close>

lemma takeFirst_Some:
  "takeFirst P ss = Some (s, ss') \<Longrightarrow> P s \<and> mset ss = add_mset s (mset ss')"
  by (induction ss arbitrary: ss') (auto split: if_splits)

lemma takeFirst_None: "takeFirst P ss = None \<longleftrightarrow> (\<forall>s \<in> set ss. \<not> P s)"
  by (induction ss) auto

lemma matchSettings_partition:
  assumes "matchSettings rs ss = (m, ur, us)"
  shows "mset (map fst m) + mset ur = mset rs \<and> mset (map snd m) + mset us = mset ss
     \<and> (\<forall>(r, s) \<in> set m. settingsEqual (snd r) s)"
  using assms
proof (induction rs ss arbitrary: m ur us rule: matchSettings.induct)
  case (2 r rs ss)
  show ?case
  proof (cases "takeFirst (settingsEqual (snd r)) ss")
    case None
    obtain m1 ur1 us1 where rec: "matchSettings rs ss = (m1, ur1, us1)" by (metis prod_cases3)
    then show ?thesis using 2(1) [OF None rec] 2(3) None by auto
  next
    case (Some p)
    obtain s ss' where p: "p = (s, ss')" by (cases p)
    obtain m1 ur1 us1 where rec: "matchSettings rs ss' = (m1, ur1, us1)" by (metis prod_cases3)
    have "m = (r, s) # m1" "ur = ur1" "us = us1" using 2(3) Some p rec by auto
    then show ?thesis using 2(2) [OF Some p [symmetric] rec] Some takeFirst_Some [of "settingsEqual (snd r)" ss s ss'] p by auto
  qed
qed auto

text \<open>Matching by a key that is distinct on both sides loses no resource either.\<close>

lemma matching_fst:
  assumes "matching rkey (\<lambda>s. Some (skey s)) fits rs ss (m, ur, us)" "distinct (map rkey rs)" "distinct (map skey ss)"
  shows "mset (map fst m) + mset ur = mset rs"
proof -
  note M = matchingD [OF assms(1)]
  have "mset ss = mset (map snd m) + mset us" and ur: "distinct ur" using assms(1) by (simp_all add: matching_def)
  then have "mset (map skey ss) = mset (map skey (map snd m @ us))" by (metis mset_append mset_map)
  then have "distinct (map skey (map snd m @ us))"
    using assms(3) mset_eq_imp_distinct_iff by blast
  then have d: "distinct (map (\<lambda>p. skey (snd p)) m)" by (simp add: comp_def)
  have "map (\<lambda>p. skey (snd p)) m = map rkey (map fst m)"
    unfolding map_map
  proof (rule map_cong [OF refl])
    fix p assume "p \<in> set m"
    then show "skey (snd p) = (rkey \<circ> fst) p" using M(1) [of "fst p" "snd p"] by simp
  qed
  then have "distinct (map fst m)" using d by (metis distinct_map)
  moreover have "set (map fst m) \<inter> set ur = {}" using M(4) by auto
  moreover have "set (map fst m @ ur) = set rs" using M(1,4) by force
  moreover have "distinct rs" using assms(2) by (simp add: distinct_map)
  ultimately have "mset (map fst m @ ur) = mset rs"
    using ur by (metis distinct_append set_eq_iff_mset_eq_distinct)
  then show ?thesis by simp
qed

lemma distinct_subset_key:
  assumes "distinct (map f xs)" "mset xs = mset ys + mset zs"
  shows "distinct (map f ys)" "distinct (map f zs)"
proof -
  have "distinct (map f (ys @ zs))" using assms by (metis mset_append mset_eq_imp_distinct_iff mset_map)
  then show "distinct (map f ys)" "distinct (map f zs)" by simp_all
qed

abbreviation kept :: "rule_match \<Rightarrow> (desiredLR \<times> ListenerRuleWithTags) list" where
  "kept mt \<equiv> bySettings mt @ byPriority mt @ fullyMatched mt"

lemma matchRules_partition:
  assumes "distinct (map resPriority rs)" "distinct (map sdkPriority ss)" "mt = matchResAndSDKListenerRules rs ss"
  shows "mset (map fst (kept mt)) + mset (resLRsToCreate mt) = mset rs"
    and "mset (map snd (kept mt)) + mset (sdkLRsToDelete mt) = mset ss"
    and "\<forall>(r, s) \<in> set (byPriority mt @ fullyMatched mt). sdkPriority s = resPriority r"
    and "\<forall>r \<in> set (resLRsToCreate mt). \<forall>s \<in> set (sdkLRsToDelete mt). sdkPriority s \<noteq> resPriority r"
proof -
  obtain m ur us where m: "matchSettings rs ss = (m, ur, us)" by (metis prod_cases3)
  note P = matchSettings_partition [OF m]
  have dr: "distinct (map resPriority ur)" and ds: "distinct (map sdkPriority us)"
    using distinct_subset_key(2) [OF assms(1)] distinct_subset_key(2) [OF assms(2)] P by metis+
  obtain bp uc ud where b: "matchByKey (mapResListenerRuleByPriority ur) (mapSDKListenerRuleByPriority us) = (bp, uc, ud)"
    by (metis prod_cases3)
  have M: "matching resPriority (\<lambda>s. Some (sdkPriority s)) (\<lambda>s r. True) ur us (bp, uc, ud)"
    using matchByKey_matching [OF dr ds] b
    by (simp add: mapResListenerRuleByPriority_def mapSDKListenerRuleByPriority_def)
  have mt: "mt = \<lparr>bySettings = filter (\<lambda>(r, s). resPriority r \<noteq> sdkPriority s) m, byPriority = bp,
          fullyMatched = filter (\<lambda>(r, s). resPriority r = sdkPriority s) m, resLRsToCreate = uc, sdkLRsToDelete = ud\<rparr>"
    unfolding assms(3) matchResAndSDKListenerRules_def by (simp add: m b)
  have split: "mset m = mset (filter (\<lambda>(r, s). resPriority r \<noteq> sdkPriority s) m) + mset (filter (\<lambda>(r, s). resPriority r = sdkPriority s) m)"
    by (induction m) auto
  have kept: "mset (kept mt) = mset m + mset bp" unfolding mt split by simp
  have "mset (map fst bp) + mset uc = mset ur" by (rule matching_fst [OF M dr ds])
  then show "mset (map fst (kept mt)) + mset (resLRsToCreate mt) = mset rs"
    using P kept by (metis (no_types, lifting) mt add.assoc image_mset_union mset_map rule_match.select_convs(4))
  have "mset (map snd bp) + mset ud = mset us" using M by (simp add: matching_def)
  then show "mset (map snd (kept mt)) + mset (sdkLRsToDelete mt) = mset ss"
    using P kept by (metis (no_types, lifting) mt add.assoc image_mset_union mset_map rule_match.select_convs(5))
  show "\<forall>(r, s) \<in> set (byPriority mt @ fullyMatched mt). sdkPriority s = resPriority r"
    using matchingD(1) [OF M] by (auto simp: mt)
  show "\<forall>r \<in> set (resLRsToCreate mt). \<forall>s \<in> set (sdkLRsToDelete mt). sdkPriority s \<noteq> resPriority r"
    using matching_unmatched(1) [OF M] matchingD(2) [OF M] by (auto simp: mt)
qed

lemma rulePriority_set: "0 \<le> p \<Longrightarrow> p < 2 ^ 31 \<Longrightarrow> rulePriority 32 (setPriority p s) = p"
  by (simp add: rulePriority_def setPriority_def ParseInt_Itoa_nat)

lemma arn_set [simp]: "descArn (sdkObj (setPriority p s)) = descArn (sdkObj s)"
  by (simp add: setPriority_def)

abbreviation ruleArn :: "ListenerRuleWithTags \<Rightarrow> string option" where
  "ruleArn s \<equiv> descArn (sdkObj s)"

lemma pushDown_pairs:
  assumes "int (length xs) \<le> p" "p \<le> 50000"
  shows "map (\<lambda>s. (ruleArn s, rulePriority 32 s)) (pushDown p xs) = map (\<lambda>i. (ruleArn (xs ! i), p - int i)) [0..<length xs]"
  using assms
proof (induction p xs rule: pushDown.induct)
  case (2 p x xs)
  have "to_int32 (p - 1) = p - 1" using 2(2,3) by (intro to_int32_id) simp_all
  moreover have "map (\<lambda>s. (ruleArn s, rulePriority 32 s)) (pushDown (p - 1) xs) =
      map (\<lambda>i. (ruleArn (xs ! i), p - 1 - int i)) [0..<length xs]"
    using 2(1) 2(2,3) \<open>to_int32 (p - 1) = p - 1\<close> by simp
  moreover have "[0..<length (x # xs)] = 0 # map Suc [0..<length xs]" by (simp add: map_Suc_upt upt_conv_Cons del: upt_Suc)
  ultimately show ?case using 2(2,3) by (simp add: rulePriority_set comp_def diff_diff_eq del: upt_Suc)
qed simp

text \<open>The priority a rule has after the request.\<close>

definition assigned :: "RulePriorityPair list \<Rightarrow> ListenerRuleWithTags \<Rightarrow> int" where
  "assigned req s = (case map_of req (ruleArn s) of None \<Rightarrow> sdkPriority s | Some p \<Rightarrow> p)"

lemma assigned_in:
  assumes "(ruleArn s, p) \<in> set req" "distinct (map fst req)"
  shows "assigned req s = p"
  using assms by (simp add: assigned_def)

lemma assigned_notin: "ruleArn s \<notin> fst ` set req \<Longrightarrow> assigned req s = sdkPriority s"
  by (simp add: assigned_def mget_None)

text \<open>The request that the synthesizer sends: none unless some rule only has to move.\<close>

definition sentPriorities :: "rule_match \<Rightarrow> RulePriorityPair list" where
  "sentPriorities mt = (if length (bySettings mt) > 0 then buildSDKSetRulePrioritiesInput (bySettings mt) (sdkLRsToDelete mt) else [])"

lemma request_pairs:
  assumes "\<forall>(r, s) \<in> set bs. 0 \<le> resPriority r \<and> resPriority r < 2 ^ 31" "length us \<le> 50000"
  shows "buildSDKSetRulePrioritiesInput bs us =
     map (\<lambda>i. (ruleArn (rev (sortByPriority us) ! i), 50000 - int i)) [0..<length us]
     @ map (\<lambda>(r, s). (ruleArn s, resPriority r)) bs"
proof -
  have "map (\<lambda>s. (ruleArn s, rulePriority 32 s)) (map (\<lambda>((resLR, _), sdkLR). setPriority (lrPriority (lrSpec resLR)) sdkLR) bs)
      = map (\<lambda>(r, s). (ruleArn s, resPriority r)) bs"
    using assms(1) by (induction bs) (auto simp: resPriority_def rulePriority_set)
  then show ?thesis
    using pushDown_pairs [of "rev (sortByPriority us)" 50000] assms(2)
    by (simp add: buildSDKSetRulePrioritiesInput_def Let_def sortByPriority_def)
qed

lemma request_arns:
  "map fst (map (\<lambda>i. (ruleArn (rev (sortByPriority us) ! i), 50000 - int i)) [0..<length us]
     @ map (\<lambda>(r, s). (ruleArn s, resPriority r)) bs) = map ruleArn (rev (sortByPriority us)) @ map ruleArn (map snd bs)"
proof -
  have "map (\<lambda>i. rev (sortByPriority us) ! i) [0..<length us] = rev (sortByPriority us)"
    by (metis sortByPriority_def length_rev length_sort map_nth)
  then have "map ruleArn (map (\<lambda>i. rev (sortByPriority us) ! i) [0..<length us]) = map ruleArn (rev (sortByPriority us))" by simp
  moreover have "map fst (map (\<lambda>(r, s). (ruleArn s, resPriority r)) bs) = map ruleArn (map snd bs)"
    by (induction bs) auto
  ultimately show ?thesis by (simp add: comp_def)
qed

lemma sorted_rev_nth:
  assumes "distinct (map (rulePriority 64) us)" "i < j" "j < length us"
  shows "rulePriority 64 (rev (sortByPriority us) ! j) < rulePriority 64 (rev (sortByPriority us) ! i)"
proof -
  let ?k = "rulePriority 64" and ?xs = "sortByPriority us"
  have len: "length ?xs = length us" by (simp add: sortByPriority_def)
  have sorted: "sorted (map ?k ?xs)" unfolding sortByPriority_def by simp
  have "distinct (map ?k ?xs)" unfolding sortByPriority_def
    using assms(1) by (metis mset_eq_imp_distinct_iff mset_map mset_sort)
  then have "sorted_wrt (<) (map ?k ?xs)" using sorted by (simp add: strict_sorted_iff)
  then have "map ?k ?xs ! (length us - Suc j) < map ?k ?xs ! (length us - Suc i)"
    by (rule sorted_wrt_nth_less) (use assms(2,3) len in auto)
  then show ?thesis using assms(2,3) len by (simp add: rev_nth)
qed

text \<open>
  The priorities after the request, when some rule moves: the moved rules have the priorities of their
  resources, the rules to delete come after every resource, in their old order, and the others keep theirs.
\<close>

lemma sent_assigned:
  assumes "distinct (map ruleArn ss)" "distinct (map sdkPriority ss)" "distinct (map resPriority rs)"
    "\<forall>r \<in> set rs. 0 < resPriority r \<and> resPriority r + int (length ss) \<le> 50000"
    "\<forall>s \<in> set ss. 0 < rulePriority 64 s \<and> rulePriority 64 s \<le> 50000"
    "mt = matchResAndSDKListenerRules rs ss" "bySettings mt \<noteq> []"
  shows "\<forall>(r, s) \<in> set (kept mt). assigned (sentPriorities mt) s = resPriority r"
    and "\<forall>s \<in> set (sdkLRsToDelete mt). \<forall>r \<in> set rs. resPriority r < assigned (sentPriorities mt) s"
    and "\<forall>s \<in> set (sdkLRsToDelete mt). \<forall>t \<in> set (sdkLRsToDelete mt). sdkPriority s < sdkPriority t \<longrightarrow>
       assigned (sentPriorities mt) s < assigned (sentPriorities mt) t"
proof -
  note P = matchRules_partition [OF assms(3,2,6)]
  let ?us = "sdkLRsToDelete mt" and ?bs = "bySettings mt"
  have key: "sdkPriority s = rulePriority 64 s" if "s \<in> set ss" for s
    unfolding sdkPriority_def using assms(5) that by (intro to_int32_id) (force simp: less_imp_le)+
  have sub: "set ?us \<subseteq> set ss" "set (map snd (kept mt)) \<subseteq> set ss" "set (map fst (kept mt)) \<subseteq> set rs"
    using arg_cong [OF P(2), of set_mset] arg_cong [OF P(1), of set_mset] by auto
  have len: "length ?us \<le> length ss" using arg_cong [OF P(2), of size] by simp
  obtain r0 where "r0 \<in> set rs" using assms(7) sub(3) by (cases ?bs) auto
  then have small: "length ?us \<le> 50000" using assms(4) len by fastforce
  have bnd: "\<forall>(r, s) \<in> set ?bs. 0 \<le> resPriority r \<and> resPriority r < 2 ^ 31"
    using assms(4) sub(3) by (force simp: less_imp_le)
  have req: "sentPriorities mt = map (\<lambda>i. (ruleArn (rev (sortByPriority ?us) ! i), 50000 - int i)) [0..<length ?us]
     @ map (\<lambda>(r, s). (ruleArn s, resPriority r)) ?bs"
    using assms(7) request_pairs [OF bnd small] by (simp add: sentPriorities_def)
  have all: "distinct (map ruleArn (map snd (kept mt) @ ?us))"
    using assms(1) P(2) by (metis mset_append mset_eq_imp_distinct_iff mset_map)
  have fsts: "map fst (sentPriorities mt) = map ruleArn (rev (sortByPriority ?us)) @ map ruleArn (map snd ?bs)"
    unfolding req by (rule request_arns)
  have "mset (sortByPriority ?us) = mset ?us" by (simp add: sortByPriority_def)
  then have sset: "set (sortByPriority ?us) = set ?us" "length (sortByPriority ?us) = length ?us"
    by (metis set_mset_mset) (simp add: sortByPriority_def)
  have "mset (map ruleArn (rev (sortByPriority ?us))) = mset (map ruleArn ?us)"
    using \<open>mset (sortByPriority ?us) = mset ?us\<close> by simp
  then have "distinct (map ruleArn (rev (sortByPriority ?us)))"
    using all by (metis distinct_append map_append mset_eq_imp_distinct_iff)
  then have dreq: "distinct (map fst (sentPriorities mt))"
    using all sset(1) unfolding fsts by (auto simp: distinct_append)
  have arns: "fst ` set (sentPriorities mt) = ruleArn ` set ?us \<union> ruleArn ` snd ` set ?bs"
    using arg_cong [OF fsts, of set] sset(1) by auto
  have pos: "\<exists>i < length ?us. s = rev (sortByPriority ?us) ! i \<and> assigned (sentPriorities mt) s = 50000 - int i"
    if s: "s \<in> set ?us" for s
  proof -
    obtain i where i: "i < length ?us" "s = rev (sortByPriority ?us) ! i"
      using s sset by (metis in_set_conv_nth length_rev set_rev)
    have "(ruleArn s, 50000 - int i) \<in> set (sentPriorities mt)" unfolding req using i by (auto simp: image_iff)
    then show ?thesis using assigned_in [OF _ dreq] i by blast
  qed
  show "\<forall>(r, s) \<in> set (kept mt). assigned (sentPriorities mt) s = resPriority r"
  proof (intro ballI, clarify)
    fix r1 r2 s assume rs: "((r1, r2), s) \<in> set (kept mt)"
    show "assigned (sentPriorities mt) s = resPriority (r1, r2)"
    proof (cases "((r1, r2), s) \<in> set ?bs")
      case True
      then have "(ruleArn s, resPriority (r1, r2)) \<in> set (sentPriorities mt)" unfolding req by force
      then show ?thesis by (rule assigned_in [OF _ dreq])
    next
      case False
      then have in2: "((r1, r2), s) \<in> set (byPriority mt @ fullyMatched mt)" using rs by simp
      then have "s \<in> set (map snd (byPriority mt @ fullyMatched mt))" by (force simp: image_iff)
      then have "ruleArn s \<notin> fst ` set (sentPriorities mt)" using all unfolding arns by (auto simp: distinct_append)
      from assigned_notin [OF this] show ?thesis using bspec [OF P(3) in2] by simp
    qed
  qed
  show "\<forall>s \<in> set ?us. \<forall>r \<in> set rs. resPriority r < assigned (sentPriorities mt) s"
  proof (intro ballI)
    fix s r assume s: "s \<in> set ?us" and r: "r \<in> set rs"
    obtain i where "i < length ?us" "assigned (sentPriorities mt) s = 50000 - int i" using pos [OF s] by blast
    moreover have "resPriority r + int (length ss) \<le> 50000" using assms(4) r by blast
    ultimately show "resPriority r < assigned (sentPriorities mt) s" using len by linarith
  qed
  have "distinct (map sdkPriority ?us)" using distinct_subset_key(2) [OF assms(2)] P(2) by metis
  moreover have "map sdkPriority ?us = map (rulePriority 64) ?us" using key sub(1) by auto
  ultimately have du: "distinct (map (rulePriority 64) ?us)" by simp
  show "\<forall>s \<in> set ?us. \<forall>t \<in> set ?us. sdkPriority s < sdkPriority t \<longrightarrow>
       assigned (sentPriorities mt) s < assigned (sentPriorities mt) t"
  proof (intro ballI impI)
    fix s t assume st: "s \<in> set ?us" "t \<in> set ?us" "sdkPriority s < sdkPriority t"
    obtain i where i: "i < length ?us" "s = rev (sortByPriority ?us) ! i" "assigned (sentPriorities mt) s = 50000 - int i"
      using pos [OF st(1)] by blast
    obtain j where j: "j < length ?us" "t = rev (sortByPriority ?us) ! j" "assigned (sentPriorities mt) t = 50000 - int j"
      using pos [OF st(2)] by blast
    have "rulePriority 64 s < rulePriority 64 t" using st key sub(1) by (metis subsetD)
    then have "\<not> i < j" using sorted_rev_nth [OF du _ j(1), of i] i(2) j(2) by auto
    moreover have "i \<noteq> j" using i(2) j(2) st(3) by auto
    ultimately show "assigned (sentPriorities mt) s < assigned (sentPriorities mt) t" using i(3) j(3) by linarith
  qed
qed

lemma inj_on_parts:
  fixes f :: "'s \<Rightarrow> int" and h :: "'s \<Rightarrow> int"
  assumes "S = snd ` set K \<union> U" "\<forall>(r, s) \<in> set K. f s = g r" "distinct (map (\<lambda>p. g (fst p)) K)"
    "\<forall>s \<in> U. \<forall>p \<in> set K. g (fst p) < f s" "\<forall>s \<in> U. \<forall>t \<in> U. h s < h t \<longrightarrow> f s < f t" "inj_on h U"
  shows "inj_on f S"
proof (rule inj_onI)
  fix s t assume st: "s \<in> S" "t \<in> S" "f s = f t"
  have val: "f x = g r" if "(r, x) \<in> set K" for r x using assms(2) that by auto
  have less: "g r < f x" if "(r, y) \<in> set K" "x \<in> U" for r x y
    using bspec [OF bspec [OF assms(4) that(2)] that(1)] by simp
  have c3: "x = y" if a: "x \<in> U" "y \<in> U" "f x = f y" for x y
  proof -
    have "\<not> h x < h y" "\<not> h y < h x" using bspec [OF bspec [OF assms(5) a(1)] a(2)] bspec [OF bspec [OF assms(5) a(2)] a(1)] a(3) by auto
    then have "h x = h y" by simp
    then show ?thesis using inj_onD [OF assms(6) _ a(1,2)] by blast
  qed
  have in2: "x \<in> U \<or> (\<exists>r. (r, x) \<in> set K)" if "x \<in> S" for x
    using that assms(1) by (metis UnE imageE prod.collapse)
  consider "s \<in> U" "t \<in> U" | r where "(r, s) \<in> set K" "t \<in> U" | r where "s \<in> U" "(r, t) \<in> set K"
    | r q where "(r, s) \<in> set K" "(q, t) \<in> set K"
    using in2 [OF st(1)] in2 [OF st(2)] by blast
  then show "s = t"
  proof cases
    case 1
    then show ?thesis using c3 st(3) by blast
  next
    case 2
    then show ?thesis using less [OF 2] val [OF 2(1)] st(3) by simp
  next
    case 3
    then show ?thesis using less [OF 3(2,1)] val [OF 3(2)] st(3) by simp
  next
    case (4 r q)
    have "g r = g q" using val [OF 4(1)] val [OF 4(2)] st(3) by simp
    moreover have "inj_on (\<lambda>p. g (fst p)) (set K)" using assms(3) by (simp add: distinct_map)
    ultimately have "(r, s) = (q, t)" using inj_onD [of "\<lambda>p. g (fst p)" "set K" "(r, s)" "(q, t)"] 4 by simp
    then show ?thesis by simp
  qed
qed

text \<open>
  C5. The priorities of a listener's rules. Each wanted rule is paired with at most one rule of the listener
  and each rule of the listener is kept or deleted, exactly once. After the one request that reorders the
  rules, and before any rule is modified, created or deleted: every kept rule has the priority of its
  resource, no two rules of the listener share a priority, and no rule is in the way of one that has to be
  created. When the request is sent, the rules to be deleted have moved behind all wanted ones and keep
  their relative order, so they still serve their traffic until the new rules are there.
\<close>

theorem rule_priorities_consistent:
  assumes "distinct (map ruleArn ss)" "distinct (map sdkPriority ss)" "distinct (map resPriority rs)"
    "\<forall>r \<in> set rs. 0 < resPriority r \<and> resPriority r + int (length ss) \<le> 50000"
    "\<forall>s \<in> set ss. 0 < rulePriority 64 s \<and> rulePriority 64 s \<le> 50000"
    "mt = matchResAndSDKListenerRules rs ss" "f = assigned (sentPriorities mt)"
  shows "mset (map fst (kept mt)) + mset (resLRsToCreate mt) = mset rs
     \<and> mset (map snd (kept mt)) + mset (sdkLRsToDelete mt) = mset ss
     \<and> (\<forall>(r, s) \<in> set (kept mt). f s = resPriority r)
     \<and> inj_on f (set ss)
     \<and> (\<forall>r \<in> set (resLRsToCreate mt). \<forall>s \<in> set ss. f s \<noteq> resPriority r)
     \<and> (bySettings mt \<noteq> [] \<longrightarrow> (\<forall>s \<in> set (sdkLRsToDelete mt). \<forall>r \<in> set rs. resPriority r < f s))
     \<and> (\<forall>s \<in> set (sdkLRsToDelete mt). \<forall>t \<in> set (sdkLRsToDelete mt). sdkPriority s < sdkPriority t \<longrightarrow> f s < f t)"
proof -
  note P = matchRules_partition [OF assms(3,2,6)]
  let ?us = "sdkLRsToDelete mt"
  have none: "f = sdkPriority" if "bySettings mt = []"
    using that by (simp add: assms(7) sentPriorities_def assigned_def fun_eq_iff)
  have K: "\<forall>(r, s) \<in> set (kept mt). f s = resPriority r"
  proof (cases "bySettings mt = []")
    case True
    then show ?thesis using P(3) none by simp
  next
    case False
    then show ?thesis unfolding assms(7) by (rule sent_assigned(1) [OF assms(1-6)])
  qed
  have mono: "f s < f t" if "s \<in> set ?us" "t \<in> set ?us" "sdkPriority s < sdkPriority t" for s t
  proof (cases "bySettings mt = []")
    case True
    then show ?thesis using none that by simp
  next
    case False
    then show ?thesis using sent_assigned(3) [OF assms(1-6)] that unfolding assms(7) by blast
  qed
  have behind: "\<forall>s \<in> set ?us. \<forall>r \<in> set rs. resPriority r < f s" if "bySettings mt \<noteq> []"
    unfolding assms(7) by (rule sent_assigned(2) [OF assms(1-6) that])
  have SS: "set ss = snd ` set (kept mt) \<union> set ?us" and RS: "set rs = fst ` set (kept mt) \<union> set (resLRsToCreate mt)"
    using arg_cong [OF P(2), of set_mset] arg_cong [OF P(1), of set_mset] by auto
  have dres: "distinct (map resPriority (map fst (kept mt) @ resLRsToCreate mt))"
    using assms(3) P(1) by (metis mset_append mset_eq_imp_distinct_iff mset_map)
  have free: "f s \<noteq> resPriority r" if r: "r \<in> set (resLRsToCreate mt)" and s: "s \<in> set ss" for r s
  proof (cases "s \<in> set ?us")
    case True
    show ?thesis
    proof (cases "bySettings mt = []")
      case True
      then show ?thesis using none P(4) r \<open>s \<in> set ?us\<close> by simp
    next
      case False
      then show ?thesis using behind \<open>s \<in> set ?us\<close> r RS by force
    qed
  next
    case False
    then have "s \<in> snd ` set (kept mt)" using s unfolding SS by blast
    then obtain p where p: "s = snd p" "p \<in> set (kept mt)" by (rule imageE)
    have "f s = resPriority (fst p)" using bspec [OF K p(2)] p(1) by (simp add: case_prod_beta)
    moreover have "resPriority (fst p) \<in> set (map resPriority (map fst (kept mt)))" using p(2) by (simp only: set_map imageI)
    moreover have "resPriority r \<in> set (map resPriority (resLRsToCreate mt))" using r by (simp only: set_map imageI)
    ultimately show ?thesis using dres unfolding map_append [of resPriority] distinct_append by (metis IntI empty_iff)
  qed
  have inj: "inj_on f (set ss)"
  proof (cases "bySettings mt = []")
    case True
    then show ?thesis using none assms(2) by (simp add: distinct_map)
  next
    case False
    show ?thesis
    proof (rule inj_on_parts [OF SS K])
      show "distinct (map (\<lambda>p. resPriority (fst p)) (kept mt))"
        using dres unfolding map_append [of resPriority "map fst (kept mt)"] distinct_append
        by (simp only: map_map comp_def)
      show "\<forall>s \<in> set ?us. \<forall>p \<in> set (kept mt). resPriority (fst p) < f s"
      proof (intro ballI)
        fix s p assume "s \<in> set ?us" "p \<in> set (kept mt)"
        moreover have "fst p \<in> set rs" using RS \<open>p \<in> set (kept mt)\<close> by blast
        ultimately show "resPriority (fst p) < f s" using behind [OF False] by blast
      qed
      show "inj_on sdkPriority (set ?us)"
        using assms(2) SS by (metis distinct_map inj_on_subset sup_ge2)
    qed (use mono in blast)
  qed
  show ?thesis using P(1,2) K inj free behind mono by blast
qed

theorem rule_priorities_consistent_witness:
  "let ss = [exSDKRule ''a'' ''1'' ''tg0'', exSDKRule ''b'' ''2'' ''tg1'']; rs = [(exRule 1, exConfig)];
       mt = matchResAndSDKListenerRules rs ss; f = assigned (sentPriorities mt)
   in mset (map fst (kept mt)) + mset (resLRsToCreate mt) = mset rs
     \<and> mset (map snd (kept mt)) + mset (sdkLRsToDelete mt) = mset ss
     \<and> inj_on f (set ss)"
proof -
  have p: "rulePriority 64 (exSDKRule ''a'' ''1'' ''tg0'') = 1" "rulePriority 64 (exSDKRule ''b'' ''2'' ''tg1'') = 2"
    by code_simp+
  show ?thesis
    using rule_priorities_consistent [of "[exSDKRule ''a'' ''1'' ''tg0'', exSDKRule ''b'' ''2'' ''tg1'']" "[(exRule 1, exConfig)]", OF _ _ _ _ _ refl refl]
    by (simp add: p sdkPriority_def to_int32_def Let_def resPriority_def)
      (simp add: exSDKRule_def exRule_def exRuleSpec_def)
qed

end
