(* ===== verification/Ingress_Rules.thy ===== *)
theory Ingress_Rules
  imports Listener_Rule
begin

text \<open>
  From the rules of an Ingress to the listener rules of the model
  (\<^verbatim>\<open>pkg/ingress/model_build_listener_rules.go\<close>) and the rule optimizer
  (\<^verbatim>\<open>pkg/ingress/rule_optimizer.go\<close>).

  The annotations of an Ingress describe conditions and transforms with types of their own that have the fields of
  those of the model; they are the types of the theory of the actions here. What the annotation parser and the
  builder of an enhanced backend return, and the actions and tags built from them, are arguments.
\<close>

section \<open>Paths and conditions\<close>

record 'b HTTPIngressPath =
  ingPath :: string
  ingPathType :: "string option"
  ingBackend :: 'b

record 'b IngressRule =
  ingHost :: string
  ingHTTP :: "'b HTTPIngressPath list option"

record EnhancedBackend =
  ebConditions :: "RuleCondition list"
  ebTransforms :: "Transform list"

fun classifyIngressPathsByType :: "'b HTTPIngressPath list \<Rightarrow>
    ('b HTTPIngressPath list \<times> 'b HTTPIngressPath list \<times> 'b HTTPIngressPath list) res" where
  "classifyIngressPathsByType [] = Inr ([], [], [])"
| "classifyIngressPathsByType (p # ps) =
     (if ingPathType p \<noteq> None \<and> ingPathType p \<notin> {Some ''Exact'', Some ''Prefix'', Some ''ImplementationSpecific''}
      then Inl (Errorf ''unknown pathType for path %s'' [ingPath p])
      else res_bind (classifyIngressPathsByType ps) (\<lambda>(es, prs, is).
        if ingPathType p = Some ''Exact'' then Inr (p # es, prs, is)
        else if ingPathType p = Some ''Prefix'' then Inr (es, p # prs, is)
        else Inr (es, prs, p # is)))"

text \<open>\<open>sort.SliceStable\<close> by descending length.\<close>

definition sortIngressPaths :: "'b HTTPIngressPath list \<Rightarrow> 'b HTTPIngressPath list res" where
  "sortIngressPaths paths =
     res_bind (classifyIngressPathsByType paths) (\<lambda>(exact, prefix, implSpecific).
       Inr (exact @ sort_key (\<lambda>p. - int (length (ingPath p))) prefix @ implSpecific))"

definition ContainsAny :: "string \<Rightarrow> string \<Rightarrow> bool" where
  "ContainsAny s cs \<longleftrightarrow> list_ex (\<lambda>c. c \<in> set cs) s"

definition TrimSuffix :: "string \<Rightarrow> string \<Rightarrow> string" where
  "TrimSuffix s suf = (if HasSuffix s suf then take (length s - length suf) s else s)"

text \<open>The pattern lists of a path: glob patterns and regular expressions. A path of length 0 never gets here.\<close>

definition buildPathPatternsForImplementationSpecificPathType :: "bool res \<Rightarrow> string \<Rightarrow> (string list \<times> string list) res" where
  "buildPathPatternsForImplementationSpecificPathType useRegexPathMatch path =
     res_bind useRegexPathMatch (\<lambda>useRegex. if useRegex then Inr ([], [tl path]) else Inr ([path], []))"

definition buildPathPatternsForExactPathType :: "string \<Rightarrow> (string list \<times> string list) res" where
  "buildPathPatternsForExactPathType path =
     (if ContainsAny path ''*?'' then Inl (Errorf ''exact path shouldn't contain wildcards: %v'' [path])
      else Inr ([path], []))"

definition buildPathPatternsForPrefixPathType :: "string \<Rightarrow> (string list \<times> string list) res" where
  "buildPathPatternsForPrefixPathType path =
     (if path = ''/'' then Inr ([''/*''], [])
      else if ContainsAny path ''*?'' then Inl (Errorf ''prefix path shouldn't contain wildcards: %v'' [path])
      else (let normalizedPath = TrimSuffix path ''/'' in Inr ([normalizedPath, normalizedPath @ ''/*''], [])))"

definition buildPathPatterns :: "bool res \<Rightarrow> string \<Rightarrow> string option \<Rightarrow> (string list \<times> string list) res" where
  "buildPathPatterns useRegexPathMatch path pathType =
     (let normalizedPathType = (case pathType of None \<Rightarrow> ''ImplementationSpecific'' | Some t \<Rightarrow> t)
      in if normalizedPathType = ''ImplementationSpecific''
         then buildPathPatternsForImplementationSpecificPathType useRegexPathMatch path
         else if normalizedPathType = ''Exact'' then buildPathPatternsForExactPathType path
         else if normalizedPathType = ''Prefix'' then buildPathPatternsForPrefixPathType path
         else Inl (Errorf ''unsupported pathType: %v'' [normalizedPathType]))"

definition emptyCondition :: RuleCondition where
  "emptyCondition = \<lparr>conditionField = '''', HostHeaderConfig = None, HTTPHeaderConfig = None, HTTPRequestMethodConfig = None,
     PathPatternConfig = None, QueryStringConfig = None, SourceIPConfig = None\<rparr>"

definition buildHTTPHeaderCondition :: "RuleCondition \<Rightarrow> RuleCondition res" where
  "buildHTTPHeaderCondition c = (case HTTPHeaderConfig c of
       None \<Rightarrow> Inl (Errorf ''missing HTTPHeaderConfig'' [])
     | Some h \<Rightarrow> Inr (emptyCondition\<lparr>conditionField := ''http-header'', HTTPHeaderConfig := Some h\<rparr>))"

definition buildHTTPRequestMethodCondition :: "RuleCondition \<Rightarrow> RuleCondition res" where
  "buildHTTPRequestMethodCondition c = (case HTTPRequestMethodConfig c of
       None \<Rightarrow> Inl (Errorf ''missing HTTPRequestMethodConfig'' [])
     | Some v \<Rightarrow> Inr (emptyCondition\<lparr>conditionField := ''http-request-method'', HTTPRequestMethodConfig := Some v\<rparr>))"

definition buildQueryStringCondition :: "RuleCondition \<Rightarrow> RuleCondition res" where
  "buildQueryStringCondition c = (case QueryStringConfig c of
       None \<Rightarrow> Inl (Errorf ''missing QueryStringConfig'' [])
     | Some v \<Rightarrow> Inr (emptyCondition\<lparr>conditionField := ''query-string'', QueryStringConfig := Some v\<rparr>))"

definition buildSourceIPCondition :: "RuleCondition \<Rightarrow> RuleCondition res" where
  "buildSourceIPCondition c = (case SourceIPConfig c of
       None \<Rightarrow> Inl (Errorf ''missing SourceIPConfig'' [])
     | Some v \<Rightarrow> Inr (emptyCondition\<lparr>conditionField := ''source-ip'', SourceIPConfig := Some v\<rparr>))"

definition buildHostHeaderValuesCondition :: "string list \<Rightarrow> RuleCondition" where
  "buildHostHeaderValuesCondition vs =
     emptyCondition\<lparr>conditionField := ''host-header'', HostHeaderConfig := Some \<lparr>hostRegexValues = [], hostValues = vs\<rparr>\<rparr>"

definition buildHostHeaderRegexValuesCondition :: "string list \<Rightarrow> RuleCondition" where
  "buildHostHeaderRegexValuesCondition vs =
     emptyCondition\<lparr>conditionField := ''host-header'', HostHeaderConfig := Some \<lparr>hostRegexValues = vs, hostValues = []\<rparr>\<rparr>"

definition buildPathValuesCondition :: "string list \<Rightarrow> RuleCondition" where
  "buildPathValuesCondition vs =
     emptyCondition\<lparr>conditionField := ''path-pattern'', PathPatternConfig := Some \<lparr>pathRegexValues = [], pathValues = vs\<rparr>\<rparr>"

definition buildPathRegexValuesCondition :: "string list \<Rightarrow> RuleCondition" where
  "buildPathRegexValuesCondition vs =
     emptyCondition\<lparr>conditionField := ''path-pattern'', PathPatternConfig := Some \<lparr>pathRegexValues = vs, pathValues = []\<rparr>\<rparr>"

text \<open>The values that the loop over the conditions of the annotations collects.\<close>

record collected =
  colHosts :: "string list"
  colHostRegexes :: "string list"
  colPaths :: "string list"
  colPathRegexes :: "string list"
  colConditions :: "RuleCondition list"

definition collectOther :: "collected \<Rightarrow> RuleCondition res \<Rightarrow> collected res" where
  "collectOther acc c = res_bind c (\<lambda>cond. Inr (acc\<lparr>colConditions := colConditions acc @ [cond]\<rparr>))"

definition collectCondition :: "RuleCondition \<Rightarrow> collected \<Rightarrow> collected res" where
  "collectCondition c acc =
     (if conditionField c = ''host-header''
      then (case HostHeaderConfig c of
              None \<Rightarrow> Inl (Errorf ''missing HostHeaderConfig'' [])
            | Some h \<Rightarrow> Inr (acc\<lparr>colHosts := colHosts acc @ hostValues h, colHostRegexes := colHostRegexes acc @ hostRegexValues h\<rparr>))
      else if conditionField c = ''path-pattern''
      then (case PathPatternConfig c of
              None \<Rightarrow> Inl (Errorf ''missing PathPatternConfig'' [])
            | Some h \<Rightarrow> Inr (acc\<lparr>colPaths := colPaths acc @ pathValues h, colPathRegexes := colPathRegexes acc @ pathRegexValues h\<rparr>))
      else if conditionField c = ''http-header'' then collectOther acc (buildHTTPHeaderCondition c)
      else if conditionField c = ''http-request-method'' then collectOther acc (buildHTTPRequestMethodCondition c)
      else if conditionField c = ''query-string'' then collectOther acc (buildQueryStringCondition c)
      else if conditionField c = ''source-ip'' then collectOther acc (buildSourceIPCondition c)
      else Inr acc)"

fun collectConditions :: "RuleCondition list \<Rightarrow> collected \<Rightarrow> collected res" where
  "collectConditions [] acc = Inr acc"
| "collectConditions (c # cs) acc = res_bind (collectCondition c acc) (collectConditions cs)"

text \<open>How \<open>%s\<close> prints a list of strings.\<close>

definition joinStrings :: "string list \<Rightarrow> string" where
  "joinStrings xs = ''['' @ join_on (CHR '' '') xs @ '']''"

definition assembleConditions :: "collected \<Rightarrow> RuleCondition list" where
  "assembleConditions col =
     (let conditions = colConditions col
        @ (if length (colHosts col) \<noteq> 0 then [buildHostHeaderValuesCondition (colHosts col)] else [])
        @ (if length (colHostRegexes col) \<noteq> 0 then [buildHostHeaderRegexValuesCondition (colHostRegexes col)] else [])
        @ (if length (colPaths col) \<noteq> 0 then [buildPathValuesCondition (colPaths col)] else [])
        @ (if length (colPathRegexes col) \<noteq> 0 then [buildPathRegexValuesCondition (colPathRegexes col)] else [])
      in if length conditions = 0 then [buildPathValuesCondition [''/*'']] else conditions)"

definition buildRuleConditions :: "bool res \<Rightarrow> string \<Rightarrow> 'b HTTPIngressPath \<Rightarrow> RuleCondition list \<Rightarrow> RuleCondition list res" where
  "buildRuleConditions useRegexPathMatch host path backendConditions =
     res_bind (if ingPath path \<noteq> '''' then buildPathPatterns useRegexPathMatch (ingPath path) (ingPathType path) else Inr ([], []))
       (\<lambda>(pathPatterns, pathRegexPatterns).
     res_bind (collectConditions backendConditions
        \<lparr>colHosts = (if host \<noteq> '''' then [host] else []), colHostRegexes = [], colPaths = pathPatterns,
         colPathRegexes = pathRegexPatterns, colConditions = []\<rparr>) (\<lambda>col.
       if length (colHosts col) \<noteq> 0 \<and> length (colHostRegexes col) \<noteq> 0
       then Inl (Errorf ''host condition must specify exactly one of Values and RegexValues, got both Values %s and RegexValues %s''
              [joinStrings (colHosts col), joinStrings (colHostRegexes col)])
       else if length (colPaths col) \<noteq> 0 \<and> length (colPathRegexes col) \<noteq> 0
       then Inl (Errorf ''path condition must specify exactly one of Values and RegexValues, got both Values %s and RegexValues %s''
              [joinStrings (colPaths col), joinStrings (colPathRegexes col)])
       else Inr (assembleConditions col)))"

fun buildTransforms :: "Transform list \<Rightarrow> Transform list res" where
  "buildTransforms [] = Inr []"
| "buildTransforms (t # ts) =
     (if transformType t = ''host-header-rewrite''
      then (case HostHeaderRewriteConfig t of
              None \<Rightarrow> Inl (Errorf ''missing hostHeaderRewriteConfig'' [])
            | Some rs \<Rightarrow> res_bind (buildTransforms ts) (\<lambda>us.
                Inr (\<lparr>transformType = ''host-header-rewrite'', HostHeaderRewriteConfig = Some rs, UrlRewriteConfig = None\<rparr> # us)))
      else if transformType t = ''url-rewrite''
      then (case UrlRewriteConfig t of
              None \<Rightarrow> Inl (Errorf ''missing urlRewriteConfig'' [])
            | Some rs \<Rightarrow> res_bind (buildTransforms ts) (\<lambda>us.
                Inr (\<lparr>transformType = ''url-rewrite'', HostHeaderRewriteConfig = None, UrlRewriteConfig = Some rs\<rparr> # us)))
      else Inl (Errorf ''unknown transform type: %v'' [transformType t]))"

definition buildListenerRuleTags :: "defaultFeatureGates \<Rightarrow> string_map \<Rightarrow> string_map res \<Rightarrow> string_map res" where
  "buildListenerRuleTags gates defaultTags ingTags =
     res_bind ingTags (\<lambda>tags.
       Inr (if Enabled gates ''EnableDefaultTagsLowPriority'' then MergeStringMap [tags, defaultTags]
            else MergeStringMap [defaultTags, tags]))"

section \<open>The rule optimizer\<close>

record Rule =
  ruleConditions :: "RuleCondition list"
  ruleActions :: "Action list"
  ruleTransforms :: "Transform list"
  ruleTags :: string_map

definition findRedirectActionConfig :: "Action list \<Rightarrow> RedirectActionConfig option" where
  "findRedirectActionConfig actions =
     (case find (\<lambda>a. actionType a = ''redirect'') actions of None \<Rightarrow> None | Some a \<Rightarrow> RedirectConfig a)"

definition isHostCondition :: "RuleCondition \<Rightarrow> bool" where
  "isHostCondition c \<longleftrightarrow> conditionField c = ''host-header'' \<and> HostHeaderConfig c \<noteq> None"

definition isPathCondition :: "RuleCondition \<Rightarrow> bool" where
  "isPathCondition c \<longleftrightarrow> conditionField c = ''path-pattern'' \<and> PathPatternConfig c \<noteq> None"

definition conditionHosts :: "RuleCondition list \<Rightarrow> string list" where
  "conditionHosts cs = concat (map (\<lambda>c. hostValues (the (HostHeaderConfig c))) (filter isHostCondition cs))"

definition pathStrings :: "RuleCondition \<Rightarrow> string list" where
  "pathStrings c = (let p = the (PathPatternConfig c) in if length (pathRegexValues p) > 0 then pathRegexValues p else pathValues p)"

definition conditionPaths :: "RuleCondition list \<Rightarrow> string list" where
  "conditionPaths cs = concat (map pathStrings (filter isPathCondition cs))"

definition fieldKept :: "string option \<Rightarrow> (string \<Rightarrow> bool) \<Rightarrow> bool" where
  "fieldKept field same = (case field of None \<Rightarrow> True | Some v \<Rightarrow> same v)"

definition isInfiniteRedirectRule :: "int \<Rightarrow> string \<Rightarrow> Rule \<Rightarrow> bool" where
  "isInfiniteRedirectRule port protocol rule =
     (case findRedirectActionConfig (ruleActions rule) of
        None \<Rightarrow> False
      | Some cfg \<Rightarrow>
          if list_ex (\<lambda>c. isPathCondition c \<and> length (pathRegexValues (the (PathPatternConfig c))) > 0) (ruleConditions rule) then False
          else (let ruleHosts = conditionHosts (ruleConditions rule);
                    rulePaths = concat (map (\<lambda>c. pathValues (the (PathPatternConfig c))) (filter isPathCondition (ruleConditions rule)))
                in fieldKept (redirectHost cfg) (\<lambda>h. \<not> (h \<noteq> ''#{host}'' \<and> h \<notin> set ruleHosts))
                 \<and> fieldKept (redirectPath cfg) (\<lambda>p. \<not> (p \<noteq> ''/#{path}'' \<and> p \<notin> set rulePaths))
                 \<and> fieldKept (redirectPort cfg) (\<lambda>p. \<not> (p \<noteq> ''#{port}'' \<and> p \<noteq> Itoa port))
                 \<and> fieldKept (redirectProtocol cfg) (\<lambda>p. \<not> (p \<noteq> ''#{protocol}'' \<and> p \<noteq> protocol))
                 \<and> fieldKept (redirectQuery cfg) (\<lambda>q. q = ''#{query}'')))"

definition isSupersetConditions :: "RuleCondition list \<Rightarrow> RuleCondition list \<Rightarrow> bool" where
  "isSupersetConditions lhs rhs =
     (if list_ex (\<lambda>c. \<not> isHostCondition c \<and> \<not> isPathCondition c) lhs then False
      else (let lhsHosts = conditionHosts lhs; lhsPaths = conditionPaths lhs;
                rhsHosts = conditionHosts rhs; rhsPaths = conditionPaths rhs
            in (lhsHosts = [] \<or> (rhsHosts \<noteq> [] \<and> set rhsHosts \<subseteq> set lhsHosts))
             \<and> (lhsPaths = [] \<or> ''/*'' \<in> set lhsPaths \<or> (rhsPaths \<noteq> [] \<and> set rhsPaths \<subseteq> set lhsPaths))))"

definition omitInfiniteRedirectRules :: "int \<Rightarrow> string \<Rightarrow> Rule list \<Rightarrow> Rule list" where
  "omitInfiniteRedirectRules port protocol rules = filter (\<lambda>rule. \<not> isInfiniteRedirectRule port protocol rule) rules"

definition overshadowed :: "Rule list \<Rightarrow> Rule \<Rightarrow> bool" where
  "overshadowed existing rule =
     list_ex (\<lambda>e. findRedirectActionConfig (ruleActions e) \<noteq> None \<and> isSupersetConditions (ruleConditions e) (ruleConditions rule)) existing"

fun omitOvershadowed :: "Rule list \<Rightarrow> Rule list \<Rightarrow> Rule list" where
  "omitOvershadowed optimized [] = optimized"
| "omitOvershadowed optimized (rule # rules) =
     (if overshadowed optimized rule then omitOvershadowed optimized rules else omitOvershadowed (optimized @ [rule]) rules)"

definition omitOvershadowedRulesAfterRedirectRules :: "Rule list \<Rightarrow> Rule list" where
  "omitOvershadowedRulesAfterRedirectRules rules = omitOvershadowed [] rules"

definition Optimize :: "int \<Rightarrow> string \<Rightarrow> Rule list \<Rightarrow> Rule list" where
  "Optimize port protocol rules = omitOvershadowedRulesAfterRedirectRules (omitInfiniteRedirectRules port protocol rules)"

section \<open>The listener rules\<close>

record ('i, 'b) ingress_env =
  ieName :: "'i \<Rightarrow> string"
  ieRules :: "'i \<Rightarrow> 'b IngressRule list"
  ieUseRegex :: "'i \<Rightarrow> bool res"
  ieBackend :: "'i \<Rightarrow> 'b \<Rightarrow> EnhancedBackend res"
  ieActions :: "string \<Rightarrow> 'i \<Rightarrow> EnhancedBackend \<Rightarrow> Action list res"
  ieTags :: "'i \<Rightarrow> string_map res"
  ieGates :: defaultFeatureGates
  ieDefaultTags :: string_map
  ieSSLRedirect :: bool

definition wrapRes :: "string \<Rightarrow> 'a res \<Rightarrow> 'a res" where
  "wrapRes msg r = (case r of Inl err \<Rightarrow> Inl (Wrapped msg err) | Inr x \<Rightarrow> Inr x)"

definition buildRule :: "('i, 'b) ingress_env \<Rightarrow> string \<Rightarrow> 'i \<Rightarrow> string \<Rightarrow> 'b HTTPIngressPath \<Rightarrow> Rule res" where
  "buildRule env protocol ing host path =
     wrapRes (''ingress: '' @ ieName env ing)
       (res_bind (ieBackend env ing (ingBackend path)) (\<lambda>backend.
        res_bind (buildRuleConditions (ieUseRegex env ing) host path (ebConditions backend)) (\<lambda>conditions.
        res_bind (ieActions env protocol ing backend) (\<lambda>actions.
        res_bind (buildTransforms (ebTransforms backend)) (\<lambda>transforms.
        res_bind (buildListenerRuleTags (ieGates env) (ieDefaultTags env) (ieTags env ing)) (\<lambda>tags.
          Inr \<lparr>ruleConditions = conditions, ruleActions = actions, ruleTransforms = transforms, ruleTags = tags\<rparr>))))))"

definition buildIngressRule :: "('i, 'b) ingress_env \<Rightarrow> string \<Rightarrow> 'i \<Rightarrow> 'b IngressRule \<Rightarrow> Rule list res" where
  "buildIngressRule env protocol ing rule =
     (case ingHTTP rule of
        None \<Rightarrow> Inr []
      | Some paths \<Rightarrow> res_bind (sortIngressPaths paths) (res_map (buildRule env protocol ing (ingHost rule))))"

definition buildIngressRules :: "('i, 'b) ingress_env \<Rightarrow> string \<Rightarrow> 'i \<Rightarrow> Rule list res" where
  "buildIngressRules env protocol ing =
     res_bind (res_map (buildIngressRule env protocol ing) (ieRules env ing)) (\<lambda>rss. Inr (concat rss))"

fun numberRules :: "token \<Rightarrow> int \<Rightarrow> int \<Rightarrow> Rule list \<Rightarrow> (string \<times> ListenerRuleSpec) list" where
  "numberRules lsARN port priority [] = []"
| "numberRules lsARN port priority (rule # rules) =
     (Itoa port @ '':'' @ Itoa priority,
      \<lparr>lrListenerARN = lsARN, lrPriority = priority, lrActions = ruleActions rule, lrConditions = ruleConditions rule,
       lrTransforms = ruleTransforms rule, lrTags = ruleTags rule\<rparr>)
     # numberRules lsARN port (to_int32 (priority + 1)) rules"

definition buildListenerRules :: "('i, 'b) ingress_env \<Rightarrow> token \<Rightarrow> int \<Rightarrow> string \<Rightarrow> 'i list \<Rightarrow>
    (string \<times> ListenerRuleSpec) list res" where
  "buildListenerRules env lsARN port protocol ings =
     (if ieSSLRedirect env \<and> protocol = ''HTTP'' then Inr []
      else res_bind (res_map (buildIngressRules env protocol) ings) (\<lambda>rss.
        Inr (numberRules lsARN port 1 (Optimize port protocol (concat rss)))))"

section \<open>What the patterns match\<close>

text \<open>
  A path or host pattern of the load balancer: a star matches any number of characters, a question mark exactly one.
\<close>

fun glob :: "string \<Rightarrow> string \<Rightarrow> bool" where
  "glob [] s \<longleftrightarrow> s = []"
| "glob (c # p) [] \<longleftrightarrow> c = CHR ''*'' \<and> glob p []"
| "glob (c # p) (x # s) \<longleftrightarrow>
     (if c = CHR ''*'' then glob p (x # s) \<or> glob (c # p) s else (c = CHR ''?'' \<or> c = x) \<and> glob p s)"

lemma glob_star [simp]: "glob ''*'' s"
  by (induction s) auto

lemma glob_append_plain:
  assumes "\<not> ContainsAny p ''*?''"
  shows "glob (p @ q) s \<longleftrightarrow> (\<exists>r. s = p @ r \<and> glob q r)"
  using assms
proof (induction p arbitrary: s)
  case (Cons c p)
  then have c: "c \<noteq> CHR ''*''" "c \<noteq> CHR ''?''" "\<not> ContainsAny p ''*?''" by (auto simp: ContainsAny_def)
  show ?case using Cons.IH [OF c(3)] c(1,2) by (cases s) auto
qed simp

lemma glob_plain: "\<not> ContainsAny p ''*?'' \<Longrightarrow> glob p s \<longleftrightarrow> s = p"
  using glob_append_plain [of p "[]" s] by simp

text \<open>
  The path type \<open>Prefix\<close> as Kubernetes defines it: the elements of the path, split at the slashes, without the
  empty element that a trailing slash gives, are a prefix of those of the request.
\<close>

definition pathElements :: "string \<Rightarrow> string list" where
  "pathElements path = (let es = split_on (CHR ''/'') path in if last es = [] then butlast es else es)"

definition prefixMatches :: "string \<Rightarrow> string \<Rightarrow> bool" where
  "prefixMatches path req \<longleftrightarrow> take (length (pathElements path)) (split_on (CHR ''/'') req) = pathElements path"

lemma split_last_nonempty:
  assumes "s \<noteq> []" "last s \<noteq> d"
  shows "last (split_on d s) \<noteq> []"
  using assms
proof (induction s)
  case (Cons c s)
  show ?case
  proof (cases "s = []")
    case False
    then have IH: "last (split_on d s) \<noteq> []" using Cons by simp
    obtain w ws where "split_on d s = w # ws" by (metis split_on_nonempty list.exhaust)
    then show ?thesis using IH Cons.prems by (cases ws) auto
  qed (use Cons.prems in simp)
qed simp

lemma split_on_append: "split_on d (w @ d # s) = split_on d w @ split_on d s"
proof (induction w)
  case (Cons c w)
  obtain v vs where "split_on d w = v # vs" by (metis split_on_nonempty list.exhaust)
  then show ?case using Cons by simp
qed simp

lemma pathElements_trim:
  assumes "path \<noteq> []"
  shows "pathElements path = split_on (CHR ''/'') (TrimSuffix path ''/'')"
proof (cases "last path = CHR ''/''")
  case True
  then obtain q where q: "path = q @ [CHR ''/'']" using assms by (metis append_butlast_last_id)
  then have "split_on (CHR ''/'') path = split_on (CHR ''/'') q @ [[]]"
    using split_on_append [of "CHR ''/''" q "[]"] by simp
  moreover have "TrimSuffix path ''/'' = q" by (simp add: TrimSuffix_def HasSuffix_def q)
  ultimately show ?thesis by (simp add: pathElements_def)
next
  case False
  then have "TrimSuffix path ''/'' = path"
    using assms False by (cases path rule: rev_cases) (auto simp: TrimSuffix_def HasSuffix_def)
  then show ?thesis using split_last_nonempty [OF assms False] by (simp add: pathElements_def)
qed

lemma join_append:
  "xs \<noteq> [] \<Longrightarrow> ys \<noteq> [] \<Longrightarrow> join_on d (xs @ ys) = join_on d xs @ d # join_on d ys"
proof (induction xs)
  case (Cons x xs)
  then show ?case by (cases xs; cases ys) auto
qed simp

lemma prefix_split:
  "take (length (split_on d p)) (split_on d req) = split_on d p \<longleftrightarrow> req = p \<or> (\<exists>r. req = p @ d # r)"
proof
  assume l: "take (length (split_on d p)) (split_on d req) = split_on d p"
  define zs where "zs = drop (length (split_on d p)) (split_on d req)"
  have e: "split_on d req = split_on d p @ zs" using l by (metis append_take_drop_id zs_def)
  show "req = p \<or> (\<exists>r. req = p @ d # r)"
  proof (cases "zs = []")
    case True
    then show ?thesis using e by (metis append_Nil2 join_split)
  next
    case False
    have "req = join_on d (split_on d p @ zs)" using e by (metis join_split)
    then show ?thesis using join_append [OF split_on_nonempty False] by (metis join_split)
  qed
next
  assume "req = p \<or> (\<exists>r. req = p @ d # r)"
  then show "take (length (split_on d p)) (split_on d req) = split_on d p"
    by (auto simp: split_on_append)
qed

text \<open>
  C18. The patterns for an Ingress path of type \<open>Prefix\<close> match exactly the requests that Kubernetes defines: those
  whose path has the elements of the Ingress path as its first elements, with and without a trailing slash.
\<close>

theorem prefix_path_semantics:
  assumes "buildPathPatternsForPrefixPathType path = Inr (patterns, regexes)" "path \<noteq> ''''" "req = CHR ''/'' # req'"
  shows "regexes = [] \<and> ((\<exists>p \<in> set patterns. glob p req) \<longleftrightarrow> prefixMatches path req)"
proof (cases "path = ''/''")
  case True
  have "patterns = [''/*''] \<and> regexes = []" using assms(1) True by (simp add: buildPathPatternsForPrefixPathType_def)
  moreover have "prefixMatches path req" using True assms(3)
    by (simp add: prefixMatches_def pathElements_def Let_def split: list.splits)
  ultimately show ?thesis using assms(3) by simp
next
  case False
  let ?n = "TrimSuffix path ''/''"
  have nc: "\<not> ContainsAny path ''*?''" and pats: "patterns = [?n, ?n @ ''/*'']" "regexes = []"
    using assms(1) False by (auto simp: buildPathPatternsForPrefixPathType_def Let_def split: if_splits)
  have "set ?n \<subseteq> set path" by (simp add: TrimSuffix_def set_take_subset)
  then have n: "\<not> ContainsAny ?n ''*?''" using nc by (auto simp: ContainsAny_def list_ex_iff)
  have "glob (?n @ ''/*'') req \<longleftrightarrow> (\<exists>r. req = ?n @ CHR ''/'' # r)"
  proof -
    have "glob ''/*'' r \<longleftrightarrow> (\<exists>s. r = CHR ''/'' # s)" for r by (cases r) auto
    then show ?thesis unfolding glob_append_plain [OF n] by auto
  qed
  moreover have "glob ?n req \<longleftrightarrow> req = ?n" by (rule glob_plain [OF n])
  ultimately have "(\<exists>p \<in> set patterns. glob p req) \<longleftrightarrow> req = ?n \<or> (\<exists>r. req = ?n @ CHR ''/'' # r)"
    unfolding pats by simp
  moreover have "prefixMatches path req \<longleftrightarrow> req = ?n \<or> (\<exists>r. req = ?n @ CHR ''/'' # r)"
    unfolding prefixMatches_def pathElements_trim [OF assms(2)] by (rule prefix_split)
  ultimately show ?thesis using pats by simp
qed

theorem prefix_path_semantics_witness:
  "(\<exists>p \<in> set [''/foo'', ''/foo/*'']. glob p ''/foo/bar'') \<longleftrightarrow> prefixMatches ''/foo/'' ''/foo/bar''"
proof -
  have "buildPathPatternsForPrefixPathType ''/foo/'' = Inr ([''/foo'', ''/foo/*''], [])" by code_simp
  from prefix_path_semantics [OF this, of "''/foo/bar''" "''foo/bar''"] show ?thesis by simp
qed

section \<open>What the optimizer keeps\<close>

text \<open>
  A request is its host, its path and what the conditions on other fields say of it. A rule matches when all its
  conditions do, a condition when one of its values does, and the load balancer takes the first rule that matches.
\<close>

definition conditionMatches :: "(RuleCondition \<Rightarrow> bool) \<Rightarrow> string \<Rightarrow> string \<Rightarrow> RuleCondition \<Rightarrow> bool" where
  "conditionMatches other host path c =
     (if isHostCondition c then list_ex (\<lambda>v. glob v host) (hostValues (the (HostHeaderConfig c)))
      else if isPathCondition c then list_ex (\<lambda>v. glob v path) (pathValues (the (PathPatternConfig c)))
      else other c)"

definition conditionsMatch :: "(RuleCondition \<Rightarrow> bool) \<Rightarrow> string \<Rightarrow> string \<Rightarrow> RuleCondition list \<Rightarrow> bool" where
  "conditionsMatch other host path cs = list_all (conditionMatches other host path) cs"

definition firstMatch :: "(RuleCondition \<Rightarrow> bool) \<Rightarrow> string \<Rightarrow> string \<Rightarrow> Rule list \<Rightarrow> Rule option" where
  "firstMatch other host path rules = find (\<lambda>r. conditionsMatch other host path (ruleConditions r)) rules"

text \<open>
  The conditions without regular expressions, in the form that \<open>buildRuleConditions\<close> gives them: at most one on the
  host and at most one on the path, each with a value.
\<close>

definition plainConditions :: "RuleCondition list \<Rightarrow> bool" where
  "plainConditions cs \<longleftrightarrow> length (filter isHostCondition cs) \<le> 1 \<and> length (filter isPathCondition cs) \<le> 1 \<and>
     list_all (\<lambda>c. (isHostCondition c \<longrightarrow> hostValues (the (HostHeaderConfig c)) \<noteq> [] \<and> hostRegexValues (the (HostHeaderConfig c)) = []) \<and>
                   (isPathCondition c \<longrightarrow> pathValues (the (PathPatternConfig c)) \<noteq> [] \<and> pathRegexValues (the (PathPatternConfig c)) = [])) cs"

lemma filter_single: "length (filter P xs) \<le> 1 \<Longrightarrow> x \<in> set xs \<Longrightarrow> P x \<Longrightarrow> filter P xs = [x]"
  by (induction xs) (auto simp: filter_empty_conv split: if_splits)

lemma filter_witness: "filter P xs \<noteq> [] \<Longrightarrow> \<exists>x. x \<in> set xs \<and> P x"
  by (auto simp: filter_empty_conv)

lemma plain_host:
  assumes "plainConditions cs" "c \<in> set cs" "isHostCondition c"
  shows "conditionHosts cs = hostValues (the (HostHeaderConfig c)) \<and> conditionHosts cs \<noteq> []"
  using assms filter_single [of isHostCondition cs c] by (auto simp: plainConditions_def conditionHosts_def list_all_iff)

lemma plain_path:
  assumes "plainConditions cs" "c \<in> set cs" "isPathCondition c"
  shows "conditionPaths cs = pathValues (the (PathPatternConfig c)) \<and> conditionPaths cs \<noteq> []"
  using assms filter_single [of isPathCondition cs c]
  by (auto simp: plainConditions_def conditionPaths_def pathStrings_def Let_def list_all_iff)

lemma conditionHosts_matched:
  assumes "plainConditions cs" "conditionsMatch other host path cs" "conditionHosts cs \<noteq> []"
  shows "\<exists>v \<in> set (conditionHosts cs). glob v host"
proof -
  obtain c where c: "c \<in> set cs" "isHostCondition c" using assms(3) filter_witness [of isHostCondition cs]
    by (cases "filter isHostCondition cs") (auto simp: conditionHosts_def)
  then show ?thesis using assms(2) plain_host [OF assms(1) c]
    by (auto simp: conditionsMatch_def list_all_iff conditionMatches_def list_ex_iff dest!: bspec [of _ _ c])
qed

lemma host_not_path: "isHostCondition c \<Longrightarrow> \<not> isPathCondition c"
  by (simp add: isHostCondition_def isPathCondition_def)

lemma conditionPaths_matched:
  assumes "plainConditions cs" "conditionsMatch other host path cs" "conditionPaths cs \<noteq> []"
  shows "\<exists>v \<in> set (conditionPaths cs). glob v path"
proof -
  obtain c where c: "c \<in> set cs" "isPathCondition c" using assms(3) filter_witness [of isPathCondition cs]
    by (cases "filter isPathCondition cs") (auto simp: conditionPaths_def)
  then have "conditionMatches other host path c" "\<not> isHostCondition c"
    using assms(2) host_not_path [of c] by (auto simp: conditionsMatch_def list_all_iff)
  then show ?thesis using plain_path [OF assms(1) c] c(2)
    by (auto simp: conditionMatches_def list_ex_iff)
qed

lemma superset_matches:
  assumes sup: "isSupersetConditions l r" and pl: "plainConditions l" "plainConditions r"
    and m: "conditionsMatch other host path r" and path: "path = CHR ''/'' # path'"
  shows "conditionsMatch other host path l"
  unfolding conditionsMatch_def list_all_iff
proof
  fix c assume c: "c \<in> set l"
  have hp: "isHostCondition c \<or> isPathCondition c"
    and hosts: "conditionHosts l = [] \<or> (conditionHosts r \<noteq> [] \<and> set (conditionHosts r) \<subseteq> set (conditionHosts l))"
    and paths: "conditionPaths l = [] \<or> ''/*'' \<in> set (conditionPaths l) \<or>
      (conditionPaths r \<noteq> [] \<and> set (conditionPaths r) \<subseteq> set (conditionPaths l))"
    using sup c by (auto simp: isSupersetConditions_def list_ex_iff Let_def split: if_splits)
  show "conditionMatches other host path c"
  proof (cases "isHostCondition c")
    case True
    note h = plain_host [OF pl(1) c True]
    then obtain v where "v \<in> set (conditionHosts l)" "glob v host"
      using hosts conditionHosts_matched [OF pl(2) m] by blast
    then show ?thesis using h True by (auto simp: conditionMatches_def list_ex_iff)
  next
    case False
    then have p: "isPathCondition c" using hp by simp
    note h = plain_path [OF pl(1) c p]
    have "glob ''/*'' path" unfolding path by simp
    then obtain v where "v \<in> set (conditionPaths l)" "glob v path"
      using h paths conditionPaths_matched [OF pl(2) m] by blast
    then show ?thesis using h p False by (auto simp: conditionMatches_def list_ex_iff)
  qed
qed

lemma overshadowed_matched:
  assumes "overshadowed existing rule" "list_all (\<lambda>r. plainConditions (ruleConditions r)) (rule # existing)"
    "conditionsMatch other host path (ruleConditions rule)" "path = CHR ''/'' # path'"
  shows "firstMatch other host path existing \<noteq> None"
proof -
  obtain e where "e \<in> set existing" "isSupersetConditions (ruleConditions e) (ruleConditions rule)"
    using assms(1) by (auto simp: overshadowed_def list_ex_iff)
  moreover from this have "conditionsMatch other host path (ruleConditions e)"
    using superset_matches [OF _ _ _ assms(3,4)] assms(2) by (simp add: list_all_iff)
  ultimately show ?thesis by (auto simp: firstMatch_def find_None_iff)
qed

lemma omitOvershadowed_firstMatch:
  assumes "path = CHR ''/'' # path'" "list_all (\<lambda>r. plainConditions (ruleConditions r)) (acc @ rules)"
  shows "firstMatch other host path (omitOvershadowed acc rules) = firstMatch other host path (acc @ rules)"
  using assms(2)
proof (induction acc rules rule: omitOvershadowed.induct)
  case (2 acc rule rules)
  show ?case
  proof (cases "overshadowed acc rule")
    case True
    have "firstMatch other host path acc = None \<Longrightarrow> \<not> conditionsMatch other host path (ruleConditions rule)"
      using overshadowed_matched [OF True _ _ assms(1), of other host] "2.prems" by auto
    then have "firstMatch other host path (acc @ rules) = firstMatch other host path (acc @ rule # rules)"
      by (auto simp: firstMatch_def find_append split: option.split)
    then show ?thesis using True "2.IH"(1) "2.prems" by simp
  qed (use "2.IH"(2) "2.prems" in simp)
qed simp

lemma firstMatch_filter:
  "firstMatch other host path rules = Some r \<Longrightarrow> P r \<Longrightarrow> firstMatch other host path (filter P rules) = Some r"
  unfolding firstMatch_def by (induction rules) (auto split: if_splits)

lemma firstMatch_filter_None:
  "firstMatch other host path rules = None \<Longrightarrow> firstMatch other host path (filter P rules) = None"
  unfolding firstMatch_def by (auto simp: find_None_iff)

lemma Optimize_firstMatch:
  assumes "path = CHR ''/'' # path'" "list_all (\<lambda>r. plainConditions (ruleConditions r)) rules"
  shows "firstMatch other host path (Optimize port protocol rules) =
         firstMatch other host path (filter (\<lambda>rule. \<not> isInfiniteRedirectRule port protocol rule) rules)"
  using assms omitOvershadowed_firstMatch [OF assms(1), of "[]"]
  by (simp add: Optimize_def omitOvershadowedRulesAfterRedirectRules_def omitInfiniteRedirectRules_def list_all_iff)

text \<open>
  C7. The optimizer leaves the routing as it is: among rules without regular expressions, a request whose first
  matching rule is no infinite redirect is answered by the same rule after the optimization, and a request that no
  rule matched is matched by none.
\<close>

theorem Optimize_preserves_routing:
  assumes "path = CHR ''/'' # path'" "list_all (\<lambda>r. plainConditions (ruleConditions r)) rules"
  shows "(\<forall>r. firstMatch other host path rules = Some r \<and> \<not> isInfiniteRedirectRule port protocol r
            \<longrightarrow> firstMatch other host path (Optimize port protocol rules) = Some r)
       \<and> (firstMatch other host path rules = None \<longrightarrow> firstMatch other host path (Optimize port protocol rules) = None)"
  unfolding Optimize_firstMatch [OF assms]
  by (intro conjI allI impI firstMatch_filter firstMatch_filter_None) simp_all

definition exRedirect :: RedirectActionConfig where
  "exRedirect = \<lparr>redirectHost = None, redirectPath = None, redirectPort = Some ''443'', redirectProtocol = Some ''HTTPS'',
     redirectQuery = None, redirectStatusCode = ''HTTP_301''\<rparr>"

definition exRedirectRule :: "RuleCondition list \<Rightarrow> Rule" where
  "exRedirectRule cs = \<lparr>ruleConditions = cs,
     ruleActions = [(exAction ''tg'')\<lparr>actionType := ''redirect'', RedirectConfig := Some exRedirect\<rparr>],
     ruleTransforms = [], ruleTags = []\<rparr>"

definition exForwardRule :: "RuleCondition list \<Rightarrow> Rule" where
  "exForwardRule cs = \<lparr>ruleConditions = cs, ruleActions = [exAction ''tg''], ruleTransforms = [], ruleTags = []\<rparr>"

definition exRules :: "Rule list" where
  "exRules = [exRedirectRule [buildHostHeaderValuesCondition [''a'']],
     exForwardRule [buildHostHeaderValuesCondition [''a''], buildPathValuesCondition [''/x'']],
     exForwardRule [buildPathValuesCondition [''/x'']]]"

theorem Optimize_preserves_routing_witness:
  "firstMatch (\<lambda>_. False) ''b'' ''/x'' (Optimize 80 ''HTTP'' exRules) = Some (exForwardRule [buildPathValuesCondition [''/x'']])
   \<and> length (Optimize 80 ''HTTP'' exRules) = 2"
proof -
  have p: "list_all (\<lambda>r. plainConditions (ruleConditions r)) exRules" by code_simp
  have f: "firstMatch (\<lambda>_. False) ''b'' ''/x'' exRules = Some (exForwardRule [buildPathValuesCondition [''/x'']])"
    by (simp add: exRules_def firstMatch_def conditionsMatch_def conditionMatches_def exRedirectRule_def exForwardRule_def
        buildHostHeaderValuesCondition_def buildPathValuesCondition_def emptyCondition_def isHostCondition_def isPathCondition_def)
  have i: "\<not> isInfiniteRedirectRule 80 ''HTTP'' (exForwardRule [buildPathValuesCondition [''/x'']])" by code_simp
  have l: "length (Optimize 80 ''HTTP'' exRules) = 2" by code_simp
  from Optimize_preserves_routing [OF _ p, of "''/x''" "''x''" "\<lambda>_. False" "''b''" 80 "''HTTP''"] f i l show ?thesis by blast
qed

text \<open>The redirected request: an absent field, or one that is the placeholder of the load balancer, keeps its value.\<close>

definition redirected :: "string option \<Rightarrow> string \<Rightarrow> string \<Rightarrow> string" where
  "redirected field placeholder v = (case field of None \<Rightarrow> v | Some w \<Rightarrow> if w = placeholder then v else w)"

lemma glob_refl [simp]: "glob p p"
proof (induction p)
  case (Cons c p)
  have "c = CHR ''*'' \<Longrightarrow> glob (c # p) p" using Cons by (cases p) auto
  then show ?case using Cons by simp
qed simp

text \<open>
  C32. The optimizer drops a redirect only where it is a loop: for every request that an omitted redirect rule without
  regular expressions matches, the redirected request goes to the same listener (same port, same protocol), with the
  same query, and the rule matches it again.
\<close>

theorem omitted_redirects_loop:
  assumes "isInfiniteRedirectRule port protocol rule" "findRedirectActionConfig (ruleActions rule) = Some cfg"
    "plainConditions (ruleConditions rule)" "conditionsMatch other host path (ruleConditions rule)"
  shows "conditionsMatch other (redirected (redirectHost cfg) ''#{host}'' host) (redirected (redirectPath cfg) ''/#{path}'' path)
           (ruleConditions rule)
       \<and> redirected (redirectPort cfg) ''#{port}'' (Itoa port) = Itoa port
       \<and> redirected (redirectProtocol cfg) ''#{protocol}'' protocol = protocol
       \<and> redirected (redirectQuery cfg) ''#{query}'' query = query"
proof -
  let ?h = "redirected (redirectHost cfg) ''#{host}'' host" and ?p = "redirected (redirectPath cfg) ''/#{path}'' path"
  let ?cs = "ruleConditions rule"
  have paths: "concat (map (\<lambda>c. pathValues (the (PathPatternConfig c))) (filter isPathCondition ?cs)) = conditionPaths ?cs"
    using assms(3) by (auto simp: plainConditions_def conditionPaths_def pathStrings_def Let_def list_all_iff intro!: arg_cong [where f = concat])
  have nr: "\<not> list_ex (\<lambda>c. isPathCondition c \<and> length (pathRegexValues (the (PathPatternConfig c))) > 0) ?cs"
    using assms(3) by (auto simp: plainConditions_def list_ex_iff list_all_iff)
  note inf = assms(1) [unfolded isInfiniteRedirectRule_def assms(2) option.case if_not_P [OF nr] Let_def paths]
  have hosts: "?h = host \<or> ?h \<in> set (conditionHosts ?cs)"
    using inf by (auto simp: fieldKept_def redirected_def split: option.splits)
  have ps: "?p = path \<or> ?p \<in> set (conditionPaths ?cs)"
    using inf by (auto simp: fieldKept_def redirected_def split: option.splits)
  have "conditionMatches other ?h ?p c" if c: "c \<in> set ?cs" for c
  proof -
    have m: "conditionMatches other host path c" using assms(4) c by (simp add: conditionsMatch_def list_all_iff)
    consider (host) "isHostCondition c" | (path) "\<not> isHostCondition c" "isPathCondition c" | (oth) "\<not> isHostCondition c" "\<not> isPathCondition c"
      by blast
    then show ?thesis
    proof cases
      case host
      then show ?thesis using m hosts plain_host [OF assms(3) c host] glob_refl [of ?h]
        by (auto simp: conditionMatches_def list_ex_iff intro: bexI [of _ ?h])
    next
      case path
      then show ?thesis using m ps plain_path [OF assms(3) c path(2)] glob_refl [of ?p]
        by (auto simp: conditionMatches_def list_ex_iff intro: bexI [of _ ?p])
    qed (use m in \<open>simp add: conditionMatches_def\<close>)
  qed
  then show ?thesis using inf by (auto simp: conditionsMatch_def list_all_iff fieldKept_def redirected_def split: option.splits)
qed

theorem omitted_redirects_loop_witness:
  "conditionsMatch (\<lambda>_. False) (redirected (redirectHost exRedirect) ''#{host}'' ''a'') (redirected (redirectPath exRedirect) ''/#{path}'' ''/y'')
     [buildHostHeaderValuesCondition [''a'']]"
proof -
  let ?r = "exRedirectRule [buildHostHeaderValuesCondition [''a'']]"
  have 1: "isInfiniteRedirectRule 443 ''HTTPS'' ?r" by code_simp
  have 2: "findRedirectActionConfig (ruleActions ?r) = Some exRedirect" by code_simp
  have 3: "plainConditions (ruleConditions ?r)" by code_simp
  have 4: "conditionsMatch (\<lambda>_. False) ''a'' ''/y'' (ruleConditions ?r)"
    by (simp add: exRedirectRule_def conditionsMatch_def conditionMatches_def buildHostHeaderValuesCondition_def emptyCondition_def isHostCondition_def)
  from omitted_redirects_loop [OF 1 2 3 4] show ?thesis by (simp add: exRedirectRule_def)
qed

text \<open>
  The set of hosts of a condition leaves out its regular expressions, so a redirect rule whose host condition has only
  those counts as one for all hosts, and the optimizer drops the rules of other hosts behind it.
\<close>

lemma regex_host_shadowing:
  "let rules = [exRedirectRule [buildHostHeaderRegexValuesCondition [''^a$'']], exForwardRule [buildHostHeaderValuesCondition [''b'']]]
   in Optimize 80 ''HTTP'' rules = take 1 rules
    \<and> firstMatch (\<lambda>_. False) ''b'' ''/'' rules = Some (exForwardRule [buildHostHeaderValuesCondition [''b'']])
    \<and> firstMatch (\<lambda>_. False) ''b'' ''/'' (Optimize 80 ''HTTP'' rules) = None"
proof -
  let ?r = "exRedirectRule [buildHostHeaderRegexValuesCondition [''^a$'']]" and ?f = "exForwardRule [buildHostHeaderValuesCondition [''b'']]"
  have 1: "\<not> isInfiniteRedirectRule 80 ''HTTP'' ?r" "\<not> isInfiniteRedirectRule 80 ''HTTP'' ?f" "overshadowed [?r] ?f" "\<not> overshadowed [] ?r"
    by code_simp+
  then have "Optimize 80 ''HTTP'' [?r, ?f] = [?r]"
    by (simp add: Optimize_def omitOvershadowedRulesAfterRedirectRules_def omitInfiniteRedirectRules_def)
  moreover have "\<not> conditionsMatch (\<lambda>_. False) ''b'' ''/'' (ruleConditions ?r)" "conditionsMatch (\<lambda>_. False) ''b'' ''/'' (ruleConditions ?f)"
    by code_simp+
  ultimately show ?thesis by (simp add: firstMatch_def Let_def)
qed

section \<open>The conditions and the priorities of the rules\<close>

text \<open>
  A condition that the load balancer accepts: it has the configuration of its field and no other, and one on the host
  or the path has either values or regular expressions.
\<close>

definition configFields :: "RuleCondition \<Rightarrow> string list" where
  "configFields c = (if HostHeaderConfig c \<noteq> None then [''host-header''] else [])
     @ (if HTTPHeaderConfig c \<noteq> None then [''http-header''] else [])
     @ (if HTTPRequestMethodConfig c \<noteq> None then [''http-request-method''] else [])
     @ (if PathPatternConfig c \<noteq> None then [''path-pattern''] else [])
     @ (if QueryStringConfig c \<noteq> None then [''query-string''] else [])
     @ (if SourceIPConfig c \<noteq> None then [''source-ip''] else [])"

definition validCondition :: "RuleCondition \<Rightarrow> bool" where
  "validCondition c \<longleftrightarrow> configFields c = [conditionField c]
     \<and> (isHostCondition c \<longrightarrow> (hostValues (the (HostHeaderConfig c)) = []) \<noteq> (hostRegexValues (the (HostHeaderConfig c)) = []))
     \<and> (isPathCondition c \<longrightarrow> (pathValues (the (PathPatternConfig c)) = []) \<noteq> (pathRegexValues (the (PathPatternConfig c)) = []))"

definition wellFormedConditions :: "RuleCondition list \<Rightarrow> bool" where
  "wellFormedConditions cs \<longleftrightarrow> cs \<noteq> [] \<and> list_all validCondition cs
     \<and> length (filter isHostCondition cs) \<le> 1 \<and> length (filter isPathCondition cs) \<le> 1"

definition validOther :: "RuleCondition \<Rightarrow> bool" where
  "validOther c \<longleftrightarrow> validCondition c \<and> \<not> isHostCondition c \<and> \<not> isPathCondition c"

lemmas condition_defs = validOther_def validCondition_def configFields_def isHostCondition_def isPathCondition_def emptyCondition_def

lemma buildOther_valid:
  "buildHTTPHeaderCondition c = Inr d \<Longrightarrow> validOther d"
  "buildHTTPRequestMethodCondition c = Inr d \<Longrightarrow> validOther d"
  "buildQueryStringCondition c = Inr d \<Longrightarrow> validOther d"
  "buildSourceIPCondition c = Inr d \<Longrightarrow> validOther d"
  by (auto simp: buildHTTPHeaderCondition_def buildHTTPRequestMethodCondition_def buildQueryStringCondition_def
      buildSourceIPCondition_def condition_defs split: option.splits)

lemma collectOther_valid:
  assumes "collectOther acc c = Inr acc'" "list_all validOther (colConditions acc)" "\<And>d. c = Inr d \<Longrightarrow> validOther d"
  shows "list_all validOther (colConditions acc')"
  using assms by (auto simp: collectOther_def elim!: res_bind_InrE)

lemma collectCondition_valid:
  assumes "collectCondition c acc = Inr acc'" "list_all validOther (colConditions acc)"
  shows "list_all validOther (colConditions acc')"
  using assms buildOther_valid [of c]
  by (auto simp: collectCondition_def split: if_splits option.splits elim!: collectOther_valid)

lemma collectConditions_valid:
  "collectConditions cs acc = Inr acc' \<Longrightarrow> list_all validOther (colConditions acc) \<Longrightarrow> list_all validOther (colConditions acc')"
  by (induction cs arbitrary: acc) (auto elim!: res_bind_InrE dest: collectCondition_valid)

lemma built_valid:
  "vs \<noteq> [] \<Longrightarrow> validCondition (buildHostHeaderValuesCondition vs)" "isHostCondition (buildHostHeaderValuesCondition vs)"
  "vs \<noteq> [] \<Longrightarrow> validCondition (buildHostHeaderRegexValuesCondition vs)" "isHostCondition (buildHostHeaderRegexValuesCondition vs)"
  "vs \<noteq> [] \<Longrightarrow> validCondition (buildPathValuesCondition vs)" "isPathCondition (buildPathValuesCondition vs)"
  "vs \<noteq> [] \<Longrightarrow> validCondition (buildPathRegexValuesCondition vs)" "isPathCondition (buildPathRegexValuesCondition vs)"
  "\<not> isPathCondition (buildHostHeaderValuesCondition vs)" "\<not> isPathCondition (buildHostHeaderRegexValuesCondition vs)"
  "\<not> isHostCondition (buildPathValuesCondition vs)" "\<not> isHostCondition (buildPathRegexValuesCondition vs)"
  by (simp_all add: buildHostHeaderValuesCondition_def buildHostHeaderRegexValuesCondition_def buildPathValuesCondition_def
      buildPathRegexValuesCondition_def condition_defs)

lemma buildRuleConditions_wf:
  assumes "buildRuleConditions useRegex host path bcs = Inr cs"
  shows "wellFormedConditions cs"
proof -
  obtain col where v: "list_all validOther (colConditions col)"
    and x: "\<not> (colHosts col \<noteq> [] \<and> colHostRegexes col \<noteq> [])" "\<not> (colPaths col \<noteq> [] \<and> colPathRegexes col \<noteq> [])"
    and cs: "cs = assembleConditions col"
    using assms unfolding buildRuleConditions_def length_0_conv
    by (clarsimp elim!: res_bind_InrE simp: split_beta split: if_split_asm)
      (drule collectConditions_valid, simp, blast)+
  have n: "filter isHostCondition (colConditions col) = []" "filter isPathCondition (colConditions col) = []"
    "list_all validCondition (colConditions col)"
    using v by (auto simp: list_all_iff validOther_def filter_empty_conv)
  show ?thesis
    using x n by (auto simp: cs assembleConditions_def wellFormedConditions_def Let_def built_valid)
qed

text \<open>
  C34. The conditions built for a rule are ones that the load balancer accepts: there is at least one, each has exactly
  the configuration of its field, there is at most one on the host and at most one on the path, and each of these has
  values or regular expressions but never both, whatever the annotations of the Ingress say.
\<close>

theorem buildRuleConditions_wellFormed:
  assumes "buildRuleConditions useRegex host path bcs = Inr cs"
  shows "wellFormedConditions cs"
  using assms by (rule buildRuleConditions_wf)

theorem buildRuleConditions_wellFormed_witness:
  "\<exists>cs. buildRuleConditions (Inr False) ''h'' \<lparr>ingPath = ''/x'', ingPathType = Some ''Prefix'', ingBackend = ()\<rparr> [] = Inr cs
      \<and> length cs = 2 \<and> wellFormedConditions cs"
proof -
  have e: "buildRuleConditions (Inr False) ''h'' \<lparr>ingPath = ''/x'', ingPathType = Some ''Prefix'', ingBackend = ()\<rparr> [] =
    Inr [buildHostHeaderValuesCondition [''h''], buildPathValuesCondition [''/x'', ''/x/*'']]" by code_simp
  show ?thesis using buildRuleConditions_wellFormed [OF e] e by auto
qed

lemma numberRules_length: "length (numberRules arn port n rules) = length rules"
  by (induction rules arbitrary: n) auto

lemma numberRules_specs:
  assumes "0 < n" "n + int (length rules) < 2 ^ 31"
  shows "map (\<lambda>x. lrPriority (snd x)) (numberRules arn port n rules) = map int [nat n ..< nat n + length rules]
       \<and> map fst (numberRules arn port n rules) = map (\<lambda>i. Itoa port @ '':'' @ Itoa (int i)) [nat n ..< nat n + length rules]
       \<and> map (\<lambda>x. lrConditions (snd x)) (numberRules arn port n rules) = map ruleConditions rules
       \<and> map (\<lambda>x. lrActions (snd x)) (numberRules arn port n rules) = map ruleActions rules"
  using assms
proof (induction rules arbitrary: n)
  case (Cons r rs)
  have "to_int32 (n + 1) = n + 1" using Cons.prems by (intro to_int32_id) auto
  moreover have "[nat n ..< nat n + length (r # rs)] = nat n # [nat (n + 1) ..< nat (n + 1) + length rs]"
    using Cons.prems upt_conv_Cons [of "nat n" "nat n + length (r # rs)"] by (simp add: nat_add_distrib del: upt_Suc)
  ultimately show ?case using Cons.IH [of "n + 1"] Cons.prems by simp
qed simp

lemma omitOvershadowed_subset: "set (omitOvershadowed acc rules) \<subseteq> set acc \<union> set rules"
  by (induction acc rules rule: omitOvershadowed.induct) auto

lemma Optimize_subset: "set (Optimize port protocol rules) \<subseteq> set rules"
  using omitOvershadowed_subset [of "[]"]
  by (fastforce simp: Optimize_def omitOvershadowedRulesAfterRedirectRules_def omitInfiniteRedirectRules_def)

lemma buildRule_conditions:
  assumes "buildRule env protocol ing host path = Inr r"
  shows "\<exists>bcs. buildRuleConditions (ieUseRegex env ing) host path bcs = Inr (ruleConditions r)"
  using assms by (auto simp: buildRule_def wrapRes_def elim!: res_bind_InrE split: sum.splits)

lemma buildIngressRules_built:
  assumes "buildIngressRules env protocol ing = Inr rs" "r \<in> set rs"
  shows "wellFormedConditions (ruleConditions r)"
proof -
  obtain rss where rss: "res_map (buildIngressRule env protocol ing) (ieRules env ing) = Inr rss" "r \<in> set (concat rss)"
    using assms by (auto simp: buildIngressRules_def elim!: res_bind_InrE)
  then obtain rs' rule where b: "buildIngressRule env protocol ing rule = Inr rs'" "r \<in> set rs'" using res_map_SomeD by fastforce
  then obtain path where "buildRule env protocol ing (ingHost rule) path = Inr r"
    by (fastforce simp: buildIngressRule_def split: option.splits elim!: res_bind_InrE dest: res_map_SomeD)
  then show ?thesis by (auto dest!: buildRule_conditions intro: buildRuleConditions_wf)
qed

text \<open>
  C23. The listener rules built for the Ingresses of a listener have the priorities 1, 2, 3, ... in their order, with a
  resource ID of their own each, and conditions that the load balancer accepts.
\<close>

theorem buildListenerRules_numbered:
  assumes "buildListenerRules env arn port protocol ings = Inr lrs" "length lrs < 2 ^ 31 - 1"
  shows "map (\<lambda>lr. lrPriority (snd lr)) lrs = map int [1 ..< Suc (length lrs)] \<and> distinct (map fst lrs)
       \<and> list_all (\<lambda>lr. wellFormedConditions (lrConditions (snd lr))) lrs"
proof (cases "ieSSLRedirect env \<and> protocol = ''HTTP''")
  case False
  then obtain rss where rss: "res_map (buildIngressRules env protocol) ings = Inr rss"
    and lrs: "lrs = numberRules arn port 1 (Optimize port protocol (concat rss))"
    using assms(1) by (auto simp: buildListenerRules_def elim!: res_bind_InrE)
  let ?rs = "Optimize port protocol (concat rss)"
  have len: "length lrs = length ?rs" unfolding lrs numberRules_length ..
  have nr: "map (\<lambda>x. lrPriority (snd x)) lrs = map int [1 ..< Suc (length lrs)]"
    "map fst lrs = map (\<lambda>i. Itoa port @ '':'' @ Itoa (int i)) [1 ..< Suc (length lrs)]"
    "map (\<lambda>x. lrConditions (snd x)) lrs = map ruleConditions ?rs"
    using numberRules_specs [of 1 ?rs arn port] assms(2) unfolding len by (simp_all add: lrs)
  have "wellFormedConditions (ruleConditions r)" if r: "r \<in> set ?rs" for r
  proof -
    obtain rs where "rs \<in> set rss" "r \<in> set rs" using r Optimize_subset by fastforce
    then show ?thesis by (auto dest!: res_map_SomeD [OF rss] intro: buildIngressRules_built)
  qed
  then have "\<forall>cs \<in> set (map (\<lambda>x. lrConditions (snd x)) lrs). wellFormedConditions cs" unfolding nr(3) by simp
  moreover have "distinct (map fst lrs)" unfolding nr(2) distinct_map by (auto intro!: inj_onI simp: Itoa_inj)
  ultimately show ?thesis using nr(1) by (simp add: list_all_iff)
qed (use assms(1) in \<open>auto simp: buildListenerRules_def\<close>)

definition exIngressEnv :: "(unit, unit) ingress_env" where
  "exIngressEnv = \<lparr>ieName = (\<lambda>_. ''ns/ing''),
     ieRules = (\<lambda>_. [\<lparr>ingHost = ''h'', ingHTTP = Some
       [\<lparr>ingPath = ''/'', ingPathType = Some ''Prefix'', ingBackend = ()\<rparr>,
        \<lparr>ingPath = ''/x'', ingPathType = Some ''Exact'', ingBackend = ()\<rparr>]\<rparr>]),
     ieUseRegex = (\<lambda>_. Inr False), ieBackend = (\<lambda>_ _. Inr \<lparr>ebConditions = [], ebTransforms = []\<rparr>),
     ieActions = (\<lambda>_ _ _. Inr [exAction ''tg'']), ieTags = (\<lambda>_. Inr []), ieGates = \<lparr>featureState = []\<rparr>, ieDefaultTags = [], ieSSLRedirect = False\<rparr>"

theorem buildListenerRules_numbered_witness:
  "\<exists>lrs. buildListenerRules exIngressEnv (Inr ''arn'') 80 ''HTTP'' [()] = Inr lrs
      \<and> map (\<lambda>lr. lrPriority (snd lr)) lrs = [1, 2]"
proof -
  define r where "r = buildListenerRules exIngressEnv (Inr ''arn'') 80 ''HTTP'' [()]"
  have "(case r of Inl _ \<Rightarrow> False | Inr lrs \<Rightarrow> length lrs = 2)" unfolding r_def by code_simp
  then obtain lrs where lrs: "r = Inr lrs" "length lrs = 2" by (cases r) auto
  from buildListenerRules_numbered [OF lrs(1) [unfolded r_def]] lrs show ?thesis
    unfolding r_def by (auto simp: upt_rec)
qed

end
