(* ===== verification/Route_Rules.thy ===== *)
theory Route_Rules
  imports Ingress_Rules "HOL-Library.Product_Lexorder"
begin

text \<open>
  From the routes of a Gateway to the listener rules of the model: the precedence of the rules
  (\<^verbatim>\<open>pkg/gateway/routeutils/route_rule_precedence.go\<close>), their conditions
  (\<^verbatim>\<open>route_rule_condition.go\<close>), transforms (\<^verbatim>\<open>route_rule_transform.go\<close>) and routing actions
  (\<^verbatim>\<open>route_rule_action.go\<close>), and the loop that builds the rules of a listener
  (\<^verbatim>\<open>pkg/gateway/model/model_build_listener.go\<close>).

  A nil pointer of a field that the API server always fills is dereferenced by the code without a check; in the
  model that is the error \<open>nilDeref\<close>. \<open>sort.Slice\<close> promises a sorted permutation and no more: the sorting
  function is an argument with the law \<open>sort_slice_ok\<close>.
\<close>

section \<open>Routes\<close>

record HTTPPathMatch =
  pmType :: "string option"
  pmValue :: "string option"

record HTTPHeaderMatch =
  hmType :: "string option"
  hmName :: string
  hmValue :: string

record HTTPRouteMatch =
  httpPath :: "HTTPPathMatch option"
  httpHeaders :: "HTTPHeaderMatch list"
  httpQueryParams :: "(string \<times> string) list"
  httpMethod :: "string option"

record GRPCMethodMatch =
  gmType :: "string option"
  gmService :: "string option"
  gmMethod :: "string option"

record GRPCRouteMatch =
  grpcMethod :: "GRPCMethodMatch option"
  grpcHeaders :: "HTTPHeaderMatch list"

record HTTPPathModifier =
  modType :: string
  ReplaceFullPath :: "string option"
  ReplacePrefixMatch :: "string option"

record HTTPRequestRedirectFilter =
  redScheme :: "string option"
  redHostname :: "string option"
  redPath :: "HTTPPathModifier option"
  redPort :: "int option"
  redStatusCode :: "int option"

record HTTPRouteFilter =
  filterType :: string
  URLRewrite :: "(HTTPPathModifier option \<times> string option) option"
  RequestRedirect :: "HTTPRequestRedirectFilter option"

datatype RawRouteRule =
    HTTPRouteRule "HTTPRouteMatch list" "HTTPRouteFilter list"
  | GRPCRouteRule "GRPCRouteMatch list" "string list"
  | OtherRouteRule

text \<open>The conditions and the actions of a \<open>ListenerRuleConfiguration\<close>.\<close>

record ListenerRuleCondition =
  lrcField :: string
  lrcSourceIPs :: "string list option"
  lrcMatchIndexes :: "int list option"

record gwAction =
  gwActionType :: string
  gwFixedResponse :: "(int \<times> string option \<times> string option) option"
  gwForwardStickiness :: "(bool option \<times> int option) option"
  gwRedirectQuery :: "string option option"

record 'b RouteRule =
  rawRouteRule :: RawRouteRule
  ruleBackends :: "('b \<times> int) list"
  listenerRuleConfig :: "(ListenerRuleCondition list \<times> gwAction list) option"

record ParentReference =
  refKind :: "string option"
  refGatewayNamespace :: "string option"
  refGatewayName :: string
  refSectionName :: "string option"
  refPort :: "int option"

record 'b RouteDescriptor =
  routeNamespace :: string
  routeName :: string
  routeKind :: string
  routeGeneration :: int
  routeParentRefs :: "ParentReference list"
  routeHostnames :: "string list"
  routeCreateTimestamp :: int
  compatibleHostnamesByPort :: "(int, string list) gomap"
  attachedRules :: "'b RouteRule list"

definition routeNamespacedName :: "'b RouteDescriptor \<Rightarrow> string" where
  "routeNamespacedName r = routeNamespace r @ ''/'' @ routeName r"

section \<open>The precedence of the rules\<close>

record RulePrecedenceFactor =
  PathType :: int
  PathLength :: int
  SecondaryLength :: int
  HasMethod :: bool
  HeaderCount :: int
  QueryParamCount :: int

record 'b CommonRulePrecedence =
  cpRoute :: "'b RouteDescriptor"
  cpRule :: "'b RouteRule"
  Hostname :: string
  RouteNamespacedName :: string
  RuleIndexInRoute :: int
  MatchIndexInRule :: int
  RouteCreateTimestamp :: int

record 'b RulePrecedence =
  CommonPrecedence :: "'b CommonRulePrecedence"
  HTTPMatch :: "HTTPRouteMatch option"
  GRPCMatch :: "GRPCRouteMatch option"
  PrecedenceFactor :: RulePrecedenceFactor

definition nilDeref :: go_error where
  "nilDeref = Errorf ''panic: nil pointer dereference'' []"

definition deref :: "'a option \<Rightarrow> 'a res" where
  "deref p = (case p of None \<Rightarrow> Inl nilDeref | Some x \<Rightarrow> Inr x)"

definition MaxInt :: int where
  "MaxInt = 2 ^ 63 - 1"

definition splitHostnamesForPrecedence :: "string list \<Rightarrow> string list" where
  "splitHostnamesForPrecedence hostnames = (if length hostnames = 0 then [''''] else hostnames)"

definition getRouteHostnames :: "'b RouteDescriptor \<Rightarrow> int \<Rightarrow> string list" where
  "getRouteHostnames route port =
     (let hostnames = mget0 [] (compatibleHostnamesByPort route) port
      in if length hostnames = 0 then routeHostnames route else hostnames)"

definition getHostnamePrecedenceOrder :: "string \<Rightarrow> string \<Rightarrow> int" where
  "getHostnamePrecedenceOrder hostnameOne hostnameTwo =
     (if hostnameOne = '''' \<or> hostnameTwo = ''''
      then (if hostnameOne = '''' \<and> hostnameTwo = '''' then 0 else if hostnameOne = '''' then 1 else - 1)
      else (let isHostnameOneWildcard = HasPrefix hostnameOne ''*.''; isHostnameTwoWildcard = HasPrefix hostnameTwo ''*.''
            in if \<not> isHostnameOneWildcard \<and> isHostnameTwoWildcard then - 1
               else if isHostnameOneWildcard \<and> \<not> isHostnameTwoWildcard then 1
               else (let dotsInHostnameOne = count_list hostnameOne (CHR ''.''); dotsInHostnameTwo = count_list hostnameTwo (CHR ''.'')
                     in if dotsInHostnameOne > dotsInHostnameTwo then - 1
                        else if dotsInHostnameOne < dotsInHostnameTwo then 1
                        else if length hostnameOne > length hostnameTwo then - 1
                        else if length hostnameOne < length hostnameTwo then 1
                        else 0)))"

definition compareCommonTieBreakers :: "'b RulePrecedence \<Rightarrow> 'b RulePrecedence \<Rightarrow> bool" where
  "compareCommonTieBreakers ruleOne ruleTwo =
     (let one = CommonPrecedence ruleOne; two = CommonPrecedence ruleTwo
      in if RouteCreateTimestamp one \<noteq> RouteCreateTimestamp two then RouteCreateTimestamp one < RouteCreateTimestamp two
         else if RouteNamespacedName one \<noteq> RouteNamespacedName two then RouteNamespacedName one < RouteNamespacedName two
         else if RuleIndexInRoute one \<noteq> RuleIndexInRoute two then RuleIndexInRoute one < RuleIndexInRoute two
         else if MatchIndexInRule one \<noteq> MatchIndexInRule two then MatchIndexInRule one < MatchIndexInRule two
         else Hostname one < Hostname two)"

definition compareRulePrecedenceUnified :: "'b RulePrecedence \<Rightarrow> 'b RulePrecedence \<Rightarrow> bool" where
  "compareRulePrecedenceUnified ruleOne ruleTwo =
     (let precedence = getHostnamePrecedenceOrder (Hostname (CommonPrecedence ruleOne)) (Hostname (CommonPrecedence ruleTwo));
          one = PrecedenceFactor ruleOne; two = PrecedenceFactor ruleTwo
      in if precedence \<noteq> 0 then precedence < 0
         else if PathType one \<noteq> PathType two then PathType one > PathType two
         else if PathLength one \<noteq> PathLength two then PathLength one > PathLength two
         else if SecondaryLength one \<noteq> SecondaryLength two then SecondaryLength one > SecondaryLength two
         else if HasMethod one \<noteq> HasMethod two then HasMethod one
         else if HeaderCount one \<noteq> HeaderCount two then HeaderCount one > HeaderCount two
         else if QueryParamCount one \<noteq> QueryParamCount two then QueryParamCount one > QueryParamCount two
         else compareCommonTieBreakers ruleOne ruleTwo)"

definition getHttpRoutePathType :: "HTTPPathMatch option \<Rightarrow> int res" where
  "getHttpRoutePathType path =
     (case path of
        None \<Rightarrow> Inr 0
      | Some p \<Rightarrow> res_bind (deref (pmType p)) (\<lambda>t.
          Inr (if t = ''Exact'' then 3 else if t = ''PathPrefix'' then 2 else if t = ''RegularExpression'' then 1 else 0)))"

definition getGrpcRoutePathType :: "GRPCMethodMatch option \<Rightarrow> int res" where
  "getGrpcRoutePathType method =
     (case method of
        None \<Rightarrow> Inr 0
      | Some m \<Rightarrow> res_bind (deref (gmType m)) (\<lambda>t.
          Inr (if t = ''Exact'' then 3 else if t = ''RegularExpression'' then 1 else 0)))"

definition noFactor :: RulePrecedenceFactor where
  "noFactor = \<lparr>PathType = 0, PathLength = 0, SecondaryLength = 0, HasMethod = False, HeaderCount = 0, QueryParamCount = 0\<rparr>"

definition getHttpMatchPrecedenceInfo :: "HTTPRouteMatch \<Rightarrow> RulePrecedenceFactor res" where
  "getHttpMatchPrecedenceInfo m =
     res_bind (getHttpRoutePathType (httpPath m)) (\<lambda>pathType.
     res_bind (deref (httpPath m)) (\<lambda>path.
     res_bind (deref (pmValue path)) (\<lambda>v.
       Inr (noFactor\<lparr>PathType := pathType, PathLength := int (length v), HasMethod := httpMethod m \<noteq> None,
              HeaderCount := int (length (httpHeaders m)), QueryParamCount := int (length (httpQueryParams m))\<rparr>))))"

definition optLength :: "string option \<Rightarrow> int" where
  "optLength s = (case s of None \<Rightarrow> 0 | Some v \<Rightarrow> int (length v))"

definition getGrpcMatchPrecedenceInfo :: "GRPCRouteMatch \<Rightarrow> RulePrecedenceFactor res" where
  "getGrpcMatchPrecedenceInfo m =
     res_bind (getGrpcRoutePathType (grpcMethod m)) (\<lambda>pathType.
       Inr (noFactor\<lparr>PathType := pathType, HeaderCount := int (length (grpcHeaders m)),
              PathLength := (case grpcMethod m of None \<Rightarrow> 0 | Some mm \<Rightarrow> optLength (gmService mm)),
              SecondaryLength := (case grpcMethod m of None \<Rightarrow> 0 | Some mm \<Rightarrow> optLength (gmMethod mm))\<rparr>))"

definition getCommonRouteInfo :: "'b RouteDescriptor \<Rightarrow> 'b RouteRule \<Rightarrow> nat \<Rightarrow> int \<Rightarrow> string \<Rightarrow> 'b CommonRulePrecedence" where
  "getCommonRouteInfo route rule ruleIndex matchIndex hostname = \<lparr>cpRoute = route, cpRule = rule, Hostname = hostname,
     RouteNamespacedName = routeNamespacedName route, RuleIndexInRoute = int ruleIndex, MatchIndexInRule = matchIndex,
     RouteCreateTimestamp = routeCreateTimestamp route\<rparr>"

definition mkUnit :: "'b RouteDescriptor \<Rightarrow> 'b RouteRule \<Rightarrow> nat \<Rightarrow> int \<Rightarrow> HTTPRouteMatch option \<Rightarrow> GRPCRouteMatch option \<Rightarrow>
    RulePrecedenceFactor \<Rightarrow> string \<Rightarrow> 'b RulePrecedence" where
  "mkUnit route rule ruleIndex matchIndex httpMatch grpcMatch factor hostname =
     \<lparr>CommonPrecedence = getCommonRouteInfo route rule ruleIndex matchIndex hostname, HTTPMatch = httpMatch, GRPCMatch = grpcMatch,
      PrecedenceFactor = factor\<rparr>"

text \<open>The rules of one route rule: one for each match and hostname, or one for each hostname if there is no match.\<close>

definition httpRuleUnits :: "'b RouteDescriptor \<Rightarrow> string list \<Rightarrow> 'b RouteRule \<Rightarrow> nat \<Rightarrow> HTTPRouteMatch list \<Rightarrow> 'b RulePrecedence list res" where
  "httpRuleUnits route hostnameUnits rule ruleIndex matches =
     (if length matches = 0
      then Inr (map (mkUnit route rule ruleIndex MaxInt
             (Some \<lparr>httpPath = None, httpHeaders = [], httpQueryParams = [], httpMethod = None\<rparr>) None noFactor) hostnameUnits)
      else res_bind (res_map (\<lambda>(matchIndex, m). res_bind (getHttpMatchPrecedenceInfo m) (\<lambda>factor.
             Inr (map (mkUnit route rule ruleIndex (int matchIndex) (Some m) None factor) hostnameUnits))) (enumerate 0 matches))
           (\<lambda>units. Inr (concat units)))"

definition grpcRuleUnits :: "'b RouteDescriptor \<Rightarrow> string list \<Rightarrow> 'b RouteRule \<Rightarrow> nat \<Rightarrow> GRPCRouteMatch list \<Rightarrow> 'b RulePrecedence list res" where
  "grpcRuleUnits route hostnameUnits rule ruleIndex matches =
     (if length matches = 0
      then Inr (map (mkUnit route rule ruleIndex MaxInt None (Some \<lparr>grpcMethod = None, grpcHeaders = []\<rparr>) noFactor) hostnameUnits)
      else res_bind (res_map (\<lambda>(matchIndex, m). res_bind (getGrpcMatchPrecedenceInfo m) (\<lambda>factor.
             Inr (map (mkUnit route rule ruleIndex (int matchIndex) None (Some m) factor) hostnameUnits))) (enumerate 0 matches))
           (\<lambda>units. Inr (concat units)))"

text \<open>The HTTP rules and the gRPC rules of a route.\<close>

definition ruleUnits :: "'b RouteDescriptor \<Rightarrow> int \<Rightarrow> nat \<times> 'b RouteRule \<Rightarrow> ('b RulePrecedence list \<times> 'b RulePrecedence list) res" where
  "ruleUnits route port = (\<lambda>(ruleIndex, rule).
     let hostnameUnits = splitHostnamesForPrecedence (getRouteHostnames route port)
     in case rawRouteRule rule of
          HTTPRouteRule matches filters \<Rightarrow> res_bind (httpRuleUnits route hostnameUnits rule ruleIndex matches) (\<lambda>us. Inr (us, []))
        | GRPCRouteRule matches filters \<Rightarrow> res_bind (grpcRuleUnits route hostnameUnits rule ruleIndex matches) (\<lambda>us. Inr ([], us))
        | OtherRouteRule \<Rightarrow> Inr ([], []))"

definition routeUnits :: "int \<Rightarrow> 'b RouteDescriptor \<Rightarrow> ('b RulePrecedence list \<times> 'b RulePrecedence list) res" where
  "routeUnits port route =
     res_bind (res_map (ruleUnits route port) (enumerate 0 (attachedRules route))) (\<lambda>us.
       Inr (concat (map fst us), concat (map snd us)))"

definition unsortedRules :: "'b RouteDescriptor list \<Rightarrow> int \<Rightarrow> 'b RulePrecedence list res" where
  "unsortedRules routes port =
     res_bind (res_map (routeUnits port) routes) (\<lambda>us. Inr (concat (map fst us) @ concat (map snd us)))"

definition SortAllRulesByPrecedence :: "(('b RulePrecedence \<Rightarrow> 'b RulePrecedence \<Rightarrow> bool) \<Rightarrow> 'b RulePrecedence list \<Rightarrow> 'b RulePrecedence list) \<Rightarrow>
    'b RouteDescriptor list \<Rightarrow> int \<Rightarrow> 'b RulePrecedence list res" where
  "SortAllRulesByPrecedence sortSlice routes port =
     res_bind (unsortedRules routes port) (\<lambda>rules. Inr (sortSlice compareRulePrecedenceUnified rules))"

section \<open>The order is one key\<close>

text \<open>
  The key of a rule, smallest first: the specificity of its hostname, the factors of its match, the tie breakers.
\<close>

definition hostKey :: "string \<Rightarrow> bool \<times> bool \<times> int \<times> int" where
  "hostKey h = (if h = '''' then (True, False, 0, 0)
     else (False, HasPrefix h ''*.'', - int (count_list h (CHR ''.'')), - int (length h)))"

definition precedenceKey :: "'b RulePrecedence \<Rightarrow>
    (bool \<times> bool \<times> int \<times> int) \<times> (int \<times> int \<times> int \<times> bool \<times> int \<times> int) \<times> int \<times> string \<times> int \<times> int \<times> string" where
  "precedenceKey r = (let c = CommonPrecedence r; f = PrecedenceFactor r in
     (hostKey (Hostname c), (- PathType f, - PathLength f, - SecondaryLength f, \<not> HasMethod f, - HeaderCount f, - QueryParamCount f),
      RouteCreateTimestamp c, RouteNamespacedName c, RuleIndexInRoute c, MatchIndexInRule c, Hostname c))"

lemma getHostnamePrecedenceOrder_key:
  "getHostnamePrecedenceOrder a b = (if hostKey a < hostKey b then - 1 else if hostKey b < hostKey a then 1 else 0)"
  by (auto simp: getHostnamePrecedenceOrder_def hostKey_def Let_def)

lemma prod_less: "(a, b) < (c, d) \<longleftrightarrow> a < c \<or> a = c \<and> b < d" for a :: "'x :: linorder" and b :: "'y :: linorder"
  by auto

lemma prod_less_proj: "p < q \<longleftrightarrow> fst p < fst q \<or> fst p = fst q \<and> snd p < snd q" for p q :: "'x :: linorder \<times> 'y :: linorder"
  by (cases p; cases q) (simp add: prod_less del: less_prod_simp)

lemma compareCommonTieBreakers_key:
  "compareCommonTieBreakers r s \<longleftrightarrow> snd (snd (precedenceKey r)) < snd (snd (precedenceKey s))"
  by (auto simp: compareCommonTieBreakers_def precedenceKey_def Let_def prod_less simp del: less_prod_simp)

lemma factor_key:
  "fst (snd (precedenceKey r)) < fst (snd (precedenceKey s)) \<longleftrightarrow>
     (let one = PrecedenceFactor r; two = PrecedenceFactor s
      in if PathType one \<noteq> PathType two then PathType one > PathType two
         else if PathLength one \<noteq> PathLength two then PathLength one > PathLength two
         else if SecondaryLength one \<noteq> SecondaryLength two then SecondaryLength one > SecondaryLength two
         else if HasMethod one \<noteq> HasMethod two then HasMethod one
         else if HeaderCount one \<noteq> HeaderCount two then HeaderCount one > HeaderCount two
         else QueryParamCount one > QueryParamCount two)"
  by (auto simp: precedenceKey_def Let_def prod_less simp del: less_prod_simp)

lemma factor_key_eq:
  "fst (snd (precedenceKey r)) = fst (snd (precedenceKey s)) \<longleftrightarrow>
     PathType (PrecedenceFactor r) = PathType (PrecedenceFactor s) \<and> PathLength (PrecedenceFactor r) = PathLength (PrecedenceFactor s) \<and>
     SecondaryLength (PrecedenceFactor r) = SecondaryLength (PrecedenceFactor s) \<and> HasMethod (PrecedenceFactor r) = HasMethod (PrecedenceFactor s) \<and>
     HeaderCount (PrecedenceFactor r) = HeaderCount (PrecedenceFactor s) \<and> QueryParamCount (PrecedenceFactor r) = QueryParamCount (PrecedenceFactor s)"
  by (auto simp: precedenceKey_def Let_def)

lemma compareRulePrecedenceUnified_key:
  "compareRulePrecedenceUnified r s \<longleftrightarrow> precedenceKey r < precedenceKey s"
proof -
  have h: "fst (precedenceKey x) = hostKey (Hostname (CommonPrecedence x))" for x :: "'a RulePrecedence"
    by (simp add: precedenceKey_def Let_def)
  have "precedenceKey r < precedenceKey s \<longleftrightarrow> fst (precedenceKey r) < fst (precedenceKey s) \<or>
     fst (precedenceKey r) = fst (precedenceKey s) \<and> (fst (snd (precedenceKey r)) < fst (snd (precedenceKey s)) \<or>
       fst (snd (precedenceKey r)) = fst (snd (precedenceKey s)) \<and> snd (snd (precedenceKey r)) < snd (snd (precedenceKey s)))"
    unfolding prod_less_proj [of "precedenceKey r"] prod_less_proj [of "snd (precedenceKey r)"] prod_eq_iff by blast
  also have "\<dots> \<longleftrightarrow> compareRulePrecedenceUnified r s"
    unfolding compareCommonTieBreakers_key [symmetric] factor_key factor_key_eq
    by (auto simp: compareRulePrecedenceUnified_def getHostnamePrecedenceOrder_key h Let_def)
  finally show ?thesis by simp
qed

text \<open>What \<open>sort.Slice\<close> asks of the comparison and what it promises.\<close>

lemma compare_strict_weak_order: "strict_weak_order compareRulePrecedenceUnified"
  unfolding strict_weak_order_def compareRulePrecedenceUnified_key by (meson less_asym le_less_trans not_le_imp_less)

lemma sort_slice_key:
  assumes "sort_slice_ok s" "inj_on precedenceKey (set xs)"
  shows "s compareRulePrecedenceUnified xs = sort_key precedenceKey xs"
proof -
  have "mset (s compareRulePrecedenceUnified xs) = mset xs"
    and "sorted_wrt (\<lambda>x y. \<not> compareRulePrecedenceUnified y x) (s compareRulePrecedenceUnified xs)"
    using assms(1) compare_strict_weak_order by (auto simp: sort_slice_ok_def)
  then show ?thesis by (intro sort_key_inj_key_eq [OF _ assms(2), symmetric])
    (simp_all add: compareRulePrecedenceUnified_key not_less sorted_wrt_map)
qed

text \<open>A rule is known by its route, its place in the route and its hostname.\<close>

definition ruleID :: "'b RulePrecedence \<Rightarrow> string \<times> int \<times> int \<times> string" where
  "ruleID r = (let c = CommonPrecedence r in (RouteNamespacedName c, RuleIndexInRoute c, MatchIndexInRule c, Hostname c))"

lemma precedenceKey_ruleID: "precedenceKey r = precedenceKey s \<Longrightarrow> ruleID r = ruleID s"
  by (simp add: precedenceKey_def ruleID_def Let_def)

lemma res_map_units:
  assumes "res_map f xs = Inr yss" "y \<in> set (concat yss)"
  obtains x ys where "x \<in> set xs" "f x = Inr ys" "y \<in> set ys"
proof -
  obtain ys where "ys \<in> set yss" "y \<in> set ys" using assms(2) by auto
  then show ?thesis using res_map_SomeD [OF assms(1)] that by blast
qed

lemma enumerate_unique: "(i, x) \<in> set (enumerate n xs) \<Longrightarrow> (i, y) \<in> set (enumerate n xs) \<Longrightarrow> x = y"
  by (auto simp: in_set_enumerate_eq)

text \<open>The loops over the matches of an HTTP rule and of a gRPC rule have the same shape.\<close>

lemma units_det:
  assumes "res_map (\<lambda>(j, m). res_bind (info m) (\<lambda>factor. Inr (map (mk j m factor) hs))) (enumerate 0 ms) = Inr uss"
    and "r \<in> set (concat uss)" "s \<in> set (concat uss)" "ruleID r = ruleID s"
    and mk: "\<And>j m f h. ruleID (mk j m f h) = (name, i, int j, h)"
  shows "r = s"
proof -
  have "\<exists>j m f h. (j, m) \<in> set (enumerate 0 ms) \<and> info m = Inr f \<and> x = mk j m f h" if x: "x \<in> set (concat uss)" for x
    by (rule res_map_units [OF assms(1) x]) (clarsimp elim!: res_bind_InrE, blast)
  from this [OF assms(2)] this [OF assms(3)] obtain j m f h j' m' f' h'
    where "(j, m) \<in> set (enumerate 0 ms)" "info m = Inr f" "r = mk j m f h"
      "(j', m') \<in> set (enumerate 0 ms)" "info m' = Inr f'" "s = mk j' m' f' h'" by blast
  then show ?thesis using assms(4) enumerate_unique [of j m 0 ms m'] by (auto simp: mk)
qed

lemma units_id:
  assumes "res_map (\<lambda>(j, m). res_bind (info m) (\<lambda>factor. Inr (map (mk j m factor) hs))) (enumerate 0 ms) = Inr uss"
    and "r \<in> set (concat uss)" and mk: "\<And>j m f h. ruleID (mk j m f h) = (name, i, int j, h)"
  shows "fst (ruleID r) = name \<and> fst (snd (ruleID r)) = i"
  by (rule res_map_units [OF assms(1,2)]) (auto simp: mk elim!: res_bind_InrE)

lemma ruleID_mkUnit [simp]: "ruleID (mkUnit route rule i j hm gm f h) = (routeNamespacedName route, int i, j, h)"
  by (simp add: ruleID_def mkUnit_def getCommonRouteInfo_def Let_def)

lemma httpRuleUnits_id:
  assumes "httpRuleUnits route hs rule i ms = Inr us" "r \<in> set us"
  shows "fst (ruleID r) = routeNamespacedName route \<and> fst (snd (ruleID r)) = int i"
proof (cases "ms = []")
  case False
  then show ?thesis using assms unfolding httpRuleUnits_def by (auto elim!: res_bind_InrE dest!: units_id)
qed (use assms in \<open>auto simp: httpRuleUnits_def\<close>)

lemma httpRuleUnits_det:
  assumes "httpRuleUnits route hs rule i ms = Inr us" "r \<in> set us" "s \<in> set us" "ruleID r = ruleID s"
  shows "r = s"
proof (cases "ms = []")
  case False
  show ?thesis using assms(1) unfolding httpRuleUnits_def length_0_conv if_not_P [OF False]
    by (elim res_bind_InrE) (rule units_det, assumption, use assms(2-4) in auto)
qed (use assms in \<open>auto simp: httpRuleUnits_def\<close>)

lemma grpcRuleUnits_id:
  assumes "grpcRuleUnits route hs rule i ms = Inr us" "r \<in> set us"
  shows "fst (ruleID r) = routeNamespacedName route \<and> fst (snd (ruleID r)) = int i"
proof (cases "ms = []")
  case False
  then show ?thesis using assms unfolding grpcRuleUnits_def by (auto elim!: res_bind_InrE dest!: units_id)
qed (use assms in \<open>auto simp: grpcRuleUnits_def\<close>)

lemma grpcRuleUnits_det:
  assumes "grpcRuleUnits route hs rule i ms = Inr us" "r \<in> set us" "s \<in> set us" "ruleID r = ruleID s"
  shows "r = s"
proof (cases "ms = []")
  case False
  show ?thesis using assms(1) unfolding grpcRuleUnits_def length_0_conv if_not_P [OF False]
    by (elim res_bind_InrE) (rule units_det, assumption, use assms(2-4) in auto)
qed (use assms in \<open>auto simp: grpcRuleUnits_def\<close>)

abbreviation bothUnits :: "'b RulePrecedence list \<times> 'b RulePrecedence list \<Rightarrow> 'b RulePrecedence set" where
  "bothUnits u \<equiv> set (fst u) \<union> set (snd u)"

lemma ruleUnits_id:
  assumes "ruleUnits route port (i, rule) = Inr u" "r \<in> bothUnits u"
  shows "fst (ruleID r) = routeNamespacedName route \<and> fst (snd (ruleID r)) = int i"
  using assms by (auto simp: ruleUnits_def Let_def split: RawRouteRule.splits elim!: res_bind_InrE dest: httpRuleUnits_id grpcRuleUnits_id)

lemma ruleUnits_det:
  assumes "ruleUnits route port (i, rule) = Inr u" "r \<in> bothUnits u" "s \<in> bothUnits u" "ruleID r = ruleID s"
  shows "r = s"
  using assms by (auto simp: ruleUnits_def Let_def split: RawRouteRule.splits elim!: res_bind_InrE intro: httpRuleUnits_det grpcRuleUnits_det)

lemma routeUnits_member:
  assumes "routeUnits port route = Inr u" "r \<in> bothUnits u"
  obtains i rule v where "(i, rule) \<in> set (enumerate 0 (attachedRules route))" "ruleUnits route port (i, rule) = Inr v" "r \<in> bothUnits v"
proof -
  obtain us where us: "res_map (ruleUnits route port) (enumerate 0 (attachedRules route)) = Inr us"
    and "u = (concat (map fst us), concat (map snd us))" using assms(1) by (auto simp: routeUnits_def elim!: res_bind_InrE)
  then obtain v where "v \<in> set us" "r \<in> bothUnits v" using assms(2) by auto
  then show ?thesis using res_map_SomeD [OF us] that by fastforce
qed

lemma routeUnits_id:
  assumes "routeUnits port route = Inr u" "r \<in> bothUnits u"
  shows "fst (ruleID r) = routeNamespacedName route"
  using routeUnits_member [OF assms] ruleUnits_id by metis

lemma routeUnits_det:
  assumes "routeUnits port route = Inr u" "r \<in> bothUnits u" "s \<in> bothUnits u" "ruleID r = ruleID s"
  shows "r = s"
proof -
  obtain i x v where r: "(i, x) \<in> set (enumerate 0 (attachedRules route))" "ruleUnits route port (i, x) = Inr v" "r \<in> bothUnits v"
    using routeUnits_member [OF assms(1,2)] .
  obtain j y w where s: "(j, y) \<in> set (enumerate 0 (attachedRules route))" "ruleUnits route port (j, y) = Inr w" "s \<in> bothUnits w"
    using routeUnits_member [OF assms(1,3)] .
  have "i = j" using ruleUnits_id [OF r(2,3)] ruleUnits_id [OF s(2,3)] assms(4) by simp
  then have "v = w" using enumerate_unique r(1,2) s(1,2) by fastforce
  then show ?thesis using ruleUnits_det [OF r(2,3) _ assms(4)] s(3) by simp
qed

lemma unsortedRules_member:
  assumes "unsortedRules routes port = Inr rules" "r \<in> set rules"
  obtains route u where "route \<in> set routes" "routeUnits port route = Inr u" "r \<in> bothUnits u"
proof -
  obtain us where us: "res_map (routeUnits port) routes = Inr us" and "rules = concat (map fst us) @ concat (map snd us)"
    using assms(1) by (auto simp: unsortedRules_def elim!: res_bind_InrE)
  then obtain v where "v \<in> set us" "r \<in> bothUnits v" using assms(2) by auto
  then show ?thesis using res_map_SomeD [OF us] that by blast
qed

lemma unsortedRules_inj:
  assumes "unsortedRules routes port = Inr rules" "distinct (map routeNamespacedName routes)"
  shows "inj_on ruleID (set rules)"
proof (rule inj_onI)
  fix r s assume rs: "r \<in> set rules" "s \<in> set rules" "ruleID r = ruleID s"
  obtain a u where a: "a \<in> set routes" "routeUnits port a = Inr u" "r \<in> bothUnits u" using unsortedRules_member [OF assms(1) rs(1)] .
  obtain b v where b: "b \<in> set routes" "routeUnits port b = Inr v" "s \<in> bothUnits v" using unsortedRules_member [OF assms(1) rs(2)] .
  have "routeNamespacedName a = routeNamespacedName b" using routeUnits_id [OF a(2,3)] routeUnits_id [OF b(2,3)] rs(3) by simp
  then have "a = b" using assms(2) a(1) b(1) by (auto simp: distinct_map dest: inj_onD)
  then show "r = s" using routeUnits_det [OF a(2,3) _ rs(3)] a(2) b(2,3) by simp
qed

lemma unsortedRules_key_inj:
  assumes "unsortedRules routes port = Inr rules" "distinct (map routeNamespacedName routes)"
  shows "inj_on precedenceKey (set rules)"
  using unsortedRules_inj [OF assms] precedenceKey_ruleID by (fastforce intro: inj_onI dest: inj_onD)

lemma mset_concat_map: "mset xs = mset ys \<Longrightarrow> mset (concat (map h xs)) = mset (concat (map h ys))"
proof -
  have "mset (concat (map h zs)) = sum_mset (image_mset (\<lambda>z. mset (h z)) (mset zs))" for zs by (induction zs) auto
  then show "mset xs = mset ys \<Longrightarrow> ?thesis" by simp
qed

lemma unsortedRules_perm:
  assumes "unsortedRules routes port = Inr rules" "mset routes' = mset routes"
  shows "\<exists>rules'. unsortedRules routes' port = Inr rules' \<and> mset rules' = mset rules"
proof -
  let ?h = "\<lambda>r. projr (routeUnits port r)"
  have all: "\<forall>x \<in> set routes. \<exists>y. routeUnits port x = Inr y"
    and rules: "rules = concat (map (\<lambda>r. fst (?h r)) routes) @ concat (map (\<lambda>r. snd (?h r)) routes)"
    using assms(1) by (auto simp: unsortedRules_def res_map_total comp_def elim!: res_bind_InrE)
  have "set routes' = set routes" using assms(2) by (rule mset_eq_setD)
  then have "res_map (routeUnits port) routes' = Inr (map ?h routes')" using all by (simp add: res_map_total)
  then have "unsortedRules routes' port = Inr (concat (map (\<lambda>r. fst (?h r)) routes') @ concat (map (\<lambda>r. snd (?h r)) routes'))"
    by (simp add: unsortedRules_def comp_def)
  then show ?thesis using mset_concat_map [OF assms(2), of "\<lambda>r. fst (?h r)"] mset_concat_map [OF assms(2), of "\<lambda>r. snd (?h r)"]
    by (simp add: rules)
qed

lemma SortAllRules_sorted:
  assumes "sort_slice_ok s" "distinct (map routeNamespacedName routes)" "unsortedRules routes port = Inr rules"
  shows "SortAllRulesByPrecedence s routes port = Inr (sort_key precedenceKey rules)"
  using sort_slice_key [OF assms(1) unsortedRules_key_inj [OF assms(3,2)]] by (simp add: SortAllRulesByPrecedence_def assms(3))


definition exHTTPMatch :: "string \<Rightarrow> string \<Rightarrow> HTTPRouteMatch" where
  "exHTTPMatch t v = \<lparr>httpPath = Some \<lparr>pmType = Some t, pmValue = Some v\<rparr>, httpHeaders = [], httpQueryParams = [], httpMethod = None\<rparr>"

definition exRoute :: "string \<Rightarrow> string list \<Rightarrow> string \<Rightarrow> string \<Rightarrow> string RouteDescriptor" where
  "exRoute name hosts pathType path = \<lparr>routeNamespace = ''ns'', routeName = name, routeKind = ''HTTPRoute'', routeGeneration = 1,
     routeParentRefs = [\<lparr>refKind = None, refGatewayNamespace = None, refGatewayName = ''gw'', refSectionName = None, refPort = None\<rparr>],
     routeHostnames = hosts,
     routeCreateTimestamp = 0, compatibleHostnamesByPort = [],
     attachedRules = [\<lparr>rawRouteRule = HTTPRouteRule [exHTTPMatch pathType path] [], ruleBackends = [(''svc'', 1)], listenerRuleConfig = None\<rparr>]\<rparr>"

definition exRoutes :: "string RouteDescriptor list" where
  "exRoutes = [exRoute ''a'' [''*.example.com''] ''Exact'' ''/x'', exRoute ''b'' [''www.example.com''] ''PathPrefix'' ''/''] "

lemma exRoutes_sorted:
  "(case SortAllRulesByPrecedence insertionSort exRoutes 80 of Inl _ \<Rightarrow> [] | Inr rs \<Rightarrow> map (\<lambda>r. (Hostname (CommonPrecedence r))) rs)
     = [''www.example.com'', ''*.example.com'']"
  by code_simp


text \<open>
  An HTTPRoute and a GRPCRoute may have the same name. Their rules can then tie in every part of the comparison, so
  that their order is left to the sorting algorithm.
\<close>

definition exGRPCRoute :: "string RouteDescriptor" where
  "exGRPCRoute = (exRoute ''a'' [] ''Exact'' ''/x'')\<lparr>routeKind := ''GRPCRoute'', attachedRules :=
     [\<lparr>rawRouteRule = GRPCRouteRule [\<lparr>grpcMethod = Some \<lparr>gmType = Some ''Exact'', gmService = Some ''xy'', gmMethod = None\<rparr>, grpcHeaders = []\<rparr>] [],
       ruleBackends = [], listenerRuleConfig = None\<rparr>]\<rparr>"

lemma same_name_routes_tie:
  "case (routeUnits 80 (exRoute ''a'' [] ''Exact'' ''/x''), routeUnits 80 exGRPCRoute) of
     (Inr ([r], []), Inr ([], [s])) \<Rightarrow> \<not> compareRulePrecedenceUnified r s \<and> \<not> compareRulePrecedenceUnified s r
   | _ \<Rightarrow> False"
  by code_simp

section \<open>The conditions of a rule\<close>

definition wildcardPath :: RuleCondition where
  "wildcardPath = buildPathValuesCondition [''/*'']"

definition buildHttpPathCondition :: "HTTPPathMatch \<Rightarrow> RuleCondition list res" where
  "buildHttpPathCondition path =
     res_bind (deref (pmType path)) (\<lambda>pathType. res_bind (deref (pmValue path)) (\<lambda>pathValue.
       res_bind (if pathType = ''PathPrefix''
                 then (if ContainsAny pathValue ''*?'' then Inl (Errorf ''prefix path shouldn't contain wildcards: %v'' [pathValue])
                       else if pathValue = ''/'' then Inr [''/*'']
                       else (let trimmedPath = TrimSuffix pathValue ''/'' in Inr [trimmedPath, trimmedPath @ ''/*'']))
                 else Inr []) (\<lambda>prefixValues.
         let pathValues = prefixValues @ (if pathType = ''Exact'' then [pathValue] else [])
         in if pathType = ''RegularExpression'' then Inr [buildPathRegexValuesCondition [pathValue]]
            else Inr [buildPathValuesCondition pathValues])))"

text \<open>
  The values of a header match, separated by commas. A backslash takes the next character as it is.
\<close>

fun headerValuesFrom :: "string \<Rightarrow> string \<Rightarrow> string list" where
  "headerValuesFrom current [] = [current]"
| "headerValuesFrom current (c # cs) =
     (if c = CHR 0x5C \<and> cs \<noteq> [] then headerValuesFrom (current @ [hd cs]) (tl cs)
      else if c = CHR '','' then current # headerValuesFrom [] cs
      else headerValuesFrom (current @ [c]) cs)"

definition generateValuesFromMatchHeaderValue :: "string \<Rightarrow> string list" where
  "generateValuesFromMatchHeaderValue headerValue = headerValuesFrom [] headerValue"

definition headerCondition :: "string \<Rightarrow> string list \<Rightarrow> string list \<Rightarrow> RuleCondition" where
  "headerCondition name regexes vs = emptyCondition\<lparr>conditionField := ''http-header'',
     HTTPHeaderConfig := Some \<lparr>HTTPHeaderName = name, headerRegexValues = regexes, headerValues = vs\<rparr>\<rparr>"

definition buildHttpHeaderCondition :: "HTTPHeaderMatch list \<Rightarrow> RuleCondition list" where
  "buildHttpHeaderCondition headers = map (\<lambda>h.
     if hmType h = Some ''RegularExpression'' then headerCondition (hmName h) [hmValue h] []
     else headerCondition (hmName h) [] (generateValuesFromMatchHeaderValue (hmValue h))) headers"

definition buildHttpQueryParamCondition :: "(string \<times> string) list \<Rightarrow> RuleCondition list" where
  "buildHttpQueryParamCondition queryParams = map (\<lambda>(n, v). emptyCondition\<lparr>conditionField := ''query-string'',
     QueryStringConfig := Some [\<lparr>queryKey = Some n, queryValue = v\<rparr>]\<rparr>) queryParams"

definition buildHttpMethodCondition :: "string \<Rightarrow> RuleCondition list" where
  "buildHttpMethodCondition method = [emptyCondition\<lparr>conditionField := ''http-request-method'', HTTPRequestMethodConfig := Some [method]\<rparr>]"

definition hostCondition :: "string \<Rightarrow> RuleCondition list" where
  "hostCondition hostname = (if hostname \<noteq> '''' then [buildHostHeaderValuesCondition [hostname]] else [])"

definition BuildHttpRuleConditions :: "'b RulePrecedence \<Rightarrow> RuleCondition list res" where
  "BuildHttpRuleConditions rule =
     res_bind (deref (HTTPMatch rule)) (\<lambda>m.
     res_bind (case httpPath m of None \<Rightarrow> Inr [] | Some p \<Rightarrow> buildHttpPathCondition p) (\<lambda>pathConditions.
       Inr (hostCondition (Hostname (CommonPrecedence rule)) @ pathConditions @ buildHttpHeaderCondition (httpHeaders m)
            @ buildHttpQueryParamCondition (httpQueryParams m)
            @ (case httpMethod m of None \<Rightarrow> [] | Some method \<Rightarrow> buildHttpMethodCondition method))))"

definition buildGrpcMethodCondition :: "GRPCMethodMatch \<Rightarrow> RuleCondition list res" where
  "buildGrpcMethodCondition m =
     (case (gmService m, gmMethod m) of
        (Some service, Some method) \<Rightarrow> Inr [buildPathValuesCondition [''/'' @ service @ ''/'' @ method]]
      | (Some service, None) \<Rightarrow> Inr [buildPathValuesCondition [''/'' @ service @ ''/*'']]
      | (None, Some method) \<Rightarrow> Inr [buildPathValuesCondition [''/*/'' @ method]]
      | (None, None) \<Rightarrow> Inl (Errorf ''Invalid grpc method match: %v'' []))"

definition buildGrpcHeaderCondition :: "HTTPHeaderMatch list \<Rightarrow> RuleCondition list" where
  "buildGrpcHeaderCondition headers =
     map (\<lambda>h. headerCondition (hmName h) [] (generateValuesFromMatchHeaderValue (hmValue h))) headers"

definition BuildGrpcRuleConditions :: "'b RulePrecedence \<Rightarrow> RuleCondition list res" where
  "BuildGrpcRuleConditions rule =
     (let hostConditions = hostCondition (Hostname (CommonPrecedence rule))
      in case GRPCMatch rule of
           None \<Rightarrow> Inr (hostConditions @ [wildcardPath])
         | Some m \<Rightarrow>
             res_bind (case grpcMethod m of None \<Rightarrow> Inr [wildcardPath] | Some method \<Rightarrow> buildGrpcMethodCondition method) (\<lambda>methodConditions.
               Inr (hostConditions @ methodConditions @ buildGrpcHeaderCondition (grpcHeaders m))))"

definition buildSourceIpCondition :: "ListenerRuleCondition \<Rightarrow> RuleCondition list res" where
  "buildSourceIpCondition condition = res_bind (deref (lrcSourceIPs condition)) (\<lambda>ips.
     Inr [emptyCondition\<lparr>conditionField := lrcField condition, SourceIPConfig := Some ips\<rparr>])"

definition sourceIpConditions :: "int \<Rightarrow> ListenerRuleCondition \<Rightarrow> RuleCondition list res" where
  "sourceIpConditions matchIndex condition =
     (if lrcField condition = ''source-ip''
      then res_bind (buildSourceIpCondition condition) (\<lambda>cs.
             case lrcMatchIndexes condition of
               None \<Rightarrow> Inr cs
             | Some indexes \<Rightarrow> Inr (concat (map (\<lambda>index. if index = matchIndex then cs else []) indexes)))
      else Inr [])"

definition BuildSourceIpInCondition :: "'b RulePrecedence \<Rightarrow> RuleCondition list \<Rightarrow> RuleCondition list res" where
  "BuildSourceIpInCondition rule conditionsList =
     (case listenerRuleConfig (cpRule (CommonPrecedence rule)) of
        None \<Rightarrow> Inr conditionsList
      | Some (conditions, _) \<Rightarrow>
          res_bind (res_map (sourceIpConditions (MatchIndexInRule (CommonPrecedence rule))) conditions) (\<lambda>css. Inr (conditionsList @ concat css)))"

section \<open>The transforms of a rule\<close>

definition generateHostHeaderRewriteTransform :: "string \<Rightarrow> Transform" where
  "generateHostHeaderRewriteTransform hostname = \<lparr>transformType = ''host-header-rewrite'',
     HostHeaderRewriteConfig = Some [\<lparr>Regex = ''.*'', Replace = hostname\<rparr>], UrlRewriteConfig = None\<rparr>"

definition generatePrefixReplacementRegex :: "HTTPRouteMatch option \<Rightarrow> string \<Rightarrow> (string \<times> string) res" where
  "generatePrefixReplacementRegex m replacement =
     res_bind (deref m) (\<lambda>hm. res_bind (deref (httpPath hm)) (\<lambda>path. res_bind (deref (pmValue path)) (\<lambda>match.
       Inr (''(^'' @ match @ ''(/)?)'',
            if replacement = '''' then ''/'' else if \<not> HasSuffix replacement ''/'' then replacement @ ''$2'' else replacement))))"

definition generateURLRewritePathTransform :: "HTTPPathModifier \<Rightarrow> HTTPRouteMatch option \<Rightarrow> Transform res" where
  "generateURLRewritePathTransform modifier m =
     res_bind (if modType modifier = ''ReplaceFullPath''
               then res_bind (deref (ReplaceFullPath modifier)) (\<lambda>r. Inr (''^([^?]*)'', r))
               else if modType modifier = ''ReplacePrefixMatch''
               then res_bind (deref (ReplacePrefixMatch modifier)) (generatePrefixReplacementRegex m)
               else Inr ('''', '''')) (\<lambda>(regex, replacement).
       Inr \<lparr>transformType = ''url-rewrite'', HostHeaderRewriteConfig = None,
            UrlRewriteConfig = Some [\<lparr>Regex = regex, Replace = replacement\<rparr>]\<rparr>)"

definition filterTransforms :: "HTTPRouteMatch option \<Rightarrow> HTTPRouteFilter \<Rightarrow> Transform list res" where
  "filterTransforms m rf =
     res_bind (case URLRewrite rf of Some (Some path, _) \<Rightarrow> res_bind (generateURLRewritePathTransform path m) (\<lambda>t. Inr [t]) | _ \<Rightarrow> Inr []) (\<lambda>paths.
     res_bind (case RequestRedirect rf of
                 Some rd \<Rightarrow> (case redPath rd of
                    Some path \<Rightarrow> if ReplacePrefixMatch path \<noteq> None then res_bind (generateURLRewritePathTransform path m) (\<lambda>t. Inr [t]) else Inr []
                  | None \<Rightarrow> Inr [])
               | None \<Rightarrow> Inr []) (\<lambda>redirects.
       Inr (paths @ (case URLRewrite rf of Some (_, Some hostname) \<Rightarrow> [generateHostHeaderRewriteTransform hostname] | _ \<Rightarrow> []) @ redirects)))"

definition buildHTTPRuleTransforms :: "HTTPRouteFilter list \<Rightarrow> HTTPRouteMatch option \<Rightarrow> Transform list res" where
  "buildHTTPRuleTransforms filters m = res_bind (res_map (filterTransforms m) filters) (\<lambda>tss. Inr (concat tss))"

definition typeAssertion :: go_error where
  "typeAssertion = Errorf ''panic: interface conversion'' []"

definition BuildRoutingRuleTransforms :: "'b RouteDescriptor \<Rightarrow> 'b RulePrecedence \<Rightarrow> Transform list res" where
  "BuildRoutingRuleTransforms route rule =
     (if routeKind route = ''HTTPRoute''
      then (case rawRouteRule (cpRule (CommonPrecedence rule)) of
              HTTPRouteRule matches filters \<Rightarrow> buildHTTPRuleTransforms filters (HTTPMatch rule)
            | _ \<Rightarrow> Inl typeAssertion)
      else Inr [])"

section \<open>The routing action of a rule\<close>

definition emptyAction :: Action where
  "emptyAction = \<lparr>actionType = '''', AuthenticateCognitoConfig = None, AuthenticateOIDCConfig = None, actJwtValidationConfig = None,
     FixedResponseConfig = None, RedirectConfig = None, ForwardConfig = None\<rparr>"

text \<open>The scheme of a redirect is ASCII: \<open>strings.ToUpper\<close> on those letters.\<close>

definition asciiUpper :: "string \<Rightarrow> string" where
  "asciiUpper s = map (\<lambda>c. if CHR ''a'' \<le> c \<and> c \<le> CHR ''z'' then char_of ((of_char c :: nat) - 32) else c) s"

definition shouldProvisionActions :: "TargetGroupTuple list \<Rightarrow> bool" where
  "shouldProvisionActions targetGroups = list_ex (\<lambda>tg. tupleWeight tg = None \<or> tupleWeight tg \<noteq> Some 0) targetGroups"

definition buildFixedResponseRoutingAction :: "(int \<times> string option \<times> string option) option \<Rightarrow> Action res" where
  "buildFixedResponseRoutingAction cfg = res_bind (deref cfg) (\<lambda>(statusCode, contentType, messageBody).
     Inr (emptyAction\<lparr>actionType := ''fixed-response'', FixedResponseConfig := Some
       \<lparr>fixedContentType = contentType, fixedMessageBody = messageBody, fixedStatusCode = Itoa statusCode\<rparr>\<rparr>))"

definition buildL7ListenerForwardActions :: "TargetGroupTuple list \<Rightarrow> (bool option \<times> int option) option \<Rightarrow> Action res" where
  "buildL7ListenerForwardActions tuples forwardConfig =
     res_bind (case forwardConfig of
                 None \<Rightarrow> Inr None
               | Some (enabled, duration) \<Rightarrow> res_bind (deref enabled) (\<lambda>e. res_bind (deref duration) (\<lambda>d.
                   Inr (Some \<lparr>stickyEnabled = Some e, stickyDurationSeconds = Some d\<rparr>)))) (\<lambda>stickiness.
       Inr (emptyAction\<lparr>actionType := ''forward'', ForwardConfig := Some
         \<lparr>forwardTargetGroups = tuples, forwardStickiness = stickiness\<rparr>\<rparr>))"

definition buildForwardRoutingAction :: "gwAction option \<Rightarrow> TargetGroupTuple list \<Rightarrow> Action option res" where
  "buildForwardRoutingAction routingAction tuples =
     (if shouldProvisionActions tuples
      then res_bind (buildL7ListenerForwardActions tuples (case routingAction of None \<Rightarrow> None | Some a \<Rightarrow> gwForwardStickiness a)) (\<lambda>a. Inr (Some a))
      else Inr None)"

definition redirectPathValue :: "HTTPPathModifier option \<Rightarrow> string option res" where
  "redirectPathValue path = (case path of
       None \<Rightarrow> Inr None
     | Some p \<Rightarrow>
         (case ReplaceFullPath p of
            Some v \<Rightarrow> if ContainsAny v ''*?'' then Inl (Errorf ''ReplaceFullPath shouldn't contain wildcards: %v'' [v]) else Inr (Some v)
          | None \<Rightarrow>
              (case ReplacePrefixMatch p of
                 Some v \<Rightarrow> if ContainsAny v ''*?'' then Inl (Errorf ''ReplacePrefixMatch shouldn't contain wildcards: %v'' [v]) else Inr None
               | None \<Rightarrow> Inr None)))"

definition redirectProtocolPort :: "HTTPRequestRedirectFilter \<Rightarrow> (string option \<times> string option) res" where
  "redirectProtocolPort rf =
     (let port = map_option Itoa (redPort rf) in
      case redScheme rf of
        None \<Rightarrow> Inr (None, port)
      | Some scheme \<Rightarrow>
          (let upperScheme = asciiUpper scheme
           in if upperScheme = ''HTTP'' then Inr (Some upperScheme, case port of None \<Rightarrow> Some ''80'' | Some p \<Rightarrow> Some p)
              else if upperScheme = ''HTTPS'' then Inr (Some upperScheme, case port of None \<Rightarrow> Some ''443'' | Some p \<Rightarrow> Some p)
              else Inl (Errorf ''unsupported redirect scheme: %v'' [upperScheme])))"

definition buildHttpRedirectAction :: "HTTPRequestRedirectFilter option \<Rightarrow> string option option \<Rightarrow> Action res" where
  "buildHttpRedirectAction redirectFilter redirectConfig =
     res_bind (deref redirectFilter) (\<lambda>rf.
     res_bind (redirectProtocolPort rf) (\<lambda>(protocol, port).
     res_bind (redirectPathValue (redPath rf)) (\<lambda>path.
       Inr (emptyAction\<lparr>actionType := ''redirect'', RedirectConfig := Some
         \<lparr>redirectHost = redHostname rf, redirectPath = path, redirectPort = port, redirectProtocol = protocol,
          redirectQuery = (case redirectConfig of None \<Rightarrow> None | Some q \<Rightarrow> q),
          redirectStatusCode = (case redStatusCode rf of None \<Rightarrow> '''' | Some c \<Rightarrow> ''HTTP_'' @ Itoa c)\<rparr>\<rparr>))))"

fun redirectOfFilters :: "HTTPRouteFilter list \<Rightarrow> string option option \<Rightarrow> Action option res" where
  "redirectOfFilters [] redirectConfig = Inr None"
| "redirectOfFilters (f # fs) redirectConfig =
     (if filterType f = ''RequestRedirect'' then res_bind (buildHttpRedirectAction (RequestRedirect f) redirectConfig) (\<lambda>a. Inr (Some a))
      else if filterType f = ''ExtensionRef'' \<or> filterType f = ''URLRewrite'' then redirectOfFilters fs redirectConfig
      else Inl (Errorf ''Unsupported filter type: %v. Only request redirect is supported. To specify header modification, please configure it through LoadBalancerConfiguration.'' [filterType f]))"

definition buildHttpRuleRedirectActionsBasedOnFilter :: "HTTPRouteFilter list \<Rightarrow> string option option \<Rightarrow> Action option res" where
  "buildHttpRuleRedirectActionsBasedOnFilter filters redirectConfig =
     (if length filters = 1 \<and> filterType (hd filters) = ''ExtensionRef'' \<and> redirectConfig \<noteq> None
      then Inl (Errorf ''HTTPRouteFilterRequestRedirect must be provided if RedirectActionConfig in ListenerRuleConfiguration is provided'' [])
      else redirectOfFilters filters redirectConfig)"

definition buildRedirectRoutingAction :: "'b RouteRule \<Rightarrow> 'b RouteDescriptor \<Rightarrow> gwAction option \<Rightarrow> Action option res" where
  "buildRedirectRoutingAction rule route routingAction =
     (if routeKind route = ''HTTPRoute''
      then (case rawRouteRule rule of
              HTTPRouteRule matches filters \<Rightarrow>
                if length filters > 0
                then buildHttpRuleRedirectActionsBasedOnFilter filters (case routingAction of None \<Rightarrow> None | Some a \<Rightarrow> gwRedirectQuery a)
                else Inr None
            | _ \<Rightarrow> Inl typeAssertion)
      else if routeKind route = ''GRPCRoute''
      then (case rawRouteRule rule of
              GRPCRouteRule matches filterTypes \<Rightarrow>
                (case find (\<lambda>t. t \<noteq> ''ExtensionRef'') filterTypes of
                   None \<Rightarrow> Inr None
                 | Some t \<Rightarrow> Inl (Errorf ''Unsupported filter type: %v. To specify header modification, please configure it through LoadBalancerConfiguration.'' [t]))
            | _ \<Rightarrow> Inl typeAssertion)
      else Inr None)"

definition BuildRuleRoutingAction :: "'b RouteRule \<Rightarrow> 'b RouteDescriptor \<Rightarrow> gwAction option \<Rightarrow> TargetGroupTuple list \<Rightarrow> Action option res" where
  "BuildRuleRoutingAction rule route routingAction tuples =
     (case routingAction of
        Some a \<Rightarrow>
          if gwActionType a = ''fixed-response'' then res_bind (buildFixedResponseRoutingAction (gwFixedResponse a)) (\<lambda>x. Inr (Some x))
          else res_bind (buildForwardRoutingAction routingAction tuples) (\<lambda>forward.
               res_bind (buildRedirectRoutingAction rule route routingAction) (\<lambda>redirect.
                 Inr (if redirect \<noteq> None then redirect else forward)))
      | None \<Rightarrow>
          res_bind (buildForwardRoutingAction routingAction tuples) (\<lambda>forward.
          res_bind (buildRedirectRoutingAction rule route routingAction) (\<lambda>redirect.
            Inr (if redirect \<noteq> None then redirect else forward))))"

section \<open>The rules of a listener\<close>

definition getPreRoutingAction :: "gwAction list \<Rightarrow> gwAction option" where
  "getPreRoutingAction actions = find (\<lambda>a. gwActionType a \<in> {''authenticate-cognito'', ''authenticate-oidc'', ''jwt-validation''}) actions"

definition getRoutingAction :: "gwAction list \<Rightarrow> gwAction option" where
  "getRoutingAction actions = find (\<lambda>a. gwActionType a \<in> {''forward'', ''fixed-response'', ''redirect''}) actions"

definition buildL7ListenerNoBackendActions :: Action where
  "buildL7ListenerNoBackendActions = emptyAction\<lparr>actionType := ''fixed-response'', FixedResponseConfig := Some
     \<lparr>fixedContentType = Some ''text/plain'', fixedMessageBody = None, fixedStatusCode = ''500''\<rparr>\<rparr>"

text \<open>
  What the loop calls: the target group of a backend, the action before the routing (with the secret it reads), and
  the tags of a rule.
\<close>

record ('b, 'w) listener_builder =
  buildTargetGroup :: "'b RouteDescriptor \<Rightarrow> 'b \<times> int \<Rightarrow> ('w, token) io"
  buildPreRouting :: "'b RouteDescriptor \<Rightarrow> gwAction \<Rightarrow> ('w, Action option \<times> (string \<times> string) option) io"
  getListenerRuleTags :: "(ListenerRuleCondition list \<times> gwAction list) option \<Rightarrow> string_map res"

fun buildTuples :: "('b, 'w) listener_builder \<Rightarrow> 'b RouteDescriptor \<Rightarrow> ('b \<times> int) list \<Rightarrow> ('w, TargetGroupTuple list) io" where
  "buildTuples l route [] = io_ret []"
| "buildTuples l route (b # bs) =
     io_bind (buildTargetGroup l route b) (\<lambda>arn. io_bind (buildTuples l route bs) (\<lambda>tuples.
       io_ret (\<lparr>tupleARN = arn, tupleWeight = Some (to_int32 (snd b))\<rparr> # tuples)))"

definition gwRuleConditions :: "'b RulePrecedence \<Rightarrow> RuleCondition list res" where
  "gwRuleConditions rule =
     (let kind = routeKind (cpRoute (CommonPrecedence rule)) in
      res_bind (if kind = ''HTTPRoute'' then BuildHttpRuleConditions rule else if kind = ''GRPCRoute'' then BuildGrpcRuleConditions rule else Inr [])
        (BuildSourceIpInCondition rule))"

definition gwBuildRule :: "('b, 'w) listener_builder \<Rightarrow> string \<Rightarrow> 'b RulePrecedence \<Rightarrow> ('w, Rule \<times> (string \<times> string) list) io" where
  "gwBuildRule l protocol rp =
     (let route = cpRoute (CommonPrecedence rp); rule = cpRule (CommonPrecedence rp);
          actionsOf = (\<lambda>get. case listenerRuleConfig rule of None \<Rightarrow> None | Some (_, actions) \<Rightarrow> get actions);
          preRoutingAction = (if protocol = ''HTTPS'' then actionsOf getPreRoutingAction else None);
          routingAction = actionsOf getRoutingAction
      in io_bind (io_lift (gwRuleConditions rp)) (\<lambda>conditions.
         io_bind (buildTuples l route (ruleBackends rule)) (\<lambda>tuples.
         io_bind (case preRoutingAction of None \<Rightarrow> io_ret (None, None) | Some a \<Rightarrow> buildPreRouting l route a) (\<lambda>(pre, secret).
         io_bind (io_lift (BuildRuleRoutingAction rule route routingAction tuples)) (\<lambda>routing.
         io_bind (io_lift (getListenerRuleTags l (listenerRuleConfig rule))) (\<lambda>tags.
         io_bind (io_lift (BuildRoutingRuleTransforms route rp)) (\<lambda>transforms.
           io_ret (\<lparr>ruleConditions = conditions,
                    ruleActions = (case pre of None \<Rightarrow> [] | Some a \<Rightarrow> [a]) @ [case routing of None \<Rightarrow> buildL7ListenerNoBackendActions | Some a \<Rightarrow> a],
                    ruleTransforms = transforms, ruleTags = tags\<rparr>,
                   case secret of None \<Rightarrow> [] | Some k \<Rightarrow> [k]))))))))"

fun gwBuildRules :: "('b, 'w) listener_builder \<Rightarrow> string \<Rightarrow> 'b RulePrecedence list \<Rightarrow> ('w, (Rule \<times> (string \<times> string) list) list) io" where
  "gwBuildRules l protocol [] = io_ret []"
| "gwBuildRules l protocol (rp # rps) =
     io_bind (gwBuildRule l protocol rp) (\<lambda>r. io_bind (gwBuildRules l protocol rps) (\<lambda>rs. io_ret (r # rs)))"

definition gwBuildListenerRules where
  "gwBuildListenerRules sortSlice l lsARN protocol port routes =
     io_bind (io_lift (SortAllRulesByPrecedence sortSlice (mget0 [] routes port) port)) (\<lambda>rps.
     io_bind (gwBuildRules l protocol rps) (\<lambda>rs.
       io_ret (concat (map snd rs), numberRules lsARN port 1 (map fst rs))))"

section \<open>What the conditions and the transforms mean\<close>

text \<open>The path types \<open>PathPrefix\<close> of a route and \<open>Prefix\<close> of an Ingress give the same condition.\<close>

lemma http_prefix_as_ingress:
  "buildHttpPathCondition \<lparr>pmType = Some ''PathPrefix'', pmValue = Some path\<rparr> =
     res_bind (buildPathPatternsForPrefixPathType path) (\<lambda>(values, regexes). Inr [buildPathValuesCondition values])"
  by (simp add: buildHttpPathCondition_def buildPathPatternsForPrefixPathType_def deref_def Let_def ContainsAny_def)

text \<open>How to write a list of header values so that the code reads it back.\<close>

definition escapeChar :: "char \<Rightarrow> string" where
  "escapeChar c = (if c = CHR 0x5C \<or> c = CHR '','' then [CHR 0x5C, c] else [c])"

definition escapeValues :: "string list \<Rightarrow> string" where
  "escapeValues vs = join_on (CHR '','') (map (\<lambda>v. concat (map escapeChar v)) vs)"

lemma headerValuesFrom_escaped:
  "headerValuesFrom current (concat (map escapeChar v) @ rest) = headerValuesFrom (current @ v) rest"
  by (induction v arbitrary: current) (auto simp: escapeChar_def)

lemma headerValuesFrom_join:
  "vs \<noteq> [] \<Longrightarrow> headerValuesFrom current (escapeValues vs) = (current @ hd vs) # tl vs"
proof (induction vs arbitrary: current)
  case (Cons v vs)
  show ?case
  proof (cases vs)
    case Nil
    then show ?thesis using headerValuesFrom_escaped [of current v "[]"] by (simp add: escapeValues_def)
  next
    case (Cons w ws)
    then have "escapeValues (v # vs) = concat (map escapeChar v) @ CHR '','' # escapeValues vs" by (simp add: escapeValues_def)
    then show ?thesis using Cons.IH [of "[]"] Cons by (simp add: headerValuesFrom_escaped)
  qed
qed simp

text \<open>
  Reading header values back: every list of values can be written as one header match value, commas and
  backslashes escaped by a backslash, and the condition built from it has exactly these values.
\<close>

theorem header_values_roundtrip:
  assumes "vs \<noteq> []"
  shows "generateValuesFromMatchHeaderValue (escapeValues vs) = vs"
  using headerValuesFrom_join [OF assms, of "[]"] assms by (simp add: generateValuesFromMatchHeaderValue_def)

theorem header_values_roundtrip_witness:
  "generateValuesFromMatchHeaderValue (escapeValues [''a,b'', '''', [CHR 0x5C]]) = [''a,b'', '''', [CHR 0x5C]]"
  by (rule header_values_roundtrip) simp

text \<open>
  What the load balancer does with the rewrite of a prefix: the first match of the expression, whose prefix is
  literal, is replaced, and \<open>$2\<close> stands for the slash that the optional group took.
\<close>

definition applyRewrite :: "string \<Rightarrow> string \<Rightarrow> string \<Rightarrow> string" where
  "applyRewrite match replacement path =
     (if HasPrefix path match
      then (let rest = drop (length match) path;
                slash = (if HasPrefix rest ''/'' then ''/'' else '''');
                text = (if HasSuffix replacement ''$2'' then take (length replacement - 2) replacement @ slash else replacement)
            in text @ drop (length slash) rest)
      else path)"

text \<open>The Gateway API: the elements of the prefix are replaced, the rest of the path stays behind a single slash.\<close>

definition replacedPrefix :: "string \<Rightarrow> string \<Rightarrow> string \<Rightarrow> string" where
  "replacedPrefix prefix replacement path =
     (if path = prefix then (if replacement = '''' then ''/'' else replacement)
      else TrimSuffix replacement ''/'' @ drop (length prefix) path)"

lemma HasPrefix_iff: "HasPrefix s p \<longleftrightarrow> (\<exists>r. s = p @ r)"
  unfolding HasPrefix_def by (metis append_eq_conv_conj append_take_drop_id)

lemma HasSuffix_iff: "HasSuffix s p \<longleftrightarrow> (\<exists>r. s = r @ p)"
proof
  assume "HasSuffix s p"
  then show "\<exists>r. s = r @ p" unfolding HasSuffix_def by (metis append_take_drop_id)
qed (auto simp: HasSuffix_def)

lemma TrimSuffix_append [simp]: "TrimSuffix (s @ p) p = s"
  by (simp add: TrimSuffix_def HasSuffix_iff)



text \<open>With a trailing slash in the prefix the rewrite loses the slash: \<open>/foo/bar\<close> becomes \<open>/xyzbar\<close>.\<close>

lemma trailing_slash_rewrite:
  "generatePrefixReplacementRegex (Some (exHTTPMatch ''PathPrefix'' ''/foo/'')) ''/xyz'' = Inr (''(^/foo/(/)?)'', ''/xyz$2'')
   \<and> applyRewrite ''/foo/'' ''/xyz$2'' ''/foo/bar'' = ''/xyzbar''"
  by code_simp

end
