(* ===== verification/Netip.thy ===== *)
theory Netip
  imports Tagging "HOL-Library.Word"
begin

unbundle bit_operations_syntax

text \<open>
  IP addresses and prefixes: what the sources use of the package \<open>net/netip\<close> of Go (\<open>ParseAddr\<close>, \<open>ParsePrefix\<close>,
  \<open>Prefix.Contains\<close>) and of \<open>net.ParseIP\<close>, with addresses as words of 32 and 128 bits, and the functions of
  \<^verbatim>\<open>pkg/networking/utils.go\<close> on the CIDRs of a VPC and of its subnets.
\<close>

section \<open>Addresses\<close>

text \<open>An IPv6 address has a zone, empty for most.\<close>

datatype netip_addr = IP4 "32 word" | IP6 "128 word" string

definition isDigit :: "char \<Rightarrow> bool" where
  "isDigit c \<longleftrightarrow> c \<in> set ''0123456789''"

definition hexVal :: "char \<Rightarrow> int option" where
  "hexVal c = (case digit_val c of
       Some d \<Rightarrow> Some (int d)
     | None \<Rightarrow> map_of (zip ''abcdefABCDEF'' [10, 11, 12, 13, 14, 15, 10, 11, 12, 13, 14, 15]) c)"

definition isHexDigit :: "char \<Rightarrow> bool" where
  "isHexDigit c \<longleftrightarrow> hexVal c \<noteq> None"

definition hexNumber :: "string \<Rightarrow> int" where
  "hexNumber = foldl (\<lambda>acc c. 16 * acc + the (hexVal c)) 0"

definition parseIPv4Field :: "string \<Rightarrow> int option" where
  "parseIPv4Field f =
     (if f \<noteq> [] \<and> length f \<le> 3 \<and> list_all isDigit f \<and> (length f > 1 \<longrightarrow> hd f \<noteq> CHR ''0'')
      then (case parse_digits 0 f of None \<Rightarrow> None | Some n \<Rightarrow> if n \<le> 255 then Some (int n) else None)
      else None)"

fun opt_map :: "('a \<Rightarrow> 'b option) \<Rightarrow> 'a list \<Rightarrow> 'b list option" where
  "opt_map f [] = Some []"
| "opt_map f (x # xs) = (case f x of None \<Rightarrow> None | Some y \<Rightarrow> map_option ((#) y) (opt_map f xs))"

definition parseIPv4Fields :: "string \<Rightarrow> int list option" where
  "parseIPv4Fields s = (let fs = split_on (CHR ''.'') s in if length fs = 4 then opt_map parseIPv4Field fs else None)"

text \<open>The bytes of an address, the first one highest.\<close>

definition bytesValue :: "int list \<Rightarrow> int" where
  "bytesValue = foldl (\<lambda>v b. 256 * v + b) 0"

text \<open>The end of the loop over the groups: an ellipsis after \<open>e\<close> bytes stands for at least one zero.\<close>

definition expandEllipsis :: "nat option \<Rightarrow> int list \<Rightarrow> int list option" where
  "expandEllipsis e ip =
     (if length ip < 16
      then (case e of None \<Rightarrow> None | Some n \<Rightarrow> Some (take n ip @ replicate (16 - length ip) 0 @ drop n ip))
      else if e = None then Some ip else None)"

text \<open>The loop over the groups: \<open>ip\<close> are the bytes read so far.\<close>

function parseIPv6Groups :: "nat option \<Rightarrow> int list \<Rightarrow> string \<Rightarrow> int list option" where
  "parseIPv6Groups e ip s =
     (if length ip \<ge> 16 then (if s = [] then expandEllipsis e ip else None)
      else (let digits = takeWhile isHexDigit s; rest = dropWhile isHexDigit s in
        if digits = [] then None
        else if rest \<noteq> [] \<and> hd rest = CHR ''.''
        then (if (e = None \<and> length ip \<noteq> 12) \<or> length ip + 4 > 16 then None
              else case parseIPv4Fields s of None \<Rightarrow> None | Some bs \<Rightarrow> expandEllipsis e (ip @ bs))
        else if length digits > 4 then None
        else (let acc = hexNumber digits; ip' = ip @ [acc div 256, acc mod 256] in
          if rest = [] then expandEllipsis e ip'
          else if hd rest \<noteq> CHR '':'' \<or> length rest = 1 then None
          else if rest ! 1 = CHR '':''
          then (if e \<noteq> None then None
                else if length rest = 2 then expandEllipsis (Some (length ip')) ip'
                else parseIPv6Groups (Some (length ip')) ip' (drop 2 rest))
          else parseIPv6Groups e ip' (tl rest))))"
  by pat_completeness auto
termination by (relation "measure (\<lambda>(e, ip, s). 16 - length ip)") auto

definition parseIPv6 :: "string \<Rightarrow> netip_addr option" where
  "parseIPv6 full =
     (let s = takeWhile (\<lambda>c. c \<noteq> CHR ''%'') full; zone = tl (dropWhile (\<lambda>c. c \<noteq> CHR ''%'') full)
      in if CHR ''%'' \<in> set full \<and> zone = [] then None
         else let addr = (\<lambda>bs. IP6 (word_of_int (bytesValue bs)) (if CHR ''%'' \<in> set full then zone else []))
              in if take 2 s = ''::''
                 then (if drop 2 s = [] then Some (addr []) else map_option addr (parseIPv6Groups (Some 0) [] (drop 2 s)))
                 else map_option addr (parseIPv6Groups None [] s))"

definition ParseAddr :: "string \<Rightarrow> netip_addr option" where
  "ParseAddr s = (case find (\<lambda>c. c \<in> set ''.:%'') s of
       None \<Rightarrow> None
     | Some c \<Rightarrow>
         if c = CHR ''.'' then map_option (\<lambda>bs. IP4 (word_of_int (bytesValue bs))) (parseIPv4Fields s)
         else if c = CHR '':'' then parseIPv6 s else None)"

text \<open>\<open>net.ParseIP\<close>: does the string denote an address without zone?\<close>

definition ParseIP :: "string \<Rightarrow> bool" where
  "ParseIP s = (case ParseAddr s of None \<Rightarrow> False | Some (IP4 a) \<Rightarrow> True | Some (IP6 a zone) \<Rightarrow> zone = [])"

section \<open>Prefixes\<close>

record netip_prefix =
  prefixAddr :: netip_addr
  prefixBits :: nat

definition BitLen :: "netip_addr \<Rightarrow> nat" where
  "BitLen a = (case a of IP4 _ \<Rightarrow> 32 | IP6 _ _ \<Rightarrow> 128)"

text \<open>The last slash separates the address from the number of bits, which has no sign and no leading zero.\<close>

definition ParsePrefix :: "string \<Rightarrow> netip_prefix option" where
  "ParsePrefix s =
     (if CHR ''/'' \<notin> set s then None
      else (let bitsStr = rev (takeWhile (\<lambda>c. c \<noteq> CHR ''/'') (rev s)); addrStr = take (length s - length bitsStr - 1) s
        in case ParseAddr addrStr of
             None \<Rightarrow> None
           | Some ip \<Rightarrow>
               if (case ip of IP4 _ \<Rightarrow> False | IP6 _ zone \<Rightarrow> zone \<noteq> []) then None
               else if bitsStr = [] \<or> (length bitsStr > 1 \<and> hd bitsStr = CHR ''0'') then None
               else case parse_digits 0 bitsStr of
                      None \<Rightarrow> None
                    | Some bits \<Rightarrow> if bits > BitLen ip then None else Some \<lparr>prefixAddr = ip, prefixBits = bits\<rparr>))"

definition mask6 :: "nat \<Rightarrow> 128 word" where
  "mask6 n = NOT (mask (128 - n))"

definition PrefixContains :: "netip_prefix \<Rightarrow> netip_addr \<Rightarrow> bool" where
  "PrefixContains p ip =
     (case (prefixAddr p, ip) of
        (IP4 a, IP4 b) \<Rightarrow> drop_bit (32 - prefixBits p) (b XOR a) = 0
      | (IP6 a _, IP6 b zone) \<Rightarrow> zone = [] \<and> (b XOR a) AND mask6 (prefixBits p) = 0
      | _ \<Rightarrow> False)"

lemma ParseIP_examples:
  "ParseIP ''10.0.0.1'' \<and> \<not> ParseIP ''10.0.0.256'' \<and> \<not> ParseIP ''10.0.0.01'' \<and> ParseIP ''::'' \<and> ParseIP ''2001:db8::1''
   \<and> ParseIP ''::ffff:1.2.3.4'' \<and> \<not> ParseIP ''1:2:3:4:5:6:7::8:9'' \<and> \<not> ParseIP ''example.com'' \<and> ParseIP ''1:2:3:4:5:6:7:8''
   \<and> \<not> ParseIP ''fe80::1%eth0''"
  by code_simp

lemma ParseAddr_examples:
  "ParseAddr ''10.0.1.2'' = Some (IP4 167772418)" "ParseAddr ''fe80::1%eth0'' = Some (IP6 0xfe800000000000000000000000000001 ''eth0'')"
  "ParseAddr ''::ffff:1.2.3.4'' = Some (IP6 0xffff01020304 [])" "ParseAddr ''fe80::1%'' = None"
  "ParsePrefix ''10.0.0.0/8'' = Some \<lparr>prefixAddr = IP4 167772160, prefixBits = 8\<rparr>" "ParsePrefix ''10.0.0.0/08'' = None"
  "ParsePrefix ''10.0.0.0/33'' = None"
  by code_simp+

section \<open>CIDRs of a VPC and of its subnets\<close>

text \<open>The errors of \<open>net/netip\<close> carry the text they refuse.\<close>

definition parsePrefix :: "string \<Rightarrow> netip_prefix res" where
  "parsePrefix cidr = (case ParsePrefix cidr of None \<Rightarrow> Inl (Errorf ''netip.ParsePrefix'' [cidr]) | Some p \<Rightarrow> Inr p)"

definition parseAddr :: "string \<Rightarrow> netip_addr res" where
  "parseAddr s = (case ParseAddr s of None \<Rightarrow> Inl (Errorf ''ParseAddr'' [s]) | Some a \<Rightarrow> Inr a)"

definition ParseCIDRs :: "string list \<Rightarrow> netip_prefix list res" where
  "ParseCIDRs cidrs = res_map parsePrefix cidrs"

definition IsIPWithinCIDRs :: "netip_addr \<Rightarrow> netip_prefix list \<Rightarrow> bool" where
  "IsIPWithinCIDRs ip cidrs = list_ex (\<lambda>cidr. PrefixContains cidr ip) cidrs"

definition FilterIPsWithinCIDRs :: "netip_addr list \<Rightarrow> netip_prefix list \<Rightarrow> netip_addr list" where
  "FilterIPsWithinCIDRs ips cidrs = filter (\<lambda>ip. list_ex (\<lambda>cidr. PrefixContains cidr ip) cidrs) ips"

record ec2_subnet =
  SubnetId :: "string option"
  CidrBlock :: "string option"
  Ipv6CidrBlockAssociationSet :: "(string \<times> string option) list"

definition GetSubnetAssociatedIPv4CIDRs :: "ec2_subnet \<Rightarrow> netip_prefix list res" where
  "GetSubnetAssociatedIPv4CIDRs subnet =
     (case CidrBlock subnet of None \<Rightarrow> Inr [] | Some cidrBlock \<Rightarrow> res_bind (parsePrefix cidrBlock) (\<lambda>p. Inr [p]))"

definition GetSubnetAssociatedIPv6CIDRs :: "ec2_subnet \<Rightarrow> netip_prefix list res" where
  "GetSubnetAssociatedIPv6CIDRs subnet =
     res_map (\<lambda>(state, cidr). parsePrefix (ToString cidr))
       (filter (\<lambda>(state, cidr). state = ''associated'') (Ipv6CidrBlockAssociationSet subnet))"

definition ValidateEnablePrefixForIpv6SourceNat :: "string \<Rightarrow> string \<Rightarrow> ec2_subnet list \<Rightarrow> unit res" where
  "ValidateEnablePrefixForIpv6SourceNat v ipAddressType ec2Subnets =
     (if v \<noteq> ''on'' \<and> v \<noteq> ''off''
      then Inl (Errorf ''Invalid enable-prefix-for-ipv6-source-nat value: %v. Valid values are ['on', 'off'].'' [v])
      else if v \<noteq> ''on'' then Inr ()
      else if ipAddressType = ''ipv4''
      then Inl (Errorf ''enable-prefix-for-ipv6-source-nat annotation is only applicable to Network Load Balancers using Dualstack IP address type.'' [])
      else res_bind (res_map (\<lambda>subnet. case GetSubnetAssociatedIPv6CIDRs subnet of
                        Inl err \<Rightarrow> Inl (Formatted ''%v'' [err])
                      | Inr cidrs \<Rightarrow> Inr (if length cidrs < 1 then [ToString (SubnetId subnet)] else [])) ec2Subnets) (\<lambda>idss.
             let subnetsWithoutIPv6CIDR = concat idss in
             if length subnetsWithoutIPv6CIDR > 0
             then Inl (Errorf ''To enable prefix for source NAT, all associated subnets must have an IPv6 CIDR. Subnets without IPv6 CIDR: %v.''
                    subnetsWithoutIPv6CIDR)
             else Inr ()))"

definition requiredPrefixLengthForSourceNatCidr :: string where
  "requiredPrefixLengthForSourceNatCidr = ''80''"

text \<open>\<open>Is6\<close> holds of every IPv6 address, with or without zone.\<close>

definition ValidateSourceNatPrefixForSubnetPair :: "string \<Rightarrow> ec2_subnet \<Rightarrow> unit res" where
  "ValidateSourceNatPrefixForSubnetPair sourceNatIpv6Prefix subnet =
     (if sourceNatIpv6Prefix = ''auto_assigned'' then Inr ()
      else (let subStrings = split_on CHR ''/'' sourceNatIpv6Prefix in
        if length subStrings < 2 then Inl (Errorf ''Invalid value in source-nat-ipv6-prefixes: %v.'' [sourceNatIpv6Prefix])
        else if subStrings ! 1 \<noteq> requiredPrefixLengthForSourceNatCidr
        then Inl (Errorf ''Invalid value in source-nat-ipv6-prefixes: %v. Prefix length must be %v, but %v is specified.''
               [sourceNatIpv6Prefix, requiredPrefixLengthForSourceNatCidr, subStrings ! 1])
        else (case ParseAddr (subStrings ! 0) of
                Some (IP6 a zone) \<Rightarrow>
                  (case GetSubnetAssociatedIPv6CIDRs subnet of
                     Inl err \<Rightarrow> Inl (Errorf ''Subnet has invalid IPv6 CIDRs: %v. Subnet must have valid IPv6 CIDRs.'' [])
                   | Inr subnetIPv6CIDRs \<Rightarrow>
                       if length (FilterIPsWithinCIDRs [IP6 a zone] subnetIPv6CIDRs) \<noteq> 1
                       then Inl (Errorf ''Invalid value in source-nat-ipv6-prefixes: %v. Value must be within subnet CIDR range: %v.''
                              [sourceNatIpv6Prefix])
                       else Inr ())
              | _ \<Rightarrow> Inl (Errorf ''Invalid value in source-nat-ipv6-prefixes: %v. Value must be a valid IPv6 CIDR.'' [sourceNatIpv6Prefix]))))"

definition ValidateSourceNatPrefixes :: "string list \<Rightarrow> string \<Rightarrow> bool \<Rightarrow> ec2_subnet list \<Rightarrow> unit res" where
  "ValidateSourceNatPrefixes sourceNatIpv6Prefixes ipAddressType isPrefixForIpv6SourceNatEnabled ec2Subnets =
     (if ipAddressType \<noteq> ''dualstack''
      then Inl (Errorf ''source-nat-ipv6-prefixes annotation can only be set for Network Load Balancers using Dualstack IP address type.'' [])
      else if \<not> isPrefixForIpv6SourceNatEnabled
      then Inl (Errorf ''source-nat-ipv6-prefixes annotation is only applicable if enable-prefix-for-ipv6-source-nat annotation is set to on.'' [])
      else if length sourceNatIpv6Prefixes \<noteq> length ec2Subnets
      then Inl (Errorf ''Number of values in source-nat-ipv6-prefixes (%d) must match the number of subnets (%d).''
             [Itoa (int (length sourceNatIpv6Prefixes)), Itoa (int (length ec2Subnets))])
      else res_bind (res_map (\<lambda>(p, subnet). ValidateSourceNatPrefixForSubnetPair p subnet) (zip sourceNatIpv6Prefixes ec2Subnets)) (\<lambda>_. Inr ()))"

section \<open>A prefix is an interval of addresses\<close>

definition addrValue :: "netip_addr \<Rightarrow> int" where
  "addrValue a = (case a of IP4 w \<Rightarrow> uint w | IP6 w _ \<Rightarrow> uint w)"

definition addrZone :: "netip_addr \<Rightarrow> string" where
  "addrZone a = (case a of IP4 _ \<Rightarrow> [] | IP6 _ zone \<Rightarrow> zone)"

definition hostBits :: "netip_prefix \<Rightarrow> nat" where
  "hostBits p = BitLen (prefixAddr p) - prefixBits p"

definition firstAddr :: "netip_prefix \<Rightarrow> int" where
  "firstAddr p = addrValue (prefixAddr p) div 2 ^ hostBits p * 2 ^ hostBits p"

lemma drop_xor_zero:
  fixes a b :: "'a::len word"
  shows "drop_bit k (b XOR a) = 0 \<longleftrightarrow> uint b div 2 ^ k = uint a div 2 ^ k"
proof -
  have "drop_bit k (b XOR a) = 0 \<longleftrightarrow> drop_bit k b = drop_bit k a"
  proof
    assume z: "drop_bit k (b XOR a) = 0"
    have "drop_bit k b = (drop_bit k b XOR drop_bit k a) XOR drop_bit k a" by (simp only: xor.assoc xor_self_eq xor.right_neutral)
    then show "drop_bit k b = drop_bit k a" using z by simp
  qed simp
  also have "\<dots> \<longleftrightarrow> uint (drop_bit k b) = uint (drop_bit k a)" by (simp only: word_uint_eq_iff)
  also have "\<dots> \<longleftrightarrow> uint b div 2 ^ k = uint a div 2 ^ k"
    by (simp add: unsigned_drop_bit_eq drop_bit_eq_div [where ?'a = int] take_bit_int_eq_self)
  finally show ?thesis .
qed

lemma and_not_mask_zero: "x AND NOT (mask k) = 0 \<longleftrightarrow> drop_bit k x = 0" for x :: "'a::len word"
proof -
  have "x AND NOT (mask k) = push_bit k (drop_bit k x)"
    by (rule bit_eqI) (auto simp: bit_simps)
  moreover have "push_bit k (drop_bit k x) = 0 \<longleftrightarrow> drop_bit k x = 0"
  proof
    assume z: "push_bit k (drop_bit k x) = 0"
    show "drop_bit k x = 0"
    proof (rule bit_eqI)
      fix n assume "possible_bit TYPE('a word) n"
      have "bit (push_bit k (drop_bit k x)) (n + k) = bit (drop_bit k x) n"
        by (auto simp: bit_simps dest: bit_imp_le_length)
      then show "bit (drop_bit k x) n = bit 0 n" using z by simp
    qed
  qed simp
  ultimately show ?thesis by simp
qed

lemma div_interval:
  fixes x y :: int
  shows "x div 2 ^ k = y div 2 ^ k \<longleftrightarrow> y div 2 ^ k * 2 ^ k \<le> x \<and> x < y div 2 ^ k * 2 ^ k + 2 ^ k"
proof -
  define m :: int where "m = 2 ^ k"
  have m: "0 < m" by (simp add: m_def)
  have "x div m = q \<longleftrightarrow> q * m \<le> x \<and> x < q * m + m" for q
  proof
    assume "x div m = q"
    then show "q * m \<le> x \<and> x < q * m + m"
      using m by (metis add.commute div_mult_mod_eq le_add_same_cancel1 add_less_cancel_left pos_mod_bound pos_mod_sign)
  next
    assume "q * m \<le> x \<and> x < q * m + m"
    then show "x div m = q" using m int_div_pos_eq [of x m q "x - q * m"] by (simp add: mult.commute)
  qed
  then show ?thesis unfolding m_def [symmetric] by blast
qed

lemma PrefixContains_interval:
  "PrefixContains p ip \<longleftrightarrow> BitLen (prefixAddr p) = BitLen ip \<and> addrZone ip = []
     \<and> firstAddr p \<le> addrValue ip \<and> addrValue ip < firstAddr p + 2 ^ hostBits p"
  by (cases "prefixAddr p"; cases ip)
    (auto simp: PrefixContains_def BitLen_def addrZone_def addrValue_def firstAddr_def hostBits_def mask6_def
      and_not_mask_zero drop_xor_zero div_interval simp del: drop_bit_xor)

lemma ParsePrefix_bits: "ParsePrefix s = Some p \<Longrightarrow> prefixBits p \<le> BitLen (prefixAddr p) \<and> addrZone (prefixAddr p) = []"
  by (auto simp: ParsePrefix_def Let_def addrZone_def split: if_splits option.splits netip_addr.splits)



end
