(* ===== verification/Route_Attachment.thy ===== *)
theory Route_Attachment
  imports Route_Rules Netip
begin

text \<open>
  Which routes a Gateway serves: the validation of its listeners (\<^verbatim>\<open>pkg/gateway/routeutils/listener_utils.go\<close>), the
  handshake between a route and a listener (\<^verbatim>\<open>listener_attachment_helper.go\<close>, \<^verbatim>\<open>attachment_helper.go\<close>,
  \<^verbatim>\<open>namespace_selector.go\<close>, \<^verbatim>\<open>utils.go\<close>), the listener sets (\<^verbatim>\<open>listener_set.go\<close>) and the map from ports to
  routes (\<^verbatim>\<open>route_listener_mapper.go\<close>).

  Reads of the cache of the Kubernetes client are functions: the namespaces of a label selector are an argument. A
  range over a Go map visits the entries in the order of the association list. Log output is left out.
\<close>

section \<open>Hostnames\<close>

definition IsHostNameInValidFormat :: "string \<Rightarrow> bool res" where
  "IsHostNameInValidFormat hostName =
     (if ParseIP hostName then Inl (Errorf ''hostname can not be IP address'' [])
      else (let labels = split_on (CHR ''.'') hostName;
                labels = (if HasPrefix hostName ''*.'' then tl labels else labels)
            in if list_ex (\<lambda>l. length l < 1 \<or> length l > 63) labels
               then Inl (Errorf ''invalid hostname label length, length must between 1 and 63'' []) else Inr True))"

definition getCompatibleHostname :: "string \<Rightarrow> string \<Rightarrow> string option" where
  "getCompatibleHostname hostnameOne hostnameTwo =
     (if hostnameOne = hostnameTwo then Some hostnameOne
      else if HasPrefix hostnameOne ''*.'' \<and> HasSuffix hostnameTwo (tl hostnameOne) then Some hostnameTwo
      else if HasPrefix hostnameTwo ''*.'' \<and> HasSuffix hostnameOne (tl hostnameTwo) then Some hostnameOne
      else None)"

definition isHostnameCompatible :: "string \<Rightarrow> string \<Rightarrow> bool" where
  "isHostnameCompatible hostnameOne hostnameTwo \<longleftrightarrow> getCompatibleHostname hostnameOne hostnameTwo \<noteq> None"

text \<open>A hostname of the API: wildcards only as the first label.\<close>

definition plainHostname :: "string \<Rightarrow> bool" where
  "plainHostname h \<longleftrightarrow> \<not> ContainsAny (if HasPrefix h ''*.'' then drop 2 h else h) ''*?''"

lemma glob_star_append:
  assumes "\<not> ContainsAny p ''*?''"
  shows "glob (CHR ''*'' # p) s \<longleftrightarrow> HasSuffix s p"
proof (induction s)
  case Nil
  show ?case using glob_plain [OF assms, of "[]"] by (auto simp: HasSuffix_iff)
next
  case (Cons x s)
  have "HasSuffix (x # s) p \<longleftrightarrow> x # s = p \<or> HasSuffix s p" unfolding HasSuffix_iff by (metis append_Nil append_eq_Cons_conv append_Cons)
  then show ?case using Cons glob_plain [OF assms, of "x # s"] by simp
qed

lemma plainHostname_cases [consumes 1, case_names wild plain]:
  assumes "plainHostname h"
  obtains (wild) p where "h = CHR ''*'' # p" "\<not> ContainsAny p ''*?''" "HasPrefix h ''*.''"
  | (plain) "\<not> ContainsAny h ''*?''" "\<not> HasPrefix h ''*.''"
proof (cases "HasPrefix h ''*.''")
  case True
  then obtain q where "h = ''*.'' @ q" by (auto simp: HasPrefix_iff)
  moreover from this assms have "\<not> ContainsAny (CHR ''.'' # q) ''*?''" by (simp add: plainHostname_def ContainsAny_def HasPrefix_def)
  ultimately show ?thesis using wild True by simp
qed (use assms plain in \<open>simp add: plainHostname_def\<close>)

lemma suffix_linear: "HasSuffix s p \<Longrightarrow> HasSuffix s q \<Longrightarrow> HasSuffix p q \<or> HasSuffix q p"
  unfolding HasSuffix_iff by (metis append_eq_append_conv2)

lemma suffix_trans: "HasSuffix s p \<Longrightarrow> HasSuffix p q \<Longrightarrow> HasSuffix s q"
  unfolding HasSuffix_iff by (metis append.assoc)

lemma suffix_cons_star: "HasSuffix (CHR ''*'' # p) q \<longleftrightarrow> CHR ''*'' # p = q \<or> HasSuffix p q"
  unfolding HasSuffix_iff by (metis append_Nil append_eq_Cons_conv append_Cons)

text \<open>
  C21. The compatible hostname of a listener and a route is their intersection: a host matches the more specific
  hostname that is returned exactly if it matches both, and where none is returned no host matches both.
\<close>

theorem compatible_hostname_intersection:
  assumes "plainHostname a" "plainHostname b"
  shows "(\<exists>c. getCompatibleHostname a b = Some c \<and> glob c host) \<longleftrightarrow> glob a host \<and> glob b host"
proof -
  have star: "\<not> ContainsAny p ''*?'' \<Longrightarrow> CHR ''*'' # q \<noteq> p" for p q by (auto simp: ContainsAny_def)
  show ?thesis
  using assms(1)
  proof (cases rule: plainHostname_cases)
    case a: (wild p)
    show ?thesis
    using assms(2)
    proof (cases rule: plainHostname_cases)
      case b: (wild q)
      have "HasSuffix (CHR ''*'' # q) p \<longleftrightarrow> HasSuffix q p" "HasSuffix (CHR ''*'' # p) q \<longleftrightarrow> HasSuffix p q"
        using star a(2) b(2) by (auto simp: suffix_cons_star)
      then show ?thesis using a b suffix_linear [of host p q] suffix_trans [of host]
        by (auto simp: getCompatibleHostname_def glob_star_append)
    next
      case b: plain
      then show ?thesis using a by (auto simp: getCompatibleHostname_def glob_star_append glob_plain)
    qed
  next
    case a: plain
    show ?thesis
    using assms(2)
    proof (cases rule: plainHostname_cases)
      case b: (wild q)
      then show ?thesis using a by (auto simp: getCompatibleHostname_def glob_star_append glob_plain)
    next
      case b: plain
      then show ?thesis using a by (auto simp: getCompatibleHostname_def glob_plain)
    qed
  qed
qed

theorem compatible_hostname_intersection_witness:
  "(\<exists>c. getCompatibleHostname ''*.example.com'' ''www.example.com'' = Some c \<and> glob c ''www.example.com'')
    \<longleftrightarrow> glob ''*.example.com'' ''www.example.com'' \<and> glob ''www.example.com'' ''www.example.com''"
proof (rule compatible_hostname_intersection)
  show "plainHostname ''*.example.com''" by code_simp
  show "plainHostname ''www.example.com''" by code_simp
qed

section \<open>Gateways, listeners and listener sets\<close>

record 'sel AllowedRoutes =
  arFrom :: "string option"
  arSelector :: "'sel option"
  arKinds :: "string list"

record 'sel gwListener =
  glName :: string
  glHostname :: "string option"
  glPort :: int
  glProtocol :: string
  glAllowedRoutes :: "'sel AllowedRoutes option"

record 'sel ListenerSet =
  lsetNamespace :: string
  lsetName :: string
  lsetCreated :: int
  lsetParentRef :: ParentReference
  lsetListeners :: "'sel gwListener list"

record 'sel Gateway =
  gwNamespace :: string
  gwName :: string
  gwListeners :: "'sel gwListener list"
  gwAllowedFrom :: "string option"
  gwAllowedSelector :: "'sel option"

type_synonym nsn = "string \<times> string"

definition lsetKey :: "'sel ListenerSet \<Rightarrow> nsn" where
  "lsetKey ls = (lsetNamespace ls, lsetName ls)"

definition nsnString :: "nsn \<Rightarrow> string" where
  "nsnString k = fst k @ ''/'' @ snd k"

record 'sel listenerSetLoadResult =
  listenersPerListenerSet :: "(nsn, 'sel gwListener list) gomap"
  acceptedListenerSets :: "(nsn, 'sel ListenerSet) gomap"

record 'sel allListeners =
  GatewayListeners :: "'sel gwListener list"
  ListenerSetListeners :: "'sel listenerSetLoadResult"

section \<open>The handshake\<close>

definition doesResourceAttachToGateway :: "ParentReference \<Rightarrow> string \<Rightarrow> 'sel Gateway \<Rightarrow> bool" where
  "doesResourceAttachToGateway ref resourceNamespace gw =
     (if refKind ref \<noteq> None \<and> refKind ref \<noteq> Some ''Gateway'' then False
      else (let namespaceToCompare = (case refGatewayNamespace ref of Some n \<Rightarrow> n | None \<Rightarrow> resourceNamespace)
            in refGatewayName ref = gwName gw \<and> gwNamespace gw = namespaceToCompare))"

definition doesResourceAllowNamespace :: "string \<Rightarrow> 'sel option \<Rightarrow> ('sel \<Rightarrow> string list res) \<Rightarrow> string \<Rightarrow> string \<Rightarrow> bool res" where
  "doesResourceAllowNamespace fromNamespaces labelSelector nsSelector resourceNamespace parentNamespace =
     (if fromNamespaces = ''None'' then Inr False
      else if fromNamespaces = ''Same'' then Inr (parentNamespace = resourceNamespace)
      else if fromNamespaces = ''All'' then Inr True
      else if fromNamespaces = ''Selector''
      then (case labelSelector of
              None \<Rightarrow> Inr False
            | Some sel \<Rightarrow> res_bind (nsSelector sel) (\<lambda>namespaces. Inr (resourceNamespace \<in> set namespaces)))
      else Inr False)"

datatype handshakeState = acceptedHandshakeState | gatewayRejectedHandshakeState | irrelevantResourceHandshakeState

definition listenerSetGatewayHandshake :: "('sel \<Rightarrow> string list res) \<Rightarrow> 'sel ListenerSet \<Rightarrow> 'sel Gateway \<Rightarrow> handshakeState res" where
  "listenerSetGatewayHandshake nsSelector ls gw =
     (if \<not> doesResourceAttachToGateway (lsetParentRef ls) (lsetNamespace ls) gw then Inr irrelevantResourceHandshakeState
      else res_bind (case gwAllowedFrom gw of
                       None \<Rightarrow> doesResourceAllowNamespace ''None'' None nsSelector (lsetNamespace ls) (gwNamespace gw)
                     | Some from \<Rightarrow> doesResourceAllowNamespace from (gwAllowedSelector gw) nsSelector (lsetNamespace ls) (gwNamespace gw))
             (\<lambda>allowed. Inr (if allowed then acceptedHandshakeState else gatewayRejectedHandshakeState)))"

fun retrieveListeners :: "('sel \<Rightarrow> string list res) \<Rightarrow> 'sel Gateway \<Rightarrow> 'sel ListenerSet list \<Rightarrow> 'sel listenerSetLoadResult \<Rightarrow>
    'sel ListenerSet list \<Rightarrow> ('sel listenerSetLoadResult \<times> 'sel ListenerSet list) res" where
  "retrieveListeners nsSelector gw [] acc rejected = Inr (acc, rejected)"
| "retrieveListeners nsSelector gw (ls # lss) acc rejected =
     res_bind (listenerSetGatewayHandshake nsSelector ls gw) (\<lambda>handshake.
       case handshake of
         acceptedHandshakeState \<Rightarrow> retrieveListeners nsSelector gw lss
           (acc\<lparr>listenersPerListenerSet := mput (lsetKey ls) (lsetListeners ls) (listenersPerListenerSet acc),
                acceptedListenerSets := mput (lsetKey ls) ls (acceptedListenerSets acc)\<rparr>) rejected
       | gatewayRejectedHandshakeState \<Rightarrow> retrieveListeners nsSelector gw lss acc (rejected @ [ls])
       | irrelevantResourceHandshakeState \<Rightarrow> retrieveListeners nsSelector gw lss acc rejected)"

definition retrieveListenersFromListenerSets :: "('sel \<Rightarrow> string list res) \<Rightarrow> 'sel ListenerSet list res \<Rightarrow> 'sel Gateway \<Rightarrow>
    ('sel listenerSetLoadResult \<times> 'sel ListenerSet list) res" where
  "retrieveListenersFromListenerSets nsSelector listing gw =
     res_bind listing (\<lambda>items. retrieveListeners nsSelector gw items \<lparr>listenersPerListenerSet = [], acceptedListenerSets = []\<rparr> [])"

definition DefaultProtocolToRouteKind :: "string \<Rightarrow> string list" where
  "DefaultProtocolToRouteKind protocol =
     (if protocol = ''TCP'' then [''TCPRoute''] else if protocol = ''UDP'' then [''UDPRoute'']
      else if protocol = ''TLS'' then [''TLSRoute'', ''TCPRoute''] else if protocol = ''HTTP'' then [''HTTPRoute'']
      else if protocol = ''HTTPS'' then [''HTTPRoute'', ''GRPCRoute''] else [])"

definition namespaceCheck :: "('sel \<Rightarrow> string list res) \<Rightarrow> string \<Rightarrow> 'sel gwListener \<Rightarrow> 'b RouteDescriptor \<Rightarrow> bool res" where
  "namespaceCheck nsSelector parentNamespace listener route =
     (case glAllowedRoutes listener of
        Some ar \<Rightarrow>
          (case arFrom ar of
             Some from \<Rightarrow> doesResourceAllowNamespace from (arSelector ar) nsSelector (routeNamespace route) parentNamespace
           | None \<Rightarrow> doesResourceAllowNamespace ''Same'' None nsSelector (routeNamespace route) parentNamespace)
      | None \<Rightarrow> doesResourceAllowNamespace ''Same'' None nsSelector (routeNamespace route) parentNamespace)"

definition kindCheck :: "'sel gwListener \<Rightarrow> 'b RouteDescriptor \<Rightarrow> bool" where
  "kindCheck listener route =
     (let kinds = (case glAllowedRoutes listener of None \<Rightarrow> [] | Some ar \<Rightarrow> arKinds ar)
      in routeKind route \<in> set (if kinds = [] then DefaultProtocolToRouteKind (glProtocol listener) else kinds))"

definition validRouteHostname :: "string \<Rightarrow> bool" where
  "validRouteHostname h = (case IsHostNameInValidFormat h of Inl _ \<Rightarrow> False | Inr ok \<Rightarrow> ok)"

definition hostnameCheck :: "'sel gwListener \<Rightarrow> 'b RouteDescriptor \<Rightarrow> (string list \<times> bool) res" where
  "hostnameCheck listener route =
     (if routeHostnames route = [] then Inr (case glHostname listener of None \<Rightarrow> [] | Some h \<Rightarrow> [h], True)
      else (case glHostname listener of
              None \<Rightarrow> Inr ([], True)
            | Some lh \<Rightarrow>
                (case IsHostNameInValidFormat lh of
                   Inl err \<Rightarrow> Inl (Errorf ''listener hostname %s is not valid (listener name %s)'' [glName listener, lh])
                 | Inr valid \<Rightarrow>
                     if \<not> valid then Inr ([], False)
                     else (let compatibleHostnames = List.map_filter (\<lambda>h. getCompatibleHostname h lh) (filter validRouteHostname (routeHostnames route))
                           in if compatibleHostnames = [] then Inr ([], False) else Inr (compatibleHostnames, True)))))"

text \<open>The outcome of a handshake: the hostnames, or the reason of the refusal for the status of the route.\<close>

definition listenerAllowsAttachment :: "('sel \<Rightarrow> string list res) \<Rightarrow> string \<Rightarrow> 'sel gwListener \<Rightarrow> 'b RouteDescriptor \<Rightarrow>
    (string \<times> string + string list) res" where
  "listenerAllowsAttachment nsSelector parentNamespace listener route =
     res_bind (namespaceCheck nsSelector parentNamespace listener route) (\<lambda>namespaceOK.
       if \<not> namespaceOK
       then Inr (Inl (''NotAllowedByListeners'', ''Listener does not allow route attachment, namespace does not match between listener and route''))
       else if \<not> kindCheck listener route
       then Inr (Inl (''NotAllowedByListeners'', ''Listener does not allow route attachment, kind does not match between listener and route''))
       else if routeKind route \<in> {''HTTPRoute'', ''GRPCRoute'', ''TLSRoute''}
       then res_bind (hostnameCheck listener route) (\<lambda>(hostnames, hostnameOK).
              if hostnameOK then Inr (Inr hostnames)
              else Inr (Inl (''NoMatchingListenerHostname'', ''Listener does not allow route attachment, no matching hostname'')))
       else Inr (Inr []))"

section \<open>The validation of the listeners\<close>

record ListenerValidationResult =
  ListenerName :: string
  IsValid :: bool
  Reason :: string
  Message :: go_error
  SupportedKinds :: "string list"
  AttachedRoutesCount :: int

record listener_validation =
  portHostnames :: "string list"
  portProtocols :: "(int, string) gomap"
  Results :: "(string, ListenerValidationResult) gomap"
  HasErrors :: bool

definition controllerKinds :: "string \<Rightarrow> string list option" where
  "controllerKinds controllerName =
     (if controllerName = ''gateway.k8s.aws/alb'' then Some [''HTTPRoute'', ''GRPCRoute'']
      else if controllerName = ''gateway.k8s.aws/nlb'' then Some [''TCPRoute'', ''TLSRoute'', ''UDPRoute''] else None)"

definition getSupportedKinds :: "string \<Rightarrow> 'sel gwListener \<Rightarrow> (string list \<times> bool) res" where
  "getSupportedKinds controllerName listener =
     (case glAllowedRoutes listener of
        None \<Rightarrow> Inl nilDeref
      | Some ar \<Rightarrow>
          (let defaults = (if arKinds ar = [] then remdups (DefaultProtocolToRouteKind (glProtocol listener)) else [])
           in case controllerKinds controllerName of
                None \<Rightarrow> Inr (defaults, True)
              | Some kinds \<Rightarrow> Inr (defaults @ filter (\<lambda>k. k \<in> set kinds) (arKinds ar), list_all (\<lambda>k. k \<in> set kinds) (arKinds ar))))"

definition protocolAllowed :: "string \<Rightarrow> string \<Rightarrow> bool" where
  "protocolAllowed controllerName protocol =
     (if controllerName = ''gateway.k8s.aws/alb'' then protocol \<in> {''HTTP'', ''HTTPS''}
      else if controllerName = ''gateway.k8s.aws/nlb'' then protocol \<in> {''TCP'', ''UDP'', ''TLS''} else True)"

definition protocolConflict :: "string \<Rightarrow> string \<Rightarrow> bool" where
  "protocolConflict existing protocol \<longleftrightarrow> existing \<noteq> protocol \<and>
     \<not> (existing = ''TCP'' \<and> protocol = ''UDP'' \<or> existing = ''UDP'' \<and> protocol = ''TCP'')"

definition hostnameKey :: "int \<Rightarrow> string \<Rightarrow> string" where
  "hostnameKey port hostname = Itoa port @ ''-'' @ hostname"

text \<open>
  The checks of one listener: the result of the last check that fails stands. The protocol and the hostname are
  recorded only when the first checks pass.
\<close>

definition portChecks :: "'sel gwListener \<Rightarrow> listener_validation \<Rightarrow> (string \<times> go_error) option \<times> listener_validation" where
  "portChecks listener v =
     (let (conflict, v) = (case mget (portProtocols v) (glPort listener) of
            Some existing \<Rightarrow> (if protocolConflict existing (glProtocol listener)
                               then Some (''ProtocolConflict'', Errorf ''Protocol conflict for port %d'' [Itoa (glPort listener)]) else None, v)
          | None \<Rightarrow> (None, v\<lparr>portProtocols := mput (glPort listener) (glProtocol listener) (portProtocols v)\<rparr>))
      in case glHostname listener of
           None \<Rightarrow> (conflict, v)
         | Some hostname \<Rightarrow>
             (let key = hostnameKey (glPort listener) hostname
              in if key \<in> set (portHostnames v)
                 then (Some (''HostnameConflict'', Errorf ''Hostname conflict for port %d with hostname %s'' [Itoa (glPort listener), hostname]), v)
                 else (conflict, v\<lparr>portHostnames := key # portHostnames v\<rparr>)))"

definition checkListener :: "string \<Rightarrow> 'sel gwListener \<Rightarrow> bool \<Rightarrow> listener_validation \<Rightarrow> (string \<times> go_error) option \<times> listener_validation" where
  "checkListener controllerName listener isKindSupported v =
     (if \<not> isKindSupported then (Some (''InvalidRouteKinds'', Errorf ''Invalid route kind for listener %s'' [glName listener]), v)
      else if glPort listener < 1 \<or> glPort listener > 65535
      then (Some (''PortUnavailable'', Errorf ''Port %d is not available (listener name %s)'' [Itoa (glPort listener), glName listener]), v)
      else if \<not> protocolAllowed controllerName (glProtocol listener)
      then (Some (''UnsupportedProtocol'', Errorf ''Unsupported protocol %s for listener %s'' [glProtocol listener, glName listener]), v)
      else portChecks listener v)"

definition validateListener :: "string \<Rightarrow> 'sel gwListener \<Rightarrow> listener_validation \<Rightarrow> listener_validation res" where
  "validateListener controllerName listener v =
     res_bind (getSupportedKinds controllerName listener) (\<lambda>(supportedKinds, isKindSupported).
       let (failure, v) = checkListener controllerName listener isKindSupported v;
           result = \<lparr>ListenerName = glName listener, IsValid = (failure = None),
                     Reason = (case failure of None \<Rightarrow> ''Accepted'' | Some (r, _) \<Rightarrow> r),
                     Message = (case failure of None \<Rightarrow> Errorf ''Listener is accepted.'' [] | Some (_, m) \<Rightarrow> m),
                     SupportedKinds = supportedKinds, AttachedRoutesCount = 0\<rparr>
       in Inr (v\<lparr>Results := mput (glName listener) result (Results v), HasErrors := HasErrors v \<or> failure \<noteq> None\<rparr>))"

fun validateListenerList :: "string \<Rightarrow> 'sel gwListener list \<Rightarrow> listener_validation \<Rightarrow> listener_validation res" where
  "validateListenerList controllerName [] v = Inr v"
| "validateListenerList controllerName (l # ls) v = res_bind (validateListener controllerName l v) (validateListenerList controllerName ls)"

definition arrangeListenerSetsForValidation :: "'sel listenerSetLoadResult \<Rightarrow> 'sel ListenerSet list" where
  "arrangeListenerSetsForValidation r =
     sort_key lsetCreated (sort_key (\<lambda>ls. nsnString (lsetKey ls)) (map snd (acceptedListenerSets r)))"

definition startList :: "listener_validation \<Rightarrow> listener_validation" where
  "startList v = v\<lparr>Results := [], HasErrors := False\<rparr>"

fun validateListenerSets :: "string \<Rightarrow> (nsn, 'sel gwListener list) gomap \<Rightarrow> 'sel ListenerSet list \<Rightarrow> listener_validation \<Rightarrow>
    (nsn, listener_validation) gomap \<Rightarrow> (nsn, listener_validation) gomap res" where
  "validateListenerSets controllerName listeners [] v results = Inr results"
| "validateListenerSets controllerName listeners (ls # lss) v results =
     res_bind (validateListenerList controllerName (mget0 [] listeners (lsetKey ls)) (startList v)) (\<lambda>v'.
       validateListenerSets controllerName listeners lss v' (mput (lsetKey ls) v' results))"

record ValidatedGatewayListeners =
  GatewayListenerValidation :: listener_validation
  ListenerSetListenerValidation :: "(nsn, listener_validation) gomap"

definition validateListeners :: "'sel allListeners \<Rightarrow> string \<Rightarrow> ValidatedGatewayListeners res" where
  "validateListeners ls controllerName =
     res_bind (validateListenerList controllerName (GatewayListeners ls) \<lparr>portHostnames = [], portProtocols = [], Results = [], HasErrors = False\<rparr>) (\<lambda>v.
     res_bind (validateListenerSets controllerName (listenersPerListenerSet (ListenerSetListeners ls))
                 (arrangeListenerSetsForValidation (ListenerSetListeners ls)) v []) (\<lambda>results.
       Inr \<lparr>GatewayListenerValidation = v, ListenerSetListenerValidation = results\<rparr>))"

definition CalculateAttachedListenerSets :: "(nsn, listener_validation) gomap \<Rightarrow> int" where
  "CalculateAttachedListenerSets validations =
     int (length (filter (\<lambda>(k, v). list_ex (\<lambda>(n, r). IsValid r) (Results v)) validations))"

text \<open>The listeners of a list that the validation accepts, and what makes two of them fit together.\<close>

definition acceptedListeners :: "'sel gwListener list \<Rightarrow> listener_validation \<Rightarrow> 'sel gwListener list" where
  "acceptedListeners ls v = filter (\<lambda>l. case mget (Results v) (glName l) of None \<Rightarrow> False | Some r \<Rightarrow> IsValid r) ls"

definition compatibleListeners :: "'sel gwListener \<Rightarrow> 'sel gwListener \<Rightarrow> bool" where
  "compatibleListeners l l' \<longleftrightarrow> (glPort l = glPort l' \<longrightarrow>
     (glProtocol l = glProtocol l' \<or> {glProtocol l, glProtocol l'} = {''TCP'', ''UDP''})
     \<and> (glHostname l \<noteq> None \<longrightarrow> glHostname l \<noteq> glHostname l'))"

definition servable :: "string \<Rightarrow> 'sel gwListener \<Rightarrow> bool" where
  "servable controllerName l \<longleftrightarrow> 1 \<le> glPort l \<and> glPort l \<le> 65535 \<and> protocolAllowed controllerName (glProtocol l)"

definition validationInv :: "'sel gwListener list \<Rightarrow> listener_validation \<Rightarrow> bool" where
  "validationInv acc v \<longleftrightarrow> (\<forall>l \<in> set acc. (\<exists>p. mget (portProtocols v) (glPort l) = Some p \<and> \<not> protocolConflict p (glProtocol l))
     \<and> (\<forall>h. glHostname l = Some h \<longrightarrow> hostnameKey (glPort l) h \<in> set (portHostnames v)))"

lemma no_conflict_pair:
  "\<not> protocolConflict p a \<Longrightarrow> \<not> protocolConflict p b \<Longrightarrow> a = b \<or> {a, b} = {''TCP'', ''UDP''}"
  by (auto simp: protocolConflict_def)

lemma portChecks_spec:
  assumes "portChecks l v = (failure, v')" "validationInv acc v"
  shows "Results v' = Results v \<and> HasErrors v' = HasErrors v \<and> validationInv acc v'
    \<and> (failure = None \<longrightarrow> validationInv (acc @ [l]) v' \<and> (\<forall>a \<in> set acc. compatibleListeners a l))"
proof -
  define c where "c = (case mget (portProtocols v) (glPort l) of
      Some existing \<Rightarrow> (if protocolConflict existing (glProtocol l)
          then Some (''ProtocolConflict'', Errorf ''Protocol conflict for port %d'' [Itoa (glPort l)]) else None, v)
    | None \<Rightarrow> (None, v\<lparr>portProtocols := mput (glPort l) (glProtocol l) (portProtocols v)\<rparr>))"
  obtain f w where w: "c = (f, w)" by force
  have W: "Results w = Results v" "HasErrors w = HasErrors v" "portHostnames w = portHostnames v" "validationInv acc w"
    using w assms(2) by (auto 4 3 simp: c_def validationInv_def split: option.splits if_splits)
  have P: "\<exists>p. mget (portProtocols w) (glPort l) = Some p \<and> \<not> protocolConflict p (glProtocol l)" if "f = None"
    using w that by (auto simp: c_def protocolConflict_def split: option.splits if_splits)
  have C: "a \<in> set acc \<Longrightarrow> glPort a = glPort l \<Longrightarrow> glProtocol a = glProtocol l \<or> {glProtocol a, glProtocol l} = {''TCP'', ''UDP''}"
    if "f = None" for a
    using P [OF that] W(4) no_conflict_pair by (fastforce simp: validationInv_def)
  have H: "a \<in> set acc \<Longrightarrow> glHostname a = Some h \<Longrightarrow> hostnameKey (glPort a) h \<in> set (portHostnames w)" for a h
    using W(4) by (simp add: validationInv_def)
  have step: "portChecks l v = (case glHostname l of
           None \<Rightarrow> (f, w)
         | Some hostname \<Rightarrow>
             (let key = hostnameKey (glPort l) hostname
              in if key \<in> set (portHostnames w)
                 then (Some (''HostnameConflict'', Errorf ''Hostname conflict for port %d with hostname %s'' [Itoa (glPort l), hostname]), w)
                 else (f, w\<lparr>portHostnames := key # portHostnames w\<rparr>)))"
    unfolding portChecks_def c_def [symmetric] w by simp
  show ?thesis
  proof (cases "glHostname l")
    case None
    then have "failure = f" "v' = w" using assms(1) step by auto
    then show ?thesis using W None P C by (auto simp: validationInv_def compatibleListeners_def)
  next
    case (Some h)
    show ?thesis
    proof (cases "hostnameKey (glPort l) h \<in> set (portHostnames w)")
      case True
      then have "failure \<noteq> None" "v' = w" using assms(1) step Some by auto
      then show ?thesis using W by auto
    next
      case False
      then have fv: "failure = f" "v' = w\<lparr>portHostnames := hostnameKey (glPort l) h # portHostnames w\<rparr>"
        using assms(1) step Some by auto
      have D: "a \<in> set acc \<Longrightarrow> glPort a = glPort l \<Longrightarrow> glHostname a \<noteq> glHostname l" for a using False H Some by metis
      show ?thesis using fv W Some P C D by (auto simp: validationInv_def compatibleListeners_def)
    qed
  qed
qed

lemma validateListener_spec:
  assumes "validateListener ctl l v = Inr v'" "validationInv acc v"
  shows "\<exists>r. Results v' = mput (glName l) r (Results v) \<and> validationInv acc v'
    \<and> (IsValid r \<longrightarrow> validationInv (acc @ [l]) v' \<and> (\<forall>a \<in> set acc. compatibleListeners a l) \<and> servable ctl l)"
proof -
  obtain ks ok where ks: "getSupportedKinds ctl l = Inr (ks, ok)" using assms(1) by (auto simp: validateListener_def elim!: res_bind_InrE)
  obtain failure w where w: "checkListener ctl l ok v = (failure, w)" by force
  have W: "Results w = Results v" "validationInv acc w"
    "failure = None \<longrightarrow> validationInv (acc @ [l]) w \<and> (\<forall>a \<in> set acc. compatibleListeners a l) \<and> servable ctl l"
    using w assms(2) portChecks_spec [of l v failure w acc] by (auto simp: checkListener_def servable_def split: if_splits)
  have "Results v' = mput (glName l) \<lparr>ListenerName = glName l, IsValid = (failure = None),
                     Reason = (case failure of None \<Rightarrow> ''Accepted'' | Some (r, _) \<Rightarrow> r),
                     Message = (case failure of None \<Rightarrow> Errorf ''Listener is accepted.'' [] | Some (_, m) \<Rightarrow> m),
                     SupportedKinds = ks, AttachedRoutesCount = 0\<rparr> (Results v)"
    and "portProtocols v' = portProtocols w" "portHostnames v' = portHostnames w"
    using assms(1) ks w W(1) by (auto simp: validateListener_def Let_def)
  moreover from this(2,3) have "validationInv acc v' = validationInv acc w" "validationInv (acc @ [l]) v' = validationInv (acc @ [l]) w"
    by (simp_all add: validationInv_def)
  ultimately show ?thesis using W by auto
qed

lemma validateListenerList_frame:
  assumes "validateListenerList ctl ls v = Inr v'" "n \<notin> glName ` set ls"
  shows "mget (Results v') n = mget (Results v) n"
  using assms
proof (induction ls arbitrary: v)
  case (Cons l ls)
  then obtain w where w: "validateListener ctl l v = Inr w" "validateListenerList ctl ls w = Inr v'" by (auto elim!: res_bind_InrE)
  obtain r where "Results w = mput (glName l) r (Results v)"
    using validateListener_spec [OF w(1), of "[]"] by (auto simp: validationInv_def)
  then show ?case using Cons.IH [OF w(2)] Cons.prems(2) by simp
qed simp

lemma validateListenerList_spec:
  assumes "validateListenerList ctl ls v = Inr v'" "validationInv acc v" "distinct (map glName ls)"
  shows "validationInv (acc @ acceptedListeners ls v') v'
    \<and> (sorted_wrt compatibleListeners acc \<longrightarrow> sorted_wrt compatibleListeners (acc @ acceptedListeners ls v'))
    \<and> list_all (servable ctl) (acceptedListeners ls v')"
  using assms
proof (induction ls arbitrary: v acc)
  case (Cons l ls)
  then obtain w where w: "validateListener ctl l v = Inr w" "validateListenerList ctl ls w = Inr v'" by (auto elim!: res_bind_InrE)
  obtain r where r: "Results w = mput (glName l) r (Results v)" "validationInv acc w"
    "IsValid r \<longrightarrow> validationInv (acc @ [l]) w \<and> (\<forall>a \<in> set acc. compatibleListeners a l) \<and> servable ctl l"
    using validateListener_spec [OF w(1) Cons.prems(2)] by blast
  have "mget (Results v') (glName l) = Some r" using validateListenerList_frame [OF w(2), of "glName l"] Cons.prems(3) r(1) by simp
  then have acc: "acceptedListeners (l # ls) v' = (if IsValid r then [l] else []) @ acceptedListeners ls v'"
    by (simp add: acceptedListeners_def)
  have d: "distinct (map glName ls)" using Cons.prems(3) by simp
  show ?case
  proof (cases "IsValid r")
    case True
    have "sorted_wrt compatibleListeners acc \<Longrightarrow> sorted_wrt compatibleListeners (acc @ [l])" using r(3) True by (simp add: sorted_wrt_append)
    then show ?thesis using Cons.IH [OF w(2), of "acc @ [l]"] r(3) True d by (simp add: acc)
  next
    case False
    then show ?thesis using Cons.IH [OF w(2) r(2) d] by (simp add: acc)
  qed
qed (simp add: acceptedListeners_def)

definition acceptedOfSets :: "(nsn, 'sel gwListener list) gomap \<Rightarrow> 'sel ListenerSet list \<Rightarrow> (nsn, listener_validation) gomap \<Rightarrow> 'sel gwListener list" where
  "acceptedOfSets listeners lss results = concat (map (\<lambda>ls. case mget results (lsetKey ls) of
     None \<Rightarrow> [] | Some v \<Rightarrow> acceptedListeners (mget0 [] listeners (lsetKey ls)) v) lss)"

lemma validateListenerSets_frame:
  assumes "validateListenerSets ctl listeners lss v results = Inr results'" "k \<notin> lsetKey ` set lss"
  shows "mget results' k = mget results k"
  using assms by (induction lss arbitrary: v results) (auto elim!: res_bind_InrE)

lemma validateListenerSets_spec:
  assumes "validateListenerSets ctl listeners lss v results = Inr results'" "validationInv acc v"
    "distinct (map lsetKey lss)" "\<forall>ls \<in> set lss. distinct (map glName (mget0 [] listeners (lsetKey ls)))"
    "sorted_wrt compatibleListeners acc"
  shows "sorted_wrt compatibleListeners (acc @ acceptedOfSets listeners lss results')
    \<and> list_all (servable ctl) (acceptedOfSets listeners lss results')"
  using assms
proof (induction lss arbitrary: v acc results)
  case (Cons ls lss)
  let ?ls = "mget0 [] listeners (lsetKey ls)"
  obtain w where w: "validateListenerList ctl ?ls (startList v) = Inr w" "validateListenerSets ctl listeners lss w (mput (lsetKey ls) w results) = Inr results'"
    using Cons.prems(1) by (auto elim!: res_bind_InrE)
  have "validationInv acc (startList v)" using Cons.prems(2) by (simp add: validationInv_def startList_def)
  note spec = validateListenerList_spec [OF w(1) this]
  have "mget results' (lsetKey ls) = Some w"
    using validateListenerSets_frame [OF w(2), of "lsetKey ls"] Cons.prems(3) by auto
  then have a: "acceptedOfSets listeners (ls # lss) results' = acceptedListeners ?ls w @ acceptedOfSets listeners lss results'"
    by (simp add: acceptedOfSets_def)
  have "validationInv (acc @ acceptedListeners ?ls w) w" "sorted_wrt compatibleListeners (acc @ acceptedListeners ?ls w)"
    and sv: "list_all (servable ctl) (acceptedListeners ?ls w)"
    using spec Cons.prems(4,5) by auto
  then show ?case using Cons.IH [OF w(2), of "acc @ acceptedListeners ?ls w"] Cons.prems(3,4) by (simp add: a)
qed (simp add: acceptedOfSets_def)

text \<open>
  C26. The listeners that the validation accepts fit together: two of them on one port, be they of the Gateway or of
  listener sets, have the same protocol or are TCP and UDP, and do not share a hostname; each has a port and a
  protocol that the controller serves.
\<close>

theorem validated_listeners_consistent:
  assumes "validateListeners ls controllerName = Inr v" "distinct (map glName (GatewayListeners ls))"
    and "distinct (map lsetKey (map snd (acceptedListenerSets (ListenerSetListeners ls))))"
    and "\<forall>s \<in> set (map snd (acceptedListenerSets (ListenerSetListeners ls))).
           distinct (map glName (mget0 [] (listenersPerListenerSet (ListenerSetListeners ls)) (lsetKey s)))"
  shows "(let accepted = acceptedListeners (GatewayListeners ls) (GatewayListenerValidation v)
            @ acceptedOfSets (listenersPerListenerSet (ListenerSetListeners ls))
                (arrangeListenerSetsForValidation (ListenerSetListeners ls)) (ListenerSetListenerValidation v)
          in sorted_wrt compatibleListeners accepted \<and> list_all (servable controllerName) accepted)"
proof -
  let ?sets = "arrangeListenerSetsForValidation (ListenerSetListeners ls)" and ?per = "listenersPerListenerSet (ListenerSetListeners ls)"
  obtain w where w: "validateListenerList controllerName (GatewayListeners ls) \<lparr>portHostnames = [], portProtocols = [], Results = [], HasErrors = False\<rparr> = Inr w"
    "validateListenerSets controllerName ?per ?sets w [] = Inr (ListenerSetListenerValidation v)" "GatewayListenerValidation v = w"
    using assms(1) by (auto simp: validateListeners_def elim!: res_bind_InrE)
  have "validationInv [] \<lparr>portHostnames = [], portProtocols = [], Results = [], HasErrors = False\<rparr>" by (simp add: validationInv_def)
  note gw = validateListenerList_spec [OF w(1) this assms(2), simplified]
  have "distinct (map lsetKey ?sets)"
    using assms(3) by (metis arrangeListenerSetsForValidation_def mset_map mset_sort mset_eq_imp_distinct_iff)
  moreover have "\<forall>s \<in> set ?sets. distinct (map glName (mget0 [] ?per (lsetKey s)))"
    using assms(4) by (simp add: arrangeListenerSetsForValidation_def)
  ultimately show ?thesis using validateListenerSets_spec [OF w(2), of "acceptedListeners (GatewayListeners ls) w"] gw by (simp add: Let_def w(3))
qed

definition exListener :: "string \<Rightarrow> int \<Rightarrow> string \<Rightarrow> string option \<Rightarrow> unit gwListener" where
  "exListener name port protocol hostname = \<lparr>glName = name, glHostname = hostname, glPort = port, glProtocol = protocol,
     glAllowedRoutes = Some \<lparr>arFrom = None, arSelector = None, arKinds = []\<rparr>\<rparr>"

definition exListeners :: "unit gwListener list \<Rightarrow> unit allListeners" where
  "exListeners ls = \<lparr>GatewayListeners = ls, ListenerSetListeners = \<lparr>listenersPerListenerSet = [], acceptedListenerSets = []\<rparr>\<rparr>"

theorem validated_listeners_consistent_witness:
  "\<exists>v. validateListeners (exListeners [exListener ''a'' 80 ''HTTP'' None, exListener ''b'' 80 ''HTTPS'' None, exListener ''c'' 80 ''HTTP'' (Some ''x.y'')])
         ''gateway.k8s.aws/alb'' = Inr v
     \<and> sorted_wrt compatibleListeners
         (acceptedListeners [exListener ''a'' 80 ''HTTP'' None, exListener ''b'' 80 ''HTTPS'' None, exListener ''c'' 80 ''HTTP'' (Some ''x.y'')]
            (GatewayListenerValidation v))"
proof -
  let ?ls = "exListeners [exListener ''a'' 80 ''HTTP'' None, exListener ''b'' 80 ''HTTPS'' None, exListener ''c'' 80 ''HTTP'' (Some ''x.y'')]"
  have "(case validateListeners ?ls ''gateway.k8s.aws/alb'' of Inl _ \<Rightarrow> False | Inr _ \<Rightarrow> True)" by code_simp
  then obtain v where v: "validateListeners ?ls ''gateway.k8s.aws/alb'' = Inr v" by (auto split: sum.splits)
  from validated_listeners_consistent [OF v] show ?thesis using v
    by (auto simp: exListeners_def exListener_def Let_def sorted_wrt_append)
qed

text \<open>
  A listener that is refused for its protocol still takes its hostname: the listener behind it, which conflicts with
  no accepted one, is refused as well.
\<close>

lemma refused_listener_blocks_hostname:
  "let ls = [exListener ''a'' 443 ''HTTPS'' None, exListener ''b'' 443 ''HTTP'' (Some ''x.y''), exListener ''c'' 443 ''HTTPS'' (Some ''x.y'')]
   in case validateListeners (exListeners ls) ''gateway.k8s.aws/alb'' of
        Inr v \<Rightarrow> map glName (acceptedListeners ls (GatewayListenerValidation v)) = [''a'']
          \<and> map_option Reason (mget (Results (GatewayListenerValidation v)) ''c'') = Some ''HostnameConflict''
      | Inl _ \<Rightarrow> False"
  by code_simp

section \<open>The map from ports to routes\<close>

text \<open>
  The parent of a listener. The code keeps one map from section names to accepted routes for the Gateway and one for
  each listener set; here they are one map whose keys have the parent in front.
\<close>

datatype parent = GatewayParent | SetParent nsn

type_synonym 'b refTuple = "'b RouteDescriptor \<times> ParentReference"

record RouteData =
  rdAccepted :: bool
  rdResolvedRefs :: bool
  rdReason :: string
  rdMessage :: string
  rdRoute :: nsn
  rdKind :: string
  rdGeneration :: int
  rdParentRef :: ParentReference

definition GenerateRouteData :: "bool \<Rightarrow> bool \<Rightarrow> string \<Rightarrow> string \<Rightarrow> 'b RouteDescriptor \<Rightarrow> ParentReference \<Rightarrow> RouteData" where
  "GenerateRouteData accepted resolvedRefs reason message route ref = \<lparr>rdAccepted = accepted, rdResolvedRefs = resolvedRefs,
     rdReason = reason, rdMessage = message, rdRoute = (routeNamespace route, routeName route), rdKind = routeKind route,
     rdGeneration = routeGeneration route, rdParentRef = ref\<rparr>"

definition routeIdentifier :: "'b RouteDescriptor \<Rightarrow> string" where
  "routeIdentifier r = routeKind r @ ''-'' @ routeNamespacedName r"

record 'b attachmentState =
  acceptedRoutes :: "(parent \<times> string, 'b refTuple list) gomap"
  compatibleHostnames :: "(int, (string, string list) gomap) gomap"
  matchedParentRefs :: "(string, ParentReference list) gomap"

record 'sel parentResolution =
  resParent :: parent
  parentNamespace :: string
  targetListeners :: "'sel gwListener list"

definition resolveParentRef :: "ParentReference \<Rightarrow> 'b RouteDescriptor \<Rightarrow> 'sel Gateway \<Rightarrow> 'sel allListeners \<Rightarrow> 'sel parentResolution option" where
  "resolveParentRef ref route gw listeners =
     (if refKind ref = None \<or> refKind ref = Some ''Gateway''
      then (if doesResourceAttachToGateway ref (routeNamespace route) gw
            then Some \<lparr>resParent = GatewayParent, parentNamespace = gwNamespace gw, targetListeners = GatewayListeners listeners\<rparr> else None)
      else if refKind ref = Some ''ListenerSet''
      then (let nsn = (case refGatewayNamespace ref of Some n \<Rightarrow> n | None \<Rightarrow> routeNamespace route, refGatewayName ref)
            in case mget (acceptedListenerSets (ListenerSetListeners listeners)) nsn of
                 None \<Rightarrow> None
               | Some ls \<Rightarrow> Some \<lparr>resParent = SetParent nsn, parentNamespace = lsetNamespace ls,
                   targetListeners = mget0 [] (listenersPerListenerSet (ListenerSetListeners listeners)) nsn\<rparr>)
      else None)"

definition portMatches :: "ParentReference \<Rightarrow> 'sel gwListener \<Rightarrow> bool" where
  "portMatches ref l \<longleftrightarrow> refPort ref = None \<or> refPort ref = Some (glPort l)"

definition attemptedListeners :: "ParentReference \<Rightarrow> 'sel gwListener list \<Rightarrow> 'sel gwListener list" where
  "attemptedListeners ref ls =
     (case refSectionName ref of
        None \<Rightarrow> filter (portMatches ref) ls
      | Some sn \<Rightarrow> (case mget (mbuild glName (\<lambda>l. l) ls []) sn of
                      Some l \<Rightarrow> if portMatches ref l then [l] else []
                    | None \<Rightarrow> []))"

definition insertAll :: "string list \<Rightarrow> string list \<Rightarrow> string list" where
  "insertAll xs ys = fold (\<lambda>x acc. if x \<in> set acc then acc else acc @ [x]) xs ys"

definition acceptRoute :: "parent \<Rightarrow> 'sel gwListener \<Rightarrow> 'b refTuple \<Rightarrow> string list \<Rightarrow> 'b attachmentState \<Rightarrow> 'b attachmentState" where
  "acceptRoute parent l tuple hosts \<sigma> =
     (let key = (parent, glName l); routeID = routeIdentifier (fst tuple);
          byRoute = mget0 [] (compatibleHostnames \<sigma>) (glPort l)
      in \<sigma>\<lparr>acceptedRoutes := mput key (mget0 [] (acceptedRoutes \<sigma>) key @ [tuple]) (acceptedRoutes \<sigma>),
           compatibleHostnames := mput (glPort l) (mput routeID (insertAll hosts (mget0 [] byRoute routeID)) byRoute) (compatibleHostnames \<sigma>)\<rparr>)"

fun attemptListeners :: "('sel \<Rightarrow> string list res) \<Rightarrow> parent \<Rightarrow> string \<Rightarrow> 'b refTuple \<Rightarrow> 'sel gwListener list \<Rightarrow>
    RouteData list \<Rightarrow> bool \<Rightarrow> 'b attachmentState \<Rightarrow> (RouteData list \<times> bool \<times> 'b attachmentState) res" where
  "attemptListeners nsSelector parent ns tuple [] failed anyAttach \<sigma> = Inr (failed, anyAttach, \<sigma>)"
| "attemptListeners nsSelector parent ns tuple (l # ls) failed anyAttach \<sigma> =
     res_bind (listenerAllowsAttachment nsSelector ns l (fst tuple)) (\<lambda>outcome.
       case outcome of
         Inl (reason, message) \<Rightarrow>
           attemptListeners nsSelector parent ns tuple ls (failed @ [GenerateRouteData False True reason message (fst tuple) (snd tuple)]) anyAttach \<sigma>
       | Inr hosts \<Rightarrow> attemptListeners nsSelector parent ns tuple ls failed True (acceptRoute parent l tuple hosts \<sigma>))"

definition attemptListenerRouteAttachment :: "('sel \<Rightarrow> string list res) \<Rightarrow> 'b refTuple \<Rightarrow> 'sel parentResolution \<Rightarrow> 'b attachmentState \<Rightarrow>
    (RouteData list \<times> 'b attachmentState) res" where
  "attemptListenerRouteAttachment nsSelector tuple resolved \<sigma> =
     res_bind (attemptListeners nsSelector (resParent resolved) (parentNamespace resolved) tuple
                 (attemptedListeners (snd tuple) (targetListeners resolved)) [] False \<sigma>) (\<lambda>(failed, anyAttach, \<sigma>').
       let routeID = routeIdentifier (fst tuple)
       in if anyAttach
          then Inr ([], \<sigma>'\<lparr>matchedParentRefs := mput routeID (mget0 [] (matchedParentRefs \<sigma>') routeID @ [snd tuple]) (matchedParentRefs \<sigma>')\<rparr>)
          else if length failed = 0
          then Inr ([GenerateRouteData False True ''NoMatchingParent'' ''Route parentRef does not match listener'' (fst tuple) (snd tuple)], \<sigma>')
          else Inr (failed, \<sigma>'))"

fun attachRefs :: "('sel \<Rightarrow> string list res) \<Rightarrow> 'sel Gateway \<Rightarrow> 'sel allListeners \<Rightarrow> 'b refTuple list \<Rightarrow> RouteData list \<Rightarrow> 'b attachmentState \<Rightarrow>
    (RouteData list \<times> 'b attachmentState) res" where
  "attachRefs nsSelector gw listeners [] failed \<sigma> = Inr (failed, \<sigma>)"
| "attachRefs nsSelector gw listeners (tuple # tuples) failed \<sigma> =
     (case resolveParentRef (snd tuple) (fst tuple) gw listeners of
        None \<Rightarrow> attachRefs nsSelector gw listeners tuples failed \<sigma>
      | Some resolved \<Rightarrow> res_bind (attemptListenerRouteAttachment nsSelector tuple resolved \<sigma>) (\<lambda>(localFailed, \<sigma>').
          attachRefs nsSelector gw listeners tuples (failed @ localFailed) \<sigma>'))"

definition setSections :: "'sel allListeners \<Rightarrow> (parent \<times> 'sel gwListener) list" where
  "setSections listeners = concat (map (\<lambda>(nsn, ls). map (Pair (SetParent nsn)) ls) (listenersPerListenerSet (ListenerSetListeners listeners)))"

definition allSections :: "'sel allListeners \<Rightarrow> (parent \<times> 'sel gwListener) list" where
  "allSections listeners = map (Pair GatewayParent) (GatewayListeners listeners) @ setSections listeners"

definition sectionListener :: "'sel allListeners \<Rightarrow> (parent \<times> string, 'sel gwListener) gomap" where
  "sectionListener listeners = mbuild (\<lambda>(p, l). (p, glName l)) snd (allSections listeners) []"

definition sectionResult :: "ValidatedGatewayListeners \<Rightarrow> parent \<times> string \<Rightarrow> ListenerValidationResult option" where
  "sectionResult v = (\<lambda>(p, sn). case p of
       GatewayParent \<Rightarrow> mget (Results (GatewayListenerValidation v)) sn
     | SetParent nsn \<Rightarrow> (case mget (ListenerSetListenerValidation v) nsn of None \<Rightarrow> None | Some w \<Rightarrow> mget (Results w) sn))"

record ('sel, 'b) portRoutes =
  seenRoutes :: "(int, string list) gomap"
  routesByPort :: "(int, 'b RouteDescriptor list) gomap"
  finalListeners :: "'sel gwListener list"

fun addRoutes :: "int \<Rightarrow> 'b refTuple list \<Rightarrow> ('sel, 'b) portRoutes \<Rightarrow> ('sel, 'b) portRoutes" where
  "addRoutes port [] \<pi> = \<pi>"
| "addRoutes port ((route, ref) # tuples) \<pi> =
     (let seen = mget0 [] (seenRoutes \<pi>) port
      in if routeIdentifier route \<in> set seen then addRoutes port tuples \<pi>
         else addRoutes port tuples (\<pi>\<lparr>seenRoutes := mput port (routeIdentifier route # seen) (seenRoutes \<pi>),
                routesByPort := mput port (mget0 [] (routesByPort \<pi>) port @ [route]) (routesByPort \<pi>)\<rparr>))"

fun generateRoutePerPortSet :: "'sel allListeners \<Rightarrow> ValidatedGatewayListeners \<Rightarrow> ((parent \<times> string) \<times> 'b refTuple list) list \<Rightarrow>
    ('sel, 'b) portRoutes \<Rightarrow> ('sel, 'b) portRoutes" where
  "generateRoutePerPortSet listeners v [] \<pi> = \<pi>"
| "generateRoutePerPortSet listeners v ((key, tuples) # entries) \<pi> =
     (case (sectionResult v key, mget (sectionListener listeners) key) of
        (Some r, Some l) \<Rightarrow>
          if IsValid r
          then generateRoutePerPortSet listeners v entries (addRoutes (glPort l) tuples (\<pi>\<lparr>finalListeners := finalListeners \<pi> @ [l]\<rparr>))
          else generateRoutePerPortSet listeners v entries \<pi>
      | _ \<Rightarrow> generateRoutePerPortSet listeners v entries \<pi>)"

definition initialAccepted :: "'sel allListeners \<Rightarrow> (parent \<times> string, 'b refTuple list) gomap" where
  "initialAccepted listeners = mbuild (\<lambda>(p, l). (p, glName l)) (\<lambda>_. []) (allSections listeners) []"

definition initialPorts :: "'sel allListeners \<Rightarrow> ('sel, 'b) portRoutes" where
  "initialPorts listeners = \<lparr>seenRoutes = mbuild (\<lambda>(p, l). glPort l) (\<lambda>_. []) (allSections listeners) [],
     routesByPort = mbuild (\<lambda>(p, l). glPort l) (\<lambda>_. []) (allSections listeners) [], finalListeners = []\<rparr>"

definition attachedCount :: "(parent \<times> string, 'b refTuple list) gomap \<Rightarrow> parent \<Rightarrow> listener_validation \<Rightarrow> listener_validation" where
  "attachedCount accepted p w = w\<lparr>Results := map (\<lambda>(sn, r). (sn, case mget accepted (p, sn) of
     None \<Rightarrow> r | Some tuples \<Rightarrow> r\<lparr>AttachedRoutesCount := to_int32 (int (length tuples))\<rparr>)) (Results w)\<rparr>"

definition countAttached :: "(parent \<times> string, 'b refTuple list) gomap \<Rightarrow> ValidatedGatewayListeners \<Rightarrow> ValidatedGatewayListeners" where
  "countAttached accepted v = \<lparr>GatewayListenerValidation = attachedCount accepted GatewayParent (GatewayListenerValidation v),
     ListenerSetListenerValidation = map (\<lambda>(nsn, w). (nsn, attachedCount accepted (SetParent nsn) w)) (ListenerSetListenerValidation v)\<rparr>"

record ('sel, 'b) listenerRouteMapResult =
  mapPortRoutes :: "('sel, 'b) portRoutes"
  mapState :: "'b attachmentState"
  failedRoutes :: "RouteData list"
  mapValidation :: ValidatedGatewayListeners

text \<open>The order in which the entries of the maps are visited is an argument.\<close>

definition mapListenersAndRoutes ::
  "(((parent \<times> string) \<times> 'b refTuple list) list \<Rightarrow> ((parent \<times> string) \<times> 'b refTuple list) list) \<Rightarrow> ('sel \<Rightarrow> string list res) \<Rightarrow>
   'sel Gateway \<Rightarrow> 'sel allListeners \<Rightarrow> 'b RouteDescriptor list \<Rightarrow> ValidatedGatewayListeners \<Rightarrow> ('sel, 'b) listenerRouteMapResult res" where
  "mapListenersAndRoutes ord nsSelector gw listeners routes v =
     res_bind (attachRefs nsSelector gw listeners (concat (map (\<lambda>r. map (Pair r) (routeParentRefs r)) routes)) []
        \<lparr>acceptedRoutes = initialAccepted listeners, compatibleHostnames = [], matchedParentRefs = []\<rparr>) (\<lambda>(failed, \<sigma>).
       Inr \<lparr>mapPortRoutes = generateRoutePerPortSet listeners v (ord (acceptedRoutes \<sigma>)) (initialPorts listeners),
            mapState = \<sigma>, failedRoutes = failed, mapValidation = countAttached (acceptedRoutes \<sigma>) v\<rparr>)"

section \<open>Which routes a port serves\<close>

definition wanted :: "ParentReference \<Rightarrow> 'sel gwListener \<Rightarrow> bool" where
  "wanted ref l \<longleftrightarrow> portMatches ref l \<and> (refSectionName ref = None \<or> refSectionName ref = Some (glName l))"

lemma attemptedListeners_set:
  assumes "inj_on glName (set ls)"
  shows "set (attemptedListeners ref ls) = {l \<in> set ls. wanted ref l}"
proof (cases "refSectionName ref")
  case (Some sn)
  show ?thesis
  proof (cases "mget (mbuild glName (\<lambda>l. l) ls []) sn")
    case None
    then have "sn \<notin> glName ` set ls" by (metis keys_mbuild Un_iff weak_map_of_SomeI map_of_eq_None_iff)
    then show ?thesis using Some None by (auto simp: attemptedListeners_def wanted_def)
  next
    case l: (Some l)
    then have "l \<in> set ls" "glName l = sn" by (rule mget_mbuild_SomeD; simp)+
    then have "{l' \<in> set ls. glName l' = sn} = {l}" using assms by (auto dest: inj_onD)
    moreover have "{l' \<in> set ls. wanted ref l'} = {l' \<in> {l' \<in> set ls. glName l' = sn}. portMatches ref l'}"
      using Some by (auto simp: wanted_def)
    ultimately have "{l' \<in> set ls. wanted ref l'} = {l' \<in> {l}. portMatches ref l'}" by simp
    then show ?thesis using Some l by (auto simp: attemptedListeners_def)
  qed
qed (auto simp: attemptedListeners_def wanted_def)

text \<open>A reference of a route is accepted by a listener.\<close>

definition acceptedAt :: "('sel \<Rightarrow> string list res) \<Rightarrow> string \<Rightarrow> 'b refTuple \<Rightarrow> 'sel gwListener \<Rightarrow> bool" where
  "acceptedAt nsSelector ns tuple l \<longleftrightarrow> (\<exists>hosts. listenerAllowsAttachment nsSelector ns l (fst tuple) = Inr (Inr hosts))"

lemma acceptRoute_accepted:
  "acceptedRoutes (acceptRoute p l tuple hosts \<sigma>) =
     mput (p, glName l) (mget0 [] (acceptedRoutes \<sigma>) (p, glName l) @ [tuple]) (acceptedRoutes \<sigma>)"
  by (simp add: acceptRoute_def Let_def)

lemma attemptListeners_spec:
  assumes "attemptListeners nsSelector p ns tuple ls failed anyAttach \<sigma> = Inr (failed', any', \<sigma>')"
  shows "(t \<in> set (mget0 [] (acceptedRoutes \<sigma>') key) \<longleftrightarrow> t \<in> set (mget0 [] (acceptedRoutes \<sigma>) key) \<or>
      t = tuple \<and> (\<exists>l \<in> set ls. key = (p, glName l) \<and> acceptedAt nsSelector ns tuple l))
    \<and> (wf_map (acceptedRoutes \<sigma>) \<longrightarrow> wf_map (acceptedRoutes \<sigma>'))"
  using assms
proof (induction ls arbitrary: failed anyAttach \<sigma>)
  case (Cons l ls)
  obtain outcome where o: "listenerAllowsAttachment nsSelector ns l (fst tuple) = Inr outcome" using Cons.prems by (auto elim!: res_bind_InrE)
  show ?case
  proof (cases outcome)
    case (Inl r)
    then show ?thesis using Cons.IH Cons.prems o by (cases r) (auto simp: acceptedAt_def)
  next
    case (Inr hosts)
    have "attemptListeners nsSelector p ns tuple ls failed True (acceptRoute p l tuple hosts \<sigma>) = Inr (failed', any', \<sigma>')"
      using Cons.prems o Inr by simp
    from Cons.IH [OF this] have "t \<in> set (mget0 [] (acceptedRoutes \<sigma>') key) \<longleftrightarrow>
        t \<in> set (mget0 [] (acceptedRoutes \<sigma>) key) \<or> t = tuple \<and> key = (p, glName l) \<or>
        t = tuple \<and> (\<exists>l \<in> set ls. key = (p, glName l) \<and> acceptedAt nsSelector ns tuple l)"
      "wf_map (acceptedRoutes \<sigma>) \<longrightarrow> wf_map (acceptedRoutes \<sigma>')"
      by (auto simp: acceptRoute_accepted split: if_splits)
    moreover have "acceptedAt nsSelector ns tuple l" using o Inr by (simp add: acceptedAt_def)
    ultimately show ?thesis by auto
  qed
qed simp

definition attachedAt :: "('sel \<Rightarrow> string list res) \<Rightarrow> 'sel Gateway \<Rightarrow> 'sel allListeners \<Rightarrow> 'b refTuple \<Rightarrow> parent \<times> string \<Rightarrow> bool" where
  "attachedAt nsSelector gw listeners t key \<longleftrightarrow> (\<exists>res l. resolveParentRef (snd t) (fst t) gw listeners = Some res
     \<and> l \<in> set (attemptedListeners (snd t) (targetListeners res)) \<and> key = (resParent res, glName l)
     \<and> acceptedAt nsSelector (parentNamespace res) t l)"

lemma attemptListenerRouteAttachment_spec:
  assumes "attemptListenerRouteAttachment nsSelector tuple res \<sigma> = Inr (failed, \<sigma>')"
  shows "(t \<in> set (mget0 [] (acceptedRoutes \<sigma>') key) \<longleftrightarrow> t \<in> set (mget0 [] (acceptedRoutes \<sigma>) key) \<or>
      t = tuple \<and> (\<exists>l \<in> set (attemptedListeners (snd tuple) (targetListeners res)). key = (resParent res, glName l)
                     \<and> acceptedAt nsSelector (parentNamespace res) tuple l))
    \<and> (wf_map (acceptedRoutes \<sigma>) \<longrightarrow> wf_map (acceptedRoutes \<sigma>'))"
proof -
  obtain f a \<sigma>1 where r: "attemptListeners nsSelector (resParent res) (parentNamespace res) tuple
      (attemptedListeners (snd tuple) (targetListeners res)) [] False \<sigma> = Inr (f, a, \<sigma>1)"
    and "acceptedRoutes \<sigma>' = acceptedRoutes \<sigma>1"
    using assms by (auto simp: attemptListenerRouteAttachment_def Let_def elim!: res_bind_InrE split: if_splits)
  then show ?thesis using attemptListeners_spec [OF r] by simp
qed

lemma attachRefs_spec:
  assumes "attachRefs nsSelector gw listeners tuples failed \<sigma> = Inr (failed', \<sigma>')"
  shows "(t \<in> set (mget0 [] (acceptedRoutes \<sigma>') key) \<longleftrightarrow> t \<in> set (mget0 [] (acceptedRoutes \<sigma>) key) \<or>
      t \<in> set tuples \<and> attachedAt nsSelector gw listeners t key)
    \<and> (wf_map (acceptedRoutes \<sigma>) \<longrightarrow> wf_map (acceptedRoutes \<sigma>'))"
  using assms
proof (induction tuples arbitrary: failed \<sigma>)
  case (Cons tuple tuples)
  show ?case
  proof (cases "resolveParentRef (snd tuple) (fst tuple) gw listeners")
    case None
    then show ?thesis using Cons by (auto simp: attachedAt_def)
  next
    case (Some res)
    then obtain lf \<sigma>1 where s: "attemptListenerRouteAttachment nsSelector tuple res \<sigma> = Inr (lf, \<sigma>1)"
      "attachRefs nsSelector gw listeners tuples (failed @ lf) \<sigma>1 = Inr (failed', \<sigma>')"
      using Cons.prems by (auto elim!: res_bind_InrE)
    have "attachedAt nsSelector gw listeners tuple key \<longleftrightarrow> (\<exists>l \<in> set (attemptedListeners (snd tuple) (targetListeners res)).
        key = (resParent res, glName l) \<and> acceptedAt nsSelector (parentNamespace res) tuple l)"
      using Some by (auto simp: attachedAt_def)
    then show ?thesis using Cons.IH [OF s(2)] attemptListenerRouteAttachment_spec [OF s(1)] by auto
  qed
qed simp

text \<open>The loop over the accepted routes lists every route once for each port.\<close>

definition portsInv :: "('sel, 'b) portRoutes \<Rightarrow> bool" where
  "portsInv \<pi> \<longleftrightarrow> (\<forall>port. distinct (map routeIdentifier (mget0 [] (routesByPort \<pi>) port))
     \<and> set (mget0 [] (seenRoutes \<pi>) port) = routeIdentifier ` set (mget0 [] (routesByPort \<pi>) port))"

lemma addRoutes_spec:
  assumes "portsInv \<pi>" "inj_on routeIdentifier R" "fst ` set tuples \<subseteq> R" "\<forall>port. set (mget0 [] (routesByPort \<pi>) port) \<subseteq> R"
  shows "portsInv (addRoutes port tuples \<pi>) \<and> (\<forall>q. set (mget0 [] (routesByPort (addRoutes port tuples \<pi>)) q) =
      set (mget0 [] (routesByPort \<pi>) q) \<union> (if q = port then fst ` set tuples else {}))"
  using assms(1,3,4)
proof (induction tuples arbitrary: \<pi>)
  case (Cons tuple tuples)
  obtain r ref where t: "tuple = (r, ref)" by force
  have rR: "r \<in> R" using Cons.prems(2) t by simp
  show ?case
  proof (cases "routeIdentifier r \<in> set (mget0 [] (seenRoutes \<pi>) port)")
    case True
    then obtain s where "s \<in> set (mget0 [] (routesByPort \<pi>) port)" "routeIdentifier s = routeIdentifier r"
      using Cons.prems(1) by (auto simp: portsInv_def)
    then have "r \<in> set (mget0 [] (routesByPort \<pi>) port)" using assms(2) rR Cons.prems(3) by (metis inj_onD subsetD)
    then show ?thesis using Cons.IH [OF Cons.prems(1) _ Cons.prems(3)] Cons.prems(2) True t by auto
  next
    case False
    let ?\<pi> = "\<pi>\<lparr>seenRoutes := mput port (routeIdentifier r # mget0 [] (seenRoutes \<pi>) port) (seenRoutes \<pi>),
                routesByPort := mput port (mget0 [] (routesByPort \<pi>) port @ [r]) (routesByPort \<pi>)\<rparr>"
    have "portsInv ?\<pi>" using Cons.prems(1) False by (auto simp: portsInv_def)
    moreover have "\<forall>q. set (mget0 [] (routesByPort ?\<pi>) q) \<subseteq> R" using Cons.prems(3) rR by auto
    ultimately have "portsInv (addRoutes port tuples ?\<pi>)" "\<forall>q. set (mget0 [] (routesByPort (addRoutes port tuples ?\<pi>)) q) =
      set (mget0 [] (routesByPort ?\<pi>) q) \<union> (if q = port then fst ` set tuples else {})"
      using Cons.IH [of ?\<pi>] Cons.prems(2) by auto
    then show ?thesis using False t by (auto simp: Let_def)
  qed
qed auto

definition validSection :: "'sel allListeners \<Rightarrow> ValidatedGatewayListeners \<Rightarrow> int \<Rightarrow> parent \<times> string \<Rightarrow> bool" where
  "validSection listeners v port key \<longleftrightarrow> (\<exists>r l. sectionResult v key = Some r \<and> IsValid r \<and> mget (sectionListener listeners) key = Some l \<and> glPort l = port)"

lemma generateRoutePerPortSet_spec:
  assumes "portsInv \<pi>" "inj_on routeIdentifier R" "\<forall>(key, tuples) \<in> set entries. fst ` set tuples \<subseteq> R"
    "\<forall>port. set (mget0 [] (routesByPort \<pi>) port) \<subseteq> R"
  shows "portsInv (generateRoutePerPortSet listeners v entries \<pi>)
    \<and> (\<forall>port. set (mget0 [] (routesByPort (generateRoutePerPortSet listeners v entries \<pi>)) port) =
        set (mget0 [] (routesByPort \<pi>) port) \<union> {r. \<exists>(key, tuples) \<in> set entries. validSection listeners v port key \<and> r \<in> fst ` set tuples})"
  using assms(1,3,4)
proof (induction entries arbitrary: \<pi>)
  case (Cons e entries)
  obtain key tuples where e: "e = (key, tuples)" by (cases e) simp
  have sub: "\<forall>(key, tuples) \<in> set entries. fst ` set tuples \<subseteq> R" "fst ` set tuples \<subseteq> R" using Cons.prems(2) e by auto
  show ?case
  proof (cases "\<exists>port. validSection listeners v port key")
    case False
    then have "generateRoutePerPortSet listeners v (e # entries) \<pi> = generateRoutePerPortSet listeners v entries \<pi>"
      by (auto simp: e validSection_def split: option.splits)
    then show ?thesis using Cons.IH [OF Cons.prems(1) sub(1) Cons.prems(3)] False by (auto simp: e)
  next
    case True
    then obtain r l where r: "sectionResult v key = Some r" "IsValid r" "mget (sectionListener listeners) key = Some l"
      by (auto simp: validSection_def)
    let ?\<pi>0 = "\<pi>\<lparr>finalListeners := finalListeners \<pi> @ [l]\<rparr>"
    let ?\<pi>1 = "addRoutes (glPort l) tuples ?\<pi>0"
    have g: "generateRoutePerPortSet listeners v (e # entries) \<pi> = generateRoutePerPortSet listeners v entries ?\<pi>1" using r by (simp add: e)
    have "portsInv ?\<pi>0" using Cons.prems(1) by (simp add: portsInv_def)
    then have add: "portsInv ?\<pi>1" "\<forall>q. set (mget0 [] (routesByPort ?\<pi>1) q) = set (mget0 [] (routesByPort \<pi>) q) \<union> (if q = glPort l then fst ` set tuples else {})"
      using addRoutes_spec [OF _ assms(2) sub(2), of ?\<pi>0 "glPort l"] Cons.prems(3) by auto
    then have "\<forall>q. set (mget0 [] (routesByPort ?\<pi>1) q) \<subseteq> R" using Cons.prems(3) sub(2) by auto
    note IH = Cons.IH [OF add(1) sub(1) this]
    have vs: "validSection listeners v q key \<longleftrightarrow> q = glPort l" for q using r by (auto simp: validSection_def)
    show ?thesis unfolding g using IH add(2) by (auto simp: e vs)
  qed
qed simp

lemma sectionListener_get:
  assumes "distinct (map (\<lambda>(p, l). (p, glName l)) (allSections listeners))" "(p, l) \<in> set (allSections listeners)"
  shows "mget (sectionListener listeners) (p, glName l) = Some l"
  unfolding sectionListener_def using mget_mbuild_distinct [OF assms, of snd "[]"] by simp

lemma resolved_sections:
  assumes "resolveParentRef ref r gw listeners = Some res" "l \<in> set (targetListeners res)"
  shows "(resParent res, l) \<in> set (allSections listeners)"
proof (cases "refKind ref = None \<or> refKind ref = Some ''Gateway''")
  case True
  have "resParent res = GatewayParent \<and> targetListeners res = GatewayListeners listeners"
    using assms(1) unfolding resolveParentRef_def if_P [OF True] by (auto split: if_splits)
  then show ?thesis using assms(2) by (simp add: allSections_def)
next
  case False
  let ?per = "listenersPerListenerSet (ListenerSetListeners listeners)"
  obtain nsn where res: "resParent res = SetParent nsn" "targetListeners res = mget0 [] ?per nsn"
    using assms(1) unfolding resolveParentRef_def if_not_P [OF False] Let_def
    by (auto split: if_splits option.splits)
  then obtain ls where "mget ?per nsn = Some ls" and l: "l \<in> set ls" using assms(2) by (simp add: mget0_def split: option.splits)
  then have "(nsn, ls) \<in> set ?per" by (intro map_of_SomeD)
  then have "map (Pair (SetParent nsn)) ls \<in> set (map (\<lambda>(nsn, ls). map (Pair (SetParent nsn)) ls) ?per)"
    unfolding set_map by (rule rev_image_eqI) simp
  moreover have "(SetParent nsn, l) \<in> set (map (Pair (SetParent nsn)) ls)" using l by simp
  ultimately have "(SetParent nsn, l) \<in> set (setSections listeners)" unfolding setSections_def set_concat by (rule UN_I)
  then show ?thesis using res(1) by (simp add: allSections_def)
qed

lemma sections_names:
  assumes "distinct (map (\<lambda>(p, l). (p, glName l)) (allSections listeners))" "resolveParentRef ref r gw listeners = Some res"
  shows "inj_on glName (set (targetListeners res))"
proof (rule inj_onI)
  fix x y assume xy: "x \<in> set (targetListeners res)" "y \<in> set (targetListeners res)" "glName x = glName y"
  have "mget (sectionListener listeners) (resParent res, glName x) = Some x" "mget (sectionListener listeners) (resParent res, glName y) = Some y"
    by (rule sectionListener_get [OF assms(1) resolved_sections [OF assms(2) xy(1)]])
      (rule sectionListener_get [OF assms(1) resolved_sections [OF assms(2) xy(2)]])
  then show "x = y" unfolding xy(3) by simp
qed

lemma wf_map_entries:
  assumes "wf_map m"
  shows "(\<exists>(key, ts) \<in> set m. P key \<and> r \<in> fst ` set ts) \<longleftrightarrow> (\<exists>key ref. P key \<and> (r, ref) \<in> set (mget0 [] m key))"
proof
  assume "\<exists>(key, ts) \<in> set m. P key \<and> r \<in> fst ` set ts"
  then obtain key ts ref where k: "(key, ts) \<in> set m" "P key" "(r, ref) \<in> set ts" by auto
  have "mget0 [] m key = ts" using assms k(1) by (simp add: mget0_def)
  then show "\<exists>key ref. P key \<and> (r, ref) \<in> set (mget0 [] m key)" using k by blast
next
  assume "\<exists>key ref. P key \<and> (r, ref) \<in> set (mget0 [] m key)"
  then obtain key ref where k: "P key" "(r, ref) \<in> set (mget0 [] m key)" by blast
  then obtain ts where "mget m key = Some ts" "(r, ref) \<in> set ts" by (cases "mget m key") (auto simp: mget0_def)
  then show "\<exists>(key, ts) \<in> set m. P key \<and> r \<in> fst ` set ts" using k(1) by (intro bexI [of _ "(key, ts)"]) (auto intro: map_of_SomeD rev_image_eqI)
qed

text \<open>A port serves a route: one of its references names a valid listener of this port that allows the route.\<close>

definition serves :: "('sel \<Rightarrow> string list res) \<Rightarrow> 'sel Gateway \<Rightarrow> 'sel allListeners \<Rightarrow> ValidatedGatewayListeners \<Rightarrow> 'b RouteDescriptor \<Rightarrow> int \<Rightarrow> bool" where
  "serves nsSelector gw listeners v r port \<longleftrightarrow> (\<exists>ref \<in> set (routeParentRefs r). \<exists>res l hosts vr.
     resolveParentRef ref r gw listeners = Some res \<and> l \<in> set (targetListeners res) \<and> wanted ref l \<and> glPort l = port
     \<and> listenerAllowsAttachment nsSelector (parentNamespace res) l r = Inr (Inr hosts)
     \<and> sectionResult v (resParent res, glName l) = Some vr \<and> IsValid vr)"

lemma serves_iff:
  assumes "distinct (map (\<lambda>(p, l). (p, glName l)) (allSections listeners))"
  shows "serves nsSelector gw listeners v r port \<longleftrightarrow>
    (\<exists>ref \<in> set (routeParentRefs r). \<exists>key. attachedAt nsSelector gw listeners (r, ref) key \<and> validSection listeners v port key)"
proof
  assume "serves nsSelector gw listeners v r port"
  then obtain ref res l hosts vr where h: "ref \<in> set (routeParentRefs r)" "resolveParentRef ref r gw listeners = Some res"
    "l \<in> set (targetListeners res)" "wanted ref l" "glPort l = port"
    "listenerAllowsAttachment nsSelector (parentNamespace res) l r = Inr (Inr hosts)"
    "sectionResult v (resParent res, glName l) = Some vr" "IsValid vr" by (auto simp: serves_def)
  have "l \<in> set (attemptedListeners ref (targetListeners res))" using attemptedListeners_set [OF sections_names [OF assms h(2)]] h(3,4) by simp
  then have "attachedAt nsSelector gw listeners (r, ref) (resParent res, glName l)"
    unfolding attachedAt_def using h(2,6) by (auto simp: acceptedAt_def)
  moreover have "validSection listeners v port (resParent res, glName l)"
    unfolding validSection_def using sectionListener_get [OF assms resolved_sections [OF h(2,3)]] h(5,7,8) by auto
  ultimately show "\<exists>ref \<in> set (routeParentRefs r). \<exists>key. attachedAt nsSelector gw listeners (r, ref) key \<and> validSection listeners v port key"
    using h(1) by blast
next
  assume "\<exists>ref \<in> set (routeParentRefs r). \<exists>key. attachedAt nsSelector gw listeners (r, ref) key \<and> validSection listeners v port key"
  then obtain ref key where k: "ref \<in> set (routeParentRefs r)" "attachedAt nsSelector gw listeners (r, ref) key" "validSection listeners v port key" by blast
  then obtain res l hosts where h: "resolveParentRef ref r gw listeners = Some res" "l \<in> set (attemptedListeners ref (targetListeners res))"
    "key = (resParent res, glName l)" "listenerAllowsAttachment nsSelector (parentNamespace res) l r = Inr (Inr hosts)"
    by (auto simp: attachedAt_def acceptedAt_def)
  have l: "l \<in> set (targetListeners res)" "wanted ref l" using attemptedListeners_set [OF sections_names [OF assms h(1)]] h(2) by auto
  have "mget (sectionListener listeners) key = Some l" using sectionListener_get [OF assms resolved_sections [OF h(1) l(1)]] h(3) by simp
  then obtain vr where "sectionResult v key = Some vr" "IsValid vr" "glPort l = port" using k(3) by (auto simp: validSection_def)
  then show "serves nsSelector gw listeners v r port" unfolding serves_def using k(1) h l by blast
qed

text \<open>
  C11. The routes of a port are exactly those that it serves: a route is listed for a port if and only if one of its
  parent references names, by section and port if given, a valid listener of this port, of the Gateway or of an
  accepted listener set, that allows the namespace, the kind and a hostname of the route; and it is listed once,
  whatever the order in which the maps are visited.
\<close>

theorem routes_by_port_exact:
  assumes "mapListenersAndRoutes ord nsSelector gw listeners routes v = Inr result" "go_order ord"
    and "inj_on routeIdentifier (set routes)" "distinct (map (\<lambda>(p, l). (p, glName l)) (allSections listeners))"
  shows "distinct (mget0 [] (routesByPort (mapPortRoutes result)) port)
       \<and> set (mget0 [] (routesByPort (mapPortRoutes result)) port) = {r \<in> set routes. serves nsSelector gw listeners v r port}"
proof -
  let ?tuples = "concat (map (\<lambda>r. map (Pair r) (routeParentRefs r)) routes)"
  let ?\<pi>0 = "initialPorts listeners :: ('a, 'b) portRoutes"
  obtain failed \<sigma> where run: "attachRefs nsSelector gw listeners ?tuples []
      \<lparr>acceptedRoutes = initialAccepted listeners, compatibleHostnames = [], matchedParentRefs = []\<rparr> = Inr (failed, \<sigma>)"
    and result: "mapPortRoutes result = generateRoutePerPortSet listeners v (ord (acceptedRoutes \<sigma>)) ?\<pi>0"
    using assms(1) by (auto simp: mapListenersAndRoutes_def elim!: res_bind_InrE)
  have init: "mget0 [] (initialAccepted listeners :: (parent \<times> string, 'b refTuple list) gomap) key = []" for key
    by (auto simp: initialAccepted_def mget0_def mget_mbuild split: option.splits)
  have acc: "t \<in> set (mget0 [] (acceptedRoutes \<sigma>) key) \<longleftrightarrow> t \<in> set ?tuples \<and> attachedAt nsSelector gw listeners t key" for t key
    using attachRefs_spec [OF run, of t key] init by simp
  have wf: "wf_map (acceptedRoutes \<sigma>)" using attachRefs_spec [OF run] by (simp add: initialAccepted_def)
  have ports: "mget0 [] (routesByPort ?\<pi>0) q = []" "mget0 [] (seenRoutes ?\<pi>0) q = []" for q
    by (auto simp: initialPorts_def mget0_def mget_mbuild split: option.splits)
  have entry: "(key, ts) \<in> set (acceptedRoutes \<sigma>) \<Longrightarrow> ts = mget0 [] (acceptedRoutes \<sigma>) key" for key ts
    using wf by (simp add: mget0_def)
  have R: "\<forall>(key, ts) \<in> set (ord (acceptedRoutes \<sigma>)). fst ` set ts \<subseteq> set routes"
    using assms(2) entry acc by fastforce
  have "portsInv ?\<pi>0" by (simp add: portsInv_def ports)
  note gen = generateRoutePerPortSet_spec [OF this assms(3) R, of listeners v, unfolded result [symmetric] ports]
  have "distinct (mget0 [] (routesByPort (mapPortRoutes result)) port)" using gen by (auto simp: portsInv_def distinct_map)
  moreover have "(\<exists>(key, ts) \<in> set (ord (acceptedRoutes \<sigma>)). validSection listeners v port key \<and> r \<in> fst ` set ts) \<longleftrightarrow>
      r \<in> set routes \<and> serves nsSelector gw listeners v r port" for r
  proof -
    have "(\<exists>(key, ts) \<in> set (ord (acceptedRoutes \<sigma>)). validSection listeners v port key \<and> r \<in> fst ` set ts) \<longleftrightarrow>
        (\<exists>key ref. validSection listeners v port key \<and> (r, ref) \<in> set (mget0 [] (acceptedRoutes \<sigma>) key))"
      unfolding go_order_set [OF assms(2)] by (rule wf_map_entries [OF wf])
    also have "\<dots> \<longleftrightarrow> r \<in> set routes \<and> (\<exists>ref \<in> set (routeParentRefs r). \<exists>key. attachedAt nsSelector gw listeners (r, ref) key \<and> validSection listeners v port key)"
    proof -
      have "(r, ref) \<in> set ?tuples \<longleftrightarrow> r \<in> set routes \<and> ref \<in> set (routeParentRefs r)" for ref by auto
      then show ?thesis unfolding acc by blast
    qed
    finally show ?thesis unfolding serves_iff [OF assms(4)] .
  qed
  ultimately show ?thesis using gen by auto
qed

definition exGateway :: "unit gwListener list \<Rightarrow> unit Gateway" where
  "exGateway ls = \<lparr>gwNamespace = ''ns'', gwName = ''gw'', gwListeners = ls, gwAllowedFrom = None, gwAllowedSelector = None\<rparr>"

definition exMap :: "unit gwListener list \<Rightarrow> string RouteDescriptor list \<Rightarrow> (unit, string) listenerRouteMapResult res" where
  "exMap ls routes = res_bind (validateListeners (exListeners ls) ''gateway.k8s.aws/alb'')
     (mapListenersAndRoutes (\<lambda>xs. xs) (\<lambda>_. Inr []) (exGateway ls) (exListeners ls) routes)"

theorem routes_by_port_exact_witness:
  "\<exists>v result. mapListenersAndRoutes (\<lambda>xs. xs) (\<lambda>_. Inr []) (exGateway [exListener ''a'' 80 ''HTTP'' (Some ''*.example.com'')])
       (exListeners [exListener ''a'' 80 ''HTTP'' (Some ''*.example.com'')]) exRoutes v = Inr result
     \<and> length (mget0 [] (routesByPort (mapPortRoutes result)) 80) = 2
     \<and> serves (\<lambda>_. Inr []) (exGateway [exListener ''a'' 80 ''HTTP'' (Some ''*.example.com'')])
         (exListeners [exListener ''a'' 80 ''HTTP'' (Some ''*.example.com'')]) v (hd exRoutes) 80"
proof -
  let ?ls = "[exListener ''a'' 80 ''HTTP'' (Some ''*.example.com'')]"
  have "(case exMap ?ls exRoutes of Inl _ \<Rightarrow> False | Inr res \<Rightarrow>
      map routeName (mget0 [] (routesByPort (mapPortRoutes res)) 80) = [''a'', ''b''])" by code_simp
  then obtain result where "exMap ?ls exRoutes = Inr result" and n: "map routeName (mget0 [] (routesByPort (mapPortRoutes result)) 80) = [''a'', ''b'']"
    by (auto split: sum.splits)
  then obtain v where r: "mapListenersAndRoutes (\<lambda>xs. xs) (\<lambda>_. Inr []) (exGateway ?ls) (exListeners ?ls) exRoutes v = Inr result"
    by (auto simp: exMap_def elim!: res_bind_InrE)
  have i: "inj_on routeIdentifier (set exRoutes)" by (auto simp: exRoutes_def exRoute_def routeIdentifier_def routeNamespacedName_def)
  have d: "distinct (map (\<lambda>(p, l). (p, glName l)) (allSections (exListeners ?ls)))"
    by (simp add: allSections_def setSections_def exListeners_def exListener_def)
  note main = routes_by_port_exact [OF r go_order_id i d, of 80]
  have len: "length (mget0 [] (routesByPort (mapPortRoutes result)) 80) = 2" using arg_cong [OF n, of length] by simp
  then have "card {r \<in> set exRoutes. serves (\<lambda>_. Inr []) (exGateway ?ls) (exListeners ?ls) v r 80} = 2"
    using main by (metis distinct_card)
  moreover have "card (set exRoutes) \<le> 2" by (simp add: exRoutes_def card_insert_if)
  moreover have "card {r \<in> set exRoutes. serves (\<lambda>_. Inr []) (exGateway ?ls) (exListeners ?ls) v r 80} \<le> card (set exRoutes)"
    by (intro card_mono) auto
  ultimately have "{r \<in> set exRoutes. serves (\<lambda>_. Inr []) (exGateway ?ls) (exListeners ?ls) v r 80} = set exRoutes"
    by (intro card_subset_eq) auto
  then have "serves (\<lambda>_. Inr []) (exGateway ?ls) (exListeners ?ls) v (hd exRoutes) 80" by (auto simp: exRoutes_def)
  then show ?thesis using r len by blast
qed

text \<open>
  A route that attaches to a listener without hostname and to one with a hostname on the same port keeps only the
  hostnames of the second: its other hostnames, which the first listener admits, are served no more.
\<close>

lemma hostnames_of_open_listener_lost:
  "case exMap [exListener ''open'' 80 ''HTTP'' None, exListener ''named'' 80 ''HTTP'' (Some ''www.example.com'')]
          [exRoute ''a'' [''www.example.com'', ''api.example.com''] ''Exact'' ''/x''] of
     Inr res \<Rightarrow> map snd (mget0 [] (compatibleHostnames (mapState res)) 80) = [[''www.example.com'']]
       \<and> (\<forall>l \<in> {exListener ''open'' 80 ''HTTP'' None}. listenerAllowsAttachment (\<lambda>_. Inr []) ''ns'' l
            (exRoute ''a'' [''www.example.com'', ''api.example.com''] ''Exact'' ''/x'') = Inr (Inr []))
   | Inl _ \<Rightarrow> False"
  by code_simp

end
