(* ===== verification/Targets.thy ===== *)
theory Targets
  imports Target_Group_Binding
begin

text \<open>
  \<^verbatim>\<open>pkg/targetgroupbinding/targets_manager.go\<close> and \<^verbatim>\<open>targets_manager_types.go\<close>: the manager of the targets of target
  groups. It registers and deregisters targets in chunks and keeps the targets of every target group in a cache. A
  cached target that is healthy is not asked for again; the health of the others is read at every listing.

  The client for an assumed role is a record of functions; the cache forgets an entry at the end of its
  life time, which is a step of its own here. An operation on the cache is one step, as its mutexes make it.
\<close>

section \<open>Targets\<close>

record ElbTargetDescription =
  tdId :: "string option"
  tdPort :: "int option"
  tdAvailabilityZone :: "string option"
  tdQuicServerId :: "string option"

record TargetHealth =
  thState :: string
  thReason :: string
  thDescription :: "string option"

record TargetInfo =
  tiTarget :: ElbTargetDescription
  tiHealth :: "TargetHealth option"

abbreviation nilDereference :: go_error where
  "nilDereference \<equiv> Errorf ''panic: nil pointer dereference'' []"

definition TargetInfo_GetIdentifier :: "TargetInfo \<Rightarrow> string res" where
  "TargetInfo_GetIdentifier t =
     (case (tdId (tiTarget t), tdPort (tiTarget t)) of
        (Some i, Some p) \<Rightarrow>
          (let baseString = i @ '':'' @ Itoa p
           in case tdQuicServerId (tiTarget t) of
                Some q \<Rightarrow> Inr (baseString @ '':'' @ q)
              | None \<Rightarrow> Inr baseString)
      | _ \<Rightarrow> Inl nilDereference)"

definition IsHealthy :: "TargetInfo \<Rightarrow> bool" where
  "IsHealthy t = (case tiHealth t of None \<Rightarrow> False | Some h \<Rightarrow> thState h = ''healthy'')"

definition IsNotRegistered :: "TargetInfo \<Rightarrow> bool" where
  "IsNotRegistered t =
     (case tiHealth t of None \<Rightarrow> False | Some h \<Rightarrow> thState h = ''unused'' \<and> thReason h = ''Target.NotRegistered'')"

definition IsDraining :: "TargetInfo \<Rightarrow> bool" where
  "IsDraining t =
     (case tiHealth t of None \<Rightarrow> False | Some h \<Rightarrow> thState h = ''draining'' \<or> thState h = ''unhealthy.draining'')"

definition IsInitial :: "TargetInfo \<Rightarrow> bool" where
  "IsInitial t = (case tiHealth t of None \<Rightarrow> False | Some h \<Rightarrow> thState h = ''initial'')"

definition UniqueIDForTargetDescription :: "ElbTargetDescription \<Rightarrow> string" where
  "UniqueIDForTargetDescription t = ToString (tdId t) @ '':'' @ Itoa (ToInt32 (tdPort t))"

section \<open>The cached targets manager\<close>

text \<open>The state: what is outside the program, and the cache by the ARN of the target group.\<close>

record 'w targets_state =
  world :: 'w
  targetsCache :: "(string, TargetInfo list) gomap"

record 'w targets_client =
  elbRegisterTargets :: "string \<Rightarrow> ElbTargetDescription list \<Rightarrow> ('w, unit) io"
  elbDeregisterTargets :: "string \<Rightarrow> ElbTargetDescription list \<Rightarrow> ('w, unit) io"
  elbDescribeTargetHealth :: "string \<Rightarrow> ElbTargetDescription list \<Rightarrow> ('w, (ElbTargetDescription option \<times> TargetHealth option) list) io"

type_synonym 'w assume_role = "string \<Rightarrow> string \<Rightarrow> ('w, 'w targets_client) io"

definition onWorld :: "('w, 'a) io \<Rightarrow> (('w, 'z) targets_state_scheme, 'a) io" where
  "onWorld f s = (let (r, w) = f (world s) in (r, s\<lparr>world := w\<rparr>))"

definition defaultRegisterTargetsChunkSize :: int where "defaultRegisterTargetsChunkSize = 200"
definition defaultDeregisterTargetsChunkSize :: int where "defaultDeregisterTargetsChunkSize = 200"

definition chunkTargetDescriptions :: "ElbTargetDescription list \<Rightarrow> int \<Rightarrow> ElbTargetDescription list list option" where
  "chunkTargetDescriptions targets chunkSize = chunk_loop targets chunkSize 0 []"

definition targetByIdPort :: "ElbTargetDescription list \<Rightarrow> ElbTargetDescription list" where
  "targetByIdPort = map (\<lambda>t. \<lparr>tdId = tdId t, tdPort = tdPort t, tdAvailabilityZone = None, tdQuicServerId = None\<rparr>)"

text \<open>The loop over the cached targets: those in the map lose their health and leave the map.\<close>

fun forgetHealth :: "TargetInfo list \<Rightarrow> (string, ElbTargetDescription) gomap \<Rightarrow>
    TargetInfo list \<times> (string, ElbTargetDescription) gomap" where
  "forgetHealth [] byID = ([], byID)"
| "forgetHealth (t # ts) byID =
     (let uid = UniqueIDForTargetDescription (tiTarget t)
      in if mhas byID uid
         then (let (ts', byID') = forgetHealth ts (mdel uid byID) in (t\<lparr>tiHealth := None\<rparr> # ts', byID'))
         else (let (ts', byID') = forgetHealth ts byID in (t # ts', byID')))"

text \<open>The order \<open>ord\<close> is that of the loop over the map of the new targets.\<close>

definition recordSuccessfulRegisterTargetsOperation ::
    "((string \<times> ElbTargetDescription) list \<Rightarrow> (string \<times> ElbTargetDescription) list) \<Rightarrow> string \<Rightarrow> ElbTargetDescription list \<Rightarrow>
     ('w, 'z) targets_state_scheme \<Rightarrow> ('w, 'z) targets_state_scheme" where
  "recordSuccessfulRegisterTargetsOperation ord tgARN targets s =
     (case mget (targetsCache s) tgARN of
        None \<Rightarrow> s
      | Some cached \<Rightarrow>
          (let (ts, rest) = forgetHealth cached (mbuild UniqueIDForTargetDescription (\<lambda>t. t) targets []);
               added = map (\<lambda>(uid, t). \<lparr>tiTarget = t, tiHealth = None\<rparr>) (ord rest)
           in s\<lparr>targetsCache := mput tgARN (ts @ added) (targetsCache s)\<rparr>))"

definition recordSuccessfulDeregisterTargetsOperation ::
    "string \<Rightarrow> ElbTargetDescription list \<Rightarrow> ('w, 'z) targets_state_scheme \<Rightarrow> ('w, 'z) targets_state_scheme" where
  "recordSuccessfulDeregisterTargetsOperation tgARN targets s =
     (case mget (targetsCache s) tgARN of
        None \<Rightarrow> s
      | Some cached \<Rightarrow>
          (let (ts, rest) = forgetHealth cached (mbuild UniqueIDForTargetDescription (\<lambda>t. t) targets [])
           in s\<lparr>targetsCache := mput tgARN ts (targetsCache s)\<rparr>))"

text \<open>A chunking loop that does not return is the error \<open>hang\<close>; it does not occur for positive sizes.\<close>

abbreviation hang :: go_error where
  "hang \<equiv> Errorf ''does not return'' []"

definition assumeRoleOf :: "'w assume_role \<Rightarrow> TargetGroupBinding \<Rightarrow> ('w, 'w targets_client) io" where
  "assumeRoleOf AssumeRole tgb = AssumeRole (IamRoleArnToAssume (k8sSpec tgb)) (AssumeRoleExternalId (k8sSpec tgb))"

definition TM_RegisterTargets ::
    "'w assume_role \<Rightarrow> ((string \<times> ElbTargetDescription) list \<Rightarrow> (string \<times> ElbTargetDescription) list) \<Rightarrow>
     TargetGroupBinding \<Rightarrow> ElbTargetDescription list \<Rightarrow> (('w, 'z) targets_state_scheme, unit) io" where
  "TM_RegisterTargets AssumeRole ord tgb targets =
     (let tgARN = TargetGroupARN (k8sSpec tgb)
      in case chunkTargetDescriptions targets defaultRegisterTargetsChunkSize of
           None \<Rightarrow> io_fail hang
         | Some targetsChunks \<Rightarrow>
             io_iter (\<lambda>targetsChunk.
               io_bind (onWorld (assumeRoleOf AssumeRole tgb)) (\<lambda>clientToUse.
               io_bind (onWorld (elbRegisterTargets clientToUse tgARN targetsChunk)) (\<lambda>_ s.
                 (Inr (), recordSuccessfulRegisterTargetsOperation ord tgARN targetsChunk s)))) targetsChunks)"

definition TM_DeregisterTargets ::
    "'w assume_role \<Rightarrow> TargetGroupBinding \<Rightarrow> ElbTargetDescription list \<Rightarrow> (('w, 'z) targets_state_scheme, unit) io" where
  "TM_DeregisterTargets AssumeRole tgb targets =
     (let tgARN = TargetGroupARN (k8sSpec tgb)
      in case chunkTargetDescriptions targets defaultDeregisterTargetsChunkSize of
           None \<Rightarrow> io_fail hang
         | Some targetsChunks \<Rightarrow>
             io_iter (\<lambda>targetsChunk.
               io_bind (onWorld (assumeRoleOf AssumeRole tgb)) (\<lambda>clientToUse.
               io_bind (onWorld (elbDeregisterTargets clientToUse tgARN targetsChunk)) (\<lambda>_ s.
                 (Inr (), recordSuccessfulDeregisterTargetsOperation tgARN targetsChunk s)))) targetsChunks)"

definition listedTargets :: "(ElbTargetDescription option \<times> TargetHealth option) list \<Rightarrow> TargetInfo list res" where
  "listedTargets = res_map (\<lambda>(target, health).
     case target of None \<Rightarrow> Inl nilDereference | Some t \<Rightarrow> Inr \<lparr>tiTarget = t, tiHealth = health\<rparr>)"

definition listTargetsFromAWS :: "'w assume_role \<Rightarrow> TargetGroupBinding \<Rightarrow> ElbTargetDescription list \<Rightarrow>
    (('w, 'z) targets_state_scheme, TargetInfo list) io" where
  "listTargetsFromAWS AssumeRole tgb targets =
     io_bind (onWorld (assumeRoleOf AssumeRole tgb)) (\<lambda>clientToUse.
     io_bind (onWorld (elbDescribeTargetHealth clientToUse (TargetGroupARN (k8sSpec tgb)) (targetByIdPort targets))) (\<lambda>resp.
       io_lift (listedTargets resp)))"

definition refreshAllTargets :: "'w assume_role \<Rightarrow> TargetGroupBinding \<Rightarrow> (('w, 'z) targets_state_scheme, TargetInfo list) io" where
  "refreshAllTargets AssumeRole tgb = listTargetsFromAWS AssumeRole tgb []"

definition refreshUnhealthyTargets :: "'w assume_role \<Rightarrow> TargetGroupBinding \<Rightarrow> TargetInfo list \<Rightarrow>
    (('w, 'z) targets_state_scheme, TargetInfo list) io" where
  "refreshUnhealthyTargets AssumeRole tgb cachedTargets =
     (let refreshedTargets = filter IsHealthy cachedTargets;
          unhealthyTargets = map tiTarget (filter (\<lambda>t. \<not> IsHealthy t) cachedTargets)
      in if length unhealthyTargets = 0 then io_ret refreshedTargets
         else io_bind (listTargetsFromAWS AssumeRole tgb unhealthyTargets) (\<lambda>refreshedUnhealthyTargets.
                io_ret (refreshedTargets @ filter (\<lambda>t. \<not> IsNotRegistered t) refreshedUnhealthyTargets)))"

definition TM_ListTargets :: "'w assume_role \<Rightarrow> TargetGroupBinding \<Rightarrow> (('w, 'z) targets_state_scheme, TargetInfo list) io" where
  "TM_ListTargets AssumeRole tgb s =
     (let tgARN = TargetGroupARN (k8sSpec tgb);
          store = (\<lambda>ts s. (Inr ts, s\<lparr>targetsCache := mput tgARN ts (targetsCache s)\<rparr>))
      in case mget (targetsCache s) tgARN of
           Some cached \<Rightarrow> io_bind (refreshUnhealthyTargets AssumeRole tgb cached) store s
         | None \<Rightarrow> io_bind (refreshAllTargets AssumeRole tgb) store s)"

section \<open>The targets of a target group in AWS\<close>

text \<open>
  A target is known by its identifier and port. Of the cloud, \<open>reg w arn\<close> are the registered targets of a target
  group and \<open>drn w arn\<close> those that are still draining after their deregistration.
\<close>

type_synonym target_key = "string \<times> int"
type_synonym 'w target_view = "'w \<Rightarrow> string \<Rightarrow> target_key set"

definition tkey :: "ElbTargetDescription \<Rightarrow> target_key" where
  "tkey t = (ToString (tdId t), ToInt32 (tdPort t))"

text \<open>Nothing but the end of some drainings.\<close>

definition calm :: "'w target_view \<Rightarrow> 'w target_view \<Rightarrow> 'w \<Rightarrow> 'w \<Rightarrow> bool" where
  "calm reg drn w w' \<longleftrightarrow> reg w' = reg w \<and> (\<forall>a. drn w' a \<subseteq> drn w a)"

text \<open>
  An answer about the given targets: one description each. A target that is neither registered nor draining
  is reported as not registered, a draining one as draining, and only a registered one may be healthy.
\<close>

definition describes :: "'w target_view \<Rightarrow> 'w target_view \<Rightarrow> 'w \<Rightarrow> string \<Rightarrow> target_key set \<Rightarrow> TargetInfo list \<Rightarrow> bool" where
  "describes reg drn w arn ks ts \<longleftrightarrow> distinct (map (tkey \<circ> tiTarget) ts) \<and> tkey ` tiTarget ` set ts = ks
     \<and> (\<forall>t \<in> set ts. let k = tkey (tiTarget t) in
          (IsHealthy t \<longrightarrow> k \<in> reg w arn)
          \<and> (IsNotRegistered t \<longleftrightarrow> k \<notin> reg w arn \<union> drn w arn)
          \<and> (k \<in> reg w arn \<union> drn w arn \<longrightarrow> (IsDraining t \<longleftrightarrow> k \<notin> reg w arn)))"

definition client_ok :: "'w target_view \<Rightarrow> 'w target_view \<Rightarrow> 'w targets_client \<Rightarrow> bool" where
  "client_ok reg drn c \<longleftrightarrow>
     (\<forall>arn ts w r w'. elbRegisterTargets c arn ts w = (r, w') \<longrightarrow>
        (case r of Inl e \<Rightarrow> calm reg drn w w'
         | Inr _ \<Rightarrow> reg w' = (reg w)(arn := reg w arn \<union> tkey ` set ts) \<and> (\<forall>a. drn w' a \<subseteq> drn w a)))
     \<and> (\<forall>arn ts w r w'. elbDeregisterTargets c arn ts w = (r, w') \<longrightarrow>
        (case r of Inl e \<Rightarrow> calm reg drn w w'
         | Inr _ \<Rightarrow> reg w' = (reg w)(arn := reg w arn - tkey ` set ts)
             \<and> (\<forall>a. drn w' a \<subseteq> drn w a \<union> (if a = arn then tkey ` set ts \<inter> reg w arn else {}))))
     \<and> (\<forall>arn ts w r w'. elbDescribeTargetHealth c arn ts w = (r, w') \<longrightarrow> calm reg drn w w' \<and>
        (case r of Inl e \<Rightarrow> True
         | Inr resp \<Rightarrow> \<exists>infos. listedTargets resp = Inr infos
             \<and> describes reg drn w' arn (if ts = [] then reg w' arn \<union> drn w' arn else tkey ` set ts) infos))"

definition cloud_ok :: "'w target_view \<Rightarrow> 'w target_view \<Rightarrow> 'w assume_role \<Rightarrow> bool" where
  "cloud_ok reg drn AssumeRole \<longleftrightarrow>
     (\<forall>role ext w r w'. AssumeRole role ext w = (r, w') \<longrightarrow> calm reg drn w w'
        \<and> (case r of Inl e \<Rightarrow> True | Inr c \<Rightarrow> client_ok reg drn c))"

text \<open>The invariant of the cache: it holds every target that AWS may list, and as healthy only registered ones.\<close>

definition entry_inv :: "target_key set \<Rightarrow> target_key set \<Rightarrow> TargetInfo list \<Rightarrow> bool" where
  "entry_inv R D ts \<longleftrightarrow> distinct (map (tkey \<circ> tiTarget) ts) \<and> R \<union> D \<subseteq> tkey ` tiTarget ` set ts
     \<and> (\<forall>t \<in> set ts. IsHealthy t \<longrightarrow> tkey (tiTarget t) \<in> R)"

definition cache_inv :: "'w target_view \<Rightarrow> 'w target_view \<Rightarrow> ('w, 'z) targets_state_scheme \<Rightarrow> bool" where
  "cache_inv reg drn s \<longleftrightarrow>
     (\<forall>arn ts. mget (targetsCache s) arn = Some ts \<longrightarrow> entry_inv (reg (world s) arn) (drn (world s) arn) ts)"

section \<open>The cache is correct\<close>

lemma UniqueID_eq: "UniqueIDForTargetDescription t = UniqueIDForTargetDescription t' \<longleftrightarrow> tkey t = tkey t'"
  by (simp add: UniqueIDForTargetDescription_def tkey_def append_sep_inj Itoa_inj)

lemma UniqueID_image:
  "UniqueIDForTargetDescription t \<in> UniqueIDForTargetDescription ` A \<longleftrightarrow> tkey t \<in> tkey ` A"
  by (auto simp: image_iff UniqueID_eq)

lemma targetByIdPort_simps [simp]:
  "tkey ` set (targetByIdPort ts) = tkey ` set ts" "targetByIdPort ts = [] \<longleftrightarrow> ts = []"
  by (auto simp: targetByIdPort_def tkey_def image_iff)

lemma calm_trans: "calm reg drn w w' \<Longrightarrow> calm reg drn w' w'' \<Longrightarrow> calm reg drn w w''"
  by (fastforce simp: calm_def)

lemma calm_refl [simp]: "calm reg drn w w"
  by (simp add: calm_def)

lemma forgetHealth_targets: "map tiTarget (fst (forgetHealth ts byID)) = map tiTarget ts"
  by (induction ts byID rule: forgetHealth.induct) (auto simp: Let_def split: prod.splits)

lemma set_mdel: "set (mdel k m) = {(k', v) \<in> set m. k' \<noteq> k}"
  by (auto simp: AList.delete_eq)

lemma forgetHealth_rest:
  "set (snd (forgetHealth ts byID)) = {(uid, d) \<in> set byID. uid \<notin> UniqueIDForTargetDescription ` tiTarget ` set ts}"
proof (induction ts byID rule: forgetHealth.induct)
  case (2 t ts byID)
  let ?u = "UniqueIDForTargetDescription (tiTarget t)"
  show ?case
  proof (cases "mhas byID ?u")
    case True
    then have "snd (forgetHealth (t # ts) byID) = snd (forgetHealth ts (mdel ?u byID))" by (simp add: Let_def split: prod.splits)
    then show ?thesis using "2.IH"(1) True by (auto simp: set_mdel)
  next
    case False
    then have "snd (forgetHealth (t # ts) byID) = snd (forgetHealth ts byID)" by (simp add: Let_def split: prod.splits)
    then show ?thesis using "2.IH"(2) False by (force simp: mhas_iff)
  qed
qed simp

lemma forgetHealth_healthy:
  assumes "distinct (map (tkey \<circ> tiTarget) ts)" "t \<in> set (fst (forgetHealth ts byID))" "IsHealthy t"
  shows "t \<in> set ts \<and> UniqueIDForTargetDescription (tiTarget t) \<notin> fst ` set byID"
  using assms
proof (induction ts byID rule: forgetHealth.induct)
  case (2 t0 ts byID)
  let ?u = "UniqueIDForTargetDescription (tiTarget t0)"
  show ?case
  proof (cases "mhas byID ?u")
    case True
    then have "t \<in> set (fst (forgetHealth ts (mdel ?u byID)))"
      using "2.prems" by (auto simp: Let_def IsHealthy_def split: prod.splits)
    then have IH: "t \<in> set ts" "UniqueIDForTargetDescription (tiTarget t) \<notin> fst ` set (mdel ?u byID)"
      using "2.IH"(1) True "2.prems" by auto
    moreover have "UniqueIDForTargetDescription (tiTarget t) \<noteq> ?u"
      using "2.prems"(1) IH(1) by (auto simp: UniqueID_eq image_iff)
    ultimately show ?thesis by (force simp: set_mdel)
  next
    case False
    then have "t = t0 \<or> t \<in> set (fst (forgetHealth ts byID))"
      using "2.prems" by (auto simp: Let_def split: prod.splits)
    then show ?thesis using "2.IH"(2) False "2.prems" by (auto simp: mhas_iff)
  qed
qed simp

lemma entry_inv_drained: "entry_inv R D ts \<Longrightarrow> D' \<subseteq> D \<Longrightarrow> entry_inv R D' ts"
  by (auto simp: entry_inv_def)

lemma map_tkey_forgetHealth:
  "map (tkey \<circ> tiTarget) (fst (forgetHealth ts byID)) = map (tkey \<circ> tiTarget) ts"
  "tkey ` tiTarget ` set (fst (forgetHealth ts byID)) = tkey ` tiTarget ` set ts"
proof -
  show "map (tkey \<circ> tiTarget) (fst (forgetHealth ts byID)) = map (tkey \<circ> tiTarget) ts"
    using arg_cong [OF forgetHealth_targets, of "map tkey"] by simp
  then have "set (map (tkey \<circ> tiTarget) (fst (forgetHealth ts byID))) = set (map (tkey \<circ> tiTarget) ts)" by simp
  then show "tkey ` tiTarget ` set (fst (forgetHealth ts byID)) = tkey ` tiTarget ` set ts"
    by (simp add: image_image)
qed

abbreviation byUniqueID :: "ElbTargetDescription list \<Rightarrow> (string, ElbTargetDescription) gomap" where
  "byUniqueID ts \<equiv> mbuild UniqueIDForTargetDescription (\<lambda>t. t) ts []"

lemma byUniqueID_entry: "(uid, d) \<in> set (byUniqueID ts) \<Longrightarrow> d \<in> set ts \<and> uid = UniqueIDForTargetDescription d"
  using mget_mbuild_SomeD [of UniqueIDForTargetDescription "\<lambda>t. t" ts uid d]
  by (auto simp: map_of_is_SomeI)

lemma entry_inv_deregister:
  assumes "entry_inv R D ts"
  shows "entry_inv (R - tkey ` set targets) (D \<union> (tkey ` set targets \<inter> R)) (fst (forgetHealth ts (byUniqueID targets)))"
  using assms forgetHealth_healthy [of ts _ "byUniqueID targets"]
  by (auto simp: entry_inv_def map_tkey_forgetHealth UniqueID_image)

lemma distinct_mapD: "distinct (map f xs) \<Longrightarrow> distinct xs"
  by (simp add: distinct_map)

lemma forgetHealth_wf: "wf_map byID \<Longrightarrow> wf_map (snd (forgetHealth ts byID))"
  by (induction ts byID rule: forgetHealth.induct) (auto simp: Let_def split: prod.splits)

lemma byUniqueID_targets: "tkey ` snd ` set (byUniqueID ts) = tkey ` set ts"
proof
  show "tkey ` snd ` set (byUniqueID ts) \<subseteq> tkey ` set ts" using byUniqueID_entry by fastforce
  show "tkey ` set ts \<subseteq> tkey ` snd ` set (byUniqueID ts)"
  proof
    fix k assume "k \<in> tkey ` set ts"
    then obtain t where t: "t \<in> set ts" "k = tkey t" by auto
    then have "UniqueIDForTargetDescription t \<in> fst ` set (byUniqueID ts)" by simp
    then obtain e where "UniqueIDForTargetDescription t = fst e" "e \<in> set (byUniqueID ts)" by (rule imageE)
    then have d: "(UniqueIDForTargetDescription t, snd e) \<in> set (byUniqueID ts)" by (cases e) simp
    then have "tkey (snd e) = k" using byUniqueID_entry [OF d] t by (simp add: UniqueID_eq)
    then show "k \<in> tkey ` snd ` set (byUniqueID ts)" using imageI [OF imageI [OF d], of tkey snd] by simp
  qed
qed

lemma entry_inv_register:
  assumes "entry_inv R D ts" "go_order ord"
  shows "entry_inv (R \<union> tkey ` set targets) D
     (fst (forgetHealth ts (byUniqueID targets))
        @ map (\<lambda>(uid, t). \<lparr>tiTarget = t, tiHealth = None\<rparr>) (ord (snd (forgetHealth ts (byUniqueID targets)))))"
proof -
  let ?f = "forgetHealth ts (byUniqueID targets)"
  let ?added = "map (\<lambda>(uid, t). \<lparr>tiTarget = t, tiHealth = None\<rparr>) (ord (snd ?f))"
  have rest: "set (snd ?f) = {(uid, d) \<in> set (byUniqueID targets). tkey d \<notin> tkey ` tiTarget ` set ts}"
    using byUniqueID_entry by (fastforce simp: forgetHealth_rest UniqueID_image)
  have keys: "tkey ` tiTarget ` set ?added = tkey ` snd ` set (snd ?f)"
    using assms(2) by (force simp: image_iff)
  have "inj_on (tkey \<circ> snd) (set (snd ?f))"
  proof (rule inj_onI)
    fix x y assume xy: "x \<in> set (snd ?f)" "y \<in> set (snd ?f)" and eq: "(tkey \<circ> snd) x = (tkey \<circ> snd) y"
    then have "fst x = UniqueIDForTargetDescription (snd x)" "fst y = UniqueIDForTargetDescription (snd y)"
      using byUniqueID_entry unfolding rest by fastforce+
    then have "fst x = fst y" using eq by (simp add: UniqueID_eq)
    moreover from this have "snd x = snd y"
      using xy eq_key_imp_eq_value [OF forgetHealth_wf [of "byUniqueID targets" ts], of "fst x" "snd x" "snd y"]
      by (metis prod.collapse wf_mbuild distinct.simps(1) list.map(1))
    ultimately show "x = y" by (rule prod_eqI)
  qed
  moreover have "distinct (snd ?f)" by (rule distinct_mapD [OF forgetHealth_wf]) simp
  ultimately have "distinct (map (tkey \<circ> snd) (ord (snd ?f)))" using assms(2) by (simp add: distinct_map)
  moreover have "map (tkey \<circ> tiTarget) ?added = map (tkey \<circ> snd) (ord (snd ?f))" by (simp add: case_prod_beta)
  ultimately have d: "distinct (map (tkey \<circ> tiTarget) ?added)" by (simp only:)
  have disj: "tkey ` tiTarget ` set ?added \<inter> tkey ` tiTarget ` set ts = {}"
    unfolding keys rest by (auto simp: image_iff)
  have sub: "tkey ` set targets \<subseteq> tkey ` tiTarget ` set ts \<union> tkey ` tiTarget ` set ?added"
    unfolding keys rest byUniqueID_targets [symmetric] by force
  show ?thesis
    unfolding entry_inv_def
  proof (intro conjI ballI impI)
    show "distinct (map (tkey \<circ> tiTarget) (fst ?f @ ?added))"
      using assms(1) d disj unfolding map_append distinct_append map_tkey_forgetHealth set_map image_comp [symmetric] entry_inv_def
      by (simp only: Int_commute)
    show "R \<union> tkey ` set targets \<union> D \<subseteq> tkey ` tiTarget ` set (fst ?f @ ?added)"
      using assms(1) sub unfolding set_append image_Un map_tkey_forgetHealth entry_inv_def by (simp only: Un_subset_iff) blast
  next
    fix t assume "t \<in> set (fst ?f @ ?added)" "IsHealthy t"
    then have "t \<in> set (fst ?f)" by (auto simp: IsHealthy_def)
    then show "tkey (tiTarget t) \<in> R \<union> tkey ` set targets"
      using \<open>IsHealthy t\<close> assms(1) forgetHealth_healthy [of ts t "byUniqueID targets"] by (simp add: entry_inv_def)
  qed
qed

lemma onWorld_eq: "onWorld f s = (r, s') \<longleftrightarrow> (\<exists>w. f (world s) = (r, w) \<and> s' = s\<lparr>world := w\<rparr>)"
  by (auto simp: onWorld_def split: prod.splits)

lemma cache_inv_calm:
  assumes "cache_inv reg drn s" "calm reg drn (world s) w"
  shows "cache_inv reg drn (s\<lparr>world := w\<rparr>)"
  unfolding cache_inv_def
proof (intro allI impI)
  fix arn ts assume "mget (targetsCache (s\<lparr>world := w\<rparr>)) arn = Some ts"
  then have "entry_inv (reg (world s) arn) (drn (world s) arn) ts" using assms(1) by (simp add: cache_inv_def)
  then show "entry_inv (reg (world (s\<lparr>world := w\<rparr>)) arn) (drn (world (s\<lparr>world := w\<rparr>)) arn) ts"
    using assms(2) entry_inv_drained [of _ "drn (world s) arn" ts "drn w arn"] by (simp add: calm_def)
qed

lemma assumeRole_calm:
  assumes "cloud_ok reg drn AssumeRole" "assumeRoleOf AssumeRole tgb w = (r, w')"
  shows "calm reg drn w w'" and "r = Inr c \<Longrightarrow> client_ok reg drn c"
  using assms by (auto simp: cloud_ok_def assumeRoleOf_def split: sum.splits)

text \<open>What a change of the targets does: either nothing that counts, or the registered targets of the group change.\<close>

definition changes :: "'w target_view \<Rightarrow> 'w target_view \<Rightarrow> string \<Rightarrow> (target_key set \<Rightarrow> target_key set) \<Rightarrow> unit res \<Rightarrow>
    ('w, 'z) targets_state_scheme \<Rightarrow> ('w, 'z) targets_state_scheme \<Rightarrow> bool" where
  "changes reg drn arn f r s s' \<longleftrightarrow> cache_inv reg drn s' \<and> (\<forall>a. a \<noteq> arn \<longrightarrow> reg (world s') a = reg (world s) a)
     \<and> (case r of Inl e \<Rightarrow> True | Inr _ \<Rightarrow> reg (world s') arn = f (reg (world s) arn))"

lemma client_register:
  assumes "client_ok reg drn c" "elbRegisterTargets c arn ts w = (r, w')"
  shows "case r of Inl e \<Rightarrow> calm reg drn w w'
     | Inr _ \<Rightarrow> reg w' = (reg w)(arn := reg w arn \<union> tkey ` set ts) \<and> (\<forall>a. drn w' a \<subseteq> drn w a)"
  using assms unfolding client_ok_def by blast

lemma client_deregister:
  assumes "client_ok reg drn c" "elbDeregisterTargets c arn ts w = (r, w')"
  shows "case r of Inl e \<Rightarrow> calm reg drn w w'
     | Inr _ \<Rightarrow> reg w' = (reg w)(arn := reg w arn - tkey ` set ts)
         \<and> (\<forall>a. drn w' a \<subseteq> drn w a \<union> (if a = arn then tkey ` set ts \<inter> reg w arn else {}))"
  using assms unfolding client_ok_def by blast

lemma client_describe:
  assumes "client_ok reg drn c" "elbDescribeTargetHealth c arn ts w = (r, w')"
  shows "calm reg drn w w'"
    and "case r of Inl e \<Rightarrow> True | Inr resp \<Rightarrow> \<exists>infos. listedTargets resp = Inr infos
       \<and> describes reg drn w' arn (if ts = [] then reg w' arn \<union> drn w' arn else tkey ` set ts) infos"
  using assms unfolding client_ok_def by blast+

text \<open>One chunk: a call and its record in the cache. \<open>f\<close> and \<open>g\<close> say what they do to the registered and the draining targets.\<close>

lemma changeChunk_ok:
  fixes upd :: "('w, 'z) targets_state_scheme \<Rightarrow> ('w, 'z) targets_state_scheme"
  assumes "cloud_ok reg drn AssumeRole" "cache_inv reg drn s"
    and call: "\<And>c w r w'. client_ok reg drn c \<Longrightarrow> call c w = (r, w') \<Longrightarrow>
          case r of Inl e \<Rightarrow> calm reg drn w w'
          | Inr _ \<Rightarrow> reg w' = (reg w)(arn := f (reg w arn))
              \<and> (\<forall>a. drn w' a \<subseteq> (if a = arn then g (reg w arn) (drn w arn) else drn w a))"
    and upd_ok: "\<And>s. world (upd s) = world s"
          "\<And>s a ts. mget (targetsCache (upd s)) a = Some ts \<Longrightarrow>
             \<exists>ts0. mget (targetsCache s) a = Some ts0 \<and> ts = (if a = arn then h ts0 else ts0)"
          "\<And>R D ts. entry_inv R D ts \<Longrightarrow> entry_inv (f R) (g R D) (h ts)"
    and run: "io_bind (onWorld (assumeRoleOf AssumeRole tgb)) (\<lambda>c. io_bind (onWorld (call c)) (\<lambda>_ s. (Inr (), upd s))) s = (r, s')"
  shows "changes reg drn arn f r s s'"
proof -
  obtain rc w1 where a: "assumeRoleOf AssumeRole tgb (world s) = (rc, w1)" by fastforce
  note c1 = assumeRole_calm [OF assms(1) a]
  have i1: "cache_inv reg drn (s\<lparr>world := w1\<rparr>)" by (rule cache_inv_calm [OF assms(2) c1(1)])
  show ?thesis
  proof (cases rc)
    case (Inl e)
    then show ?thesis using run a i1 c1(1) by (auto simp: io_bind_def onWorld_def changes_def calm_def)
  next
    case (Inr c)
    obtain rr w2 where b: "call c w1 = (rr, w2)" by fastforce
    note eff = call [OF c1(2) [OF Inr] b]
    show ?thesis
    proof (cases rr)
      case (Inl e)
      then have c2: "calm reg drn w1 w2" using eff by simp
      then have "cache_inv reg drn (s\<lparr>world := w2\<rparr>)" using cache_inv_calm [OF i1, of w2] by simp
      then show ?thesis
        using run a b Inr Inl c1(1) c2 by (auto simp: io_bind_def onWorld_def changes_def calm_def)
    next
      case r: (Inr u)
      then have w2: "reg w2 = (reg w1)(arn := f (reg w1 arn))"
          "\<And>a. drn w2 a \<subseteq> (if a = arn then g (reg w1 arn) (drn w1 arn) else drn w1 a)"
        using eff by auto
      have s': "r = Inr ()" "s' = upd (s\<lparr>world := w2\<rparr>)"
        using run a b Inr r by (auto simp: io_bind_def onWorld_def)
      have "entry_inv (reg w2 a) (drn w2 a) ts" if ts: "mget (targetsCache s') a = Some ts" for a ts
      proof -
        obtain ts0 where ts0: "mget (targetsCache s) a = Some ts0" "ts = (if a = arn then h ts0 else ts0)"
          using upd_ok(2) [of "s\<lparr>world := w2\<rparr>" a ts] ts s'(2) by auto
        then have "entry_inv (reg w1 a) (drn w1 a) ts0" using i1 by (simp add: cache_inv_def)
        then show ?thesis
          using upd_ok(3) w2(1) ts0(2) entry_inv_drained [OF _ w2(2) [of a], of _ ts] by (auto split: if_splits)
      qed
      then have "cache_inv reg drn s'" using upd_ok(1) s'(2) by (simp add: cache_inv_def)
      then show ?thesis using s' w2(1) c1(1) upd_ok(1) by (simp add: changes_def calm_def)
    qed
  qed
qed

lemma io_iter_changes:
  assumes "\<And>c s r s'. c \<in> set cs \<Longrightarrow> cache_inv reg drn s \<Longrightarrow> step c s = (r, s') \<Longrightarrow> changes reg drn arn (F c) r s s'"
    and "cache_inv reg drn s" "io_iter step cs s = (r, s')"
  shows "changes reg drn arn (fold F cs) r s s'"
  using assms
proof (induction cs arbitrary: s)
  case Nil
  then show ?case by (auto simp: changes_def)
next
  case (Cons c cs)
  obtain r1 s1 where st: "step c s = (r1, s1)" by fastforce
  have ch: "changes reg drn arn (F c) r1 s s1" using Cons.prems(1) [OF _ Cons.prems(2) st] by simp
  show ?case
  proof (cases r1)
    case (Inl e)
    then show ?thesis using Cons.prems(3) st ch by (auto simp: changes_def)
  next
    case (Inr u)
    then have "io_iter step cs s1 = (r, s')" using Cons.prems(3) st by simp
    moreover have "cache_inv reg drn s1" using ch by (simp add: changes_def)
    ultimately have "changes reg drn arn (fold F cs) r s1 s'"
      using Cons.IH [of s1] Cons.prems(1) by (meson list.set_intros(2))
    then show ?thesis using ch Inr by (auto simp: changes_def split: sum.splits)
  qed
qed

lemma TM_RegisterTargets_changes:
  assumes "cloud_ok reg drn AssumeRole" "go_order ord" "cache_inv reg drn s"
    and "TM_RegisterTargets AssumeRole ord tgb targets s = (r, s')"
  shows "changes reg drn (TargetGroupARN (k8sSpec tgb)) (\<lambda>R. R \<union> tkey ` set targets) r s s'"
proof -
  let ?arn = "TargetGroupARN (k8sSpec tgb)"
  obtain cs where cs: "chunkTargetDescriptions targets defaultRegisterTargetsChunkSize = Some cs" "concat cs = targets"
    using chunk_loop_total [of 200 targets]
    by (auto simp: chunkTargetDescriptions_def defaultRegisterTargetsChunkSize_def)
  have "changes reg drn ?arn (fold (\<lambda>c R. R \<union> tkey ` set c) cs) r s s'"
  proof (rule io_iter_changes [OF _ assms(3)])
    show "io_iter (\<lambda>c. io_bind (onWorld (assumeRoleOf AssumeRole tgb)) (\<lambda>client.
            io_bind (onWorld (elbRegisterTargets client ?arn c)) (\<lambda>_ s.
              (Inr (), recordSuccessfulRegisterTargetsOperation ord ?arn c s)))) cs s = (r, s')"
      using assms(4) cs(1) by (simp add: TM_RegisterTargets_def Let_def)
  next
    fix c s r s'
    assume inv: "cache_inv reg drn s" and run: "io_bind (onWorld (assumeRoleOf AssumeRole tgb)) (\<lambda>client.
            io_bind (onWorld (elbRegisterTargets client ?arn c)) (\<lambda>_ s.
              (Inr (), recordSuccessfulRegisterTargetsOperation ord ?arn c s))) s = (r, s')"
    show "changes reg drn ?arn (\<lambda>R. R \<union> tkey ` set c) r s s'"
    proof (rule changeChunk_ok [OF assms(1) inv _ _ _ entry_inv_register [OF _ assms(2)] run])
      fix client w r w' assume "client_ok reg drn client" "elbRegisterTargets client ?arn c w = (r, w')"
      from client_register [OF this] show "case r of Inl e \<Rightarrow> calm reg drn w w'
          | Inr _ \<Rightarrow> reg w' = (reg w)(?arn := reg w ?arn \<union> tkey ` set c)
              \<and> (\<forall>a. drn w' a \<subseteq> (if a = ?arn then drn w ?arn else drn w a))" by (auto split: sum.splits)
    qed (auto simp: recordSuccessfulRegisterTargetsOperation_def Let_def split: option.splits prod.splits if_splits)
  qed
  moreover have "fold (\<lambda>c R. R \<union> tkey ` set c) cs = (\<lambda>R. R \<union> tkey ` set (concat cs))" by (induction cs) (auto simp: fun_eq_iff)
  ultimately show ?thesis using cs(2) by simp
qed

lemma TM_DeregisterTargets_changes:
  assumes "cloud_ok reg drn AssumeRole" "cache_inv reg drn s" "TM_DeregisterTargets AssumeRole tgb targets s = (r, s')"
  shows "changes reg drn (TargetGroupARN (k8sSpec tgb)) (\<lambda>R. R - tkey ` set targets) r s s'"
proof -
  let ?arn = "TargetGroupARN (k8sSpec tgb)"
  obtain cs where cs: "chunkTargetDescriptions targets defaultDeregisterTargetsChunkSize = Some cs" "concat cs = targets"
    using chunk_loop_total [of 200 targets]
    by (auto simp: chunkTargetDescriptions_def defaultDeregisterTargetsChunkSize_def)
  have "changes reg drn ?arn (fold (\<lambda>c R. R - tkey ` set c) cs) r s s'"
  proof (rule io_iter_changes [OF _ assms(2)])
    show "io_iter (\<lambda>c. io_bind (onWorld (assumeRoleOf AssumeRole tgb)) (\<lambda>client.
            io_bind (onWorld (elbDeregisterTargets client ?arn c)) (\<lambda>_ s.
              (Inr (), recordSuccessfulDeregisterTargetsOperation ?arn c s)))) cs s = (r, s')"
      using assms(3) cs(1) by (simp add: TM_DeregisterTargets_def Let_def)
  next
    fix c s r s'
    assume inv: "cache_inv reg drn s" and run: "io_bind (onWorld (assumeRoleOf AssumeRole tgb)) (\<lambda>client.
            io_bind (onWorld (elbDeregisterTargets client ?arn c)) (\<lambda>_ s.
              (Inr (), recordSuccessfulDeregisterTargetsOperation ?arn c s))) s = (r, s')"
    show "changes reg drn ?arn (\<lambda>R. R - tkey ` set c) r s s'"
    proof (rule changeChunk_ok [OF assms(1) inv _ _ _ entry_inv_deregister run])
      fix client w r w' assume "client_ok reg drn client" "elbDeregisterTargets client ?arn c w = (r, w')"
      from client_deregister [OF this] show "case r of Inl e \<Rightarrow> calm reg drn w w'
          | Inr _ \<Rightarrow> reg w' = (reg w)(?arn := reg w ?arn - tkey ` set c)
              \<and> (\<forall>a. drn w' a \<subseteq> (if a = ?arn then drn w ?arn \<union> (tkey ` set c \<inter> reg w ?arn) else drn w a))"
        by (auto split: sum.splits if_splits)
    qed (auto simp: recordSuccessfulDeregisterTargetsOperation_def Let_def split: option.splits prod.splits if_splits)
  qed
  moreover have "fold (\<lambda>c R. R - tkey ` set c) cs = (\<lambda>R. R - tkey ` set (concat cs))" by (induction cs) (auto simp: fun_eq_iff)
  ultimately show ?thesis using cs(2) by simp
qed

text \<open>A listing that is exact: the registered targets are those listed as not draining.\<close>

definition exact_listing :: "target_key set \<Rightarrow> target_key set \<Rightarrow> TargetInfo list \<Rightarrow> bool" where
  "exact_listing R D ts \<longleftrightarrow> distinct (map (tkey \<circ> tiTarget) ts)
     \<and> tkey ` tiTarget ` set (filter (\<lambda>t. \<not> IsDraining t) ts) = R
     \<and> tkey ` tiTarget ` set (filter IsDraining ts) = D - R"

lemma healthy_not_draining: "IsHealthy t \<Longrightarrow> \<not> IsDraining t"
  by (auto simp: IsHealthy_def IsDraining_def split: option.splits)

lemma exact_listing_entry: "exact_listing R D ts \<Longrightarrow> entry_inv R D ts"
  unfolding exact_listing_def entry_inv_def set_filter using healthy_not_draining by blast

lemma exact_listingI:
  assumes "distinct (map (tkey \<circ> tiTarget) ts)" "R \<union> D \<subseteq> tkey ` tiTarget ` set ts"
    and mem: "\<And>t. t \<in> set ts \<Longrightarrow> tkey (tiTarget t) \<in> R \<union> D \<and> (IsDraining t \<longleftrightarrow> tkey (tiTarget t) \<notin> R)"
  shows "exact_listing R D ts"
proof -
  have ex: "\<exists>t \<in> set ts. k = tkey (tiTarget t)" if "k \<in> R \<union> D" for k using assms(2) that by blast
  have "tkey ` tiTarget ` set (filter (\<lambda>t. \<not> IsDraining t) ts) = R"
  proof
    show "R \<subseteq> tkey ` tiTarget ` set (filter (\<lambda>t. \<not> IsDraining t) ts)" using ex mem by fastforce
  qed (use mem in auto)
  moreover have "tkey ` tiTarget ` set (filter IsDraining ts) = D - R"
  proof
    show "D - R \<subseteq> tkey ` tiTarget ` set (filter IsDraining ts)" using ex mem by fastforce
    show "tkey ` tiTarget ` set (filter IsDraining ts) \<subseteq> D - R" unfolding set_filter using mem by blast
  qed
  ultimately show ?thesis using assms(1) unfolding exact_listing_def by blast
qed

lemma describes_all_exact:
  assumes "describes reg drn w arn (reg w arn \<union> drn w arn) ts"
  shows "exact_listing (reg w arn) (drn w arn) ts"
  using assms by (intro exact_listingI) (auto simp: describes_def Let_def)

lemma refreshed_exact:
  assumes "entry_inv (reg w arn) (drn w arn) cached"
    and "describes reg drn w arn (tkey ` set (map tiTarget (filter (\<lambda>t. \<not> IsHealthy t) cached))) infos"
  shows "exact_listing (reg w arn) (drn w arn) (filter IsHealthy cached @ filter (\<lambda>t. \<not> IsNotRegistered t) infos)"
proof -
  let ?H = "filter IsHealthy cached" and ?I = "filter (\<lambda>t. \<not> IsNotRegistered t) infos"
  let ?L = "reg w arn \<union> drn w arn"
  have dc: "distinct (map (tkey \<circ> tiTarget) cached)" and sub: "?L \<subseteq> tkey ` tiTarget ` set cached"
    and h: "\<And>t. t \<in> set ?H \<Longrightarrow> tkey (tiTarget t) \<in> reg w arn"
    using assms(1) by (auto simp: entry_inv_def)
  have di: "distinct (map (tkey \<circ> tiTarget) infos)"
    and ki: "tkey ` tiTarget ` set infos = tkey ` tiTarget ` set (filter (\<lambda>t. \<not> IsHealthy t) cached)"
    and st: "\<And>t. t \<in> set infos \<Longrightarrow> (IsNotRegistered t \<longleftrightarrow> tkey (tiTarget t) \<notin> ?L)
               \<and> (tkey (tiTarget t) \<in> ?L \<longrightarrow> (IsDraining t \<longleftrightarrow> tkey (tiTarget t) \<notin> reg w arn))"
    using assms(2) by (auto simp: describes_def Let_def)
  have inj: "tkey (tiTarget t) = tkey (tiTarget t') \<Longrightarrow> t = t'" if "t \<in> set cached" "t' \<in> set cached" for t t'
    using dc that by (auto simp: distinct_map inj_on_def)
  have "tkey ` tiTarget ` set ?H \<inter> tkey ` tiTarget ` set infos = {}"
    unfolding ki using inj by fastforce
  then have d: "distinct (map (tkey \<circ> tiTarget) (?H @ ?I))"
    using dc di by (auto simp: distinct_map_filter image_iff)
  have all: "k \<in> tkey ` tiTarget ` set (?H @ ?I)" if kL: "k \<in> ?L" for k
  proof -
    obtain t where t: "t \<in> set cached" "k = tkey (tiTarget t)" using sub kL by blast
    show ?thesis
    proof (cases "IsHealthy t")
      case False
      then have "k \<in> tkey ` tiTarget ` set infos" using t unfolding ki by auto
      then show ?thesis using st kL by auto
    qed (use t in auto)
  qed
  have mem: "tkey (tiTarget t) \<in> ?L \<and> (IsDraining t \<longleftrightarrow> tkey (tiTarget t) \<notin> reg w arn)" if "t \<in> set (?H @ ?I)" for t
    using that h [of t] st [of t] healthy_not_draining [of t] by auto
  show ?thesis using d all mem by (intro exact_listingI) blast+
qed

lemma listTargetsFromAWS_ok:
  assumes "cloud_ok reg drn AssumeRole" "listTargetsFromAWS AssumeRole tgb targets s = (r, s')"
  obtains w where "s' = s\<lparr>world := w\<rparr>" "calm reg drn (world s) w"
    "\<And>infos. r = Inr infos \<Longrightarrow> describes reg drn w (TargetGroupARN (k8sSpec tgb))
       (if targets = [] then reg w (TargetGroupARN (k8sSpec tgb)) \<union> drn w (TargetGroupARN (k8sSpec tgb))
        else tkey ` set targets) infos"
proof -
  let ?arn = "TargetGroupARN (k8sSpec tgb)"
  obtain rc w1 where a: "assumeRoleOf AssumeRole tgb (world s) = (rc, w1)" by fastforce
  note c1 = assumeRole_calm [OF assms(1) a]
  show ?thesis
  proof (cases rc)
    case (Inl e)
    show ?thesis
      by (rule that [of w1]) (use assms(2) a Inl c1(1) in \<open>simp_all add: listTargetsFromAWS_def io_bind_def onWorld_def split: prod.splits\<close>)
  next
    case (Inr c)
    obtain rr w2 where b: "elbDescribeTargetHealth c ?arn (targetByIdPort targets) w1 = (rr, w2)" by fastforce
    have d: "calm reg drn w1 w2" "case rr of Inl e \<Rightarrow> True | Inr resp \<Rightarrow> \<exists>infos. listedTargets resp = Inr infos
        \<and> describes reg drn w2 ?arn (if targets = [] then reg w2 ?arn \<union> drn w2 ?arn else tkey ` set targets) infos"
      using client_describe [OF c1(2) [OF Inr] b] by (simp_all only: targetByIdPort_simps)
    show ?thesis
    proof (rule that [of w2])
      show "s' = s\<lparr>world := w2\<rparr>"
        using assms(2) a b Inr by (auto simp: listTargetsFromAWS_def io_bind_def onWorld_def split: sum.splits)
      show "calm reg drn (world s) w2" by (rule calm_trans [OF c1(1) d(1)])
    next
      fix infos assume "r = Inr infos"
      then obtain resp where "rr = Inr resp" "listedTargets resp = Inr infos"
        using assms(2) a b Inr by (auto simp: listTargetsFromAWS_def io_bind_def onWorld_def split: sum.splits)
      then show "describes reg drn w2 ?arn (if targets = [] then reg w2 ?arn \<union> drn w2 ?arn else tkey ` set targets) infos"
        using d(2) by simp
    qed
  qed
qed

lemma cache_inv_put:
  assumes "cache_inv reg drn s" "entry_inv (reg (world s) arn) (drn (world s) arn) ts"
  shows "cache_inv reg drn (s\<lparr>targetsCache := mput arn ts (targetsCache s)\<rparr>)"
  using assms by (simp add: cache_inv_def)

lemma refreshUnhealthyTargets_ok:
  assumes "cloud_ok reg drn AssumeRole" "refreshUnhealthyTargets AssumeRole tgb cached s = (r, s')"
    and "entry_inv (reg (world s) (TargetGroupARN (k8sSpec tgb))) (drn (world s) (TargetGroupARN (k8sSpec tgb))) cached"
  obtains w where "s' = s\<lparr>world := w\<rparr>" "calm reg drn (world s) w"
    "\<And>ts. r = Inr ts \<Longrightarrow> exact_listing (reg w (TargetGroupARN (k8sSpec tgb))) (drn w (TargetGroupARN (k8sSpec tgb))) ts"
proof -
  let ?arn = "TargetGroupARN (k8sSpec tgb)" and ?U = "map tiTarget (filter (\<lambda>t. \<not> IsHealthy t) cached)"
  show ?thesis
  proof (cases "?U = []")
    case True
    have "describes reg drn (world s) ?arn (tkey ` set ?U) []" using True by (simp add: describes_def)
    note ex = refreshed_exact [OF assms(3) this]
    have "r = Inr (filter IsHealthy cached)" "s' = s" using assms(2) True by (simp_all add: refreshUnhealthyTargets_def)
    then show ?thesis using that [of "world s"] ex by simp
  next
    case False
    obtain rl s1 where l: "listTargetsFromAWS AssumeRole tgb ?U s = (rl, s1)" by fastforce
    from listTargetsFromAWS_ok [OF assms(1) l] obtain w where w: "s1 = s\<lparr>world := w\<rparr>" "calm reg drn (world s) w"
      "\<And>infos. rl = Inr infos \<Longrightarrow> describes reg drn w ?arn (tkey ` set ?U) infos" using False by auto
    have res: "s' = s1" "\<And>ts. r = Inr ts \<Longrightarrow> \<exists>infos. rl = Inr infos \<and>
        ts = filter IsHealthy cached @ filter (\<lambda>t. \<not> IsNotRegistered t) infos"
      using assms(2) l False by (auto simp: refreshUnhealthyTargets_def io_bind_def split: sum.splits)
    have "entry_inv (reg w ?arn) (drn w ?arn) cached"
      using assms(3) w(2) entry_inv_drained [of _ "drn (world s) ?arn"] by (simp add: calm_def)
    note cached = this
    show ?thesis
    proof (rule that [OF _ w(2)])
      show "s' = s\<lparr>world := w\<rparr>" using res(1) w(1) by simp
    next
      fix ts assume "r = Inr ts"
      then obtain infos where "rl = Inr infos" "ts = filter IsHealthy cached @ filter (\<lambda>t. \<not> IsNotRegistered t) infos"
        using res(2) by blast
      then show "exact_listing (reg w ?arn) (drn w ?arn) ts" using refreshed_exact [OF cached w(3)] by simp
    qed
  qed
qed

lemma TM_ListTargets_ok:
  assumes "cloud_ok reg drn AssumeRole" "cache_inv reg drn s" "TM_ListTargets AssumeRole tgb s = (r, s')"
  shows "cache_inv reg drn s' \<and> calm reg drn (world s) (world s')"
    and "r = Inr ts \<Longrightarrow> exact_listing (reg (world s') (TargetGroupARN (k8sSpec tgb))) (drn (world s') (TargetGroupARN (k8sSpec tgb))) ts"
proof -
  let ?arn = "TargetGroupARN (k8sSpec tgb)"
  obtain rl s1 w where w: "s1 = s\<lparr>world := w\<rparr>" "calm reg drn (world s) w"
      "\<And>ts. rl = Inr ts \<Longrightarrow> exact_listing (reg w ?arn) (drn w ?arn) ts"
      "(r, s') = (case rl of Inl e \<Rightarrow> (Inl e, s1) | Inr ts \<Rightarrow> (Inr ts, s1\<lparr>targetsCache := mput ?arn ts (targetsCache s1)\<rparr>))"
  proof (cases "mget (targetsCache s) ?arn")
    case None
    obtain rl s1 where l: "listTargetsFromAWS AssumeRole tgb [] s = (rl, s1)" by fastforce
    from listTargetsFromAWS_ok [OF assms(1) l] obtain w where w: "s1 = s\<lparr>world := w\<rparr>" "calm reg drn (world s) w"
      "\<And>infos. rl = Inr infos \<Longrightarrow> describes reg drn w ?arn (reg w ?arn \<union> drn w ?arn) infos" by auto
    have "\<And>ts. rl = Inr ts \<Longrightarrow> exact_listing (reg w ?arn) (drn w ?arn) ts" by (rule describes_all_exact [OF w(3)])
    then show ?thesis using that [of s1 w rl] w(1,2) None l assms(3)
      by (auto simp: TM_ListTargets_def refreshAllTargets_def io_bind_def Let_def split: sum.splits)
  next
    case (Some cached)
    obtain rl s1 where l: "refreshUnhealthyTargets AssumeRole tgb cached s = (rl, s1)" by fastforce
    have "entry_inv (reg (world s) ?arn) (drn (world s) ?arn) cached" using assms(2) Some by (simp add: cache_inv_def)
    from refreshUnhealthyTargets_ok [OF assms(1) l this] obtain w where "s1 = s\<lparr>world := w\<rparr>" "calm reg drn (world s) w"
      "\<And>ts. rl = Inr ts \<Longrightarrow> exact_listing (reg w ?arn) (drn w ?arn) ts" by auto
    then show ?thesis using that [of s1 w rl] Some l assms(3)
      by (auto simp: TM_ListTargets_def io_bind_def Let_def split: sum.splits)
  qed
  have i1: "cache_inv reg drn s1" unfolding w(1) by (rule cache_inv_calm [OF assms(2) w(2)])
  show "cache_inv reg drn s' \<and> calm reg drn (world s) (world s')"
  proof (cases rl)
    case (Inr ts)
    then show ?thesis using cache_inv_put [OF i1] exact_listing_entry [OF w(3) [OF Inr]] w by simp
  qed (use w i1 in simp)
  show "exact_listing (reg (world s') ?arn) (drn (world s') ?arn) ts" if "r = Inr ts"
    using that w(3) [of ts] w(1,4) by (auto split: sum.splits)
qed

text \<open>Without the invariant, and also after an error: registering only adds the given targets, deregistering only removes them.\<close>

lemma io_iter_relation:
  assumes "\<And>c s r s'. c \<in> set cs \<Longrightarrow> step c s = (r, s') \<Longrightarrow> P s s'" "\<And>s. P s s" "\<And>a b c. P a b \<Longrightarrow> P b c \<Longrightarrow> P a c"
    and "io_iter step cs s = (r, s')"
  shows "P s s'"
  using assms(1,4)
proof (induction cs arbitrary: s)
  case Nil
  then show ?case using assms(2) by simp
next
  case (Cons c cs)
  obtain r1 s1 where st: "step c s = (r1, s1)" by fastforce
  have P1: "P s s1" using Cons.prems(1) [OF _ st] by simp
  show ?case
  proof (cases r1)
    case (Inl e)
    then show ?thesis using Cons.prems(2) st P1 by simp
  next
    case (Inr u)
    then have "io_iter step cs s1 = (r, s')" using Cons.prems(2) st by simp
    then have "P s1 s'" using Cons.IH Cons.prems(1) by (meson list.set_intros(2))
    then show ?thesis using P1 assms(3) by blast
  qed
qed

definition within :: "'w target_view \<Rightarrow> string \<Rightarrow> target_key set \<Rightarrow> target_key set \<Rightarrow> ('w, 'z) targets_state_scheme \<Rightarrow> ('w, 'z) targets_state_scheme \<Rightarrow> bool" where
  "within reg arn removed added s s' \<longleftrightarrow> reg (world s) arn - removed \<subseteq> reg (world s') arn \<and> reg (world s') arn \<subseteq> reg (world s) arn \<union> added
     \<and> (\<forall>a. a \<noteq> arn \<longrightarrow> reg (world s') a = reg (world s) a)"

lemma within_refl: "within reg arn rem add s s"
  by (auto simp: within_def)

lemma within_trans: "within reg arn rem add s s' \<Longrightarrow> within reg arn rem add s' s'' \<Longrightarrow> within reg arn rem add s s''"
  unfolding within_def by (intro conjI) (blast, blast, simp)

lemma changeChunk_within:
  fixes upd :: "('w, 'z) targets_state_scheme \<Rightarrow> ('w, 'z) targets_state_scheme"
  assumes "cloud_ok reg drn AssumeRole"
    and call: "\<And>c w r w'. client_ok reg drn c \<Longrightarrow> call c w = (r, w') \<Longrightarrow>
          reg w arn - rem \<subseteq> reg w' arn \<and> reg w' arn \<subseteq> reg w arn \<union> add \<and> (\<forall>a. a \<noteq> arn \<longrightarrow> reg w' a = reg w a)"
    and upd: "\<And>s. world (upd s) = world s"
    and run: "io_bind (onWorld (assumeRoleOf AssumeRole tgb)) (\<lambda>c. io_bind (onWorld (call c)) (\<lambda>_ s. (Inr (), upd s))) s = (r, s')"
  shows "within reg arn rem add s s'"
proof -
  obtain rc w1 where a: "assumeRoleOf AssumeRole tgb (world s) = (rc, w1)" by fastforce
  note c1 = assumeRole_calm [OF assms(1) a]
  show ?thesis
  proof (cases rc)
    case (Inl e)
    then show ?thesis using run a c1(1) by (auto simp: io_bind_def onWorld_def within_def calm_def)
  next
    case (Inr c)
    obtain rr w2 where b: "call c w1 = (rr, w2)" by fastforce
    have "world s' = w2" using run a b Inr upd by (cases rr) (auto simp: io_bind_def onWorld_def)
    then show ?thesis using call [OF c1(2) [OF Inr] b] c1(1) by (simp add: within_def calm_def)
  qed
qed

lemma TM_RegisterTargets_within:
  assumes "cloud_ok reg drn AssumeRole" "TM_RegisterTargets AssumeRole ord tgb targets s = (r, s')"
  shows "within reg (TargetGroupARN (k8sSpec tgb)) {} (tkey ` set targets) s s'"
proof -
  let ?arn = "TargetGroupARN (k8sSpec tgb)"
  obtain cs where cs: "chunkTargetDescriptions targets defaultRegisterTargetsChunkSize = Some cs" "concat cs = targets"
    using chunk_loop_total [of 200 targets]
    by (auto simp: chunkTargetDescriptions_def defaultRegisterTargetsChunkSize_def)
  show ?thesis
  proof (rule io_iter_relation [where P = "within reg ?arn {} (tkey ` set targets)", OF _ within_refl within_trans])
    show "io_iter (\<lambda>c. io_bind (onWorld (assumeRoleOf AssumeRole tgb)) (\<lambda>client.
            io_bind (onWorld (elbRegisterTargets client ?arn c)) (\<lambda>_ s.
              (Inr (), recordSuccessfulRegisterTargetsOperation ord ?arn c s)))) cs s = (r, s')"
      using assms(2) cs(1) by (simp add: TM_RegisterTargets_def Let_def)
  next
    fix c s r s'
    assume c: "c \<in> set cs" and run: "io_bind (onWorld (assumeRoleOf AssumeRole tgb)) (\<lambda>client.
            io_bind (onWorld (elbRegisterTargets client ?arn c)) (\<lambda>_ s.
              (Inr (), recordSuccessfulRegisterTargetsOperation ord ?arn c s))) s = (r, s')"
    have sub: "tkey ` set c \<subseteq> tkey ` set targets" unfolding cs(2) [symmetric] using c by (intro image_mono) auto
    show "within reg ?arn {} (tkey ` set targets) s s'"
    proof (rule changeChunk_within [OF assms(1) _ _ run])
      fix client w r w' assume "client_ok reg drn client" "elbRegisterTargets client ?arn c w = (r, w')"
      from client_register [OF this] sub show "reg w ?arn - {} \<subseteq> reg w' ?arn \<and> reg w' ?arn \<subseteq> reg w ?arn \<union> tkey ` set targets
          \<and> (\<forall>a. a \<noteq> ?arn \<longrightarrow> reg w' a = reg w a)" by (auto simp: calm_def split: sum.splits)
    qed (simp add: recordSuccessfulRegisterTargetsOperation_def Let_def split: option.splits prod.splits)
  qed
qed

lemma TM_DeregisterTargets_within:
  assumes "cloud_ok reg drn AssumeRole" "TM_DeregisterTargets AssumeRole tgb targets s = (r, s')"
  shows "within reg (TargetGroupARN (k8sSpec tgb)) (tkey ` set targets) {} s s'"
proof -
  let ?arn = "TargetGroupARN (k8sSpec tgb)"
  obtain cs where cs: "chunkTargetDescriptions targets defaultDeregisterTargetsChunkSize = Some cs" "concat cs = targets"
    using chunk_loop_total [of 200 targets]
    by (auto simp: chunkTargetDescriptions_def defaultDeregisterTargetsChunkSize_def)
  show ?thesis
  proof (rule io_iter_relation [where P = "within reg ?arn (tkey ` set targets) {}", OF _ within_refl within_trans])
    show "io_iter (\<lambda>c. io_bind (onWorld (assumeRoleOf AssumeRole tgb)) (\<lambda>client.
            io_bind (onWorld (elbDeregisterTargets client ?arn c)) (\<lambda>_ s.
              (Inr (), recordSuccessfulDeregisterTargetsOperation ?arn c s)))) cs s = (r, s')"
      using assms(2) cs(1) by (simp add: TM_DeregisterTargets_def Let_def)
  next
    fix c s r s'
    assume c: "c \<in> set cs" and run: "io_bind (onWorld (assumeRoleOf AssumeRole tgb)) (\<lambda>client.
            io_bind (onWorld (elbDeregisterTargets client ?arn c)) (\<lambda>_ s.
              (Inr (), recordSuccessfulDeregisterTargetsOperation ?arn c s))) s = (r, s')"
    have sub: "tkey ` set c \<subseteq> tkey ` set targets" unfolding cs(2) [symmetric] using c by (intro image_mono) auto
    show "within reg ?arn (tkey ` set targets) {} s s'"
    proof (rule changeChunk_within [OF assms(1) _ _ run])
      fix client w r w' assume "client_ok reg drn client" "elbDeregisterTargets client ?arn c w = (r, w')"
      from client_deregister [OF this] sub show "reg w ?arn - tkey ` set targets \<subseteq> reg w' ?arn \<and> reg w' ?arn \<subseteq> reg w ?arn \<union> {}
          \<and> (\<forall>a. a \<noteq> ?arn \<longrightarrow> reg w' a = reg w a)" by (auto simp: calm_def split: sum.splits)
    qed (simp add: recordSuccessfulDeregisterTargetsOperation_def Let_def split: option.splits prod.splits)
  qed
qed

lemma TM_changes_Nil:
  "TM_RegisterTargets AssumeRole ord tgb [] s = (Inr (), s)" "TM_DeregisterTargets AssumeRole tgb [] s = (Inr (), s)"
  by (simp_all add: TM_RegisterTargets_def TM_DeregisterTargets_def chunkTargetDescriptions_def chunk_loop.simps [of "[]"] Let_def)

section \<open>The interface of the targets manager\<close>

text \<open>
  What a client of a \<open>TargetsManager\<close> relies on: listing shows the registered targets, registering and deregistering change
  just them. The parameter \<open>c\<close> is the environment, which \<open>ok\<close> says to behave as documented.
\<close>

locale targets_store =
  fixes ok :: "'c \<Rightarrow> bool"
    and inv :: "'c \<Rightarrow> 's \<Rightarrow> bool"
    and registered :: "'c \<Rightarrow> 's \<Rightarrow> string \<Rightarrow> target_key set"
    and list_targets :: "'c \<Rightarrow> TargetGroupBinding \<Rightarrow> ('s, TargetInfo list) io"
    and register :: "'c \<Rightarrow> TargetGroupBinding \<Rightarrow> ElbTargetDescription list \<Rightarrow> ('s, unit) io"
    and deregister :: "'c \<Rightarrow> TargetGroupBinding \<Rightarrow> ElbTargetDescription list \<Rightarrow> ('s, unit) io"
  assumes list_ok: "ok c \<Longrightarrow> inv c s \<Longrightarrow> list_targets c tgb s = (rl, s') \<Longrightarrow> inv c s' \<and> registered c s' = registered c s
      \<and> (\<forall>ts. rl = Inr ts \<longrightarrow> distinct (map (tkey \<circ> tiTarget) ts)
           \<and> tkey ` tiTarget ` set (filter (\<lambda>t. \<not> IsDraining t) ts) = registered c s (TargetGroupARN (k8sSpec tgb)))"
    and register_ok: "ok c \<Longrightarrow> inv c s \<Longrightarrow> register c tgb ts s = (r, s') \<Longrightarrow> inv c s'
      \<and> (r = Inr () \<longrightarrow> registered c s' (TargetGroupARN (k8sSpec tgb)) = registered c s (TargetGroupARN (k8sSpec tgb)) \<union> tkey ` set ts)"
    and deregister_ok: "ok c \<Longrightarrow> inv c s \<Longrightarrow> deregister c tgb ts s = (r, s') \<Longrightarrow> inv c s'
      \<and> (r = Inr () \<longrightarrow> registered c s' (TargetGroupARN (k8sSpec tgb)) = registered c s (TargetGroupARN (k8sSpec tgb)) - tkey ` set ts)"
begin

text \<open>
  The plan of a reconciliation: list, deregister what is listed and not wanted, register what is wanted and not
  listed. The steps in between (\<open>s1\<close> to \<open>s2\<close>, \<open>s3\<close> to \<open>s4\<close>) may do anything that does not touch the targets.
\<close>

lemma sync:
  assumes "ok c" "inv c s"
    and l: "list_targets c tgb s = (Inr ts, s1)"
    and b1: "inv c s2" "registered c s2 = registered c s1"
    and d: "deregister c tgb old s2 = (Inr (), s3)"
      "tkey ` set old = registered c s (TargetGroupARN (k8sSpec tgb)) - wanted"
    and b2: "inv c s4" "registered c s4 = registered c s3"
    and r: "register c tgb new s4 = (Inr (), s5)"
      "tkey ` set new = wanted - registered c s (TargetGroupARN (k8sSpec tgb))"
  shows "inv c s5 \<and> registered c s5 (TargetGroupARN (k8sSpec tgb)) = wanted"
proof -
  have "registered c s1 = registered c s" using list_ok [OF assms(1,2) l] by blast
  moreover note deregister_ok [OF assms(1) b1(1) d(1)] register_ok [OF assms(1) b2(1) r(1)]
  ultimately show ?thesis using b1(2) b2(2) d(2) r(2) by auto
qed

end

record 'w targets_env =
  teAssumeRole :: "'w assume_role"
  teOrder :: "(string \<times> ElbTargetDescription) list \<Rightarrow> (string \<times> ElbTargetDescription) list"
  teRegistered :: "'w target_view"
  teDraining :: "'w target_view"

definition env_ok :: "('w, 'x) targets_env_scheme \<Rightarrow> bool" where
  "env_ok e \<longleftrightarrow> cloud_ok (teRegistered e) (teDraining e) (teAssumeRole e) \<and> go_order (teOrder e)"

interpretation tm: targets_store env_ok "\<lambda>e. cache_inv (teRegistered e) (teDraining e)" "\<lambda>e s. teRegistered e (world s)"
    "\<lambda>e. TM_ListTargets (teAssumeRole e)" "\<lambda>e. TM_RegisterTargets (teAssumeRole e) (teOrder e)" "\<lambda>e. TM_DeregisterTargets (teAssumeRole e)"
proof (unfold_locales, goal_cases)
  case (1 e s tgb r s')
  then have ok: "cloud_ok (teRegistered e) (teDraining e) (teAssumeRole e)" by (simp add: env_ok_def)
  note L = TM_ListTargets_ok [OF ok 1(2,3)]
  then have "teRegistered e (world s') = teRegistered e (world s)" by (simp add: calm_def)
  then show ?case using L by (simp add: exact_listing_def)
next
  case (2 e s tgb ts r s')
  then show ?case
    using TM_RegisterTargets_changes [of "teRegistered e" "teDraining e" "teAssumeRole e" "teOrder e" s tgb ts r s']
    by (auto simp: env_ok_def changes_def)
next
  case (3 e s tgb ts r s')
  then show ?case
    using TM_DeregisterTargets_changes [of "teRegistered e" "teDraining e" "teAssumeRole e" s tgb ts r s']
    by (auto simp: env_ok_def changes_def)
qed

section \<open>The manager over time\<close>

text \<open>
  The steps of the manager and of its surroundings: the operations, for any binding, with success or failure, an
  entry of the cache that expires, and a cloud in which drainings end and the health of targets changes.
\<close>

inductive targets_step :: "('w, 'x) targets_env_scheme \<Rightarrow> ('w, 'z) targets_state_scheme \<Rightarrow> ('w, 'z) targets_state_scheme \<Rightarrow> bool"
  for e :: "('w, 'x) targets_env_scheme" where
  step_register: "TM_RegisterTargets (teAssumeRole e) (teOrder e) tgb targets s = (r, s') \<Longrightarrow> targets_step e s s'"
| step_deregister: "TM_DeregisterTargets (teAssumeRole e) tgb targets s = (r, s') \<Longrightarrow> targets_step e s s'"
| step_list: "TM_ListTargets (teAssumeRole e) tgb s = (r, s') \<Longrightarrow> targets_step e s s'"
| step_expire: "targets_step e s (s\<lparr>targetsCache := mdel arn (targetsCache s)\<rparr>)"
| step_cloud: "calm (teRegistered e) (teDraining e) (world s) w \<Longrightarrow> targets_step e s (s\<lparr>world := w\<rparr>)"

lemma targets_step_inv:
  assumes "targets_step e s s'" "env_ok e" "cache_inv (teRegistered e) (teDraining e) s"
  shows "cache_inv (teRegistered e) (teDraining e) s'"
  using assms
proof (induction rule: targets_step.induct)
  case (step_register tgb targets s r s')
  then show ?case using tm.register_ok by blast
next
  case (step_deregister tgb targets s r s')
  then show ?case using tm.deregister_ok by blast
next
  case (step_list tgb s r s')
  then show ?case using tm.list_ok by blast
next
  case (step_expire s arn)
  then show ?case by (simp add: cache_inv_def)
next
  case (step_cloud s w)
  then show ?case by (simp add: cache_inv_calm)
qed

lemma targets_reachable_inv:
  assumes "(targets_step e)\<^sup>*\<^sup>* s0 s" "env_ok e" "targetsCache s0 = []"
  shows "cache_inv (teRegistered e) (teDraining e) s"
  using assms
proof (induction rule: rtranclp_induct)
  case base
  then show ?case by (simp add: cache_inv_def)
next
  case (step s s')
  then show ?case using targets_step_inv by blast
qed

text \<open>
  C4. The cached targets manager implements the set of registered targets. After any sequence of its operations,
  of expiries and of changes of health, starting with an empty cache: a listing that succeeds shows every target once,
  those not draining are exactly the registered targets, those draining exactly the others that AWS still knows, and it changes nothing;
  a successful registration adds exactly the given targets and a successful deregistration removes them, however they are chunked.
\<close>

theorem cached_targets_refine:
  assumes "env_ok e" "(targets_step e)\<^sup>*\<^sup>* s0 s" "targetsCache s0 = []"
  shows "(\<forall>tgb ts s'. TM_ListTargets (teAssumeRole e) tgb s = (Inr ts, s') \<longrightarrow>
           teRegistered e (world s') = teRegistered e (world s)
           \<and> exact_listing (teRegistered e (world s') (TargetGroupARN (k8sSpec tgb))) (teDraining e (world s') (TargetGroupARN (k8sSpec tgb))) ts)
       \<and> (\<forall>tgb targets s'. TM_RegisterTargets (teAssumeRole e) (teOrder e) tgb targets s = (Inr (), s') \<longrightarrow>
           teRegistered e (world s') = (teRegistered e (world s))
             (TargetGroupARN (k8sSpec tgb) := teRegistered e (world s) (TargetGroupARN (k8sSpec tgb)) \<union> tkey ` set targets))
       \<and> (\<forall>tgb targets s'. TM_DeregisterTargets (teAssumeRole e) tgb targets s = (Inr (), s') \<longrightarrow>
           teRegistered e (world s') = (teRegistered e (world s))
             (TargetGroupARN (k8sSpec tgb) := teRegistered e (world s) (TargetGroupARN (k8sSpec tgb)) - tkey ` set targets))"
proof -
  have ok: "cloud_ok (teRegistered e) (teDraining e) (teAssumeRole e)" "go_order (teOrder e)" using assms(1) by (simp_all add: env_ok_def)
  note inv = targets_reachable_inv [OF assms(2,1,3)]
  show ?thesis
  proof (intro conjI allI impI)
    fix tgb ts s' assume run: "TM_ListTargets (teAssumeRole e) tgb s = (Inr ts, s')"
    show "teRegistered e (world s') = teRegistered e (world s)" using TM_ListTargets_ok(1) [OF ok(1) inv run] by (simp add: calm_def)
    show "exact_listing (teRegistered e (world s') (TargetGroupARN (k8sSpec tgb))) (teDraining e (world s') (TargetGroupARN (k8sSpec tgb))) ts"
      by (rule TM_ListTargets_ok(2) [OF ok(1) inv run refl])
  next
    fix tgb targets s' assume run: "TM_RegisterTargets (teAssumeRole e) (teOrder e) tgb targets s = (Inr (), s')"
    then show "teRegistered e (world s') = (teRegistered e (world s))
             (TargetGroupARN (k8sSpec tgb) := teRegistered e (world s) (TargetGroupARN (k8sSpec tgb)) \<union> tkey ` set targets)"
      using TM_RegisterTargets_changes [OF ok inv run] by (auto simp: changes_def fun_eq_iff)
  next
    fix tgb targets s' assume run: "TM_DeregisterTargets (teAssumeRole e) tgb targets s = (Inr (), s')"
    then show "teRegistered e (world s') = (teRegistered e (world s))
             (TargetGroupARN (k8sSpec tgb) := teRegistered e (world s) (TargetGroupARN (k8sSpec tgb)) - tkey ` set targets)"
      using TM_DeregisterTargets_changes [OF ok(1) inv run] by (auto simp: changes_def fun_eq_iff)
  qed
qed

section \<open>A cloud in memory\<close>

text \<open>One target group, \<open>tg\<close>, whose targets are healthy at once and gone at once; beside it the rest of the world.\<close>

definition memInfo :: "target_key list \<Rightarrow> target_key \<Rightarrow> ElbTargetDescription option \<times> TargetHealth option" where
  "memInfo ks k =
     (Some \<lparr>tdId = Some (fst k), tdPort = Some (snd k), tdAvailabilityZone = None, tdQuicServerId = None\<rparr>,
      Some (if k \<in> set ks then \<lparr>thState = ''healthy'', thReason = '''', thDescription = None\<rparr>
            else \<lparr>thState = ''unused'', thReason = ''Target.NotRegistered'', thDescription = None\<rparr>))"

definition memClient :: "(target_key list \<times> 'x) targets_client" where
  "memClient =
     \<lparr>elbRegisterTargets = (\<lambda>arn ts (ks, x).
        if arn = ''tg'' then (Inr (), (ks @ map tkey ts, x)) else (Inl (APIError ''TargetGroupNotFound'' ''''), (ks, x))),
      elbDeregisterTargets = (\<lambda>arn ts (ks, x).
        if arn = ''tg'' then (Inr (), (filter (\<lambda>k. k \<notin> set (map tkey ts)) ks, x)) else (Inl (APIError ''TargetGroupNotFound'' ''''), (ks, x))),
      elbDescribeTargetHealth = (\<lambda>arn ts (ks, x).
        if arn = ''tg'' then (Inr (map (memInfo ks) (remdups (if ts = [] then ks else map tkey ts))), (ks, x))
        else (Inl (APIError ''TargetGroupNotFound'' ''''), (ks, x)))\<rparr>"

definition memEnv :: "(target_key list \<times> 'x) targets_env" where
  "memEnv = \<lparr>teAssumeRole = (\<lambda>role ext w. (Inr memClient, w)), teOrder = (\<lambda>xs. xs),
     teRegistered = (\<lambda>w arn. if arn = ''tg'' then set (fst w) else {}), teDraining = (\<lambda>w arn. {})\<rparr>"

lemma memInfo_listed:
  "listedTargets (map (memInfo ks) qs) = Inr (map (\<lambda>k. \<lparr>tiTarget = the (fst (memInfo ks k)), tiHealth = snd (memInfo ks k)\<rparr>) qs)"
  by (induction qs) (auto simp: listedTargets_def memInfo_def)

lemma memEnv_ok: "env_ok (memEnv :: (target_key list \<times> 'x) targets_env)"
proof -
  have desc: "describes (\<lambda>w arn. if arn = ''tg'' then set (fst w) else {}) (\<lambda>w arn. {}) (ks, x :: 'x) ''tg'' (set qs)
      (map (\<lambda>k. \<lparr>tiTarget = the (fst (memInfo ks k)), tiHealth = snd (memInfo ks k)\<rparr>) qs)" if "distinct qs" for ks x qs
  proof -
    have k: "tkey (the (fst (memInfo ks k))) = k" for k by (simp add: memInfo_def tkey_def ToInt32_def)
    show ?thesis
      using that by (auto simp: describes_def k image_image comp_def Let_def)
        (auto simp: memInfo_def IsHealthy_def IsNotRegistered_def IsDraining_def split: if_splits)
  qed
  have desc_some: "describes (\<lambda>w arn. if arn = ''tg'' then set (fst w) else {}) (\<lambda>w arn. {}) (ks, x :: 'x) ''tg'' (tkey ` set ts)
      (map (\<lambda>k. \<lparr>tiTarget = the (fst (memInfo ks k)), tiHealth = snd (memInfo ks k)\<rparr>) (remdups (map tkey ts)))" for ks x ts
    using desc [OF distinct_remdups, of ks x "map tkey ts"] by simp
  have "client_ok (\<lambda>w arn. if arn = ''tg'' then set (fst w) else {}) (\<lambda>w arn. {}) (memClient :: (target_key list \<times> 'x) targets_client)"
    unfolding client_ok_def
    using desc [OF distinct_remdups] desc_some
    by (auto simp: memClient_def calm_def memInfo_listed fun_eq_iff split: if_splits prod.splits)
  then show ?thesis by (simp add: env_ok_def cloud_ok_def memEnv_def)
qed

definition exTargetsTGB :: TargetGroupBinding where
  "exTargetsTGB = (exK8sTGB ''x'')\<lparr>k8sSpec := (k8sSpec (exK8sTGB ''x''))\<lparr>TargetGroupARN := ''tg''\<rparr>\<rparr>"

definition exTarget :: "string \<Rightarrow> ElbTargetDescription" where
  "exTarget ip = \<lparr>tdId = Some ip, tdPort = Some 80, tdAvailabilityZone = None, tdQuicServerId = None\<rparr>"

abbreviation unitEnv :: "(target_key list \<times> unit) targets_env" where
  "unitEnv \<equiv> memEnv"

text \<open>A manager that has listed one target and then registered another.\<close>

definition exTargets :: "(target_key list \<times> unit) targets_state" where
  "exTargets = snd (TM_RegisterTargets (teAssumeRole unitEnv) (teOrder unitEnv) exTargetsTGB [exTarget ''b'']
     (snd (TM_ListTargets (teAssumeRole unitEnv) exTargetsTGB \<lparr>world = ([(''a'', 80)], ()), targetsCache = []\<rparr>)))"

theorem cached_targets_refine_witness:
  "(\<exists>ts s'. TM_ListTargets (teAssumeRole unitEnv) exTargetsTGB exTargets = (Inr ts, s') \<and> length ts = 2
      \<and> exact_listing (teRegistered unitEnv (world s') ''tg'') (teDraining unitEnv (world s') ''tg'') ts)
   \<and> (\<exists>s'. TM_DeregisterTargets (teAssumeRole unitEnv) exTargetsTGB [exTarget ''a''] exTargets = (Inr (), s')
      \<and> teRegistered unitEnv (world s') ''tg'' = {(''b'', 80)})"
proof -
  let ?s0 = "\<lparr>world = ([(''a'', 80)], ()), targetsCache = []\<rparr> :: (target_key list \<times> unit) targets_state"
  have reach: "(targets_step unitEnv)\<^sup>*\<^sup>* ?s0 exTargets"
    unfolding exTargets_def
  proof (rule rtranclp.rtrancl_into_rtrancl)
    let ?s1 = "snd (TM_ListTargets (teAssumeRole unitEnv) exTargetsTGB ?s0)"
    show "(targets_step unitEnv)\<^sup>*\<^sup>* ?s0 ?s1" by (rule r_into_rtranclp, rule step_list, rule prod.collapse [symmetric])
    show "targets_step unitEnv ?s1 (snd (TM_RegisterTargets (teAssumeRole unitEnv) (teOrder unitEnv) exTargetsTGB [exTarget ''b''] ?s1))"
      by (rule step_register, rule prod.collapse [symmetric])
  qed
  note R = cached_targets_refine [OF memEnv_ok reach]
  have arn: "TargetGroupARN (k8sSpec exTargetsTGB) = ''tg''" by (simp add: exTargetsTGB_def)
  have list: "case fst (TM_ListTargets (teAssumeRole unitEnv) exTargetsTGB exTargets) of Inl _ \<Rightarrow> False | Inr ts \<Rightarrow> length ts = 2"
    by code_simp
  have dereg: "fst (TM_DeregisterTargets (teAssumeRole unitEnv) exTargetsTGB [exTarget ''a''] exTargets) = Inr ()" by code_simp
  have w: "fst (world exTargets) = [(''a'', 80), (''b'', 80)]" by code_simp
  obtain ts s1 where l: "TM_ListTargets (teAssumeRole unitEnv) exTargetsTGB exTargets = (Inr ts, s1)" "length ts = 2"
    using list by (cases "TM_ListTargets (teAssumeRole unitEnv) exTargetsTGB exTargets") (auto split: sum.splits)
  obtain s2 where d: "TM_DeregisterTargets (teAssumeRole unitEnv) exTargetsTGB [exTarget ''a''] exTargets = (Inr (), s2)"
    using dereg by (cases "TM_DeregisterTargets (teAssumeRole unitEnv) exTargetsTGB [exTarget ''a''] exTargets") auto
  have "teRegistered unitEnv (world s2) ''tg'' = {(''b'', 80)}"
    using R d arn w by (auto simp: memEnv_def exTarget_def tkey_def ToInt32_def)
  moreover have "exact_listing (teRegistered unitEnv (world s1) ''tg'') (teDraining unitEnv (world s1) ''tg'') ts"
    using conjunct1 [OF R, rule_format, OF _ l(1), THEN conjunct2] unfolding arn by simp
  ultimately show ?thesis using l d by blast
qed

end
