(* ===== verification/Multi_Cluster.thy ===== *)
theory Multi_Cluster
  imports Targets
begin

text \<open>
  \<^verbatim>\<open>pkg/targetgroupbinding/multicluster_manager.go\<close> and the endpoints of \<^verbatim>\<open>pkg/backend/endpoint_types.go\<close>: several clusters may
  bind Services to one target group. Each keeps the targets it is responsible for in a config map of its own, with a copy in
  memory, and deregisters only targets that it tracks there.

  The Kubernetes client is a record of functions. A Go set is a list of its elements; the loop over one takes the order as an argument.
\<close>

section \<open>Endpoints\<close>

text \<open>\<open>PodInfo\<close> of the networking manager with the further fields that the targets need; times are in milliseconds, zero if unset.\<close>

record PodCondition =
  condType :: string
  condStatus :: string
  condReason :: string
  condMessage :: string
  condTransition :: int

record TargetPod = PodInfo +
  podUID :: string
  ReadinessGates :: "string list"
  podConditions :: "PodCondition list"
  podNodeName :: string
  podCreationMilli :: int

record PodEndpoint =
  epIP :: string
  epPort :: int
  epQuicServerID :: "string option"
  epPod :: TargetPod

record NodePortEndpoint =
  npInstanceID :: string
  npNodePort :: int
  npNodeName :: string
  npCreationMilli :: int

definition PodEndpoint_GetIdentifier :: "PodEndpoint \<Rightarrow> bool \<Rightarrow> bool \<Rightarrow> string" where
  "PodEndpoint_GetIdentifier e includeTimestamp includeQuicServerId =
     (let baseString = epIP e @ '':'' @ Itoa (epPort e);
          baseString = (case epQuicServerID e of
                          Some q \<Rightarrow> if includeQuicServerId then baseString @ '':'' @ q else baseString
                        | None \<Rightarrow> baseString)
      in if includeTimestamp then baseString @ '':'' @ Itoa (podCreationMilli (epPod e)) else baseString)"

definition NodePortEndpoint_GetIdentifier :: "NodePortEndpoint \<Rightarrow> bool \<Rightarrow> bool \<Rightarrow> string" where
  "NodePortEndpoint_GetIdentifier e includeTimestamp includeQuicServerId =
     (if includeTimestamp then npInstanceID e @ '':'' @ Itoa (npNodePort e) @ '':'' @ Itoa (npCreationMilli e)
      else npInstanceID e @ '':'' @ Itoa (npNodePort e))"

definition HasAnyOfReadinessGates :: "TargetPod \<Rightarrow> string list \<Rightarrow> bool" where
  "HasAnyOfReadinessGates pod conditionTypes = list_ex (\<lambda>rg. list_ex (\<lambda>ct. rg = ct) conditionTypes) (ReadinessGates pod)"

definition GetPodCondition :: "TargetPod \<Rightarrow> string \<Rightarrow> PodCondition option" where
  "GetPodCondition pod conditionType = find (\<lambda>cond. condType cond = conditionType) (podConditions pod)"

definition tgbProtocolSupportsQuic :: "TargetGroupBinding \<Rightarrow> bool" where
  "tgbProtocolSupportsQuic tgb = (case TargetGroupProtocol (k8sSpec tgb) of
       None \<Rightarrow> False | Some p \<Rightarrow> p = ''QUIC'' \<or> p = ''TCP_QUIC'')"

section \<open>The manager\<close>

record 'w configmap_client =
  cmGet :: "NamespacedName \<Rightarrow> ('w, string_map) io"
  cmUpdate :: "NamespacedName \<Rightarrow> string_map \<Rightarrow> ('w, unit) io"
  cmCreate :: "NamespacedName \<Rightarrow> string_map \<Rightarrow> ('w, unit) io"
  cmDelete :: "NamespacedName \<Rightarrow> ('w, unit) io"

record 'w multi_state = "'w targets_state" +
  configMapCache :: "(string, string list) gomap"

definition trackedTargetsPrefix :: string where "trackedTargetsPrefix = ''aws-lbc-targets-''"
definition targetsKey :: string where "targetsKey = ''targets''"

definition getCacheKey :: "TargetGroupBinding \<Rightarrow> string" where
  "getCacheKey tgb = k8sNamespace tgb @ ''/'' @ k8sName tgb"

definition getConfigMapName :: "TargetGroupBinding \<Rightarrow> string" where
  "getConfigMapName tgb = trackedTargetsPrefix @ k8sName tgb"

abbreviation configMapKey :: "TargetGroupBinding \<Rightarrow> NamespacedName" where
  "configMapKey tgb \<equiv> (k8sNamespace tgb, getConfigMapName tgb)"

definition retrieveConfigMapFromCache :: "TargetGroupBinding \<Rightarrow> ('w, 'z) multi_state_scheme \<Rightarrow> string list option" where
  "retrieveConfigMapFromCache tgb s = mget (configMapCache s) (getCacheKey tgb)"

definition updateCache :: "TargetGroupBinding \<Rightarrow> string list \<Rightarrow> ('w, 'z) multi_state_scheme \<Rightarrow> ('w, 'z) multi_state_scheme" where
  "updateCache tgb endpointMap s = s\<lparr>configMapCache := mput (getCacheKey tgb) endpointMap (configMapCache s)\<rparr>"

text \<open>The elements of the set that \<open>algorithm.CSVToStringSet\<close> returns.\<close>

definition csvElements :: "string \<Rightarrow> string list" where
  "csvElements csv = (if length csv = 0 then [] else remdups (split_on CHR '','' csv))"

definition getConfigMapContents :: "'w configmap_client \<Rightarrow> TargetGroupBinding \<Rightarrow> (('w, 'z) multi_state_scheme, string list option) io" where
  "getConfigMapContents k tgb s =
     (case retrieveConfigMapFromCache tgb s of
        Some cachedData \<Rightarrow> (Inr (Some cachedData), s)
      | None \<Rightarrow>
          (case onWorld (cmGet k (configMapKey tgb)) s of
             (Inr cmData, s') \<Rightarrow>
               (let targetSet = csvElements (mget0 '''' cmData targetsKey) in (Inr (Some targetSet), updateCache tgb targetSet s'))
           | (Inl err, s') \<Rightarrow> if isNotFound err then (Inr None, s') else (Inl err, s')))"

text \<open>The order \<open>ord\<close> is that of the loop over the set.\<close>

definition persistConfigMap :: "'w configmap_client \<Rightarrow> (string list \<Rightarrow> string list) \<Rightarrow> string list \<Rightarrow> TargetGroupBinding \<Rightarrow>
    (('w, 'z) multi_state_scheme, unit) io" where
  "persistConfigMap k ord endpointMap tgb s =
     (let cmData = [(targetsKey, StringSetToCSV (ord endpointMap))] in
      case onWorld (cmUpdate k (configMapKey tgb) cmData) s of
        (Inr _, s') \<Rightarrow> (Inr (), updateCache tgb endpointMap s')
      | (Inl err, s') \<Rightarrow>
          if isNotFound err
          then (case onWorld (cmCreate k (configMapKey tgb) cmData) s' of
                  (Inr _, s'') \<Rightarrow> (Inr (), updateCache tgb endpointMap s'')
                | (Inl err', s'') \<Rightarrow> (Inl err', s''))
          else (Inl err, s'))"

definition updateTrackedTargets :: "'w configmap_client \<Rightarrow> (string list \<Rightarrow> string list) \<Rightarrow> bool \<Rightarrow> string list \<Rightarrow> TargetGroupBinding \<Rightarrow>
    (('w, 'z) multi_state_scheme, unit) io" where
  "updateTrackedTargets k ord updateRequested endpoints tgb s =
     (if \<not> tgbMultiCluster (k8sSpec tgb) then (Inr (), s)
      else if \<not> updateRequested \<and> retrieveConfigMapFromCache tgb s \<noteq> None then (Inr (), s)
      else persistConfigMap k ord (remdups endpoints) tgb s)"

definition UpdateTrackedIPTargets :: "'w configmap_client \<Rightarrow> (string list \<Rightarrow> string list) \<Rightarrow> bool \<Rightarrow> PodEndpoint list \<Rightarrow> TargetGroupBinding \<Rightarrow>
    (('w, 'z) multi_state_scheme, unit) io" where
  "UpdateTrackedIPTargets k ord updateRequested endpoints tgb =
     updateTrackedTargets k ord updateRequested
       (map (\<lambda>ep. PodEndpoint_GetIdentifier ep False (tgbProtocolSupportsQuic tgb)) endpoints) tgb"

definition UpdateTrackedInstanceTargets :: "'w configmap_client \<Rightarrow> (string list \<Rightarrow> string list) \<Rightarrow> bool \<Rightarrow> NodePortEndpoint list \<Rightarrow>
    TargetGroupBinding \<Rightarrow> (('w, 'z) multi_state_scheme, unit) io" where
  "UpdateTrackedInstanceTargets k ord updateRequested endpoints tgb =
     updateTrackedTargets k ord updateRequested (map (\<lambda>ep. NodePortEndpoint_GetIdentifier ep False False) endpoints) tgb"

text \<open>The targets whose identifier is among the tracked ones.\<close>

definition keepTracked :: "string list \<Rightarrow> TargetInfo list \<Rightarrow> TargetInfo list res" where
  "keepTracked persistedEndpoints targets =
     res_bind (res_map TargetInfo_GetIdentifier targets) (\<lambda>ids.
       Inr (map snd (filter (\<lambda>(i, t). i \<in> set persistedEndpoints) (zip ids targets))))"

definition FilterTargetsForDeregistration :: "'w configmap_client \<Rightarrow> TargetGroupBinding \<Rightarrow> TargetInfo list \<Rightarrow>
    (('w, 'z) multi_state_scheme, TargetInfo list \<times> bool) io" where
  "FilterTargetsForDeregistration k tgb targets =
     (if \<not> tgbMultiCluster (k8sSpec tgb) then io_ret (targets, False)
      else io_bind (getConfigMapContents k tgb) (\<lambda>contents.
        case contents of
          None \<Rightarrow> io_ret ([], True)
        | Some persistedEndpoints \<Rightarrow>
            io_bind (io_lift (keepTracked persistedEndpoints targets)) (\<lambda>filteredTargets. io_ret (filteredTargets, False))))"

definition MC_CleanUp :: "'w configmap_client \<Rightarrow> TargetGroupBinding \<Rightarrow> (('w, 'z) multi_state_scheme, unit) io" where
  "MC_CleanUp k tgb s =
     (let s' = s\<lparr>configMapCache := mdel (getCacheKey tgb) (configMapCache s)\<rparr> in
      if \<not> tgbMultiCluster (k8sSpec tgb) then (Inr (), s')
      else (case onWorld (cmDelete k (configMapKey tgb)) s' of
              (Inr _, s'') \<Rightarrow> (Inr (), s'')
            | (Inl err, s'') \<Rightarrow> if isNotFound err then (Inr (), s'') else (Inl err, s'')))"

section \<open>The tracked targets survive a restart\<close>

text \<open>The config maps of the cluster as the documented behaviour of the client shows them.\<close>

type_synonym 'w cm_view = "'w \<Rightarrow> NamespacedName \<Rightarrow> string_map option"

definition cm_ok :: "'w cm_view \<Rightarrow> 'w configmap_client \<Rightarrow> bool" where
  "cm_ok cms k \<longleftrightarrow>
     (\<forall>n w r w'. cmGet k n w = (r, w') \<longrightarrow> cms w' = cms w \<and>
        (case r of Inr m \<Rightarrow> cms w n = Some m | Inl err \<Rightarrow> isNotFound err \<longrightarrow> cms w n = None))
     \<and> (\<forall>n m w r w'. cmUpdate k n m w = (r, w') \<longrightarrow>
        (case r of Inr _ \<Rightarrow> cms w' = (cms w)(n \<mapsto> m) | Inl err \<Rightarrow> isNotFound err \<longrightarrow> cms w n = None \<and> cms w' = cms w))
     \<and> (\<forall>n m w r w'. cmCreate k n m w = (r, w') \<longrightarrow> (case r of Inr _ \<Rightarrow> cms w' = (cms w)(n \<mapsto> m) | Inl err \<Rightarrow> True))
     \<and> (\<forall>n w r w'. cmDelete k n w = (r, w') \<longrightarrow> (case r of Inr _ \<Rightarrow> cms w' = (cms w)(n := None) | Inl err \<Rightarrow> isNotFound err \<longrightarrow> cms w n = None \<and> cms w' = cms w))"

lemma csvElements_set: "set (csvElements csv) = CSVToStringSet csv"
  by (simp add: csvElements_def CSVToStringSet_def)

lemma cm_get:
  assumes "cm_ok cms k" "cmGet k n w = (r, w')"
  shows "cms w' = cms w" "r = Inr m \<Longrightarrow> cms w n = Some m" "r = Inl err \<Longrightarrow> isNotFound err \<Longrightarrow> cms w n = None"
proof -
  have "cms w' = cms w \<and> (case r of Inr m \<Rightarrow> cms w n = Some m | Inl err \<Rightarrow> isNotFound err \<longrightarrow> cms w n = None)"
    using assms unfolding cm_ok_def by blast
  then show "cms w' = cms w" "r = Inr m \<Longrightarrow> cms w n = Some m" "r = Inl err \<Longrightarrow> isNotFound err \<Longrightarrow> cms w n = None" by simp_all
qed

lemma cm_write:
  assumes "cm_ok cms k" "cmUpdate k n m w = (r, w') \<or> cmCreate k n m w = (r, w')" "r = Inr u"
  shows "cms w' = (cms w)(n \<mapsto> m)"
proof -
  have "(case r of Inr _ \<Rightarrow> cms w' = (cms w)(n \<mapsto> m) | Inl err \<Rightarrow> isNotFound err \<longrightarrow> cms w n = None \<and> cms w' = cms w)
      \<or> (case r of Inr _ \<Rightarrow> cms w' = (cms w)(n \<mapsto> m) | Inl err \<Rightarrow> True)"
    using assms(1,2) unfolding cm_ok_def by blast
  then show ?thesis using assms(3) by auto
qed

lemmas cm_update = cm_write [OF _ disjI1 refl]
lemmas cm_create = cm_write [OF _ disjI2 refl]

lemma persistConfigMap_stores:
  assumes "cm_ok cms k" "persistConfigMap k ord eps tgb s = (Inr (), s')"
  shows "cms (world s') (configMapKey tgb) = Some [(targetsKey, StringSetToCSV (ord eps))]"
    and "mget (configMapCache s') (getCacheKey tgb) = Some eps"
proof -
  have w: "world (updateCache tgb eps s0) = world s0" for s0 :: "('a, 'b) multi_state_scheme" by (simp add: updateCache_def)
  show "cms (world s') (configMapKey tgb) = Some [(targetsKey, StringSetToCSV (ord eps))]"
    using assms(2) cm_update [OF assms(1)] cm_create [OF assms(1)]
    by (auto simp: persistConfigMap_def onWorld_def Let_def w split: prod.splits sum.splits if_splits)
  show "mget (configMapCache s') (getCacheKey tgb) = Some eps"
    using assms(2) by (auto simp: persistConfigMap_def Let_def updateCache_def split: prod.splits sum.splits if_splits)
qed

text \<open>
  C39. What a cluster tracks is kept: after the endpoints of a binding to a shared target group have been written, the manager
  knows exactly their identifiers, and so does a manager that starts anew with an empty memory and reads the config map, unless that read fails.
\<close>

theorem tracked_targets_roundtrip:
  assumes "cm_ok cms k" "go_order ord" "tgbMultiCluster (k8sSpec tgb)"
    and "UpdateTrackedIPTargets k ord True eps tgb s = (Inr (), s')"
    and "\<forall>ep \<in> set eps. CHR '','' \<notin> set (PodEndpoint_GetIdentifier ep False (tgbProtocolSupportsQuic tgb))"
  shows "(\<exists>known. retrieveConfigMapFromCache tgb s' = Some known
             \<and> set known = (\<lambda>ep. PodEndpoint_GetIdentifier ep False (tgbProtocolSupportsQuic tgb)) ` set eps)
       \<and> (case getConfigMapContents k tgb (s'\<lparr>configMapCache := []\<rparr>) of
            (Inr (Some known), s'') \<Rightarrow> set known = (\<lambda>ep. PodEndpoint_GetIdentifier ep False (tgbProtocolSupportsQuic tgb)) ` set eps
          | (Inr None, s'') \<Rightarrow> False
          | (Inl err, s'') \<Rightarrow> \<exists>w. cmGet k (configMapKey tgb) (world s') = (Inl err, w))"
proof -
  let ?id = "\<lambda>ep. PodEndpoint_GetIdentifier ep False (tgbProtocolSupportsQuic tgb)"
  let ?eps = "remdups (map ?id eps)"
  have run: "persistConfigMap k ord ?eps tgb s = (Inr (), s')"
    using assms(3,4) by (simp add: UpdateTrackedIPTargets_def updateTrackedTargets_def)
  note P = persistConfigMap_stores [OF assms(1) run]
  have "[] \<notin> set ?eps" by (auto simp: PodEndpoint_GetIdentifier_def Let_def split: option.splits if_splits)
  then have "set (ord ?eps) \<noteq> {[]}" using assms(2) by auto
  moreover have "\<forall>s \<in> set (ord ?eps). CHR '','' \<notin> set s" using assms(2,5) by simp
  ultimately have csv: "set (csvElements (StringSetToCSV (ord ?eps))) = ?id ` set eps"
    unfolding csvElements_set using CSV_roundtrip assms(2) by simp
  have fresh: "case getConfigMapContents k tgb (s'\<lparr>configMapCache := []\<rparr>) of
            (Inr (Some known), s'') \<Rightarrow> set known = ?id ` set eps
          | (Inr None, s'') \<Rightarrow> False
          | (Inl err, s'') \<Rightarrow> \<exists>w. cmGet k (configMapKey tgb) (world s') = (Inl err, w)"
  proof -
    obtain r w where g: "cmGet k (configMapKey tgb) (world s') = (r, w)" by fastforce
    note G = cm_get [OF assms(1) g]
    show ?thesis
    proof (cases r)
      case (Inl err)
      then have "\<not> isNotFound err" using G(3) P(1) by auto
      then show ?thesis using Inl g by (simp add: getConfigMapContents_def retrieveConfigMapFromCache_def onWorld_def)
    next
      case (Inr m)
      then have "m = [(targetsKey, StringSetToCSV (ord ?eps))]" using G(2) P(1) by simp
      then show ?thesis using Inr g csv by (simp add: getConfigMapContents_def retrieveConfigMapFromCache_def onWorld_def Let_def)
    qed
  qed
  show ?thesis using P(2) fresh by (auto simp: retrieveConfigMapFromCache_def)
qed

text \<open>An example: config maps in memory, none at first.\<close>

definition memConfigMaps :: "((NamespacedName, string_map) gomap) configmap_client" where
  "memConfigMaps =
     \<lparr>cmGet = (\<lambda>n w. (case mget w n of None \<Rightarrow> Inl (APIError ''NotFound'' '''') | Some m \<Rightarrow> Inr m, w)),
      cmUpdate = (\<lambda>n m w. if mhas w n then (Inr (), mput n m w) else (Inl (APIError ''NotFound'' ''''), w)),
      cmCreate = (\<lambda>n m w. (Inr (), mput n m w)),
      cmDelete = (\<lambda>n w. if mhas w n then (Inr (), mdel n w) else (Inl (APIError ''NotFound'' ''''), w))\<rparr>"

lemma memConfigMaps_ok: "cm_ok map_of memConfigMaps"
  unfolding cm_ok_def
  by (auto simp: memConfigMaps_def mhas_def split: option.splits if_splits)

definition exEndpoint :: "string \<Rightarrow> PodEndpoint" where
  "exEndpoint ip = \<lparr>epIP = ip, epPort = 80, epQuicServerID = None,
     epPod = \<lparr>podKey = (''ns'', ip), ContainerPorts = [], podUID = ip, ReadinessGates = [], podConditions = [], podNodeName = ''n'', podCreationMilli = 0\<rparr>\<rparr>"

definition exSharedTGB :: TargetGroupBinding where
  "exSharedTGB = exTargetsTGB\<lparr>k8sSpec := (k8sSpec exTargetsTGB)\<lparr>tgbMultiCluster := True\<rparr>\<rparr>"

theorem tracked_targets_roundtrip_witness:
  "\<exists>known. retrieveConfigMapFromCache exSharedTGB
      (snd (UpdateTrackedIPTargets memConfigMaps rev True [exEndpoint ''a'', exEndpoint ''b''] exSharedTGB
         \<lparr>world = [], targetsCache = [], configMapCache = []\<rparr>)) = Some known \<and> set known = {''a:80'', ''b:80''}"
proof -
  let ?s = "\<lparr>world = [], targetsCache = [], configMapCache = []\<rparr> :: ((NamespacedName, string_map) gomap) multi_state"
  let ?u = "UpdateTrackedIPTargets memConfigMaps rev True [exEndpoint ''a'', exEndpoint ''b''] exSharedTGB ?s"
  have "fst ?u = Inr ()" by code_simp
  then have u: "?u = (Inr (), snd ?u)" by (metis prod.collapse)
  have ids: "PodEndpoint_GetIdentifier (exEndpoint ''a'') False False = ''a:80''" "PodEndpoint_GetIdentifier (exEndpoint ''b'') False False = ''b:80''"
      "tgbProtocolSupportsQuic exSharedTGB = False" "tgbMultiCluster (k8sSpec exSharedTGB)"
    by code_simp+
  show ?thesis
    using tracked_targets_roundtrip [OF memConfigMaps_ok go_order_rev ids(4) u, THEN conjunct1] by (simp add: ids)
qed

end
