(* ===== verification/Target_Reconcile.thy ===== *)
theory Target_Reconcile
  imports Multi_Cluster Netip
begin

text \<open>
  \<^verbatim>\<open>pkg/targetgroupbinding/resource_manager.go\<close> and \<^verbatim>\<open>utils.go\<close>: the reconciliation of a target group binding. It resolves
  the endpoints of the Service, compares them with the targets of the target group, deregisters and registers what differs and keeps the
  readiness gates of the pods and a checkpoint of the binding up to date.

  The endpoint resolver, the networking manager, the readers of VPCs, zones and nodes and the Kubernetes client are functions of a record;
  so are the hash of a checkpoint and the JSON form of a specification. The networking manager's own model is in \<open>Networking\<close>.
  Caches with a life time are part of the state. Events, metrics and log output are left out; \<open>ErrorWithMetrics\<close> shows and unwraps the
  error it holds and is not told apart from it. Times are integers, 0 if unset.
\<close>

section \<open>State and surroundings\<close>

record 'w rm_state = "'w multi_state" +
  invalidVpcCache :: "string list"
  needsPodAZCache :: "string list"
  nodeAZCache :: string_map

type_synonym requirement = "string \<times> string \<times> string list"

record VPCInfo =
  vpcCidrAssociations :: "(string \<times> string option) list"
  vpcIpv6CidrAssociations :: "(string \<times> string option) list"

record 'w rm_deps =
  rmAssumeRole :: "'w assume_role"
  rmTargetOrder :: "(string \<times> ElbTargetDescription) list \<Rightarrow> (string \<times> ElbTargetDescription) list"
  rmSetOrder :: "string list \<Rightarrow> string list"
  rmConfigMaps :: "'w configmap_client"
  rmSelectorOf :: "LabelSelector \<Rightarrow> requirement list res"
  rmResolvePods :: "NamespacedName \<Rightarrow> IntOrString \<Rightarrow> string \<Rightarrow> ('w, PodEndpoint list) io"
  rmResolveNodePorts :: "NamespacedName \<Rightarrow> IntOrString \<Rightarrow> requirement list \<Rightarrow> ('w, NodePortEndpoint list) io"
  rmNetPods :: "TargetGroupBinding \<Rightarrow> PodEndpoint list \<Rightarrow> ('w, unit) io"
  rmNetNodePorts :: "TargetGroupBinding \<Rightarrow> NodePortEndpoint list \<Rightarrow> ('w, unit) io"
  rmNetCleanup :: "TargetGroupBinding \<Rightarrow> ('w, unit) io"
  rmPatchTGB :: "TargetGroupBinding \<Rightarrow> TargetGroupBinding \<Rightarrow> ('w, unit) io"
  rmPatchPod :: "NamespacedName \<Rightarrow> string \<Rightarrow> PodCondition option \<Rightarrow> PodCondition \<Rightarrow> ('w, unit) io"
  rmPodKeys :: "'w \<Rightarrow> NamespacedName list"
  rmGetPod :: "NamespacedName \<Rightarrow> ('w, TargetPod option) io"
  rmFetchVPCInfo :: "string \<Rightarrow> ('w, VPCInfo) io"
  rmGetNodeLabels :: "string \<Rightarrow> ('w, string_map) io"
  rmTranslateAZName :: "string \<Rightarrow> string \<Rightarrow> string \<Rightarrow> ('w, string option) io"
  rmNow :: "'w \<Rightarrow> int"
  rmComputeSha256 :: "string \<Rightarrow> string"
  rmMarshalSpec :: "TargetGroupBindingSpec \<Rightarrow> string res"
  rmVpcID :: string
  rmMaxTargets :: int
  rmRequeueDuration :: nat

text \<open>\<open>errors.Is(err, backend.ErrNotFound)\<close>; the resolver wraps that error.\<close>

definition ErrNotFound :: go_error where
  "ErrNotFound = Errorf ''backend not found'' []"

fun isErrNotFound :: "go_error \<Rightarrow> bool" where
  "isErrNotFound (Wrapped m e) = isErrNotFound e"
| "isErrNotFound e = (e = ErrNotFound)"

definition isELBV2TargetGroupNotFoundError :: "go_error \<Rightarrow> bool" where
  "isELBV2TargetGroupNotFoundError err \<longleftrightarrow> errorCode err = Some ''TargetGroupNotFound''"

definition isELBV2TargetGroupARNInvalidError :: "go_error \<Rightarrow> bool" where
  "isELBV2TargetGroupARNInvalidError err \<longleftrightarrow> errorCode err = Some ''InvalidTarget'' \<or> errorCode err = Some ''ValidationError''"

definition isVPCNotFoundError :: "go_error \<Rightarrow> bool" where
  "isVPCNotFoundError err \<longleftrightarrow> errorCode err = Some ''InvalidVpcID.NotFound''"

fun errorMessage :: "go_error \<Rightarrow> string" where
  "errorMessage (APIError c m) = m"
| "errorMessage (Wrapped m e) = errorMessage e"
| "errorMessage _ = ''''"

definition isAZValidationError :: "go_error \<Rightarrow> bool" where
  "isAZValidationError err \<longleftrightarrow> errorCode err = Some ''ValidationError''
     \<and> Contains (errorMessage err) ''you must specify an Availability Zone''"

section \<open>Checkpoints\<close>

definition BuildTargetHealthPodConditionType :: "TargetGroupBinding \<Rightarrow> string" where
  "BuildTargetHealthPodConditionType tgb = ''target-health.elbv2.k8s.aws/'' @ k8sName tgb"

text \<open>The identifiers are those of the endpoints, with their time stamps.\<close>

definition calculateTGBReconcileCheckpoint :: "'w rm_deps \<Rightarrow> string list \<Rightarrow> TargetGroupBinding \<Rightarrow> string res" where
  "calculateTGBReconcileCheckpoint d endpointStrings tgb =
     (let csv = join_on CHR '','' (sort endpointStrings)
      in res_bind (rmMarshalSpec d (k8sSpec tgb)) (\<lambda>specJSON.
           Inr (rmComputeSha256 d csv @ ''/'' @ rmComputeSha256 d specJSON)))"

definition GetTGBReconcileCheckpoint :: "TargetGroupBinding \<Rightarrow> string" where
  "GetTGBReconcileCheckpoint tgb = mget0 '''' (k8sAnnotations tgb) AnnotationCheckPoint"

definition SaveTGBReconcileCheckpoint :: "int \<Rightarrow> TargetGroupBinding \<Rightarrow> string \<Rightarrow> TargetGroupBinding" where
  "SaveTGBReconcileCheckpoint now tgb checkpoint =
     tgb\<lparr>k8sAnnotations := mput AnnotationCheckPointTimestamp (Itoa now) (mput AnnotationCheckPoint checkpoint (k8sAnnotations tgb))\<rparr>"

definition updateTGBCheckPoint :: "'w rm_deps \<Rightarrow> TargetGroupBinding \<Rightarrow> string \<Rightarrow> string \<Rightarrow>
    (('w, 'z) targets_state_scheme, TargetGroupBinding) io" where
  "updateTGBCheckPoint d tgb newCheckPoint previousCheckPoint s =
     (if newCheckPoint = previousCheckPoint then (Inr tgb, s)
      else (let tgb' = SaveTGBReconcileCheckpoint (rmNow d (world s)) tgb newCheckPoint in
        case onWorld (rmPatchTGB d tgb tgb') s of
          (Inl err, s') \<Rightarrow>
            (Inl (Wrapped (''failed to update targetGroupBinding checkpoint: '' @ k8sNamespace tgb @ ''/'' @ k8sName tgb) err), s')
        | (Inr _, s') \<Rightarrow> (Inr tgb', s')))"

definition buildServiceReferenceKey :: "TargetGroupBinding \<Rightarrow> NamespacedName" where
  "buildServiceReferenceKey tgb = (k8sNamespace tgb, fst (ServiceRef (k8sSpec tgb)))"

definition endpointSliceAddressType :: "TargetGroupBinding \<Rightarrow> string" where
  "endpointSliceAddressType tgb = (if tgbIPAddressType (k8sSpec tgb) = Some ''ipv6'' then ''IPv6'' else ''IPv4'')"

definition defaultTrafficProxyNodeLabelSelector :: LabelSelector where
  "defaultTrafficProxyNodeLabelSelector =
     \<lparr>matchLabels = [],
      matchExpressions =
        [(''node-role.kubernetes.io/master'', ''DoesNotExist'', []),
         (''node.kubernetes.io/exclude-from-external-load-balancers'', ''DoesNotExist'', []),
         (''alpha.service-controller.kubernetes.io/exclude-balancer'', ''DoesNotExist'', []),
         (''eks.amazonaws.com/compute-type'', ''NotIn'', [''fargate''])]\<rparr>"

definition GetTrafficProxyNodeSelector :: "'w rm_deps \<Rightarrow> TargetGroupBinding \<Rightarrow> requirement list res" where
  "GetTrafficProxyNodeSelector d tgb =
     res_bind (rmSelectorOf d defaultTrafficProxyNodeLabelSelector) (\<lambda>selector.
       case NodeSelector (k8sSpec tgb) of
         None \<Rightarrow> Inr selector
       | Some custom \<Rightarrow> res_bind (rmSelectorOf d custom) (\<lambda>req. Inr (selector @ req)))"

section \<open>Endpoints and targets\<close>

definition partitionTargetsByDrainingStatus :: "TargetInfo list \<Rightarrow> TargetInfo list \<times> TargetInfo list" where
  "partitionTargetsByDrainingStatus targets = (filter (\<lambda>t. \<not> IsDraining t) targets, filter IsDraining targets)"

definition matchPodEndpointWithTargets :: "TargetGroupBinding \<Rightarrow> PodEndpoint list \<Rightarrow> TargetInfo list \<Rightarrow>
    ((PodEndpoint \<times> TargetInfo) list \<times> PodEndpoint list \<times> TargetInfo list) res" where
  "matchPodEndpointWithTargets tgb endpoints targets =
     (let endpointsByUID = mbuild (\<lambda>e. PodEndpoint_GetIdentifier e False (tgbProtocolSupportsQuic tgb)) (\<lambda>e. e) endpoints []
      in res_bind (res_map (\<lambda>t. res_bind (TargetInfo_GetIdentifier t) (\<lambda>uid. Inr (uid, t))) targets) (\<lambda>uts.
           Inr (matchByKey endpointsByUID (mbuild fst snd uts []))))"

definition matchNodePortEndpointWithTargets :: "NodePortEndpoint list \<Rightarrow> TargetInfo list \<Rightarrow>
    (NodePortEndpoint \<times> TargetInfo) list \<times> NodePortEndpoint list \<times> TargetInfo list" where
  "matchNodePortEndpointWithTargets endpoints targets =
     matchByKey (mbuild (\<lambda>e. npInstanceID e @ '':'' @ Itoa (npNodePort e)) (\<lambda>e. e) endpoints [])
       (mbuild (\<lambda>t. ToString (tdId (tiTarget t)) @ '':'' @ Itoa (ToInt32 (tdPort (tiTarget t)))) (\<lambda>t. t) targets [])"

definition needReadinessGateFlip :: "PodEndpoint list \<Rightarrow> string \<Rightarrow> bool" where
  "needReadinessGateFlip endpoints targetHealthCondType =
     list_ex (\<lambda>ep. case GetPodCondition (epPod ep) targetHealthCondType of
                     None \<Rightarrow> False | Some cond \<Rightarrow> condStatus cond \<noteq> ''True'') endpoints"

definition getMaxNewTargets :: "int \<Rightarrow> int \<Rightarrow> int \<Rightarrow> int" where
  "getMaxNewTargets maxTargetsPerTargetGroup newTargetCount currentTargetCount =
     (if newTargetCount + currentTargetCount > maxTargetsPerTargetGroup
      then maxTargetsPerTargetGroup - currentTargetCount else newTargetCount)"

text \<open>\<open>xs[:n]\<close>, which panics for a bound that is negative or beyond the end.\<close>

definition sliceTo :: "int \<Rightarrow> 'a list \<Rightarrow> 'a list res" where
  "sliceTo n xs = (if n < 0 \<or> n > int (length xs) then Inl (Errorf ''panic: slice bounds out of range'' []) else Inr (take (nat n) xs))"

text \<open>The endpoints that may still be registered under the limit on targets, if there is one.\<close>

definition limitEndpoints :: "'w rm_deps \<Rightarrow> 'a list \<Rightarrow> TargetInfo list \<Rightarrow> 'a list res" where
  "limitEndpoints d unmatchedEndpoints targets =
     (if rmMaxTargets d \<noteq> 0
      then sliceTo (getMaxNewTargets (rmMaxTargets d) (int (length unmatchedEndpoints)) (int (length targets))) unmatchedEndpoints
      else Inr unmatchedEndpoints)"

section \<open>Registration\<close>

definition AssociatedIPv4CIDRs :: "VPCInfo \<Rightarrow> string list" where
  "AssociatedIPv4CIDRs vpc = map (\<lambda>(state, cidr). ToString cidr) (filter (\<lambda>(state, cidr). state = ''associated'') (vpcCidrAssociations vpc))"

definition AssociatedIPv6CIDRs :: "VPCInfo \<Rightarrow> string list" where
  "AssociatedIPv6CIDRs vpc = map (\<lambda>(state, cidr). ToString cidr) (filter (\<lambda>(state, cidr). state = ''associated'') (vpcIpv6CidrAssociations vpc))"

definition generateOverrideAzFn :: "'w rm_deps \<Rightarrow> string \<Rightarrow> string \<Rightarrow> (('w, 'z) rm_state_scheme, netip_addr \<Rightarrow> bool) io" where
  "generateOverrideAzFn d vpcID assumeRole s =
     (let usingCrossAccount = (assumeRole \<noteq> ''''); invalidVPCCacheKey = assumeRole @ ''-'' @ vpcID in
      if usingCrossAccount \<and> invalidVPCCacheKey \<in> set (invalidVpcCache s) then (Inr (\<lambda>addr. True), s)
      else (case onWorld (rmFetchVPCInfo d vpcID) s of
              (Inl err, s') \<Rightarrow>
                if isVPCNotFoundError err \<and> usingCrossAccount
                then (Inr (\<lambda>addr. True), s'\<lparr>invalidVpcCache := invalidVPCCacheKey # invalidVpcCache s'\<rparr>)
                else (Inl err, s')
            | (Inr vpcInfo, s') \<Rightarrow>
                (case ParseCIDRs (AssociatedIPv4CIDRs vpcInfo @ AssociatedIPv6CIDRs vpcInfo) of
                   Inl err \<Rightarrow> (Inl err, s')
                 | Inr vpcCIDRs \<Rightarrow> (Inr (\<lambda>addr. \<not> IsIPWithinCIDRs addr vpcCIDRs), s'))))"

definition usePodAZForCrossAccount :: "TargetGroupBinding \<Rightarrow> bool" where
  "usePodAZForCrossAccount tgb \<longleftrightarrow> IamRoleArnToAssume (k8sSpec tgb) \<noteq> ''''
     \<and> RegisterTargetsWithPodAvailabilityZone (k8sSpec tgb) = Some True"

definition getPodAvailabilityZone :: "'w rm_deps \<Rightarrow> TargetPod \<Rightarrow> (('w, 'z) rm_state_scheme, string option) io" where
  "getPodAvailabilityZone d pod s =
     (if podNodeName pod = '''' then (Inl (Errorf ''pod %s has no node assigned'' [fst (podKey pod) @ ''/'' @ snd (podKey pod)]), s)
      else (case mget (nodeAZCache s) (podNodeName pod) of
              Some az \<Rightarrow> (Inr (Some az), s)
            | None \<Rightarrow>
                (case onWorld (rmGetNodeLabels d (podNodeName pod)) s of
                   (Inl err, s') \<Rightarrow> (Inl err, s')
                 | (Inr labels, s') \<Rightarrow>
                     (case mget labels ''topology.kubernetes.io/zone'' of
                        None \<Rightarrow> (Inr None, s')
                      | Some az \<Rightarrow> (Inr (Some az), s'\<lparr>nodeAZCache := mput (podNodeName pod) az (nodeAZCache s')\<rparr>)))))"

definition resolveTargetAvailabilityZone :: "'w rm_deps \<Rightarrow> TargetGroupBinding \<Rightarrow> TargetPod \<Rightarrow> (('w, 'z) rm_state_scheme, string option) io" where
  "resolveTargetAvailabilityZone d tgb pod =
     io_bind (getPodAvailabilityZone d pod) (\<lambda>podAZ s.
       case podAZ of
         None \<Rightarrow> (Inr None, s)
       | Some az \<Rightarrow>
           if IamRoleArnToAssume (k8sSpec tgb) = '''' then (Inr podAZ, s)
           else (case onWorld (rmTranslateAZName d (IamRoleArnToAssume (k8sSpec tgb)) (AssumeRoleExternalId (k8sSpec tgb)) az) s of
                   (Inl err, s') \<Rightarrow> (Inr None, s')
                 | (Inr translatedAZ, s') \<Rightarrow> (Inr translatedAZ, s')))"

text \<open>The target of one endpoint, none if a QUIC target has no server identifier.\<close>

definition prepareTarget :: "'w rm_deps \<Rightarrow> TargetGroupBinding \<Rightarrow> (netip_addr \<Rightarrow> bool) \<Rightarrow> bool \<Rightarrow> PodEndpoint \<Rightarrow>
    (('w, 'z) rm_state_scheme, ElbTargetDescription list) io" where
  "prepareTarget d tgb doAzOverride usePodAZ endpoint =
     (let usingCrossAccount = (IamRoleArnToAssume (k8sSpec tgb) \<noteq> '''') in
      io_bind (io_lift (parseAddr (epIP endpoint))) (\<lambda>podIP.
      io_bind (if doAzOverride podIP
               then if (usePodAZ \<and> \<not> usingCrossAccount) \<or> usePodAZForCrossAccount tgb
                    then io_bind (resolveTargetAvailabilityZone d tgb (epPod endpoint)) (\<lambda>az.
                           io_ret (case az of Some a \<Rightarrow> Some a | None \<Rightarrow> Some ''all''))
                    else io_ret (Some ''all'')
               else io_ret None) (\<lambda>availabilityZone.
      let target = \<lparr>tdId = Some (epIP endpoint), tdPort = Some (epPort endpoint), tdAvailabilityZone = availabilityZone, tdQuicServerId = None\<rparr>
      in if tgbProtocolSupportsQuic tgb
         then (case epQuicServerID endpoint of
                 Some serverId \<Rightarrow> io_ret [target\<lparr>tdQuicServerId := Some serverId\<rparr>]
               | None \<Rightarrow> io_ret [])
         else io_ret [target])))"

definition prepareRegistrationCall :: "'w rm_deps \<Rightarrow> PodEndpoint list \<Rightarrow> TargetGroupBinding \<Rightarrow> (netip_addr \<Rightarrow> bool) \<Rightarrow> bool \<Rightarrow>
    (('w, 'z) rm_state_scheme, ElbTargetDescription list) io" where
  "prepareRegistrationCall d endpoints tgb doAzOverride usePodAZ =
     io_bind (io_map (prepareTarget d tgb doAzOverride usePodAZ) endpoints) (\<lambda>targets. io_ret (concat targets))"

definition registerPodEndpoints :: "'w rm_deps \<Rightarrow> TargetGroupBinding \<Rightarrow> PodEndpoint list \<Rightarrow> (('w, 'z) rm_state_scheme, unit) io" where
  "registerPodEndpoints d tgb endpoints =
     (let vpcID = (if tgbVpcID (k8sSpec tgb) \<noteq> '''' \<and> tgbVpcID (k8sSpec tgb) \<noteq> rmVpcID d then tgbVpcID (k8sSpec tgb) else rmVpcID d);
          tgbKey = k8sNamespace tgb @ ''/'' @ k8sName tgb
      in io_bind (generateOverrideAzFn d vpcID (IamRoleArnToAssume (k8sSpec tgb))) (\<lambda>overrideAzFn s.
           let needsPodAZ = (tgbKey \<in> set (needsPodAZCache s)) in
           io_bind (prepareRegistrationCall d endpoints tgb overrideAzFn needsPodAZ) (\<lambda>sdkTargets s.
             case TM_RegisterTargets (rmAssumeRole d) (rmTargetOrder d) tgb sdkTargets s of
               (Inr _, s') \<Rightarrow> (Inr (), s')
             | (Inl err, s') \<Rightarrow>
                 if isAZValidationError err \<and> \<not> needsPodAZ \<and> \<not> usePodAZForCrossAccount tgb
                 then io_bind (prepareRegistrationCall d endpoints tgb overrideAzFn True)
                        (TM_RegisterTargets (rmAssumeRole d) (rmTargetOrder d) tgb)
                        (s'\<lparr>needsPodAZCache := tgbKey # needsPodAZCache s'\<rparr>)
                 else (Inl err, s')) s))"

definition registerNodePortEndpoints :: "'w rm_deps \<Rightarrow> TargetGroupBinding \<Rightarrow> NodePortEndpoint list \<Rightarrow> (('w, 'z) rm_state_scheme, unit) io" where
  "registerNodePortEndpoints d tgb endpoints =
     TM_RegisterTargets (rmAssumeRole d) (rmTargetOrder d) tgb
       (map (\<lambda>endpoint. \<lparr>tdId = Some (npInstanceID endpoint), tdPort = Some (npNodePort endpoint), tdAvailabilityZone = None, tdQuicServerId = None\<rparr>)
         endpoints)"

definition RM_deregisterTargets :: "'w rm_deps \<Rightarrow> TargetGroupBinding \<Rightarrow> TargetInfo list \<Rightarrow> (('w, 'z) multi_state_scheme, bool) io" where
  "RM_deregisterTargets d tgb targets =
     io_bind (FilterTargetsForDeregistration (rmConfigMaps d) tgb targets) (\<lambda>(filteredTargets, updateTrackedTargets).
       if length filteredTargets = 0 then io_ret updateTrackedTargets
       else io_bind (TM_DeregisterTargets (rmAssumeRole d) tgb (map tiTarget filteredTargets)) (\<lambda>_. io_ret True))"

section \<open>Readiness gates\<close>

definition calculateReadinessGateTransition :: "TargetPod \<Rightarrow> string \<Rightarrow> TargetHealth option \<Rightarrow> string \<times> bool" where
  "calculateReadinessGateTransition pod targetHealthCondType targetHealth =
     (if \<not> HasAnyOfReadinessGates pod [targetHealthCondType] then (''True'', False)
      else (let status = (case targetHealth of
                            None \<Rightarrow> ''Unknown''
                          | Some h \<Rightarrow> if thState h = ''healthy'' then ''True'' else ''False'')
            in (status, status \<noteq> ''True'')))"

definition updateTargetHealthPodConditionForPod :: "'w rm_deps \<Rightarrow> string \<Rightarrow> TargetPod \<Rightarrow> TargetHealth option \<Rightarrow>
    (('w, 'z) targets_state_scheme, bool) io" where
  "updateTargetHealthPodConditionForPod d targetHealthCondType pod targetHealth s =
     (if \<not> HasAnyOfReadinessGates pod [targetHealthCondType] then (Inr False, s)
      else (let reason = (case targetHealth of None \<Rightarrow> '''' | Some h \<Rightarrow> thReason h);
                message = (case targetHealth of None \<Rightarrow> '''' | Some h \<Rightarrow> ToString (thDescription h));
                (status, needFurtherProbe) = calculateReadinessGateTransition pod targetHealthCondType targetHealth;
                existing = GetPodCondition pod targetHealthCondType
            in if (case existing of None \<Rightarrow> False
                   | Some c \<Rightarrow> condStatus c = status \<and> condReason c = reason \<and> condMessage c = message)
               then (Inr needFurtherProbe, s)
               else (let transition = (case existing of
                             None \<Rightarrow> rmNow d (world s)
                           | Some c \<Rightarrow> if condStatus c \<noteq> status then rmNow d (world s) else condTransition c);
                         newCond = \<lparr>condType = targetHealthCondType, condStatus = status, condReason = reason, condMessage = message,
                                    condTransition = transition\<rparr>
                     in case onWorld (rmPatchPod d (podKey pod) (podUID pod) existing newCond) s of
                          (Inl err, s') \<Rightarrow> if isNotFound err then (Inr False, s') else (Inl err, s')
                        | (Inr _, s') \<Rightarrow> (Inr needFurtherProbe, s'))))"

definition updateTargetHealthPodCondition :: "'w rm_deps \<Rightarrow> string \<Rightarrow> (PodEndpoint \<times> TargetInfo) list \<Rightarrow> PodEndpoint list \<Rightarrow>
    (('w, 'z) targets_state_scheme, bool) io" where
  "updateTargetHealthPodCondition d targetHealthCondType matchedEndpointAndTargets unmatchedEndpoints =
     io_bind (io_map (\<lambda>(endpoint, target). updateTargetHealthPodConditionForPod d targetHealthCondType (epPod endpoint) (tiHealth target))
                matchedEndpointAndTargets) (\<lambda>matched.
     io_bind (io_map (\<lambda>endpoint. updateTargetHealthPodConditionForPod d targetHealthCondType (epPod endpoint)
                  (Some \<lparr>thState = ''initial'', thReason = ''Elb.RegistrationInProgress'', thDescription = Some ''Target registration is in progress''\<rparr>))
                unmatchedEndpoints) (\<lambda>unmatched.
       io_ret (list_ex (\<lambda>b. b) (matched @ unmatched))))"

definition updatePodAsHealthyForDeletedTGB :: "'w rm_deps \<Rightarrow> TargetGroupBinding \<Rightarrow> (('w, 'z) targets_state_scheme, unit) io" where
  "updatePodAsHealthyForDeletedTGB d tgb s =
     io_iter (\<lambda>key. if fst key \<noteq> k8sNamespace tgb then io_ret ()
       else io_bind (onWorld (rmGetPod d key)) (\<lambda>found.
         case found of
           None \<Rightarrow> io_ret ()
         | Some pod \<Rightarrow>
             if HasAnyOfReadinessGates pod [BuildTargetHealthPodConditionType tgb]
             then io_bind (updateTargetHealthPodConditionForPod d (BuildTargetHealthPodConditionType tgb) pod
                    (Some \<lparr>thState = ''healthy'', thReason = '''', thDescription = Some ''Target Group Binding is deleted''\<rparr>)) (\<lambda>_. io_ret ())
             else io_ret ()))
       (rmPodKeys d (world s)) s"

section \<open>Reconciliation\<close>

text \<open>The errors that say that there is no target group any more are no errors of a cleanup.\<close>

definition ignoreMissingTargetGroup :: "('s, unit) io \<Rightarrow> ('s, unit) io" where
  "ignoreMissingTargetGroup m s =
     (case m s of
        (Inl err, s') \<Rightarrow> if isELBV2TargetGroupNotFoundError err \<or> isELBV2TargetGroupARNInvalidError err then (Inr (), s') else (Inl err, s')
      | (Inr _, s') \<Rightarrow> (Inr (), s'))"

definition cleanupTargets :: "'w rm_deps \<Rightarrow> TargetGroupBinding \<Rightarrow> (('w, 'z) multi_state_scheme, unit) io" where
  "cleanupTargets d tgb =
     ignoreMissingTargetGroup
       (io_bind (TM_ListTargets (rmAssumeRole d) tgb) (\<lambda>targets. io_bind (RM_deregisterTargets d tgb targets) (\<lambda>_. io_ret ())))"

definition RM_Cleanup :: "'w rm_deps \<Rightarrow> TargetGroupBinding \<Rightarrow> (('w, 'z) multi_state_scheme, unit) io" where
  "RM_Cleanup d tgb =
     io_bind (cleanupTargets d tgb) (\<lambda>_.
     io_bind (MC_CleanUp (rmConfigMaps d) tgb) (\<lambda>_.
     io_bind (onWorld (rmNetCleanup d tgb)) (\<lambda>_.
       updatePodAsHealthyForDeletedTGB d tgb)))"

text \<open>A call whose error is only noted.\<close>

definition io_failed :: "('s, unit) io \<Rightarrow> ('s, bool) io" where
  "io_failed m s = (case m s of (Inl err, s') \<Rightarrow> (Inr True, s') | (Inr _, s') \<Rightarrow> (Inr False, s'))"

text \<open>Any change clears the checkpoint before it is made; targets without endpoint are deregistered.\<close>

definition resetCheckPoint :: "'w rm_deps \<Rightarrow> bool \<Rightarrow> TargetGroupBinding \<Rightarrow> (('w, 'z) targets_state_scheme, TargetGroupBinding) io" where
  "resetCheckPoint d change tgb =
     (if change then updateTGBCheckPoint d tgb '''' (GetTGBReconcileCheckpoint tgb) else io_ret tgb)"

definition deregisterUnmatched :: "'w rm_deps \<Rightarrow> TargetGroupBinding \<Rightarrow> TargetInfo list \<Rightarrow> (('w, 'z) multi_state_scheme, bool) io" where
  "deregisterUnmatched d tgb unmatchedTargets =
     (if length unmatchedTargets > 0 then RM_deregisterTargets d tgb unmatchedTargets else io_ret False)"

text \<open>The endpoints without target are tracked and then registered, as far as the limit allows.\<close>

definition registerUnmatchedPods :: "'w rm_deps \<Rightarrow> TargetGroupBinding \<Rightarrow> PodEndpoint list \<Rightarrow> PodEndpoint list \<Rightarrow> TargetInfo list \<Rightarrow> bool \<Rightarrow>
    (('w, 'z) rm_state_scheme, PodEndpoint list \<times> bool) io" where
  "registerUnmatchedPods d tgb endpoints unmatchedEndpoints targets updateTracked =
     (if length unmatchedEndpoints > 0
      then io_bind (UpdateTrackedIPTargets (rmConfigMaps d) (rmSetOrder d) True endpoints tgb) (\<lambda>_.
           io_bind (io_lift (limitEndpoints d unmatchedEndpoints targets)) (\<lambda>limited.
           io_bind (registerPodEndpoints d tgb limited) (\<lambda>_. io_ret (limited, False))))
      else io_ret (unmatchedEndpoints, updateTracked))"

definition registerUnmatchedNodePorts :: "'w rm_deps \<Rightarrow> TargetGroupBinding \<Rightarrow> NodePortEndpoint list \<Rightarrow> NodePortEndpoint list \<Rightarrow> TargetInfo list \<Rightarrow>
    bool \<Rightarrow> (('w, 'z) rm_state_scheme, bool) io" where
  "registerUnmatchedNodePorts d tgb endpoints unmatchedEndpoints targets updateTracked =
     (if length unmatchedEndpoints > 0
      then io_bind (UpdateTrackedInstanceTargets (rmConfigMaps d) (rmSetOrder d) True endpoints tgb) (\<lambda>_.
           io_bind (io_lift (limitEndpoints d unmatchedEndpoints targets)) (\<lambda>limited.
           io_bind (registerNodePortEndpoints d tgb limited) (\<lambda>_. io_ret False)))
      else io_ret updateTracked)"

text \<open>What follows the listing of the targets; the result is the binding with the checkpoint it is left with.\<close>

definition syncPods :: "'w rm_deps \<Rightarrow> TargetGroupBinding \<Rightarrow> PodEndpoint list \<Rightarrow> TargetInfo list \<Rightarrow>
    (('w, 'z) rm_state_scheme, TargetGroupBinding) io" where
  "syncPods d tgb endpoints targets =
     (let targetHealthCondType = BuildTargetHealthPodConditionType tgb in
      io_bind (io_lift (matchPodEndpointWithTargets tgb endpoints (fst (partitionTargetsByDrainingStatus targets))))
        (\<lambda>(matchedEndpointAndTargets, unmatchedEndpoints, unmatchedTargets).
      io_bind (io_failed (onWorld (rmNetPods d tgb endpoints))) (\<lambda>needNetworkingRequeue.
      let preflightNeedFurtherProbe = list_ex (\<lambda>(endpoint, target).
            snd (calculateReadinessGateTransition (epPod endpoint) targetHealthCondType (tiHealth target))) matchedEndpointAndTargets in
      io_bind (resetCheckPoint d (length unmatchedEndpoints > 0 \<or> length unmatchedTargets > 0 \<or> needNetworkingRequeue
                 \<or> preflightNeedFurtherProbe) tgb) (\<lambda>tgb'.
      io_bind (deregisterUnmatched d tgb' unmatchedTargets) (\<lambda>updateTracked.
      io_bind (registerUnmatchedPods d tgb' endpoints unmatchedEndpoints targets updateTracked) (\<lambda>(unmatchedEndpoints, updateTracked).
      io_bind (UpdateTrackedIPTargets (rmConfigMaps d) (rmSetOrder d) updateTracked endpoints tgb') (\<lambda>_.
      io_bind (updateTargetHealthPodCondition d targetHealthCondType matchedEndpointAndTargets unmatchedEndpoints) (\<lambda>anyPodNeedFurtherProbe.
      if anyPodNeedFurtherProbe then io_fail (RequeueNeededAfter ''monitor targetHealth'' (rmRequeueDuration d))
      else if needNetworkingRequeue then io_fail (RequeueNeededAfter ''networking reconciliation'' (rmRequeueDuration d))
      else io_ret tgb'))))))))"

definition syncNodePorts :: "'w rm_deps \<Rightarrow> TargetGroupBinding \<Rightarrow> NodePortEndpoint list \<Rightarrow> TargetInfo list \<Rightarrow>
    (('w, 'z) rm_state_scheme, TargetGroupBinding) io" where
  "syncNodePorts d tgb endpoints targets =
     (let (matched, unmatchedEndpoints, unmatchedTargets) =
            matchNodePortEndpointWithTargets endpoints (fst (partitionTargetsByDrainingStatus targets)) in
      io_bind (onWorld (rmNetNodePorts d tgb endpoints)) (\<lambda>_.
      io_bind (resetCheckPoint d (length unmatchedEndpoints > 0 \<or> length unmatchedTargets > 0) tgb) (\<lambda>tgb'.
      io_bind (deregisterUnmatched d tgb' unmatchedTargets) (\<lambda>updateTracked.
      io_bind (registerUnmatchedNodePorts d tgb' endpoints unmatchedEndpoints targets updateTracked) (\<lambda>updateTracked.
      io_bind (UpdateTrackedInstanceTargets (rmConfigMaps d) (rmSetOrder d) updateTracked endpoints tgb') (\<lambda>_.
        io_ret tgb'))))))"

text \<open>
  The reconciliation once the endpoints are known. The result holds the new and the old checkpoint, whether the
  reconciliation was skipped, and the binding with the checkpoint it was left with.
\<close>

definition reconcilePodEndpoints :: "'w rm_deps \<Rightarrow> TargetGroupBinding \<Rightarrow> PodEndpoint list \<Rightarrow>
    (('w, 'z) rm_state_scheme, (string \<times> string \<times> bool) \<times> TargetGroupBinding) io" where
  "reconcilePodEndpoints d tgb endpoints =
     (let oldCheckPoint = GetTGBReconcileCheckpoint tgb in
      io_bind (io_lift (calculateTGBReconcileCheckpoint d
                 (map (\<lambda>ep. PodEndpoint_GetIdentifier ep True (tgbProtocolSupportsQuic tgb)) endpoints) tgb)) (\<lambda>newCheckPoint.
      if oldCheckPoint = newCheckPoint \<and> \<not> needReadinessGateFlip endpoints (BuildTargetHealthPodConditionType tgb)
      then io_ret ((newCheckPoint, oldCheckPoint, True), tgb)
      else io_bind (TM_ListTargets (rmAssumeRole d) tgb) (\<lambda>targets.
           io_bind (syncPods d tgb endpoints targets) (\<lambda>tgb'.
             io_ret ((newCheckPoint, oldCheckPoint, False), tgb')))))"

definition reconcileNodePortEndpoints :: "'w rm_deps \<Rightarrow> TargetGroupBinding \<Rightarrow> NodePortEndpoint list \<Rightarrow>
    (('w, 'z) rm_state_scheme, (string \<times> string \<times> bool) \<times> TargetGroupBinding) io" where
  "reconcileNodePortEndpoints d tgb endpoints =
     (let oldCheckPoint = GetTGBReconcileCheckpoint tgb in
      io_bind (io_lift (calculateTGBReconcileCheckpoint d
                 (map (\<lambda>ep. NodePortEndpoint_GetIdentifier ep True (tgbProtocolSupportsQuic tgb)) endpoints) tgb)) (\<lambda>newCheckPoint.
      if newCheckPoint = oldCheckPoint then io_ret ((newCheckPoint, oldCheckPoint, True), tgb)
      else io_bind (TM_ListTargets (rmAssumeRole d) tgb) (\<lambda>targets.
           io_bind (syncNodePorts d tgb endpoints targets) (\<lambda>tgb'.
             io_ret ((newCheckPoint, oldCheckPoint, False), tgb')))))"

text \<open>A backend that does not exist: what the binding has registered is cleaned up.\<close>

definition orCleanup :: "'w rm_deps \<Rightarrow> TargetGroupBinding \<Rightarrow> (('w, 'z) rm_state_scheme, 'e) io \<Rightarrow>
    ('e \<Rightarrow> (('w, 'z) rm_state_scheme, (string \<times> string \<times> bool) \<times> TargetGroupBinding) io) \<Rightarrow>
    (('w, 'z) rm_state_scheme, (string \<times> string \<times> bool) \<times> TargetGroupBinding) io" where
  "orCleanup d tgb resolve continue s =
     (case resolve s of
        (Inl err, s') \<Rightarrow>
          if isErrNotFound err
          then io_bind (RM_Cleanup d tgb) (\<lambda>_. io_ret (('''', GetTGBReconcileCheckpoint tgb, False), tgb)) s'
          else (Inl err, s')
      | (Inr endpoints, s') \<Rightarrow> continue endpoints s')"

definition reconcileWithIPTargetType :: "'w rm_deps \<Rightarrow> TargetGroupBinding \<Rightarrow>
    (('w, 'z) rm_state_scheme, (string \<times> string \<times> bool) \<times> TargetGroupBinding) io" where
  "reconcileWithIPTargetType d tgb =
     orCleanup d tgb
       (onWorld (rmResolvePods d (buildServiceReferenceKey tgb) (snd (ServiceRef (k8sSpec tgb))) (endpointSliceAddressType tgb)))
       (reconcilePodEndpoints d tgb)"

definition reconcileWithInstanceTargetType :: "'w rm_deps \<Rightarrow> TargetGroupBinding \<Rightarrow>
    (('w, 'z) rm_state_scheme, (string \<times> string \<times> bool) \<times> TargetGroupBinding) io" where
  "reconcileWithInstanceTargetType d tgb =
     io_bind (io_lift (GetTrafficProxyNodeSelector d tgb)) (\<lambda>nodeSelector.
       orCleanup d tgb
         (onWorld (rmResolveNodePorts d (buildServiceReferenceKey tgb) (snd (ServiceRef (k8sSpec tgb))) nodeSelector))
         (reconcileNodePortEndpoints d tgb))"

definition RM_Reconcile :: "'w rm_deps \<Rightarrow> TargetGroupBinding \<Rightarrow> (('w, 'z) rm_state_scheme, bool) io" where
  "RM_Reconcile d tgb =
     (case tgbTargetType (k8sSpec tgb) of
        None \<Rightarrow> io_fail (Errorf ''targetType is not specified: %v'' [k8sNamespace tgb @ ''/'' @ k8sName tgb])
      | Some targetType \<Rightarrow>
          io_bind (if targetType = ''ip'' then reconcileWithIPTargetType d tgb else reconcileWithInstanceTargetType d tgb)
            (\<lambda>((newCheckPoint, oldCheckPoint, isDeferred), tgb').
               if isDeferred then io_ret True
               else io_bind (updateTGBCheckPoint d tgb' newCheckPoint oldCheckPoint) (\<lambda>_. io_ret False)))"

section \<open>Calls that leave the targets alone\<close>

text \<open>
  A relation \<open>Q\<close> between the world before and after a call says what the call respects; a program \<open>keeps\<close> it if every run of it does, whatever its
  result, and if it leaves the cache of targets as it is.
\<close>

definition call_quiet :: "('w \<Rightarrow> 'w \<Rightarrow> bool) \<Rightarrow> ('w, 'a) io \<Rightarrow> bool" where
  "call_quiet Q f \<longleftrightarrow> (\<forall>w r w'. f w = (r, w') \<longrightarrow> Q w w')"

definition keeps :: "('w \<Rightarrow> 'w \<Rightarrow> bool) \<Rightarrow> (('w, 'z) targets_state_scheme, 'a) io \<Rightarrow> bool" where
  "keeps Q m \<longleftrightarrow> (\<forall>s r s'. m s = (r, s') \<longrightarrow> Q (world s) (world s') \<and> targetsCache s' = targetsCache s)"

lemma keepsD: "keeps Q m \<Longrightarrow> m s = (r, s') \<Longrightarrow> Q (world s) (world s') \<and> targetsCache s' = targetsCache s"
  by (simp add: keeps_def)

locale world_preorder =
  fixes Q :: "'w \<Rightarrow> 'w \<Rightarrow> bool"
  assumes Q_refl [simp]: "Q w w"
    and Q_trans: "Q a b \<Longrightarrow> Q b c \<Longrightarrow> Q a c"
begin

lemma keeps_ret: "keeps Q (io_ret x)" and keeps_fail: "keeps Q (io_fail e)" and keeps_lift: "keeps Q (io_lift r)"
  by (simp_all add: keeps_def)

lemma keeps_bind: "keeps Q m \<Longrightarrow> (\<And>x. keeps Q (f x)) \<Longrightarrow> keeps Q (io_bind m f)"
  unfolding keeps_def io_bind_def by (fastforce split: prod.splits sum.splits intro: Q_trans)

lemma keeps_onWorld: "call_quiet Q f \<Longrightarrow> keeps Q (onWorld f)"
  by (auto simp: keeps_def call_quiet_def onWorld_eq)

lemma keeps_failed: "keeps Q m \<Longrightarrow> keeps Q (io_failed m)"
  unfolding keeps_def io_failed_def by (fastforce split: prod.splits sum.splits)

lemma keeps_iter:
  assumes "\<And>x. x \<in> set xs \<Longrightarrow> keeps Q (f x)"
  shows "keeps Q (io_iter f xs)"
  unfolding keeps_def
proof (intro allI impI)
  fix s r s' assume "io_iter f xs s = (r, s')"
  then show "Q (world s) (world s') \<and> targetsCache s' = targetsCache s"
    using assms
  proof (induction xs arbitrary: s)
    case (Cons x xs)
    obtain r1 s1 where x: "f x s = (r1, s1)" by fastforce
    have k: "Q (world s) (world s1) \<and> targetsCache s1 = targetsCache s" using keepsD [OF Cons.prems(2) x] by simp
    show ?case
    proof (cases r1)
      case (Inr u)
      then have "io_iter f xs s1 = (r, s')" using Cons.prems(1) x by simp
      then have "Q (world s1) (world s') \<and> targetsCache s' = targetsCache s1" using Cons.IH Cons.prems(2) by (meson list.set_intros(2))
      then show ?thesis using k Q_trans by metis
    qed (use Cons.prems(1) x k in simp)
  qed simp
qed

lemma keeps_map:
  assumes "\<And>x. x \<in> set xs \<Longrightarrow> keeps Q (f x)"
  shows "keeps Q (io_map f xs)"
  using assms
proof (induction xs)
  case (Cons x xs)
  have "io_map f (x # xs) = io_bind (f x) (\<lambda>y. io_bind (io_map f xs) (\<lambda>ys. io_ret (y # ys)))"
    by (auto simp: fun_eq_iff io_bind_def split: prod.splits sum.splits)
  then show ?case using Cons by (auto intro!: keeps_bind keeps_ret)
qed (simp add: keeps_def)

lemmas keeps_rules = keeps_ret keeps_fail keeps_lift keeps_bind keeps_onWorld keeps_failed keeps_iter keeps_map

end

text \<open>The calls of the surroundings other than those of the targets and the patch of the binding.\<close>

definition configmaps_quiet :: "('w \<Rightarrow> 'w \<Rightarrow> bool) \<Rightarrow> 'w configmap_client \<Rightarrow> bool" where
  "configmaps_quiet Q k \<longleftrightarrow> (\<forall>n. call_quiet Q (cmGet k n)) \<and> (\<forall>n m. call_quiet Q (cmUpdate k n m))
     \<and> (\<forall>n m. call_quiet Q (cmCreate k n m)) \<and> (\<forall>n. call_quiet Q (cmDelete k n))"

definition deps_quiet :: "('w \<Rightarrow> 'w \<Rightarrow> bool) \<Rightarrow> 'w rm_deps \<Rightarrow> bool" where
  "deps_quiet Q d \<longleftrightarrow> configmaps_quiet Q (rmConfigMaps d)
     \<and> (\<forall>n p a. call_quiet Q (rmResolvePods d n p a)) \<and> (\<forall>n p a. call_quiet Q (rmResolveNodePorts d n p a))
     \<and> (\<forall>t es. call_quiet Q (rmNetPods d t es)) \<and> (\<forall>t es. call_quiet Q (rmNetNodePorts d t es)) \<and> (\<forall>t. call_quiet Q (rmNetCleanup d t))
     \<and> (\<forall>n u c c'. call_quiet Q (rmPatchPod d n u c c')) \<and> (\<forall>n. call_quiet Q (rmGetPod d n))
     \<and> (\<forall>v. call_quiet Q (rmFetchVPCInfo d v)) \<and> (\<forall>n. call_quiet Q (rmGetNodeLabels d n)) \<and> (\<forall>r e z. call_quiet Q (rmTranslateAZName d r e z))"

lemma quiet_resolve:
  assumes "deps_quiet Q d"
  shows "call_quiet Q (rmResolvePods d n p a)" "call_quiet Q (rmResolveNodePorts d n p sel)"
    and "call_quiet Q (rmNetPods d t es)"
  using assms by (cases n, simp add: deps_quiet_def)+

context world_preorder
begin

lemma keeps_getConfigMapContents: "configmaps_quiet Q k \<Longrightarrow> keeps Q (getConfigMapContents k tgb)"
  unfolding keeps_def getConfigMapContents_def configmaps_quiet_def call_quiet_def onWorld_def
  by (auto simp: Let_def updateCache_def split: option.splits sum.splits prod.splits if_splits)

lemma keeps_persistConfigMap: "configmaps_quiet Q k \<Longrightarrow> keeps Q (persistConfigMap k ord eps tgb)"
  unfolding keeps_def persistConfigMap_def configmaps_quiet_def call_quiet_def onWorld_def
  by (auto simp: Let_def updateCache_def split: option.splits sum.splits prod.splits if_splits) (blast intro: Q_trans)+

lemma keeps_updateTracked: "configmaps_quiet Q k \<Longrightarrow> keeps Q (updateTrackedTargets k ord b eps tgb)"
  using keeps_persistConfigMap [of k ord "remdups eps" tgb] unfolding keeps_def updateTrackedTargets_def by auto

lemma keeps_Filter: "configmaps_quiet Q k \<Longrightarrow> keeps Q (FilterTargetsForDeregistration k tgb ts)"
  unfolding FilterTargetsForDeregistration_def
  by (auto intro!: keeps_rules keeps_getConfigMapContents split: option.splits)

lemma keeps_MC_CleanUp: "configmaps_quiet Q k \<Longrightarrow> keeps Q (MC_CleanUp k tgb)"
  unfolding keeps_def MC_CleanUp_def configmaps_quiet_def call_quiet_def onWorld_def
  by (auto simp: Let_def split: sum.splits prod.splits if_splits)

lemma keeps_patchTGB: "(\<And>o' n. call_quiet Q (rmPatchTGB d o' n)) \<Longrightarrow> keeps Q (updateTGBCheckPoint d tgb new old)"
  unfolding keeps_def updateTGBCheckPoint_def call_quiet_def onWorld_def
  by (auto simp: Let_def split: sum.splits prod.splits if_splits)

lemma keeps_generateOverrideAzFn: "deps_quiet Q d \<Longrightarrow> keeps Q (generateOverrideAzFn d vpc role)"
  unfolding keeps_def generateOverrideAzFn_def deps_quiet_def call_quiet_def onWorld_def
  by (auto simp: Let_def split: sum.splits prod.splits if_splits)

lemma keeps_getPodAZ: "deps_quiet Q d \<Longrightarrow> keeps Q (getPodAvailabilityZone d pod)"
  unfolding keeps_def getPodAvailabilityZone_def deps_quiet_def call_quiet_def onWorld_def
  by (auto split: sum.splits prod.splits if_splits option.splits)

lemma keeps_resolveAZ: "deps_quiet Q d \<Longrightarrow> keeps Q (resolveTargetAvailabilityZone d tgb pod)"
proof -
  assume q: "deps_quiet Q d"
  have "keeps Q (\<lambda>s :: ('w, 'z) rm_state_scheme. case podAZ of None \<Rightarrow> (Inr None, s)
       | Some az \<Rightarrow> if IamRoleArnToAssume (k8sSpec tgb) = '''' then (Inr podAZ, s)
           else (case onWorld (rmTranslateAZName d (IamRoleArnToAssume (k8sSpec tgb)) (AssumeRoleExternalId (k8sSpec tgb)) az) s of
                   (Inl err, s') \<Rightarrow> (Inr None, s') | (Inr translatedAZ, s') \<Rightarrow> (Inr translatedAZ, s')))" for podAZ
    using q unfolding keeps_def deps_quiet_def call_quiet_def onWorld_def
    by (auto split: sum.splits prod.splits if_splits option.splits)
  then show ?thesis using q unfolding resolveTargetAvailabilityZone_def
    by (intro keeps_bind keeps_getPodAZ)
qed

lemma keeps_prepare: "deps_quiet Q d \<Longrightarrow> keeps Q (prepareRegistrationCall d eps tgb f b)"
  unfolding prepareRegistrationCall_def prepareTarget_def Let_def
  by (auto intro!: keeps_rules keeps_resolveAZ split: option.splits)

lemma keeps_podCondition: "deps_quiet Q d \<Longrightarrow> keeps Q (updateTargetHealthPodConditionForPod d ct pod h)"
proof -
  assume "deps_quiet Q d"
  then have "call_quiet Q (rmPatchPod d (podKey pod) u c c')" for u c c' by (cases "podKey pod") (simp add: deps_quiet_def)
  then have "Q w w'" if "rmPatchPod d (podKey pod) u c c' w = (r, w')" for u c c' w r w'
    using that by (simp add: call_quiet_def)
  then show ?thesis
    unfolding keeps_def updateTargetHealthPodConditionForPod_def onWorld_def
    by (auto simp: Let_def split: sum.splits prod.splits if_splits option.splits)
qed

lemma keeps_podConditions: "deps_quiet Q d \<Longrightarrow> keeps Q (updateTargetHealthPodCondition d ct ms us)"
  unfolding updateTargetHealthPodCondition_def
  by (auto intro!: keeps_rules keeps_podCondition split: prod.splits)

lemma keeps_deletedTGB: "deps_quiet Q d \<Longrightarrow> keeps Q (updatePodAsHealthyForDeletedTGB d tgb)"
proof -
  assume q: "deps_quiet Q d"
  let ?body = "\<lambda>key. if fst key \<noteq> k8sNamespace tgb then io_ret ()
       else io_bind (onWorld (rmGetPod d key)) (\<lambda>found. case found of None \<Rightarrow> io_ret () | Some pod \<Rightarrow>
             if HasAnyOfReadinessGates pod [BuildTargetHealthPodConditionType tgb]
             then io_bind (updateTargetHealthPodConditionForPod d (BuildTargetHealthPodConditionType tgb) pod
                    (Some \<lparr>thState = ''healthy'', thReason = '''', thDescription = Some ''Target Group Binding is deleted''\<rparr>)) (\<lambda>_. io_ret ())
             else io_ret ())"
  have body: "keeps Q (io_iter ?body keys :: (('w, 'z) targets_state_scheme, unit) io)" for keys
    using q by (auto intro!: keeps_rules keeps_podCondition split: option.splits simp: deps_quiet_def)
  show ?thesis
    unfolding keeps_def
  proof (intro allI impI)
    fix s r s' assume "updatePodAsHealthyForDeletedTGB d tgb s = (r, s')"
    then show "Q (world s) (world s') \<and> targetsCache s' = targetsCache s"
      unfolding updatePodAsHealthyForDeletedTGB_def by (rule keepsD [OF body])
  qed
qed

end

section \<open>Matching\<close>

definition uidOf :: "target_key \<Rightarrow> string" where
  "uidOf k = fst k @ '':'' @ Itoa (snd k)"

lemma inj_uidOf: "inj uidOf"
  by (auto simp: inj_def uidOf_def append_sep_inj Itoa_inj)

lemma mlookups_diff:
  "h ` set (mlookups (mbuild h (\<lambda>x. x) xs []) (keys_diff (mbuild h (\<lambda>x. x) xs []) n)) = h ` set xs - fst ` set n
   \<and> set (mlookups (mbuild h (\<lambda>x. x) xs []) (keys_diff (mbuild h (\<lambda>x. x) xs []) n)) \<subseteq> set xs"
proof -
  let ?m = "mbuild h (\<lambda>x. x) xs []"
  have val: "mget ?m k = Some x \<Longrightarrow> x \<in> set xs \<and> h x = k" for k x by (erule mget_mbuild_SomeD) simp
  have A: "k \<in> h ` set (mlookups ?m (keys_diff ?m n))" if "k \<in> h ` set xs - fst ` set n" for k
  proof -
    have "k \<in> fst ` set ?m" using that by simp
    then obtain x where x: "mget ?m k = Some x" by (meson not_None_eq map_of_eq_None_iff)
    then have "x \<in> set (mlookups ?m (keys_diff ?m n))" using that by (auto simp: set_mlookups)
    then show ?thesis using val [OF x] by auto
  qed
  have B: "h x \<in> h ` set xs - fst ` set n \<and> x \<in> set xs" if x: "x \<in> set (mlookups ?m (keys_diff ?m n))" for x
  proof -
    obtain k where k: "k \<in> set (keys_diff ?m n)" "mget ?m k = Some x" using x unfolding set_mlookups by blast
    then have "x \<in> set xs \<and> h x = k" using val by blast
    then show ?thesis using k(1) by (simp only: keys_ops_simps keys_mbuild) blast
  qed
  show ?thesis
  proof (intro conjI equalityI subsetI)
    fix k assume "k \<in> h ` set (mlookups ?m (keys_diff ?m n))"
    then obtain x where "k = h x" "x \<in> set (mlookups ?m (keys_diff ?m n))" by (rule imageE)
    then show "k \<in> h ` set xs - fst ` set n" using B by simp
  qed (use A B in simp_all)
qed

lemma matchByKey_keys:
  assumes "matchByKey (mbuild f (\<lambda>x. x) es []) (mbuild g (\<lambda>x. x) ts []) = (mt, ue, ut)"
  shows "f ` set ue = f ` set es - g ` set ts" "g ` set ut = g ` set ts - f ` set es"
    and "set ue \<subseteq> set es" "set ut \<subseteq> set ts"
    and "(e, t) \<in> set mt \<Longrightarrow> e \<in> set es \<and> t \<in> set ts \<and> f e = g t"
proof -
  have eqs: "mt = matchPairs (mbuild f (\<lambda>x. x) es []) (mbuild g (\<lambda>x. x) ts []) (keys_inter (mbuild f (\<lambda>x. x) es []) (mbuild g (\<lambda>x. x) ts []))"
    "ue = mlookups (mbuild f (\<lambda>x. x) es []) (keys_diff (mbuild f (\<lambda>x. x) es []) (mbuild g (\<lambda>x. x) ts []))"
    "ut = mlookups (mbuild g (\<lambda>x. x) ts []) (keys_diff (mbuild g (\<lambda>x. x) ts []) (mbuild f (\<lambda>x. x) es []))"
    using assms by (auto simp: matchByKey_def)
  show "f ` set ue = f ` set es - g ` set ts" "set ue \<subseteq> set es"
    unfolding eqs using mlookups_diff [of f es "mbuild g (\<lambda>x. x) ts []"] by simp_all
  show "g ` set ut = g ` set ts - f ` set es" "set ut \<subseteq> set ts"
    unfolding eqs using mlookups_diff [of g ts "mbuild f (\<lambda>x. x) es []"] by simp_all
  show "e \<in> set es \<and> t \<in> set ts \<and> f e = g t" if et: "(e, t) \<in> set mt"
  proof -
    obtain k where "mget (mbuild f (\<lambda>x. x) es []) k = Some e" "mget (mbuild g (\<lambda>x. x) ts []) k = Some t"
      using et unfolding eqs set_matchPairs by blast
    then show ?thesis by (elim mget_mbuild_SomeD) simp
  qed
qed

lemma uidOf_diff:
  assumes "(uidOf \<circ> f) ` A = (uidOf \<circ> f) ` B - (uidOf \<circ> g) ` C"
  shows "f ` A = f ` B - g ` C"
  using assms unfolding image_comp [symmetric] image_set_diff [OF inj_uidOf, symmetric] by (rule inj_image_eq_iff [OF inj_uidOf, THEN iffD1])

abbreviation podKeyOf :: "PodEndpoint \<Rightarrow> target_key" where
  "podKeyOf e \<equiv> (epIP e, epPort e)"

abbreviation nodeKeyOf :: "NodePortEndpoint \<Rightarrow> target_key" where
  "nodeKeyOf e \<equiv> (npInstanceID e, npNodePort e)"

lemma matchNodePort_keys:
  assumes "matchNodePortEndpointWithTargets es ts = (mt, ue, ut)"
  shows "nodeKeyOf ` set ue = nodeKeyOf ` set es - (tkey \<circ> tiTarget) ` set ts"
    and "(tkey \<circ> tiTarget) ` set ut = (tkey \<circ> tiTarget) ` set ts - nodeKeyOf ` set es"
proof -
  have "matchByKey (mbuild (uidOf \<circ> nodeKeyOf) (\<lambda>x. x) es []) (mbuild (uidOf \<circ> (tkey \<circ> tiTarget)) (\<lambda>x. x) ts []) = (mt, ue, ut)"
    using assms by (simp add: matchNodePortEndpointWithTargets_def uidOf_def tkey_def comp_def)
  note K = matchByKey_keys [OF this]
  show "nodeKeyOf ` set ue = nodeKeyOf ` set es - (tkey \<circ> tiTarget) ` set ts"
    "(tkey \<circ> tiTarget) ` set ut = (tkey \<circ> tiTarget) ` set ts - nodeKeyOf ` set es"
    by (rule uidOf_diff [OF K(1)], rule uidOf_diff [OF K(2)])
qed

lemma mbuild_map: "mbuild f g (map h xs) m = mbuild (f \<circ> h) (g \<circ> h) xs m"
  by (induction xs arbitrary: m) auto

lemma matchPod_keys:
  assumes "matchPodEndpointWithTargets tgb es ts = Inr (mt, ue, ut)" "\<not> tgbProtocolSupportsQuic tgb"
    and "\<forall>t \<in> set ts. tdQuicServerId (tiTarget t) = None"
  shows "podKeyOf ` set ue = podKeyOf ` set es - (tkey \<circ> tiTarget) ` set ts"
    and "(tkey \<circ> tiTarget) ` set ut = (tkey \<circ> tiTarget) ` set ts - podKeyOf ` set es"
proof -
  define g where "g = (\<lambda>t. projr (TargetInfo_GetIdentifier t))"
  have uts: "res_map (\<lambda>t. res_bind (TargetInfo_GetIdentifier t) (\<lambda>uid. Inr (uid, t))) ts = Inr (map (\<lambda>t. (g t, t)) ts)"
    and ok: "\<forall>t \<in> set ts. \<exists>i. TargetInfo_GetIdentifier t = Inr i"
  proof -
    obtain uts where u: "res_map (\<lambda>t. res_bind (TargetInfo_GetIdentifier t) (\<lambda>uid. Inr (uid, t))) ts = Inr uts"
      using assms(1) by (auto simp: matchPodEndpointWithTargets_def elim!: res_bind_InrE)
    then show ok: "\<forall>t \<in> set ts. \<exists>i. TargetInfo_GetIdentifier t = Inr i" by (auto simp: res_map_total elim!: res_bind_InrE)
    show "res_map (\<lambda>t. res_bind (TargetInfo_GetIdentifier t) (\<lambda>uid. Inr (uid, t))) ts = Inr (map (\<lambda>t. (g t, t)) ts)"
      unfolding res_map_total using ok by (auto simp: g_def)
  qed
  have gk: "g t = uidOf (tkey (tiTarget t))" if "t \<in> set ts" for t
    using ok assms(3) that by (auto simp: g_def uidOf_def tkey_def TargetInfo_GetIdentifier_def ToInt32_def split: option.splits)
  have f: "PodEndpoint_GetIdentifier e False False = (uidOf \<circ> podKeyOf) e" for e
    by (simp add: PodEndpoint_GetIdentifier_def uidOf_def Let_def split: option.splits)
  have "matchByKey (mbuild (uidOf \<circ> podKeyOf) (\<lambda>x. x) es []) (mbuild g (\<lambda>x. x) ts []) = (mt, ue, ut)"
    using assms(1,2) uts by (simp add: matchPodEndpointWithTargets_def f mbuild_map comp_def)
  note K = matchByKey_keys [OF this]
  have ts: "g ` set ts = (uidOf \<circ> (tkey \<circ> tiTarget)) ` set ts" and ut: "g ` set ut = (uidOf \<circ> (tkey \<circ> tiTarget)) ` set ut"
    using gk K(4) by (auto intro!: image_cong)
  show "podKeyOf ` set ue = podKeyOf ` set es - (tkey \<circ> tiTarget) ` set ts"
    by (rule uidOf_diff [OF K(1) [unfolded ts]])
  show "(tkey \<circ> tiTarget) ` set ut = (tkey \<circ> tiTarget) ` set ts - podKeyOf ` set es"
    by (rule uidOf_diff [OF K(2) [unfolded ts ut]])
qed

section \<open>A reconciliation registers exactly the endpoints\<close>

definition envOf :: "'w rm_deps \<Rightarrow> 'w target_view \<Rightarrow> 'w target_view \<Rightarrow> 'w targets_env" where
  "envOf d reg drn = \<lparr>teAssumeRole = rmAssumeRole d, teOrder = rmTargetOrder d, teRegistered = reg, teDraining = drn\<rparr>"

text \<open>The surroundings behave as documented: AWS as in \<open>Targets\<close>, and no other call changes the targets of a target group.\<close>

definition surroundings_ok :: "'w target_view \<Rightarrow> 'w target_view \<Rightarrow> 'w rm_deps \<Rightarrow> bool" where
  "surroundings_ok reg drn d \<longleftrightarrow> env_ok (envOf d reg drn) \<and> deps_quiet (calm reg drn) d
     \<and> (\<forall>t t'. call_quiet (calm reg drn) (rmPatchTGB d t t'))"

interpretation calm: world_preorder "calm reg drn" for reg drn
  by unfold_locales (auto intro: calm_trans)

lemma keeps_inv:
  assumes "keeps (calm reg drn) m" "m s = (r, s')" "cache_inv reg drn s"
  shows "cache_inv reg drn s' \<and> reg (world s') = reg (world s)"
proof -
  have c: "calm reg drn (world s) (world s')" "targetsCache s' = targetsCache s" using keepsD [OF assms(1,2)] by simp_all
  then have "cache_inv reg drn (s\<lparr>world := world s'\<rparr>)" using cache_inv_calm [OF assms(3)] by blast
  then show ?thesis using c by (simp add: cache_inv_def calm_def)
qed

lemma checkPoint_spec: "updateTGBCheckPoint d tgb new old s = (Inr tgb', s') \<Longrightarrow> k8sSpec tgb' = k8sSpec tgb"
  by (auto simp: updateTGBCheckPoint_def SaveTGBReconcileCheckpoint_def Let_def split: if_splits prod.splits sum.splits)

lemma TM_same_spec:
  assumes "k8sSpec t = k8sSpec t'"
  shows "TM_RegisterTargets a ord t = TM_RegisterTargets a ord t'" "TM_DeregisterTargets a t = TM_DeregisterTargets a t'"
  unfolding TM_RegisterTargets_def TM_DeregisterTargets_def assumeRoleOf_def assms by (rule refl)+

lemma unshared_deregister:
  assumes "\<not> tgbMultiCluster (k8sSpec tgb)"
    and "deregisterUnmatched d tgb ts s = (Inr b, s')"
  shows "TM_DeregisterTargets (rmAssumeRole d) tgb (map tiTarget ts) s = (Inr (), s')"
  using assms
  by (auto simp: deregisterUnmatched_def RM_deregisterTargets_def FilterTargetsForDeregistration_def TM_changes_Nil io_bind_def split: if_splits prod.splits sum.splits)

lemma unshared_track: "\<not> tgbMultiCluster (k8sSpec tgb) \<Longrightarrow> updateTrackedTargets k ord b eps tgb s = (Inr (), s)"
  by (simp add: updateTrackedTargets_def)

lemma reconcileNodePort_exact:
  assumes ok: "surroundings_ok reg drn d" and inv: "cache_inv reg drn s"
    and single: "\<not> tgbMultiCluster (k8sSpec tgb)" "rmMaxTargets d = 0"
    and run: "reconcileNodePortEndpoints d tgb es s = (Inr ((new, old, False), tgb'), s')"
  shows "cache_inv reg drn s' \<and> reg (world s') (TargetGroupARN (k8sSpec tgb)) = nodeKeyOf ` set es"
proof -
  let ?arn = "TargetGroupARN (k8sSpec tgb)" and ?e = "envOf d reg drn"
  have q: "deps_quiet (calm reg drn) d" "\<And>t t'. call_quiet (calm reg drn) (rmPatchTGB d t t')" and env: "env_ok ?e"
    using ok by (simp_all add: surroundings_ok_def)
  have e: "teAssumeRole ?e = rmAssumeRole d" "teOrder ?e = rmTargetOrder d" "teRegistered ?e = reg" "teDraining ?e = drn"
    by (simp_all add: envOf_def)
  obtain targets s1 mt ue ut s2 tgb1 s3 b s4 b' s5 where
      list: "TM_ListTargets (rmAssumeRole d) tgb s = (Inr targets, s1)"
    and match: "matchNodePortEndpointWithTargets es (fst (partitionTargetsByDrainingStatus targets)) = (mt, ue, ut)"
    and net: "onWorld (rmNetNodePorts d tgb es) s1 = (Inr (), s2)"
    and cp: "resetCheckPoint d (length ue > 0 \<or> length ut > 0) tgb s2 = (Inr tgb1, s3)"
    and dereg: "deregisterUnmatched d tgb1 ut s3 = (Inr b, s4)"
    and reg: "registerUnmatchedNodePorts d tgb1 es ue targets b s4 = (Inr b', s5)"
    and track: "UpdateTrackedInstanceTargets (rmConfigMaps d) (rmSetOrder d) b' es tgb1 s5 = (Inr (), s')"
    using run unfolding reconcileNodePortEndpoints_def syncNodePorts_def Let_def
    by (auto elim!: io_bind_InrE split: if_splits prod.splits)
  have spec: "k8sSpec tgb1 = k8sSpec tgb" using cp checkPoint_spec by (auto simp: resetCheckPoint_def split: if_splits)
  have single1: "\<not> tgbMultiCluster (k8sSpec tgb1)" using single(1) spec by simp
  let ?targets = "map (\<lambda>endpoint. \<lparr>tdId = Some (npInstanceID endpoint), tdPort = Some (npNodePort endpoint), tdAvailabilityZone = None,
      tdQuicServerId = None\<rparr> :: ElbTargetDescription) ue"
  have d': "TM_DeregisterTargets (rmAssumeRole d) tgb (map tiTarget ut) s3 = (Inr (), s4)"
    using unshared_deregister [OF single1 dereg] unfolding TM_same_spec(2) [OF spec] .
  have "TM_RegisterTargets (rmAssumeRole d) (rmTargetOrder d) tgb1 ?targets s4 = (Inr (), s5)"
    using reg single(2)
    by (auto simp: registerUnmatchedNodePorts_def unshared_track [OF single1] UpdateTrackedInstanceTargets_def limitEndpoints_def registerNodePortEndpoints_def TM_changes_Nil io_bind_def
        split: if_splits prod.splits sum.splits)
  then have r': "TM_RegisterTargets (rmAssumeRole d) (rmTargetOrder d) tgb ?targets s4 = (Inr (), s5)"
    unfolding TM_same_spec(1) [OF spec] .
  have s': "s' = s5" using track by (simp add: UpdateTrackedInstanceTargets_def unshared_track [OF single1])
  note L = tm.list_ok [OF env, unfolded e, OF inv list]
  have i2: "cache_inv reg drn s2 \<and> reg (world s2) = reg (world s1)"
    by (rule keeps_inv [OF calm.keeps_onWorld net]) (use q(1) L in \<open>simp_all add: deps_quiet_def\<close>)
  have i3: "cache_inv reg drn s3 \<and> reg (world s3) = reg (world s2)"
    using keeps_inv [OF calm.keeps_patchTGB [OF q(2)], of tgb "''''" "GetTGBReconcileCheckpoint tgb" s2 _ s3] cp i2
    by (auto simp: resetCheckPoint_def split: if_splits)
  have i4: "cache_inv reg drn s4" using tm.deregister_ok [OF env, unfolded e, OF _ d'] i3 by blast
  have listed: "(tkey \<circ> tiTarget) ` set (fst (partitionTargetsByDrainingStatus targets)) = reg (world s) ?arn"
    using L by (simp add: partitionTargetsByDrainingStatus_def image_comp)
  note K = matchNodePort_keys [OF match, unfolded listed]
  have old: "tkey ` set (map tiTarget ut) = reg (world s) ?arn - nodeKeyOf ` set es" using K(2) by (simp add: image_comp)
  have "tkey ` set ?targets = nodeKeyOf ` set ue" by (simp add: image_image tkey_def ToInt32_def)
  then have new: "tkey ` set ?targets = nodeKeyOf ` set es - reg (world s) ?arn" using K(1) by simp
  show ?thesis unfolding s'
    using tm.sync [OF env, unfolded e, OF inv list _ _ d' old i4 refl r' new] i2 i3 by simp
qed

lemma io_map_each:
  assumes "io_map f xs s = (Inr ys, s')"
  shows "list_all2 (\<lambda>x y. \<exists>s s'. f x s = (Inr y, s')) xs ys"
  using assms by (induction xs arbitrary: s ys) (auto split: prod.splits sum.splits)

lemma prepareTarget_key:
  assumes "prepareTarget d tgb f b e s = (Inr ts, s')" "\<not> tgbProtocolSupportsQuic tgb"
  shows "\<exists>t. ts = [t] \<and> tkey t = podKeyOf e \<and> tdQuicServerId t = None"
  using assms by (auto simp: prepareTarget_def Let_def tkey_def ToInt32_def elim!: io_bind_InrE)

lemma prepare_keys:
  assumes "prepareRegistrationCall d eps tgb f b s = (Inr ts, s')" "\<not> tgbProtocolSupportsQuic tgb"
  shows "tkey ` set ts = podKeyOf ` set eps"
proof -
  obtain tss where run: "io_map (prepareTarget d tgb f b) eps s = (Inr tss, s')" and ts: "ts = concat tss"
    using assms(1) unfolding prepareRegistrationCall_def by (auto elim!: io_bind_InrE)
  show ?thesis
    using io_map_each [OF run] ts
  proof (induction eps tss arbitrary: ts rule: list_all2_induct)
    case (Cons e eps t tss)
    then obtain u where "t = [u]" "tkey u = podKeyOf e" using prepareTarget_key [OF _ assms(2)] by metis
    then show ?case using Cons by simp
  qed simp
qed

lemma registerPodEndpoints_exact:
  assumes ok: "surroundings_ok reg drn d" and inv: "cache_inv reg drn s" and noquic: "\<not> tgbProtocolSupportsQuic tgb"
    and run: "registerPodEndpoints d tgb eps s = (Inr (), s')"
  shows "cache_inv reg drn s' \<and> reg (world s') (TargetGroupARN (k8sSpec tgb)) = reg (world s) (TargetGroupARN (k8sSpec tgb)) \<union> podKeyOf ` set eps"
proof -
  let ?arn = "TargetGroupARN (k8sSpec tgb)" and ?e = "envOf d reg drn" and ?key = "k8sNamespace tgb @ ''/'' @ k8sName tgb"
  have q: "deps_quiet (calm reg drn) d" and env: "env_ok ?e" using ok by (simp_all add: surroundings_ok_def)
  have e: "teAssumeRole ?e = rmAssumeRole d" "teOrder ?e = rmTargetOrder d" "teRegistered ?e = reg" "teDraining ?e = drn"
    by (simp_all add: envOf_def)
  have cloud: "cloud_ok reg drn (rmAssumeRole d)" "go_order (rmTargetOrder d)" using env by (simp_all add: env_ok_def envOf_def)
  obtain f s1 ts s2 where gen: "generateOverrideAzFn d (if tgbVpcID (k8sSpec tgb) \<noteq> '''' \<and> tgbVpcID (k8sSpec tgb) \<noteq> rmVpcID d
          then tgbVpcID (k8sSpec tgb) else rmVpcID d) (IamRoleArnToAssume (k8sSpec tgb)) s = (Inr f, s1)"
    and prep: "prepareRegistrationCall d eps tgb f (?key \<in> set (needsPodAZCache s1)) s1 = (Inr ts, s2)"
    and rest: "(case TM_RegisterTargets (rmAssumeRole d) (rmTargetOrder d) tgb ts s2 of
               (Inr _, s') \<Rightarrow> (Inr (), s')
             | (Inl err, s') \<Rightarrow>
                 if isAZValidationError err \<and> \<not> ?key \<in> set (needsPodAZCache s1) \<and> \<not> usePodAZForCrossAccount tgb
                 then io_bind (prepareRegistrationCall d eps tgb f True)
                        (TM_RegisterTargets (rmAssumeRole d) (rmTargetOrder d) tgb)
                        (s'\<lparr>needsPodAZCache := ?key # needsPodAZCache s'\<rparr>)
                 else (Inl err, s')) = (Inr (), s')"
    using run unfolding registerPodEndpoints_def Let_def by (auto elim!: io_bind_InrE)
  have i1: "cache_inv reg drn s1 \<and> reg (world s1) = reg (world s)"
    by (rule keeps_inv [OF calm.keeps_generateOverrideAzFn [OF q] gen inv])
  have i2: "cache_inv reg drn s2 \<and> reg (world s2) = reg (world s)"
    using keeps_inv [OF calm.keeps_prepare [OF q] prep] i1 by simp
  note keys = prepare_keys [OF prep noquic]
  obtain r3 s3 where r3: "TM_RegisterTargets (rmAssumeRole d) (rmTargetOrder d) tgb ts s2 = (r3, s3)" by fastforce
  note R3 = tm.register_ok [OF env, unfolded e, OF conjunct1 [OF i2] r3]
  show ?thesis
  proof (cases r3)
    case (Inr u)
    then show ?thesis using rest r3 R3 keys i2 by simp
  next
    case (Inl err)
    let ?s4 = "s3\<lparr>needsPodAZCache := ?key # needsPodAZCache s3\<rparr>"
    obtain ts' s5 where prep2: "prepareRegistrationCall d eps tgb f True ?s4 = (Inr ts', s5)"
      and r5: "TM_RegisterTargets (rmAssumeRole d) (rmTargetOrder d) tgb ts' s5 = (Inr (), s')"
      using rest r3 Inl by (auto elim!: io_bind_InrE split: if_splits)
    have part: "reg (world s2) ?arn \<subseteq> reg (world s3) ?arn" "reg (world s3) ?arn \<subseteq> reg (world s2) ?arn \<union> podKeyOf ` set eps"
      using TM_RegisterTargets_within [OF cloud(1) r3] keys by (simp_all add: within_def)
    have "cache_inv reg drn ?s4" using R3 by (simp add: cache_inv_def)
    then have i5: "cache_inv reg drn s5 \<and> reg (world s5) = reg (world s3)"
      using keeps_inv [OF calm.keeps_prepare [OF q] prep2] by simp
    have "cache_inv reg drn s' \<and> reg (world s') ?arn = reg (world s5) ?arn \<union> tkey ` set ts'"
      using tm.register_ok [OF env, unfolded e, OF conjunct1 [OF i5] r5] by simp
    then show ?thesis using part prepare_keys [OF prep2 noquic] i5 i2 by auto
  qed
qed

text \<open>AWS reports no QUIC server identifiers for a target group of another protocol.\<close>

definition plain_cloud :: "'w assume_role \<Rightarrow> string \<Rightarrow> bool" where
  "plain_cloud AssumeRole arn \<longleftrightarrow>
     (\<forall>role ext w c w' ts v resp v'. AssumeRole role ext w = (Inr c, w') \<longrightarrow> elbDescribeTargetHealth c arn ts v = (Inr resp, v') \<longrightarrow>
        (\<forall>t h. (Some t, h) \<in> set resp \<longrightarrow> tdQuicServerId t = None))"

abbreviation plain :: "TargetInfo list \<Rightarrow> bool" where
  "plain ts \<equiv> \<forall>t \<in> set ts. tdQuicServerId (tiTarget t) = None"

lemma listTargetsFromAWS_plain:
  assumes "plain_cloud A (TargetGroupARN (k8sSpec tgb))" "listTargetsFromAWS A tgb targets s = (Inr ts, s')"
  shows "plain ts"
proof -
  obtain c w resp v v' where c: "assumeRoleOf A tgb (world s) = (Inr c, w)"
      and r: "elbDescribeTargetHealth c (TargetGroupARN (k8sSpec tgb)) (targetByIdPort targets) v = (Inr resp, v')"
      and l: "listedTargets resp = Inr ts"
    using assms(2) unfolding listTargetsFromAWS_def by (auto elim!: io_bind_InrE simp: onWorld_eq)
  have "tdQuicServerId t = None" if "(Some t, h) \<in> set resp" for t h
    using assms(1) c r that unfolding plain_cloud_def assumeRoleOf_def by blast
  moreover have "\<exists>h. (Some (tiTarget t), h) \<in> set resp" if "t \<in> set ts" for t
    using res_map_SomeD [OF l [unfolded listedTargets_def] that] by (force split: option.splits)
  ultimately show ?thesis by blast
qed

lemma TM_ListTargets_plain:
  assumes "plain_cloud A (TargetGroupARN (k8sSpec tgb))"
    and "\<forall>ts. mget (targetsCache s) (TargetGroupARN (k8sSpec tgb)) = Some ts \<longrightarrow> plain ts"
    and "TM_ListTargets A tgb s = (Inr ts, s')"
  shows "plain ts"
proof (cases "mget (targetsCache s) (TargetGroupARN (k8sSpec tgb))")
  case None
  then obtain s1 where "listTargetsFromAWS A tgb [] s = (Inr ts, s1)" using assms(3)
    by (auto simp: TM_ListTargets_def refreshAllTargets_def Let_def elim!: io_bind_InrE)
  then show ?thesis by (rule listTargetsFromAWS_plain [OF assms(1)])
next
  case (Some cached)
  then obtain s1 where r: "refreshUnhealthyTargets A tgb cached s = (Inr ts, s1)" using assms(3)
    by (auto simp: TM_ListTargets_def Let_def elim!: io_bind_InrE)
  have "plain cached" using assms(2) Some by blast
  then show ?thesis
  proof (cases "filter (\<lambda>t. \<not> IsHealthy t) cached = []")
    case False
    then obtain infos s2 where "listTargetsFromAWS A tgb (map tiTarget (filter (\<lambda>t. \<not> IsHealthy t) cached)) s = (Inr infos, s2)"
        and ts: "ts = filter IsHealthy cached @ filter (\<lambda>t. \<not> IsNotRegistered t) infos"
      using r by (auto simp: refreshUnhealthyTargets_def Let_def elim!: io_bind_InrE)
    then have "plain infos" using listTargetsFromAWS_plain [OF assms(1)] by blast
    then show ?thesis using \<open>plain cached\<close> ts by auto
  qed (use r in \<open>auto simp: refreshUnhealthyTargets_def Let_def\<close>)
qed

lemma reconcilePods_exact:
  assumes ok: "surroundings_ok reg drn d" and inv: "cache_inv reg drn s"
    and single: "\<not> tgbMultiCluster (k8sSpec tgb)" "rmMaxTargets d = 0" and noquic: "\<not> tgbProtocolSupportsQuic tgb"
    and pl: "plain_cloud (rmAssumeRole d) (TargetGroupARN (k8sSpec tgb))"
      "\<forall>ts. mget (targetsCache s) (TargetGroupARN (k8sSpec tgb)) = Some ts \<longrightarrow> plain ts"
    and run: "reconcilePodEndpoints d tgb es s = (Inr ((new, old, False), tgb'), s')"
  shows "cache_inv reg drn s' \<and> reg (world s') (TargetGroupARN (k8sSpec tgb)) = podKeyOf ` set es"
proof -
  let ?arn = "TargetGroupARN (k8sSpec tgb)" and ?e = "envOf d reg drn" and ?ct = "BuildTargetHealthPodConditionType tgb"
  have q: "deps_quiet (calm reg drn) d" "\<And>t t'. call_quiet (calm reg drn) (rmPatchTGB d t t')" and env: "env_ok ?e"
    using ok by (simp_all add: surroundings_ok_def)
  have e: "teAssumeRole ?e = rmAssumeRole d" "teOrder ?e = rmTargetOrder d" "teRegistered ?e = reg" "teDraining ?e = drn"
    by (simp_all add: envOf_def)
  obtain targets s1 mt ue ut b2 s2 cnd tgb1 s3 b s4 ue' b' s5 s6 b7 where
      list: "TM_ListTargets (rmAssumeRole d) tgb s = (Inr targets, s1)"
    and match: "matchPodEndpointWithTargets tgb es (fst (partitionTargetsByDrainingStatus targets)) = Inr (mt, ue, ut)"
    and net: "io_failed (onWorld (rmNetPods d tgb es)) s1 = (Inr b2, s2)"
    and cp: "resetCheckPoint d cnd tgb s2 = (Inr tgb1, s3)"
    and dereg: "deregisterUnmatched d tgb1 ut s3 = (Inr b, s4)"
    and reg: "registerUnmatchedPods d tgb1 es ue targets b s4 = (Inr (ue', b'), s5)"
    and track: "UpdateTrackedIPTargets (rmConfigMaps d) (rmSetOrder d) b' es tgb1 s5 = (Inr (), s6)"
    and gates: "updateTargetHealthPodCondition d ?ct mt ue' s6 = (Inr b7, s')"
    using run unfolding reconcilePodEndpoints_def syncPods_def Let_def
    by (auto elim!: io_bind_InrE split: prod.splits if_splits)
  have spec: "k8sSpec tgb1 = k8sSpec tgb" using cp checkPoint_spec by (auto simp: resetCheckPoint_def split: if_splits)
  have single1: "\<not> tgbMultiCluster (k8sSpec tgb1)" using single(1) spec by simp
  have noquic1: "\<not> tgbProtocolSupportsQuic tgb1" using noquic spec by (simp add: tgbProtocolSupportsQuic_def)
  have d': "TM_DeregisterTargets (rmAssumeRole d) tgb (map tiTarget ut) s3 = (Inr (), s4)"
    using unshared_deregister [OF single1 dereg] unfolding TM_same_spec(2) [OF spec] .
  note L = tm.list_ok [OF env, unfolded e, OF inv list]
  have i2: "cache_inv reg drn s2 \<and> reg (world s2) = reg (world s)"
    using keeps_inv [OF calm.keeps_failed [OF calm.keeps_onWorld [OF quiet_resolve(3) [OF q(1)]]] net] L by simp
  have i3: "cache_inv reg drn s3 \<and> reg (world s3) = reg (world s)"
    using keeps_inv [OF calm.keeps_patchTGB [OF q(2)], of tgb "''''" "GetTGBReconcileCheckpoint tgb" s2 _ s3] cp i2
    by (auto simp: resetCheckPoint_def split: if_splits)
  have i4: "cache_inv reg drn s4 \<and> reg (world s4) ?arn = reg (world s3) ?arn - tkey ` set (map tiTarget ut)"
    using tm.deregister_ok [OF env, unfolded e, OF conjunct1 [OF i3] d'] by simp
  have listed: "(tkey \<circ> tiTarget) ` set (fst (partitionTargetsByDrainingStatus targets)) = reg (world s) ?arn"
    using L by (simp add: partitionTargetsByDrainingStatus_def image_comp)
  have "plain (fst (partitionTargetsByDrainingStatus targets))"
    using TM_ListTargets_plain [OF pl list] by (simp add: partitionTargetsByDrainingStatus_def)
  note K = matchPod_keys [OF match noquic this, unfolded listed]
  have i5: "cache_inv reg drn s5 \<and> reg (world s5) ?arn = reg (world s4) ?arn \<union> podKeyOf ` set ue"
  proof (cases "ue = []")
    case False
    then have "registerPodEndpoints d tgb1 ue s4 = (Inr (), s5)"
      using reg single(2)
      by (auto simp: registerUnmatchedPods_def UpdateTrackedIPTargets_def unshared_track [OF single1] limitEndpoints_def io_bind_def split: if_splits prod.splits sum.splits)
    then show ?thesis using registerPodEndpoints_exact [OF ok conjunct1 [OF i4] noquic1] spec by simp
  qed (use reg i4 in \<open>simp add: registerUnmatchedPods_def\<close>)
  have "s6 = s5" using track by (simp add: UpdateTrackedIPTargets_def unshared_track [OF single1])
  then have "cache_inv reg drn s' \<and> reg (world s') = reg (world s5)"
    using keeps_inv [OF calm.keeps_podConditions [OF q(1)] gates] i5 by simp
  then show ?thesis using i3 i4 i5 K by (auto simp: image_comp)
qed


text \<open>An example: the cloud in memory of \<open>Targets\<close>, a Service with the given pods, no config maps; nothing else has effects.\<close>

definition memDeps :: "PodEndpoint list \<Rightarrow> (target_key list \<times> 'x) rm_deps" where
  "memDeps pods =
     \<lparr>rmAssumeRole = (\<lambda>role ext w. (Inr memClient, w)), rmTargetOrder = (\<lambda>xs. xs), rmSetOrder = (\<lambda>xs. xs),
      rmConfigMaps = \<lparr>cmGet = (\<lambda>n w. (Inl (APIError ''NotFound'' ''''), w)), cmUpdate = (\<lambda>n m w. (Inl (APIError ''NotFound'' ''''), w)),
        cmCreate = (\<lambda>n m w. (Inr (), w)), cmDelete = (\<lambda>n w. (Inl (APIError ''NotFound'' ''''), w))\<rparr>,
      rmSelectorOf = (\<lambda>sel. Inr (matchExpressions sel)),
      rmResolvePods = (\<lambda>n p a w. (Inr pods, w)), rmResolveNodePorts = (\<lambda>n p a w. (Inr [], w)),
      rmNetPods = (\<lambda>t es w. (Inr (), w)), rmNetNodePorts = (\<lambda>t es w. (Inr (), w)), rmNetCleanup = (\<lambda>t w. (Inr (), w)),
      rmPatchTGB = (\<lambda>t t' w. (Inr (), w)), rmPatchPod = (\<lambda>n u c c' w. (Inr (), w)), rmPodKeys = (\<lambda>w. []), rmGetPod = (\<lambda>n w. (Inr None, w)),
      rmFetchVPCInfo = (\<lambda>v w. (Inr \<lparr>vpcCidrAssociations = [(''associated'', Some ''10.0.0.0/16'')], vpcIpv6CidrAssociations = []\<rparr>, w)),
      rmGetNodeLabels = (\<lambda>n w. (Inr [], w)), rmTranslateAZName = (\<lambda>r e z w. (Inr None, w)),
      rmNow = (\<lambda>w. 0), rmComputeSha256 = (\<lambda>s. s), rmMarshalSpec = (\<lambda>spec. Inr ''{}''), rmVpcID = ''vpc'', rmMaxTargets = 0, rmRequeueDuration = 15\<rparr>"

lemma memDeps_ok: "surroundings_ok (teRegistered memEnv) (teDraining memEnv) (memDeps pods :: (target_key list \<times> 'x) rm_deps)"
proof -
  have "envOf (memDeps pods) (teRegistered memEnv) (teDraining memEnv) = (memEnv :: (target_key list \<times> 'x) targets_env)"
    by (simp add: envOf_def memDeps_def memEnv_def)
  moreover have "deps_quiet (calm (teRegistered memEnv) (teDraining memEnv)) (memDeps pods :: (target_key list \<times> 'x) rm_deps)"
    by (simp add: deps_quiet_def configmaps_quiet_def call_quiet_def memDeps_def)
  ultimately show ?thesis using memEnv_ok by (simp add: surroundings_ok_def call_quiet_def memDeps_def)
qed

lemma mem_plain: "plain_cloud (rmAssumeRole (memDeps pods)) arn"
  by (auto simp: plain_cloud_def memDeps_def memClient_def memInfo_def split: prod.splits if_splits)

definition exIPTGB :: TargetGroupBinding where
  "exIPTGB = exTargetsTGB\<lparr>k8sSpec := (k8sSpec exTargetsTGB)\<lparr>tgbTargetType := Some ''ip''\<rparr>\<rparr>"

definition exRMState :: "(target_key list \<times> unit) rm_state" where
  "exRMState = \<lparr>world = ([(''10.0.0.9'', 80)], ()), targetsCache = [], configMapCache = [], invalidVpcCache = [], needsPodAZCache = [], nodeAZCache = []\<rparr>"


end
