(* ===== verification/Target_Safety.thy ===== *)
theory Target_Safety
  imports Target_Reconcile
begin

text \<open>
  What every run of a reconciliation respects, whether it ends well, is skipped or fails: the checkpoint of a binding is cleared before its targets are changed,
  and targets of other clusters stay registered.
\<close>

section \<open>What a program respects\<close>

text \<open>As \<open>keeps\<close>, for programs that may change the cache of targets.\<close>

definition wkeeps :: "('w \<Rightarrow> 'w \<Rightarrow> bool) \<Rightarrow> (('w, 'z) targets_state_scheme, 'a) io \<Rightarrow> bool" where
  "wkeeps Q m \<longleftrightarrow> (\<forall>s r s'. m s = (r, s') \<longrightarrow> Q (world s) (world s'))"

text \<open>Every client of AWS that some role gives.\<close>

definition aws_clients :: "('w \<Rightarrow> 'w \<Rightarrow> bool) \<Rightarrow> ('w targets_client \<Rightarrow> bool) \<Rightarrow> 'w assume_role \<Rightarrow> bool" where
  "aws_clients Q P A \<longleftrightarrow> (\<forall>role ext. call_quiet Q (A role ext) \<and> (\<forall>w c w'. A role ext w = (Inr c, w') \<longrightarrow> P c))"

abbreviation listing_quiet :: "('w \<Rightarrow> 'w \<Rightarrow> bool) \<Rightarrow> 'w assume_role \<Rightarrow> bool" where
  "listing_quiet Q \<equiv> aws_clients Q (\<lambda>c. \<forall>arn ts. call_quiet Q (elbDescribeTargetHealth c arn ts))"

abbreviation registering_quiet :: "('w \<Rightarrow> 'w \<Rightarrow> bool) \<Rightarrow> 'w assume_role \<Rightarrow> bool" where
  "registering_quiet Q \<equiv> aws_clients Q (\<lambda>c. \<forall>arn ts. call_quiet Q (elbRegisterTargets c arn ts))"

abbreviation deregistering_quiet :: "('w \<Rightarrow> 'w \<Rightarrow> bool) \<Rightarrow> 'w assume_role \<Rightarrow> bool" where
  "deregistering_quiet Q \<equiv> aws_clients Q (\<lambda>c. \<forall>arn ts. call_quiet Q (elbDeregisterTargets c arn ts))"

lemma wkeepsD: "wkeeps Q m \<Longrightarrow> m s = (r, s') \<Longrightarrow> Q (world s) (world s')"
  by (simp add: wkeeps_def)

lemma keeps_wkeeps: "keeps Q m \<Longrightarrow> wkeeps Q m"
  by (simp add: keeps_def wkeeps_def)

lemma io_bind_anyE:
  assumes "io_bind m f s = (r, s')"
  obtains e where "m s = (Inl e, s')" "r = Inl e" | x s1 where "m s = (Inr x, s1)" "f x s1 = (r, s')"
  using assms by (auto simp: io_bind_def split: prod.splits sum.splits)

lemma aws_client:
  assumes "aws_clients Q P A" "onWorld (assumeRoleOf A tgb) s = (Inr c, s1)"
  shows "P c"
  using assms unfolding aws_clients_def assumeRoleOf_def onWorld_eq by blast

context world_preorder
begin

lemma wkeeps_bind:
  assumes "wkeeps Q m" "\<And>s x s1. m s = (Inr x, s1) \<Longrightarrow> wkeeps Q (f x)"
  shows "wkeeps Q (io_bind m f)"
  unfolding wkeeps_def
proof (intro allI impI)
  fix s r s' assume "io_bind m f s = (r, s')"
  then show "Q (world s) (world s')"
  proof (cases rule: io_bind_anyE)
    case (1 e)
    then show ?thesis using wkeepsD [OF assms(1)] by simp
  next
    case (2 x s1)
    then show ?thesis using Q_trans [OF wkeepsD [OF assms(1) 2(1)] wkeepsD [OF assms(2) [OF 2(1)] 2(2)]] by simp
  qed
qed

lemma wkeeps_ret: "wkeeps Q (io_ret x)" and wkeeps_fail: "wkeeps Q (io_fail e)" and wkeeps_lift: "wkeeps Q (io_lift r)"
  by (simp_all add: wkeeps_def)

lemma wkeeps_onWorld: "call_quiet Q f \<Longrightarrow> wkeeps Q (onWorld f)"
  by (rule keeps_wkeeps [OF keeps_onWorld])

lemma wkeeps_update: "(\<And>s. world (upd s) = world s) \<Longrightarrow> wkeeps Q (\<lambda>s. (r, upd s))"
  by (auto simp: wkeeps_def)

lemma wkeeps_iter:
  assumes "\<And>x. x \<in> set xs \<Longrightarrow> wkeeps Q (f x)"
  shows "wkeeps Q (io_iter f xs)"
  using assms
proof (induction xs)
  case (Cons x xs)
  have "io_iter f (x # xs) = io_bind (f x) (\<lambda>_. io_iter f xs)"
    by (auto simp: fun_eq_iff io_bind_def split: prod.splits sum.splits)
  then show ?case using Cons by (auto intro!: wkeeps_bind)
qed (simp add: wkeeps_def)

lemma aws_role:
  assumes "aws_clients Q P A"
  shows "wkeeps Q (onWorld (assumeRoleOf A tgb))"
  using assms by (intro wkeeps_onWorld) (simp add: aws_clients_def assumeRoleOf_def)

lemma wkeeps_TM_Register:
  assumes "registering_quiet Q A"
  shows "wkeeps Q (TM_RegisterTargets A ord tgb ts)"
  unfolding TM_RegisterTargets_def Let_def
  by (auto split: option.splits intro!: wkeeps_fail wkeeps_iter aws_role [OF assms] wkeeps_bind wkeeps_onWorld wkeeps_update
      dest: aws_client [OF assms] simp: recordSuccessfulRegisterTargetsOperation_def split: prod.splits)

lemma wkeeps_TM_Deregister:
  assumes "deregistering_quiet Q A"
  shows "wkeeps Q (TM_DeregisterTargets A tgb ts)"
  unfolding TM_DeregisterTargets_def Let_def
  by (auto split: option.splits intro!: wkeeps_fail wkeeps_iter aws_role [OF assms] wkeeps_bind wkeeps_onWorld wkeeps_update
      dest: aws_client [OF assms] simp: recordSuccessfulDeregisterTargetsOperation_def split: prod.splits)

lemma wkeeps_listAWS:
  assumes "listing_quiet Q A"
  shows "wkeeps Q (listTargetsFromAWS A tgb ts)"
  unfolding listTargetsFromAWS_def
  by (auto intro!: aws_role [OF assms] wkeeps_bind wkeeps_onWorld wkeeps_lift dest: aws_client [OF assms])

lemma wkeeps_TM_List:
  assumes "listing_quiet Q A"
  shows "wkeeps Q (TM_ListTargets A tgb)"
proof -
  have store: "wkeeps Q (\<lambda>s. (Inr ts, s\<lparr>targetsCache := mput arn ts (targetsCache s)\<rparr>))" for ts arn
    by (rule wkeeps_update) simp
  have un: "wkeeps Q (io_bind (refreshUnhealthyTargets A tgb c) (\<lambda>ts s. (Inr ts, s\<lparr>targetsCache := mput arn ts (targetsCache s)\<rparr>)))" for c arn
    unfolding refreshUnhealthyTargets_def Let_def
    by (auto intro!: wkeeps_bind store wkeeps_ret wkeeps_listAWS [OF assms])
  have all: "wkeeps Q (io_bind (refreshAllTargets A tgb) (\<lambda>ts s. (Inr ts, s\<lparr>targetsCache := mput arn ts (targetsCache s)\<rparr>)))" for arn
    unfolding refreshAllTargets_def by (auto intro!: wkeeps_bind store wkeeps_listAWS [OF assms])
  show ?thesis
    unfolding wkeeps_def TM_ListTargets_def Let_def
    by (auto split: option.splits dest: wkeepsD [OF un] wkeepsD [OF all])
qed

lemma wkeeps_registerPods:
  assumes "deps_quiet Q d" "registering_quiet Q (rmAssumeRole d)"
  shows "wkeeps Q (registerPodEndpoints d tgb eps)"
proof -
  let ?key = "k8sNamespace tgb @ ''/'' @ k8sName tgb"
  have retry: "wkeeps Q (io_bind (prepareRegistrationCall d eps tgb f True) (TM_RegisterTargets (rmAssumeRole d) (rmTargetOrder d) tgb))" for f
    by (intro wkeeps_bind keeps_wkeeps [OF keeps_prepare [OF assms(1)]] wkeeps_TM_Register [OF assms(2)])
  have rest: "wkeeps Q (\<lambda>s. case TM_RegisterTargets (rmAssumeRole d) (rmTargetOrder d) tgb ts s of
               (Inr _, s') \<Rightarrow> (Inr (), s')
             | (Inl err, s') \<Rightarrow> if isAZValidationError err \<and> \<not> b \<and> \<not> usePodAZForCrossAccount tgb
                 then io_bind (prepareRegistrationCall d eps tgb f True) (TM_RegisterTargets (rmAssumeRole d) (rmTargetOrder d) tgb)
                        (s'\<lparr>needsPodAZCache := ?key # needsPodAZCache s'\<rparr>) else (Inl err, s'))" for ts b f
    unfolding wkeeps_def
    by (auto split: prod.splits sum.splits if_splits dest!: wkeepsD [OF retry] wkeepsD [OF wkeeps_TM_Register [OF assms(2)]] intro: Q_trans)
  have body: "wkeeps Q (\<lambda>s. io_bind (prepareRegistrationCall d eps tgb f (?key \<in> set (needsPodAZCache s))) (\<lambda>ts s'.
             case TM_RegisterTargets (rmAssumeRole d) (rmTargetOrder d) tgb ts s' of
               (Inr _, s') \<Rightarrow> (Inr (), s')
             | (Inl err, s') \<Rightarrow> if isAZValidationError err \<and> \<not> (?key \<in> set (needsPodAZCache s)) \<and> \<not> usePodAZForCrossAccount tgb
                 then io_bind (prepareRegistrationCall d eps tgb f True) (TM_RegisterTargets (rmAssumeRole d) (rmTargetOrder d) tgb)
                        (s'\<lparr>needsPodAZCache := ?key # needsPodAZCache s'\<rparr>) else (Inl err, s')) s)" for f
    unfolding wkeeps_def
    by (intro allI impI, erule wkeepsD [OF wkeeps_bind [OF keeps_wkeeps [OF keeps_prepare [OF assms(1)]] rest]])
  show ?thesis
    unfolding registerPodEndpoints_def Let_def by (intro wkeeps_bind keeps_wkeeps [OF keeps_generateOverrideAzFn [OF assms(1)]] body)
qed

end

section \<open>Triples\<close>

text \<open>From states with \<open>P\<close>, a result is returned only with \<open>R\<close> and an error only with \<open>E\<close>.\<close>

definition triple :: "('s \<Rightarrow> bool) \<Rightarrow> ('s, 'a) io \<Rightarrow> ('a \<Rightarrow> 's \<Rightarrow> bool) \<Rightarrow> ('s \<Rightarrow> bool) \<Rightarrow> bool" where
  "triple P m R E \<longleftrightarrow> (\<forall>s r s'. P s \<longrightarrow> m s = (r, s') \<longrightarrow> (case r of Inr x \<Rightarrow> R x s' | Inl e \<Rightarrow> E s'))"

named_theorems triple_rules

lemma tripleD: "triple P m R E \<Longrightarrow> P s \<Longrightarrow> m s = (r, s') \<Longrightarrow> (case r of Inr x \<Rightarrow> R x s' | Inl e \<Rightarrow> E s')"
  unfolding triple_def by blast

lemma triple_bind:
  assumes "triple P m R E" "\<And>x. triple (R x) (f x) T E"
  shows "triple P (io_bind m f) T E"
  unfolding triple_def
proof (intro allI impI)
  fix s r s' assume p: "P s" and run: "io_bind m f s = (r, s')"
  from run show "case r of Inr x \<Rightarrow> T x s' | Inl e \<Rightarrow> E s'"
  proof (cases rule: io_bind_anyE)
    case (1 e)
    then show ?thesis using tripleD [OF assms(1) p 1(1)] by simp
  next
    case (2 x s1)
    have "R x s1" using tripleD [OF assms(1) p 2(1)] by simp
    then show ?thesis using tripleD [OF assms(2) _ 2(2)] by blast
  qed
qed

lemma triple_ret [triple_rules]: "(\<And>s. P s \<Longrightarrow> R x s) \<Longrightarrow> triple P (io_ret x) R E"
  by (simp add: triple_def)

lemma triple_fail [triple_rules]: "(\<And>s. P s \<Longrightarrow> E s) \<Longrightarrow> triple P (io_fail e) R E"
  by (simp add: triple_def)

lemma triple_lift: "(\<And>s. P s \<Longrightarrow> E s) \<Longrightarrow> triple P (io_lift r) (\<lambda>x s. P s \<and> r = Inr x) E"
  by (auto simp: triple_def split: sum.splits)

lemma triple_weaken: "triple P m R E \<Longrightarrow> (\<And>x s. R x s \<Longrightarrow> R' x s) \<Longrightarrow> (\<And>s. E s \<Longrightarrow> E' s) \<Longrightarrow> triple P m R' E'"
  unfolding triple_def by (fastforce split: sum.splits)

lemma triple_pure: "(b \<Longrightarrow> triple P m R E) \<Longrightarrow> triple (\<lambda>s. P s \<and> b) m R E"
  unfolding triple_def by blast

lemma triple_wkeeps:
  assumes "wkeeps Q m" "\<And>w w'. Q w w' \<Longrightarrow> P w \<Longrightarrow> P w'" "\<And>s. P (world s) \<Longrightarrow> E s"
  shows "triple (\<lambda>s. P (world s)) m (\<lambda>_ s. P (world s)) E"
  unfolding triple_def
proof (intro allI impI)
  fix s r s' assume "P (world s)" "m s = (r, s')"
  then have "P (world s')" using wkeepsD [OF assms(1)] assms(2) by blast
  then show "case r of Inr x \<Rightarrow> P (world s') | Inl e \<Rightarrow> E s'" using assms(3) by (simp split: sum.split)
qed

section \<open>A failed reconciliation is not forgotten\<close>

text \<open>
  The checkpoint stored with the binding, \<open>ck w\<close>, changes by a patch of the binding only; a patch with an error reply is not applied.
\<close>

definition same :: "('w \<Rightarrow> 'c) \<Rightarrow> 'w \<Rightarrow> 'w \<Rightarrow> bool" where
  "same v w w' \<longleftrightarrow> v w' = v w"

definition checkpoint_ok :: "('w \<Rightarrow> string) \<Rightarrow> 'w rm_deps \<Rightarrow> TargetGroupBinding \<Rightarrow> bool" where
  "checkpoint_ok ck d tgb \<longleftrightarrow> deps_quiet (same ck) d
     \<and> listing_quiet (same ck) (rmAssumeRole d) \<and> registering_quiet (same ck) (rmAssumeRole d) \<and> deregistering_quiet (same ck) (rmAssumeRole d)
     \<and> (\<forall>t t' w e w'. rmPatchTGB d t t' w = (Inl e, w') \<longrightarrow> ck w' = ck w)
     \<and> (\<forall>t t' w w'. k8sNamespace t = k8sNamespace tgb \<longrightarrow> k8sName t = k8sName tgb \<longrightarrow> rmPatchTGB d t t' w = (Inr (), w') \<longrightarrow>
          ck w' = GetTGBReconcileCheckpoint t')"

interpretation same: world_preorder "same v" for v
  by unfold_locales (simp_all add: same_def)

definition still :: "'w target_view \<Rightarrow> 'w target_view \<Rightarrow> ('w \<Rightarrow> 'c) \<Rightarrow> 'w \<Rightarrow> 'w \<Rightarrow> bool" where
  "still reg drn v w w' \<longleftrightarrow> calm reg drn w w' \<and> same v w w'"

interpretation still: world_preorder "still reg drn v" for reg drn v
  by unfold_locales (auto simp: still_def same_def intro: calm_trans)

lemma call_quiet_still: "call_quiet (still reg drn v) f \<longleftrightarrow> call_quiet (calm reg drn) f \<and> call_quiet (same v) f"
  by (auto simp: call_quiet_def still_def)

lemma deps_quiet_still: "deps_quiet (still reg drn v) d \<longleftrightarrow> deps_quiet (calm reg drn) d \<and> deps_quiet (same v) d"
  unfolding deps_quiet_def configmaps_quiet_def call_quiet_still by auto

lemma cloud_listing: "cloud_ok reg drn A \<Longrightarrow> listing_quiet (calm reg drn) A"
  unfolding cloud_ok_def aws_clients_def call_quiet_def client_ok_def by (fastforce split: sum.splits)

lemma listing_still: "listing_quiet (calm reg drn) A \<Longrightarrow> listing_quiet (same v) A \<Longrightarrow> listing_quiet (still reg drn v) A"
  unfolding aws_clients_def call_quiet_still by blast

lemma saved_checkpoint [simp]: "GetTGBReconcileCheckpoint (SaveTGBReconcileCheckpoint now tgb cp) = cp"
  by (simp add: GetTGBReconcileCheckpoint_def SaveTGBReconcileCheckpoint_def AnnotationCheckPointTimestamp_def AnnotationCheckPoint_def mget0_def)

context world_preorder
begin

lemma wkeeps_deregisterUnmatched:
  assumes "deps_quiet Q d" "ts \<noteq> [] \<Longrightarrow> deregistering_quiet Q (rmAssumeRole d)"
  shows "wkeeps Q (deregisterUnmatched d tgb ts)"
  using assms unfolding deregisterUnmatched_def RM_deregisterTargets_def
  by (auto intro!: wkeeps_bind wkeeps_ret keeps_wkeeps [OF keeps_Filter] wkeeps_TM_Deregister simp: deps_quiet_def split: prod.splits)

lemma wkeeps_registerUnmatchedPods:
  assumes "deps_quiet Q d" "ue \<noteq> [] \<Longrightarrow> registering_quiet Q (rmAssumeRole d)"
  shows "wkeeps Q (registerUnmatchedPods d tgb es ue ts b)"
  using assms unfolding registerUnmatchedPods_def UpdateTrackedIPTargets_def
  by (auto intro!: wkeeps_bind wkeeps_ret wkeeps_lift keeps_wkeeps [OF keeps_updateTracked] wkeeps_registerPods simp: deps_quiet_def)

lemma wkeeps_registerUnmatchedNodePorts:
  assumes "deps_quiet Q d" "ue \<noteq> [] \<Longrightarrow> registering_quiet Q (rmAssumeRole d)"
  shows "wkeeps Q (registerUnmatchedNodePorts d tgb es ue ts b)"
  using assms unfolding registerUnmatchedNodePorts_def UpdateTrackedInstanceTargets_def registerNodePortEndpoints_def
  by (auto intro!: wkeeps_bind wkeeps_ret wkeeps_lift keeps_wkeeps [OF keeps_updateTracked] wkeeps_TM_Register simp: deps_quiet_def)

lemma wkeeps_track:
  assumes "deps_quiet Q d"
  shows "wkeeps Q (UpdateTrackedIPTargets (rmConfigMaps d) ord b es tgb)" "wkeeps Q (UpdateTrackedInstanceTargets (rmConfigMaps d) ord b ns tgb)"
  using assms unfolding UpdateTrackedIPTargets_def UpdateTrackedInstanceTargets_def
  by (auto intro!: keeps_wkeeps [OF keeps_updateTracked] simp: deps_quiet_def)

lemmas wkeeps_changes = wkeeps_bind wkeeps_ret wkeeps_fail wkeeps_deregisterUnmatched wkeeps_registerUnmatchedPods
  wkeeps_registerUnmatchedNodePorts wkeeps_track keeps_wkeeps [OF keeps_podConditions]

end

lemma updateTGBCheckPoint_triple:
  assumes "checkpoint_ok ck d tgb" "\<And>t t'. call_quiet (calm reg drn) (rmPatchTGB d t t')"
  shows "triple (\<lambda>s. ck (world s) = c0 \<and> reg (world s) = R0) (updateTGBCheckPoint d tgb new old)
           (\<lambda>tgb' s. reg (world s) = R0 \<and> ck (world s) = (if new = old then c0 else new)) (\<lambda>s. ck (world s) = c0 \<and> reg (world s) = R0)"
proof -
  have p: "ck w' = (case r of Inl e \<Rightarrow> ck w | Inr _ \<Rightarrow> GetTGBReconcileCheckpoint t') \<and> reg w' = reg w"
    if "rmPatchTGB d tgb t' w = (r, w')" for t' w r w'
    using that assms unfolding checkpoint_ok_def call_quiet_def calm_def by (cases r) fastforce+
  show ?thesis
    unfolding triple_def updateTGBCheckPoint_def
    by (auto simp: Let_def onWorld_def split: prod.splits sum.splits if_splits dest!: p)
qed

text \<open>What holds before any change, and what an unfinished run may leave.\<close>

definition untouched :: "'w target_view \<Rightarrow> ('w \<Rightarrow> string) \<Rightarrow> string \<Rightarrow> (string \<Rightarrow> target_key set) \<Rightarrow> 'w \<Rightarrow> bool" where
  "untouched reg ck c0 R0 w \<longleftrightarrow> ck w = c0 \<and> reg w = R0"

definition retried :: "'w target_view \<Rightarrow> ('w \<Rightarrow> string) \<Rightarrow> string \<Rightarrow> (string \<Rightarrow> target_key set) \<Rightarrow> 'w \<Rightarrow> bool" where
  "retried reg ck c0 R0 w \<longleftrightarrow> ck w = '''' \<or> untouched reg ck c0 R0 w"

lemma untouched_retried: "untouched reg ck c0 R0 w \<Longrightarrow> retried reg ck c0 R0 w"
  by (simp add: retried_def)

lemma resetCheckPoint_triple:
  assumes "checkpoint_ok ck d tgb" "\<And>t t'. call_quiet (calm reg drn) (rmPatchTGB d t t')" "GetTGBReconcileCheckpoint tgb = c0"
  shows "triple (\<lambda>s. untouched reg ck c0 R0 (world s)) (resetCheckPoint d change tgb)
           (\<lambda>tgb' s. if change then ck (world s) = '''' else untouched reg ck c0 R0 (world s)) (\<lambda>s. retried reg ck c0 R0 (world s))"
proof (cases change)
  case True
  then show ?thesis
    unfolding resetCheckPoint_def untouched_def assms(3)
    by (auto intro!: triple_weaken [OF updateTGBCheckPoint_triple [OF assms(1,2)]] simp: retried_def untouched_def split: if_splits)
qed (auto simp: resetCheckPoint_def intro!: triple_ret)

lemma triple_still:
  assumes "wkeeps (still reg drn ck) m"
  shows "triple (\<lambda>s. untouched reg ck c0 R0 (world s)) m (\<lambda>_ s. untouched reg ck c0 R0 (world s)) (\<lambda>s. retried reg ck c0 R0 (world s))"
  by (rule triple_wkeeps [OF assms]) (auto simp: untouched_def retried_def still_def same_def calm_def)

text \<open>The changes after the reset: without a change to make they leave the targets alone, and with one the checkpoint is already cleared.\<close>

lemma changes_triple:
  assumes "\<And>Q. world_preorder Q \<Longrightarrow> deps_quiet Q d \<Longrightarrow> (change \<Longrightarrow> registering_quiet Q (rmAssumeRole d) \<and> deregistering_quiet Q (rmAssumeRole d)) \<Longrightarrow> wkeeps Q m"
    and "surroundings_ok reg drn d" "checkpoint_ok ck d tgb"
  shows "triple (\<lambda>s. if change then ck (world s) = '''' else untouched reg ck c0 R0 (world s)) m
           (\<lambda>_ s. retried reg ck c0 R0 (world s)) (\<lambda>s. retried reg ck c0 R0 (world s))"
proof (cases change)
  case True
  have "wkeeps (same ck) m" using assms(1) [OF same.world_preorder_axioms [of ck]] assms(3) True by (simp add: checkpoint_ok_def)
  from triple_wkeeps [OF this, where P = "\<lambda>w. ck w = ''''" and E = "\<lambda>s. retried reg ck c0 R0 (world s)"]
  have "triple (\<lambda>s. ck (world s) = '''') m (\<lambda>_ s. ck (world s) = '''') (\<lambda>s. retried reg ck c0 R0 (world s))" by (simp add: retried_def same_def)
  then have "triple (\<lambda>s. ck (world s) = '''') m (\<lambda>_ s. retried reg ck c0 R0 (world s)) (\<lambda>s. retried reg ck c0 R0 (world s))"
    by (rule triple_weaken) (simp_all add: retried_def)
  then show ?thesis using True by simp
next
  case False
  have "wkeeps (still reg drn ck) m"
    using assms(1) [OF still.world_preorder_axioms [of reg drn ck]] assms(2,3) False by (simp add: checkpoint_ok_def surroundings_ok_def deps_quiet_still)
  then show ?thesis using False by (auto intro!: triple_weaken [OF triple_still] simp: untouched_retried)
qed

section \<open>The runs of a reconciliation\<close>

lemma syncPods_triple:
  assumes "surroundings_ok reg drn d" "checkpoint_ok ck d tgb" "GetTGBReconcileCheckpoint tgb = c0"
  shows "triple (\<lambda>s. untouched reg ck c0 R0 (world s)) (syncPods d tgb es ts)
           (\<lambda>_ s. retried reg ck c0 R0 (world s)) (\<lambda>s. retried reg ck c0 R0 (world s))"
proof -
  have q: "deps_quiet (still reg drn ck) d" and patch: "\<And>t t'. call_quiet (calm reg drn) (rmPatchTGB d t t')"
    using assms(1,2) by (simp_all add: surroundings_ok_def checkpoint_ok_def deps_quiet_still)
  note reset = resetCheckPoint_triple [OF assms(2) patch assms(3)]
  show ?thesis
    unfolding syncPods_def Let_def
    by (intro triple_bind [OF triple_still] still.wkeeps_lift)
      (auto split: prod.split intro!: triple_bind [OF triple_still] keeps_wkeeps [OF still.keeps_failed]
        still.keeps_onWorld quiet_resolve(3) [OF q] triple_bind [OF reset] changes_triple [OF _ assms(1,2)] world_preorder.wkeeps_changes)
qed

lemma syncNodePorts_triple:
  assumes "surroundings_ok reg drn d" "checkpoint_ok ck d tgb" "GetTGBReconcileCheckpoint tgb = c0"
  shows "triple (\<lambda>s. untouched reg ck c0 R0 (world s)) (syncNodePorts d tgb es ts)
           (\<lambda>_ s. retried reg ck c0 R0 (world s)) (\<lambda>s. retried reg ck c0 R0 (world s))"
proof -
  have q: "deps_quiet (still reg drn ck) d" and patch: "\<And>t t'. call_quiet (calm reg drn) (rmPatchTGB d t t')"
    using assms(1,2) by (simp_all add: surroundings_ok_def checkpoint_ok_def deps_quiet_still)
  have net: "call_quiet (still reg drn ck) (rmNetNodePorts d tgb es)" using q by (simp add: deps_quiet_def)
  note reset = resetCheckPoint_triple [OF assms(2) patch assms(3)]
  show ?thesis
    unfolding syncNodePorts_def Let_def
    by (auto split: prod.split intro!: triple_bind [OF triple_still] still.wkeeps_onWorld net triple_bind [OF reset]
         changes_triple [OF _ assms(1,2)] world_preorder.wkeeps_changes)
qed

lemma reconcileEndpoints_triple:
  assumes "surroundings_ok reg drn d" "checkpoint_ok ck d tgb" "GetTGBReconcileCheckpoint tgb = c0"
  shows "triple (\<lambda>s. untouched reg ck c0 R0 (world s)) (reconcilePodEndpoints d tgb es)
           (\<lambda>_ s. retried reg ck c0 R0 (world s)) (\<lambda>s. retried reg ck c0 R0 (world s))"
    and "triple (\<lambda>s. untouched reg ck c0 R0 (world s)) (reconcileNodePortEndpoints d tgb ns)
           (\<lambda>_ s. retried reg ck c0 R0 (world s)) (\<lambda>s. retried reg ck c0 R0 (world s))"
proof -
  have list: "listing_quiet (still reg drn ck) (rmAssumeRole d)"
    using assms(1,2) by (intro listing_still cloud_listing) (simp_all add: surroundings_ok_def checkpoint_ok_def env_ok_def envOf_def)
  note rules = triple_bind [OF triple_still] still.wkeeps_lift still.wkeeps_TM_List [OF list] triple_ret
  show "triple (\<lambda>s. untouched reg ck c0 R0 (world s)) (reconcilePodEndpoints d tgb es)
           (\<lambda>_ s. retried reg ck c0 R0 (world s)) (\<lambda>s. retried reg ck c0 R0 (world s))"
    unfolding reconcilePodEndpoints_def Let_def
    by (auto intro!: rules triple_bind [OF syncPods_triple [OF assms]] simp: untouched_retried)
  show "triple (\<lambda>s. untouched reg ck c0 R0 (world s)) (reconcileNodePortEndpoints d tgb ns)
           (\<lambda>_ s. retried reg ck c0 R0 (world s)) (\<lambda>s. retried reg ck c0 R0 (world s))"
    unfolding reconcileNodePortEndpoints_def Let_def
    by (auto intro!: rules triple_bind [OF syncNodePorts_triple [OF assms]] simp: untouched_retried)
qed

text \<open>The answers of the endpoint resolver in a state.\<close>

definition backend_found :: "'w rm_deps \<Rightarrow> TargetGroupBinding \<Rightarrow> 'w \<Rightarrow> bool" where
  "backend_found d tgb w \<longleftrightarrow>
     (\<forall>e w'. rmResolvePods d (buildServiceReferenceKey tgb) (snd (ServiceRef (k8sSpec tgb))) (endpointSliceAddressType tgb) w = (Inl e, w') \<longrightarrow> \<not> isErrNotFound e)
     \<and> (\<forall>sel e w'. rmResolveNodePorts d (buildServiceReferenceKey tgb) (snd (ServiceRef (k8sSpec tgb))) sel w = (Inl e, w') \<longrightarrow> \<not> isErrNotFound e)"

lemma orCleanup_triple:
  assumes "call_quiet (still reg drn ck) f" "\<And>es. triple (\<lambda>s. untouched reg ck c0 R0 (world s)) (cont es)
           (\<lambda>_ s. retried reg ck c0 R0 (world s)) (\<lambda>s. retried reg ck c0 R0 (world s))"
  shows "triple (\<lambda>s. untouched reg ck c0 R0 (world s) \<and> (\<forall>e w'. f (world s) = (Inl e, w') \<longrightarrow> \<not> isErrNotFound e)) (orCleanup d tgb (onWorld f) cont)
           (\<lambda>_ s. retried reg ck c0 R0 (world s)) (\<lambda>s. retried reg ck c0 R0 (world s))"
  unfolding triple_def
proof (intro allI impI)
  fix s r s' assume p: "untouched reg ck c0 R0 (world s) \<and> (\<forall>e w'. f (world s) = (Inl e, w') \<longrightarrow> \<not> isErrNotFound e)"
    and run: "orCleanup d tgb (onWorld f) cont s = (r, s')"
  obtain rf s1 where f: "onWorld f s = (rf, s1)" by fastforce
  from tripleD [OF triple_still [OF still.wkeeps_onWorld [OF assms(1)]] conjunct1 [OF p] f]
  have t: "case rf of Inr x \<Rightarrow> untouched reg ck c0 R0 (world s1) | Inl e \<Rightarrow> retried reg ck c0 R0 (world s1)" .
  show "case r of Inr x \<Rightarrow> retried reg ck c0 R0 (world s') | Inl e \<Rightarrow> retried reg ck c0 R0 (world s')"
  proof (cases rf)
    case (Inl e)
    then have "\<not> isErrNotFound e" using p f by (auto simp: onWorld_eq)
    then show ?thesis using run f t Inl by (auto simp: orCleanup_def split: sum.split)
  next
    case (Inr es)
    then have "cont es s1 = (r, s')" using run f by (simp add: orCleanup_def)
    then show ?thesis using tripleD [OF assms(2)] t Inr by simp
  qed
qed

text \<open>
  C9. A reconciliation that does not complete is not forgotten. Unless the backend is missing: after a run that fails or is skipped, either the stored checkpoint is empty, so that it equals
  no computed one and the next run is not skipped, or the run has changed neither the checkpoint nor the registered targets of any target group.
  It starts with the binding as stored.
\<close>

theorem failed_reconcile_retried:
  assumes "surroundings_ok reg drn d" "checkpoint_ok ck d tgb" "ck (world s) = GetTGBReconcileCheckpoint tgb" "backend_found d tgb (world s)"
    and "RM_Reconcile d tgb s = (r, s')" "r \<noteq> Inr False"
  shows "(ck (world s') = '''' \<or> (ck (world s') = ck (world s) \<and> reg (world s') = reg (world s)))
       \<and> (\<forall>endpoints. calculateTGBReconcileCheckpoint d endpoints tgb \<noteq> Inr '''')"
proof -
  let ?c = "GetTGBReconcileCheckpoint tgb" and ?R = "reg (world s)"
  have q: "deps_quiet (still reg drn ck) d" and patch: "\<And>t t'. call_quiet (calm reg drn) (rmPatchTGB d t t')"
    using assms(1,2) by (simp_all add: surroundings_ok_def checkpoint_ok_def deps_quiet_still)
  note E = reconcileEndpoints_triple [OF assms(1,2) refl, where ?R0.0 = ?R]
  have start: "untouched reg ck ?c ?R (world s)" using assms(3) by (simp add: untouched_def)
  have sub: "case x of Inr y \<Rightarrow> retried reg ck ?c ?R (world s1) | Inl e \<Rightarrow> retried reg ck ?c ?R (world s1)"
    if run: "(if ty = ''ip'' then reconcileWithIPTargetType d tgb else reconcileWithInstanceTargetType d tgb) s = (x, s1)" for ty x s1
  proof (cases "ty = ''ip''")
    case True
    then have "reconcileWithIPTargetType d tgb s = (x, s1)" using run by simp
    from tripleD [OF orCleanup_triple [OF quiet_resolve(1) [OF q] E(1)] _ this [unfolded reconcileWithIPTargetType_def]]
    show ?thesis using start assms(4) unfolding backend_found_def by blast
  next
    case False
    show ?thesis
    proof (cases "GetTrafficProxyNodeSelector d tgb")
      case (Inl e)
      then show ?thesis using run False start untouched_retried by (auto simp: reconcileWithInstanceTargetType_def io_bind_def)
    next
      case (Inr sel)
      then have "orCleanup d tgb (onWorld (rmResolveNodePorts d (buildServiceReferenceKey tgb) (snd (ServiceRef (k8sSpec tgb))) sel))
           (reconcileNodePortEndpoints d tgb) s = (x, s1)"
        using run False by (simp add: reconcileWithInstanceTargetType_def io_bind_def)
      from tripleD [OF orCleanup_triple [OF quiet_resolve(2) [OF q] E(2)] _ this]
      show ?thesis using start assms(4) unfolding backend_found_def by blast
    qed
  qed
  have final: "retried reg ck ?c ?R (world s2)"
    if rt: "retried reg ck ?c ?R (world s1)" and up: "updateTGBCheckPoint d tgb1 new old s1 = (Inl e, s2)" for tgb1 new old s1 e s2
  proof -
    obtain t' e' where p: "rmPatchTGB d tgb1 t' (world s1) = (Inl e', world s2)"
      using up by (auto simp: updateTGBCheckPoint_def Let_def onWorld_def split: if_splits prod.splits sum.splits)
    then have "reg (world s2) = reg (world s1)" using patch by (auto simp: call_quiet_def calm_def)
    moreover have "ck (world s2) = ck (world s1)" using p assms(2) unfolding checkpoint_ok_def by blast
    ultimately show ?thesis using rt by (simp add: retried_def untouched_def)
  qed
  have "retried reg ck ?c ?R (world s')"
  proof (cases "tgbTargetType (k8sSpec tgb)")
    case None
    then show ?thesis using assms(5) untouched_retried [OF start] by (auto simp: RM_Reconcile_def)
  next
    case (Some ty)
    obtain x s1 where x: "(if ty = ''ip'' then reconcileWithIPTargetType d tgb else reconcileWithInstanceTargetType d tgb) s = (x, s1)"
      by fastforce
    have rt: "retried reg ck ?c ?R (world s1)" using sub [OF x] by (auto split: sum.splits)
    show ?thesis
      using assms(5,6) Some x rt final [OF rt] unfolding RM_Reconcile_def
      by (auto simp: io_bind_def [of "if _ then _ else _"] io_bind_def [of "updateTGBCheckPoint _ _ _ _"] split: sum.splits prod.splits if_splits)
  qed
  then show ?thesis
    using assms(3) by (auto simp: retried_def untouched_def calculateTGBReconcileCheckpoint_def Let_def elim!: res_bind_InrE)
qed

text \<open>An example: the old target is deregistered, the new one cannot be registered because its VPC cannot be read.\<close>

definition storingDeps :: "PodEndpoint list \<Rightarrow> (target_key list \<times> string) rm_deps" where
  "storingDeps pods = (memDeps pods)\<lparr>rmPatchTGB := (\<lambda>t t' w. (Inr (), (fst w, GetTGBReconcileCheckpoint t'))),
     rmFetchVPCInfo := (\<lambda>v w. (Inl (APIError ''RequestLimitExceeded'' ''''), w))\<rparr>"

definition exCheckedTGB :: TargetGroupBinding where
  "exCheckedTGB = exIPTGB\<lparr>k8sAnnotations := [(AnnotationCheckPoint, ''old'')]\<rparr>"

definition exCheckedState :: "(target_key list \<times> string) rm_state" where
  "exCheckedState = \<lparr>world = ([(''10.0.0.9'', 80)], ''old''), targetsCache = [], configMapCache = [], invalidVpcCache = [], needsPodAZCache = [], nodeAZCache = []\<rparr>"

lemma storingDeps_ok: "surroundings_ok (teRegistered memEnv) (teDraining memEnv) (storingDeps pods)"
  and storingDeps_checkpoint: "checkpoint_ok snd (storingDeps pods) tgb"
proof -
  have "envOf (storingDeps pods) (teRegistered memEnv) (teDraining memEnv) = memEnv"
    by (simp add: envOf_def storingDeps_def memDeps_def memEnv_def)
  moreover have "deps_quiet (calm (teRegistered memEnv) (teDraining memEnv)) (storingDeps pods)"
    by (simp add: deps_quiet_def configmaps_quiet_def call_quiet_def storingDeps_def memDeps_def)
  moreover have "call_quiet (calm (teRegistered memEnv) (teDraining memEnv)) (rmPatchTGB (storingDeps pods) t t')" for t t'
    by (auto simp: call_quiet_def storingDeps_def calm_def memEnv_def fun_eq_iff)
  ultimately show "surroundings_ok (teRegistered memEnv) (teDraining memEnv) (storingDeps pods)"
    using memEnv_ok by (simp add: surroundings_ok_def)
  show "checkpoint_ok snd (storingDeps pods) tgb"
    by (auto simp: checkpoint_ok_def deps_quiet_def configmaps_quiet_def call_quiet_def storingDeps_def memDeps_def aws_clients_def memClient_def
        same_def split: prod.splits if_splits)
qed

theorem failed_reconcile_retried_witness:
  "\<exists>err s'. RM_Reconcile (storingDeps [exEndpoint ''10.0.0.1'']) exCheckedTGB exCheckedState = (Inl err, s')
     \<and> fst (world s') = [] \<and> snd (world s') = ''''"
proof -
  let ?d = "storingDeps [exEndpoint ''10.0.0.1'']"
  have run: "(case RM_Reconcile ?d exCheckedTGB exCheckedState of (r, s') \<Rightarrow> case r of Inl e \<Rightarrow> fst (world s') = [] | Inr _ \<Rightarrow> False)" by code_simp
  then obtain err s' where r: "RM_Reconcile ?d exCheckedTGB exCheckedState = (Inl err, s')" and reg: "fst (world s') = []"
    by (auto split: prod.splits sum.splits)
  have "snd (world exCheckedState) = GetTGBReconcileCheckpoint exCheckedTGB"
    by (simp add: exCheckedState_def exCheckedTGB_def GetTGBReconcileCheckpoint_def mget0_def)
  moreover have "backend_found ?d exCheckedTGB (world exCheckedState)" by (simp add: backend_found_def storingDeps_def memDeps_def)
  ultimately have "snd (world s') = '''' \<or> (snd (world s') = snd (world exCheckedState)
      \<and> teRegistered memEnv (world s') = teRegistered memEnv (world exCheckedState))"
    using failed_reconcile_retried [OF storingDeps_ok storingDeps_checkpoint _ _ r] by simp
  moreover have "teRegistered memEnv (world s') ''tg'' \<noteq> teRegistered memEnv (world exCheckedState) ''tg''"
    using reg by (simp add: memEnv_def exCheckedState_def)
  ultimately show ?thesis using r reg by metis
qed

section \<open>Targets of other clusters\<close>

text \<open>What the cluster tracks for a binding: its copy in memory, or else the config map.\<close>

definition tracked :: "'w cm_view \<Rightarrow> TargetGroupBinding \<Rightarrow> ('w, 'z) multi_state_scheme \<Rightarrow> string set" where
  "tracked cms tgb s = (case retrieveConfigMapFromCache tgb s of
       Some known \<Rightarrow> set known
     | None \<Rightarrow> (case cms (world s) (configMapKey tgb) of None \<Rightarrow> {} | Some m \<Rightarrow> set (csvElements (mget0 '''' m targetsKey))))"

text \<open>The identifiers that a target may have: with or without a QUIC server identifier.\<close>

definition identifiers :: "target_key \<Rightarrow> string set" where
  "identifiers k = insert (uidOf k) (range (\<lambda>q. uidOf k @ '':'' @ q))"

text \<open>The config maps are read and written by the multi-cluster manager only.\<close>

definition tracking_ok :: "'w cm_view \<Rightarrow> 'w rm_deps \<Rightarrow> bool" where
  "tracking_ok cms d \<longleftrightarrow> cm_ok cms (rmConfigMaps d) \<and> listing_quiet (same cms) (rmAssumeRole d)
     \<and> (\<forall>n p a. call_quiet (same cms) (rmResolvePods d n p a)) \<and> (\<forall>n p a. call_quiet (same cms) (rmResolveNodePorts d n p a))
     \<and> (\<forall>t es. call_quiet (same cms) (rmNetPods d t es)) \<and> (\<forall>t es. call_quiet (same cms) (rmNetNodePorts d t es))
     \<and> (\<forall>t t'. call_quiet (same cms) (rmPatchTGB d t t'))"

definition grows :: "'w target_view \<Rightarrow> 'w \<Rightarrow> 'w \<Rightarrow> bool" where
  "grows reg w w' \<longleftrightarrow> (\<forall>a. reg w a \<subseteq> reg w' a)"

interpretation grows: world_preorder "grows reg" for reg
  by unfold_locales (auto simp: grows_def)

lemma calm_grows: "calm reg drn w w' \<Longrightarrow> grows reg w w'"
  by (simp add: calm_def grows_def)

lemma call_quiet_grows: "call_quiet (calm reg drn) f \<Longrightarrow> call_quiet (grows reg) f"
  by (auto simp: call_quiet_def dest!: calm_grows)

lemma deps_quiet_grows: "deps_quiet (calm reg drn) d \<Longrightarrow> deps_quiet (grows reg) d"
  unfolding deps_quiet_def configmaps_quiet_def by (simp add: call_quiet_grows [of reg drn])

lemma cloud_registering: "cloud_ok reg drn A \<Longrightarrow> registering_quiet (grows reg) A"
  unfolding aws_clients_def
proof (intro allI conjI impI)
  fix role ext assume c: "cloud_ok reg drn A"
  show "call_quiet (grows reg) (A role ext)" using c unfolding cloud_ok_def call_quiet_def by (blast intro: calm_grows)
  fix w c' w' arn ts assume "A role ext w = (Inr c', w')"
  then have "client_ok reg drn c'" using c by (fastforce simp: cloud_ok_def)
  then show "call_quiet (grows reg) (elbRegisterTargets c' arn ts)"
    unfolding call_quiet_def
  proof (intro allI impI)
    fix v r v' assume "client_ok reg drn c'" "elbRegisterTargets c' arn ts v = (r, v')"
    from client_register [OF this] show "grows reg v v'" by (auto simp: grows_def calm_def split: sum.splits)
  qed
qed

lemma GetIdentifier_identifiers: "TargetInfo_GetIdentifier t = Inr i \<Longrightarrow> i \<in> identifiers (tkey (tiTarget t))"
  by (auto simp: TargetInfo_GetIdentifier_def identifiers_def uidOf_def tkey_def ToInt32_def Let_def split: option.splits)

lemma res_map_list_all2: "res_map f xs = Inr ys \<Longrightarrow> list_all2 (\<lambda>x y. f x = Inr y) xs ys"
  by (induction xs arbitrary: ys) (auto elim!: res_bind_InrE)

lemma keepTracked_identifiers:
  assumes "keepTracked known ts = Inr kept" "t \<in> set kept"
  shows "\<exists>i \<in> set known. i \<in> identifiers (tkey (tiTarget t))"
proof -
  obtain ids where ids: "res_map TargetInfo_GetIdentifier ts = Inr ids" and kept: "kept = map snd (filter (\<lambda>(i, t). i \<in> set known) (zip ids ts))"
    using assms(1) by (auto simp: keepTracked_def elim!: res_bind_InrE)
  obtain i where i: "(i, t) \<in> set (zip ids ts)" "i \<in> set known" using assms(2) kept by auto
  then have "TargetInfo_GetIdentifier t = Inr i" using res_map_list_all2 [OF ids] by (auto simp: list_all2_conv_all_nth set_zip)
  then show ?thesis using i(2) GetIdentifier_identifiers by blast
qed

text \<open>A registered target that is not tracked, and then only that it is registered.\<close>

definition foreign :: "'w target_view \<Rightarrow> 'w cm_view \<Rightarrow> TargetGroupBinding \<Rightarrow> target_key \<Rightarrow> ('w, 'z) multi_state_scheme \<Rightarrow> bool" where
  "foreign reg cms tgb k s \<longleftrightarrow> k \<in> reg (world s) (TargetGroupARN (k8sSpec tgb)) \<and> identifiers k \<inter> tracked cms tgb s = {}"

abbreviation registered :: "'w target_view \<Rightarrow> TargetGroupBinding \<Rightarrow> target_key \<Rightarrow> ('w, 'z) targets_state_scheme \<Rightarrow> bool" where
  "registered reg tgb k s \<equiv> k \<in> reg (world s) (TargetGroupARN (k8sSpec tgb))"

lemma foreign_registered: "foreign reg cms tgb k s \<Longrightarrow> registered reg tgb k s"
  by (simp add: foreign_def)

lemma registered_kept: "wkeeps (grows reg) m \<Longrightarrow> triple (registered reg tgb k) m (\<lambda>_. registered reg tgb k) (registered reg tgb k)"
  using triple_wkeeps [of "grows reg" m "\<lambda>w. k \<in> reg w (TargetGroupARN (k8sSpec tgb))" "registered reg tgb k"] by (auto simp: grows_def)

lemma foreign_step:
  assumes "wkeeps (still reg drn cms) m" "m s = (r, s')" "configMapCache s' = configMapCache s" "foreign reg cms tgb k s"
  shows "foreign reg cms tgb k s'"
proof -
  have same: "reg (world s') = reg (world s)" "cms (world s') = cms (world s)"
    using wkeepsD [OF assms(1,2)] by (simp_all add: still_def same_def calm_def)
  have "tracked cms tgb s' = tracked cms tgb s"
    unfolding tracked_def retrieveConfigMapFromCache_def same assms(3) by (rule refl)
  then show ?thesis using assms(4) same by (simp add: foreign_def)
qed

lemma foreign_kept:
  assumes "wkeeps (still reg drn cms) m" "\<And>s r s'. m s = (r, s') \<Longrightarrow> configMapCache s' = configMapCache s"
  shows "triple (foreign reg cms tgb k) m (\<lambda>_. foreign reg cms tgb k) (registered reg tgb k)"
  unfolding triple_def
proof (intro allI impI)
  fix s r s' assume f: "foreign reg cms tgb k s" and run: "m s = (r, s')"
  have "foreign reg cms tgb k s'" by (rule foreign_step [OF assms(1) run assms(2) [OF run] f])
  then show "case r of Inr x \<Rightarrow> foreign reg cms tgb k s' | Inl e \<Rightarrow> registered reg tgb k s'"
    using foreign_registered [of reg cms tgb k s'] by (simp split: sum.split)
qed

lemma onWorld_configMapCache: "onWorld f s = (r, s') \<Longrightarrow> configMapCache s' = configMapCache s"
  by (auto simp: onWorld_eq)

lemma listTargetsFromAWS_configMapCache: "listTargetsFromAWS A tgb ts s = (r, s') \<Longrightarrow> configMapCache s' = configMapCache s"
  unfolding listTargetsFromAWS_def by (auto elim!: io_bind_anyE dest!: onWorld_configMapCache)

lemma TM_ListTargets_configMapCache: "TM_ListTargets A tgb s = (r, s') \<Longrightarrow> configMapCache s' = configMapCache s"
  unfolding TM_ListTargets_def refreshAllTargets_def refreshUnhealthyTargets_def Let_def
  by (auto elim!: io_bind_anyE dest!: listTargetsFromAWS_configMapCache split: option.splits if_splits)

lemma updateTGBCheckPoint_configMapCache: "updateTGBCheckPoint d tgb new old s = (r, s') \<Longrightarrow> configMapCache s' = configMapCache s"
  unfolding updateTGBCheckPoint_def
  by (auto simp: Let_def dest!: onWorld_configMapCache split: if_splits prod.splits sum.splits)

lemma contents_tracked:
  assumes "cm_ok cms k" "getConfigMapContents k tgb s = (Inr (Some known), s')"
  shows "set known = tracked cms tgb s"
proof (cases "retrieveConfigMapFromCache tgb s")
  case None
  then obtain m w where get: "cmGet k (configMapKey tgb) (world s) = (Inr m, w)" and known: "known = csvElements (mget0 '''' m targetsKey)"
    using assms(2) by (auto simp: getConfigMapContents_def onWorld_def Let_def split: prod.splits sum.splits if_splits)
  then show ?thesis using None cm_get(2) [OF assms(1) get refl] by (simp add: tracked_def)
qed (use assms(2) in \<open>simp add: getConfigMapContents_def tracked_def\<close>)

lemma filter_tracked:
  assumes "cm_ok cms k" "tgbMultiCluster (k8sSpec tgb)" "FilterTargetsForDeregistration k tgb ts s = (Inr (kept, u), s')" "t \<in> set kept"
  shows "\<exists>i \<in> tracked cms tgb s. i \<in> identifiers (tkey (tiTarget t))"
proof -
  obtain contents s1 where c: "getConfigMapContents k tgb s = (Inr contents, s1)"
    and rest: "(case contents of None \<Rightarrow> io_ret ([], True)
        | Some known \<Rightarrow> io_bind (io_lift (keepTracked known ts)) (\<lambda>kept. io_ret (kept, False))) s1 = (Inr (kept, u), s')"
    using assms(2,3) by (auto simp: FilterTargetsForDeregistration_def elim!: io_bind_InrE)
  then obtain known where "contents = Some known" "keepTracked known ts = Inr kept"
    using assms(4) by (auto elim!: io_bind_InrE split: option.splits)
  then show ?thesis using keepTracked_identifiers [OF _ assms(4)] contents_tracked [OF assms(1)] c by metis
qed

lemma deregister_spares:
  assumes "surroundings_ok reg drn d" "tracking_ok cms d" "tgbMultiCluster (k8sSpec tgb)"
  shows "triple (foreign reg cms tgb k) (RM_deregisterTargets d tgb ts) (\<lambda>_. registered reg tgb k) (registered reg tgb k)"
  unfolding triple_def
proof (intro allI impI)
  fix s r s' assume f: "foreign reg cms tgb k s" and run: "RM_deregisterTargets d tgb ts s = (r, s')"
  have cloud: "cloud_ok reg drn (rmAssumeRole d)" and q: "configmaps_quiet (calm reg drn) (rmConfigMaps d)" and cm: "cm_ok cms (rmConfigMaps d)"
    using assms(1,2) by (simp_all add: surroundings_ok_def env_ok_def envOf_def deps_quiet_def tracking_ok_def)
  obtain rf s1 where filt: "FilterTargetsForDeregistration (rmConfigMaps d) tgb ts s = (rf, s1)" by fastforce
  have reg1: "reg (world s1) = reg (world s)" using keepsD [OF calm.keeps_Filter [OF q] filt] by (simp add: calm_def)
  have "registered reg tgb k s'"
  proof (cases rf)
    case (Inl e)
    then show ?thesis using run filt reg1 foreign_registered [OF f] by (simp add: RM_deregisterTargets_def io_bind_def)
  next
    case (Inr fu)
    obtain kept u where fu: "fu = (kept, u)" by fastforce
    have spared: "k \<notin> tkey ` tiTarget ` set kept"
      using filter_tracked [OF cm assms(3) filt [unfolded Inr fu]] f by (fastforce simp: foreign_def)
    show ?thesis
    proof (cases "kept = []")
      case True
      then show ?thesis using run filt Inr fu reg1 foreign_registered [OF f] by (simp add: RM_deregisterTargets_def io_bind_def)
    next
      case False
      then obtain r2 where "TM_DeregisterTargets (rmAssumeRole d) tgb (map tiTarget kept) s1 = (r2, s')"
        using run filt Inr fu by (auto simp: RM_deregisterTargets_def io_bind_def split: prod.splits sum.splits)
      from TM_DeregisterTargets_within [OF cloud this] show ?thesis
        using spared reg1 foreign_registered [OF f] by (auto simp: within_def)
    qed
  qed
  then show "case r of Inr x \<Rightarrow> registered reg tgb k s' | Inl e \<Rightarrow> registered reg tgb k s'" by (simp split: sum.split)
qed

lemma triple_result:
  assumes "triple P m (\<lambda>_. R) E" "\<And>s x s'. m s = (Inr x, s') \<Longrightarrow> b x"
  shows "triple P m (\<lambda>x s. R s \<and> b x) E"
  unfolding triple_def
proof (intro allI impI)
  fix s r s' assume "P s" "m s = (r, s')"
  with tripleD [OF assms(1) this] assms(2) show "case r of Inr x \<Rightarrow> R s' \<and> b x | Inl e \<Rightarrow> E s'" by (auto split: sum.splits)
qed

lemma triple_ignoreMissing: "triple P m (\<lambda>_. R) R \<Longrightarrow> triple P (ignoreMissingTargetGroup m) (\<lambda>_. R) R"
  unfolding triple_def ignoreMissingTargetGroup_def by (fastforce split: prod.splits sum.splits if_splits)

definition same_binding :: "TargetGroupBinding \<Rightarrow> TargetGroupBinding \<Rightarrow> bool" where
  "same_binding tgb tgb' \<longleftrightarrow> k8sSpec tgb' = k8sSpec tgb \<and> k8sNamespace tgb' = k8sNamespace tgb \<and> k8sName tgb' = k8sName tgb"

lemma resetCheckPoint_same: "resetCheckPoint d c tgb s = (Inr tgb', s') \<Longrightarrow> same_binding tgb tgb'"
  by (auto simp: resetCheckPoint_def updateTGBCheckPoint_def SaveTGBReconcileCheckpoint_def same_binding_def Let_def
      split: if_splits prod.splits sum.splits)

lemma same_binding_foreign:
  assumes "same_binding tgb tgb'"
  shows "foreign reg cms tgb' k s = foreign reg cms tgb k s" "registered reg tgb' k s = registered reg tgb k s"
proof -
  have e: "getCacheKey tgb' = getCacheKey tgb" "configMapKey tgb' = configMapKey tgb" "k8sSpec tgb' = k8sSpec tgb"
    using assms by (simp_all add: same_binding_def getCacheKey_def getConfigMapName_def)
  show "foreign reg cms tgb' k s = foreign reg cms tgb k s" "registered reg tgb' k s = registered reg tgb k s"
    unfolding foreign_def tracked_def retrieveConfigMapFromCache_def e by (rule refl)+
qed

lemma triple_same_binding:
  assumes "\<And>t. same_binding tgb t \<Longrightarrow> triple (foreign reg cms t k) (f t) (\<lambda>_. registered reg t k) (registered reg t k)"
  shows "triple (\<lambda>s. foreign reg cms tgb k s \<and> same_binding tgb t) (f t) (\<lambda>_. registered reg tgb k) (registered reg tgb k)"
proof (rule triple_pure)
  assume b: "same_binding tgb t"
  show "triple (foreign reg cms tgb k) (f t) (\<lambda>_. registered reg tgb k) (registered reg tgb k)"
    using assms [OF b] unfolding triple_def same_binding_foreign [OF b] .
qed

lemma deregisterUnmatched_spares:
  assumes "surroundings_ok reg drn d" "tracking_ok cms d" "tgbMultiCluster (k8sSpec tgb)"
  shows "triple (foreign reg cms tgb k) (deregisterUnmatched d tgb ts) (\<lambda>_. registered reg tgb k) (registered reg tgb k)"
  unfolding deregisterUnmatched_def
  by (auto intro!: deregister_spares [OF assms] triple_ret dest: foreign_registered)

lemma surroundings_grow:
  assumes "surroundings_ok reg drn d"
  shows "deps_quiet (grows reg) d" "registering_quiet (grows reg) (rmAssumeRole d)" "\<And>t t'. call_quiet (grows reg) (rmPatchTGB d t t')"
  using assms unfolding surroundings_ok_def env_ok_def envOf_def
  by (auto intro!: deps_quiet_grows cloud_registering call_quiet_grows)

lemma foreign_steps:
  assumes "surroundings_ok reg drn d" "tracking_ok cms d"
  shows "triple (foreign reg cms tgb k) (TM_ListTargets (rmAssumeRole d) tgb') (\<lambda>_. foreign reg cms tgb k) (registered reg tgb k)"
    and "triple (foreign reg cms tgb k) (io_failed (onWorld (rmNetPods d t es))) (\<lambda>_. foreign reg cms tgb k) (registered reg tgb k)"
    and "triple (foreign reg cms tgb k) (onWorld (rmNetNodePorts d t ns)) (\<lambda>_. foreign reg cms tgb k) (registered reg tgb k)"
    and "triple (foreign reg cms tgb k) (resetCheckPoint d c tgb) (\<lambda>tgb' s. foreign reg cms tgb k s \<and> same_binding tgb tgb') (registered reg tgb k)"
    and "triple (foreign reg cms tgb k) (io_lift r) (\<lambda>_. foreign reg cms tgb k) (registered reg tgb k)"
proof -
  note quiet = assms [unfolded surroundings_ok_def tracking_ok_def deps_quiet_def]
  have net: "call_quiet (still reg drn cms) (rmNetNodePorts d t ns)" "call_quiet (still reg drn cms) (rmNetPods d t es)"
    and patch: "\<And>t t'. call_quiet (still reg drn cms) (rmPatchTGB d t t')"
    using quiet by (simp_all add: call_quiet_still)
  show "triple (foreign reg cms tgb k) (TM_ListTargets (rmAssumeRole d) tgb') (\<lambda>_. foreign reg cms tgb k) (registered reg tgb k)"
  proof (rule foreign_kept [OF still.wkeeps_TM_List TM_ListTargets_configMapCache])
    have "cloud_ok reg drn (rmAssumeRole d)" using assms(1) by (simp add: surroundings_ok_def env_ok_def envOf_def)
    then show "listing_quiet (still reg drn cms) (rmAssumeRole d)"
      using assms(2) by (intro listing_still cloud_listing) (simp_all add: tracking_ok_def)
  qed
  show "triple (foreign reg cms tgb k) (onWorld (rmNetNodePorts d t ns)) (\<lambda>_. foreign reg cms tgb k) (registered reg tgb k)"
    by (rule foreign_kept [OF still.wkeeps_onWorld [OF net(1)] onWorld_configMapCache])
  show "triple (foreign reg cms tgb k) (io_failed (onWorld (rmNetPods d t es))) (\<lambda>_. foreign reg cms tgb k) (registered reg tgb k)"
    by (rule foreign_kept [OF keeps_wkeeps [OF still.keeps_failed [OF still.keeps_onWorld [OF net(2)]]]])
      (auto simp: io_failed_def dest!: onWorld_configMapCache split: prod.splits sum.splits)
  have "triple (foreign reg cms tgb k) (updateTGBCheckPoint d tgb new old) (\<lambda>_. foreign reg cms tgb k) (registered reg tgb k)" for new old
    by (rule foreign_kept [OF keeps_wkeeps [OF still.keeps_patchTGB [OF patch]] updateTGBCheckPoint_configMapCache])
  then have "triple (foreign reg cms tgb k) (resetCheckPoint d c tgb) (\<lambda>_. foreign reg cms tgb k) (registered reg tgb k)"
    unfolding resetCheckPoint_def by (auto intro!: triple_ret)
  then show "triple (foreign reg cms tgb k) (resetCheckPoint d c tgb) (\<lambda>tgb' s. foreign reg cms tgb k s \<and> same_binding tgb tgb') (registered reg tgb k)"
    by (rule triple_result) (rule resetCheckPoint_same)
  show "triple (foreign reg cms tgb k) (io_lift r) (\<lambda>_. foreign reg cms tgb k) (registered reg tgb k)"
    using foreign_registered [of reg cms tgb k] by (auto simp: triple_def split: sum.split)
qed

lemma sync_spares:
  assumes "surroundings_ok reg drn d" "tracking_ok cms d" "tgbMultiCluster (k8sSpec tgb)"
  shows "triple (foreign reg cms tgb k) (syncPods d tgb es ts) (\<lambda>_. registered reg tgb k) (registered reg tgb k)"
    and "triple (foreign reg cms tgb k) (syncNodePorts d tgb ns ts) (\<lambda>_. registered reg tgb k) (registered reg tgb k)"
proof -
  note F = foreign_steps [OF assms(1,2), where tgb = tgb and k = k] and G = surroundings_grow [OF assms(1)]
  have dereg: "triple (foreign reg cms t k) (deregisterUnmatched d t us) (\<lambda>_. registered reg t k) (registered reg t k)" if "same_binding tgb t" for t us
    by (rule deregisterUnmatched_spares [OF assms(1,2)]) (use assms(3) that in \<open>simp add: same_binding_def\<close>)
  note rules = triple_same_binding triple_bind [OF dereg] registered_kept grows.wkeeps_changes G
  show "triple (foreign reg cms tgb k) (syncPods d tgb es ts) (\<lambda>_. registered reg tgb k) (registered reg tgb k)"
    unfolding syncPods_def Let_def
    by (intro triple_bind [OF F(5)])
      (auto split: prod.split intro!: triple_bind [OF F(2)] triple_bind [OF F(4)] rules)
  show "triple (foreign reg cms tgb k) (syncNodePorts d tgb ns ts) (\<lambda>_. registered reg tgb k) (registered reg tgb k)"
    unfolding syncNodePorts_def Let_def
    by (auto split: prod.split intro!: triple_bind [OF F(3)] triple_bind [OF F(4)] rules)
qed

lemma cleanup_spares:
  assumes "surroundings_ok reg drn d" "tracking_ok cms d" "tgbMultiCluster (k8sSpec tgb)"
  shows "triple (foreign reg cms tgb k) (RM_Cleanup d tgb) (\<lambda>_. registered reg tgb k) (registered reg tgb k)"
proof -
  note F = foreign_steps [OF assms(1,2), where tgb = tgb and k = k] and G = surroundings_grow [OF assms(1)]
  have targets: "triple (foreign reg cms tgb k) (cleanupTargets d tgb) (\<lambda>_. registered reg tgb k) (registered reg tgb k)"
    unfolding cleanupTargets_def
    by (intro triple_ignoreMissing triple_bind [OF F(1)] triple_bind [OF deregister_spares [OF assms]] triple_ret)
  have "wkeeps (grows reg) (io_bind (MC_CleanUp (rmConfigMaps d) tgb) (\<lambda>_. io_bind (onWorld (rmNetCleanup d tgb)) (\<lambda>_. updatePodAsHealthyForDeletedTGB d tgb)))"
    using G(1) by (intro grows.wkeeps_bind keeps_wkeeps [OF grows.keeps_MC_CleanUp] keeps_wkeeps [OF grows.keeps_deletedTGB] grows.wkeeps_onWorld)
      (simp_all add: deps_quiet_def)
  from triple_bind [OF targets registered_kept [OF this]] show ?thesis unfolding RM_Cleanup_def .
qed

lemma orCleanup_spares:
  assumes "surroundings_ok reg drn d" "tracking_ok cms d" "tgbMultiCluster (k8sSpec tgb)" "call_quiet (still reg drn cms) f"
    and "\<And>es. triple (foreign reg cms tgb k) (cont es) (\<lambda>_. registered reg tgb k) (registered reg tgb k)"
  shows "triple (foreign reg cms tgb k) (orCleanup d tgb (onWorld f) cont) (\<lambda>_. registered reg tgb k) (registered reg tgb k)"
  unfolding triple_def
proof (intro allI impI)
  fix s r s' assume p: "foreign reg cms tgb k s" and run: "orCleanup d tgb (onWorld f) cont s = (r, s')"
  obtain rf s1 where f: "onWorld f s = (rf, s1)" by fastforce
  have i: "foreign reg cms tgb k s1"
    by (rule foreign_step [OF still.wkeeps_onWorld [OF assms(4)] f onWorld_configMapCache [OF f] p])
  have clean: "triple (foreign reg cms tgb k) (io_bind (RM_Cleanup d tgb) (\<lambda>_. io_ret x)) (\<lambda>_. registered reg tgb k) (registered reg tgb k)" for x
    by (intro triple_bind [OF cleanup_spares [OF assms(1-3)]] triple_ret)
  show "case r of Inr x \<Rightarrow> registered reg tgb k s' | Inl e \<Rightarrow> registered reg tgb k s'"
  proof (cases rf)
    case (Inl e)
    show ?thesis
    proof (cases "isErrNotFound e")
      case True
      then show ?thesis using run f Inl tripleD [OF clean i] by (simp add: orCleanup_def)
    next
      case False
      then show ?thesis using run f Inl foreign_registered [OF i] by (auto simp: orCleanup_def)
    qed
  next
    case (Inr es)
    then show ?thesis using run f tripleD [OF assms(5) i] by (simp add: orCleanup_def)
  qed
qed

text \<open>
  C3. Clusters that share a target group do not disturb each other: for a binding marked as shared, no run of a reconciliation and no cleanup, however it ends, deregisters a target
  that this cluster does not track, neither in memory nor, without a copy in memory, in its config map. The hypotheses say that
  the calls have their documented effects on targets and config maps and no others.
\<close>

theorem other_clusters_spared:
  assumes "surroundings_ok reg drn d" "tracking_ok cms d" "tgbMultiCluster (k8sSpec tgb)"
    and "k \<in> reg (world s) (TargetGroupARN (k8sSpec tgb))" "identifiers k \<inter> tracked cms tgb s = {}"
    and "RM_Reconcile d tgb s = (r, s') \<or> RM_Cleanup d tgb s = (c, s')"
  shows "k \<in> reg (world s') (TargetGroupARN (k8sSpec tgb))"
proof -
  note F = foreign_steps [OF assms(1,2), where tgb = tgb and k = k] and G = surroundings_grow [OF assms(1)]
  note S = sync_spares [OF assms(1-3)]
  have start: "foreign reg cms tgb k s" using assms(4,5) by (simp add: foreign_def)
  have quiet: "call_quiet (still reg drn cms) (rmResolvePods d n p a)" "call_quiet (still reg drn cms) (rmResolveNodePorts d n p sel)" for n p a sel
    using assms(1,2) by (cases n, simp add: call_quiet_still surroundings_ok_def tracking_ok_def deps_quiet_def)+
  have "triple (foreign reg cms tgb k) (reconcilePodEndpoints d tgb es) (\<lambda>_. registered reg tgb k) (registered reg tgb k)" for es
    unfolding reconcilePodEndpoints_def Let_def
    by (intro triple_bind [OF F(5)]) (auto intro!: triple_bind [OF F(1)] triple_bind [OF S(1)] triple_ret dest: foreign_registered)
  moreover have "triple (foreign reg cms tgb k) (reconcileNodePortEndpoints d tgb es) (\<lambda>_. registered reg tgb k) (registered reg tgb k)" for es
    unfolding reconcileNodePortEndpoints_def Let_def
    by (intro triple_bind [OF F(5)]) (auto intro!: triple_bind [OF F(1)] triple_bind [OF S(2)] triple_ret dest: foreign_registered)
  ultimately have rec: "triple (foreign reg cms tgb k) (if b then reconcileWithIPTargetType d tgb else reconcileWithInstanceTargetType d tgb)
      (\<lambda>_. registered reg tgb k) (registered reg tgb k)" for b
    unfolding reconcileWithIPTargetType_def reconcileWithInstanceTargetType_def
    by (auto intro!: triple_bind [OF F(5)] orCleanup_spares [OF assms(1-3)] quiet)
  have run: "triple (foreign reg cms tgb k) (RM_Reconcile d tgb) (\<lambda>_. registered reg tgb k) (registered reg tgb k)"
    unfolding RM_Reconcile_def
    by (auto split: option.split prod.split intro!: triple_fail triple_bind [OF rec [of True, simplified]] triple_bind [OF rec [of False, simplified]] registered_kept grows.wkeeps_ret grows.wkeeps_bind
        keeps_wkeeps [OF grows.keeps_patchTGB] G(3) dest: foreign_registered)
  from assms(6) show ?thesis
    by (elim disjE, use tripleD [OF run start] in \<open>auto split: sum.splits\<close>) (use tripleD [OF cleanup_spares [OF assms(1-3)] start] in \<open>auto split: sum.splits\<close>)
qed

text \<open>An example: a target group of two clusters. This one, after a restart, tracks 10.0.0.9 in its config map; 10.1.0.1 is a target of the other.\<close>

definition sharedDeps :: "PodEndpoint list \<Rightarrow> (target_key list \<times> (NamespacedName \<Rightarrow> string_map option)) rm_deps" where
  "sharedDeps pods = (memDeps pods)\<lparr>rmConfigMaps := \<lparr>
      cmGet = (\<lambda>n w. case snd w n of Some m \<Rightarrow> (Inr m, w) | None \<Rightarrow> (Inl (APIError ''NotFound'' ''''), w)),
      cmUpdate = (\<lambda>n m w. case snd w n of Some _ \<Rightarrow> (Inr (), (fst w, (snd w)(n \<mapsto> m))) | None \<Rightarrow> (Inl (APIError ''NotFound'' ''''), w)),
      cmCreate = (\<lambda>n m w. (Inr (), (fst w, (snd w)(n \<mapsto> m)))),
      cmDelete = (\<lambda>n w. case snd w n of Some _ \<Rightarrow> (Inr (), (fst w, (snd w)(n := None))) | None \<Rightarrow> (Inl (APIError ''NotFound'' ''''), w))\<rparr>\<rparr>"

definition exSharedIPTGB :: TargetGroupBinding where
  "exSharedIPTGB = exIPTGB\<lparr>k8sSpec := (k8sSpec exIPTGB)\<lparr>tgbMultiCluster := True\<rparr>\<rparr>"

definition exSharedState :: "(target_key list \<times> (NamespacedName \<Rightarrow> string_map option)) rm_state" where
  "exSharedState = \<lparr>world = ([(''10.0.0.9'', 80), (''10.1.0.1'', 80)], (\<lambda>n. if n = configMapKey exSharedIPTGB then Some [(targetsKey, ''10.0.0.9:80'')] else None)),
     targetsCache = [], configMapCache = [], invalidVpcCache = [], needsPodAZCache = [], nodeAZCache = []\<rparr>"

lemma sharedDeps_ok: "surroundings_ok (teRegistered memEnv) (teDraining memEnv) (sharedDeps pods)"
  and sharedDeps_tracking: "tracking_ok snd (sharedDeps pods)"
proof -
  have "envOf (sharedDeps pods) (teRegistered memEnv) (teDraining memEnv) = memEnv"
    by (simp add: envOf_def sharedDeps_def memDeps_def memEnv_def)
  moreover have "deps_quiet (calm (teRegistered memEnv) (teDraining memEnv)) (sharedDeps pods)"
    by (auto simp: deps_quiet_def configmaps_quiet_def call_quiet_def sharedDeps_def memDeps_def calm_def memEnv_def fun_eq_iff split: option.splits)
  ultimately show "surroundings_ok (teRegistered memEnv) (teDraining memEnv) (sharedDeps pods)"
    using memEnv_ok by (simp add: surroundings_ok_def call_quiet_def sharedDeps_def memDeps_def)
  have "cm_ok snd (rmConfigMaps (sharedDeps pods))"
    by (auto simp: cm_ok_def sharedDeps_def split: option.splits sum.splits)
  then show "tracking_ok snd (sharedDeps pods)"
    by (auto simp: tracking_ok_def call_quiet_def sharedDeps_def memDeps_def aws_clients_def memClient_def same_def split: prod.splits if_splits)
qed

theorem other_clusters_spared_witness:
  "\<exists>s'. RM_Reconcile (sharedDeps [exEndpoint ''10.0.0.1'']) exSharedIPTGB exSharedState = (Inr False, s')
     \<and> fst (world s') = [(''10.1.0.1'', 80), (''10.0.0.1'', 80)]
     \<and> (''10.1.0.1'', 80) \<in> teRegistered memEnv (world s') (TargetGroupARN (k8sSpec exSharedIPTGB))"
proof -
  let ?d = "sharedDeps [exEndpoint ''10.0.0.1'']"
  have "(case RM_Reconcile ?d exSharedIPTGB exSharedState of (r, s') \<Rightarrow> r = Inr False \<and> fst (world s') = [(''10.1.0.1'', 80), (''10.0.0.1'', 80)])"
    by code_simp
  then obtain s' where run: "RM_Reconcile ?d exSharedIPTGB exSharedState = (Inr False, s')" and after: "fst (world s') = [(''10.1.0.1'', 80), (''10.0.0.1'', 80)]"
    by (auto split: prod.splits)
  have "tracked snd exSharedIPTGB exSharedState = {''10.0.0.9:80''}" by code_simp
  then have "identifiers (''10.1.0.1'', 80) \<inter> tracked snd exSharedIPTGB exSharedState = {}"
    by (auto simp: identifiers_def uidOf_def)
  moreover have "(''10.1.0.1'', 80) \<in> teRegistered memEnv (world exSharedState) (TargetGroupARN (k8sSpec exSharedIPTGB))" "tgbMultiCluster (k8sSpec exSharedIPTGB)"
    by (simp_all add: memEnv_def exSharedState_def exSharedIPTGB_def exIPTGB_def exTargetsTGB_def exK8sTGB_def)
  ultimately have "(''10.1.0.1'', 80) \<in> teRegistered memEnv (world s') (TargetGroupARN (k8sSpec exSharedIPTGB))"
    using other_clusters_spared [OF sharedDeps_ok sharedDeps_tracking _ _ _ disjI1 [OF run]] by simp
  then show ?thesis using run after by simp
qed

section \<open>The limit on targets\<close>

text \<open>
  Under a limit, as many endpoints are taken as still fit; but with more listed targets than the limit, as when some are draining, the
  bound of the slice is negative, and the slice expression panics.
\<close>

lemma limitEndpoints_fits:
  assumes "rmMaxTargets d \<noteq> 0" "int (length targets) \<le> rmMaxTargets d"
  shows "limitEndpoints d ue targets = Inr (take (nat (rmMaxTargets d) - length targets) ue)"
  using assms by (auto simp: limitEndpoints_def sliceTo_def getMaxNewTargets_def nat_diff_distrib')

lemma limitEndpoints_panics:
  assumes "rmMaxTargets d \<noteq> 0" "int (length targets) > rmMaxTargets d" "ue \<noteq> []"
  shows "limitEndpoints d ue targets = Inl (Errorf ''panic: slice bounds out of range'' [])"
  using assms by (auto simp: limitEndpoints_def sliceTo_def getMaxNewTargets_def)

text \<open>
  A cleanup for a missing backend does not clear the checkpoint before it deregisters. If it fails then and the Service reappears with the same endpoints, the
  next reconciliation is skipped although its targets are gone.
\<close>

definition goneDeps :: "(target_key list \<times> string) rm_deps" where
  "goneDeps = (storingDeps [])\<lparr>rmResolvePods := (\<lambda>n p a w. (Inl ErrNotFound, w)), rmNetCleanup := (\<lambda>t w. (Inl (APIError ''RequestLimitExceeded'' ''''), w))\<rparr>"

definition backDeps :: "(target_key list \<times> string) rm_deps" where
  "backDeps = (memDeps [exEndpoint ''10.0.0.9''])\<lparr>rmPatchTGB := (\<lambda>t t' w. (Inr (), (fst w, GetTGBReconcileCheckpoint t')))\<rparr>"

lemma failed_cleanup_stale_checkpoint:
  defines "tgb \<equiv> exIPTGB\<lparr>k8sAnnotations := [(AnnotationCheckPoint, ''10.0.0.9:80:0/{}'')]\<rparr>"
  shows "(let (r1, s1) = RM_Reconcile goneDeps tgb exCheckedState; (r2, s2) = RM_Reconcile backDeps tgb s1
          in (case r1 of Inl _ \<Rightarrow> True | Inr _ \<Rightarrow> False) \<and> r2 = Inr True \<and> fst (world s2) = [])"
  unfolding tgb_def by code_simp

end
