(* ===== verification/Accelerator_Listener.thy ===== *)
theory Accelerator_Listener
  imports Target_Group
begin

text \<open>
  Listeners of Global Accelerator: \<^verbatim>\<open>pkg/deploy/aga/listener_synthesizer.go\<close>, \<^verbatim>\<open>listener_manager.go\<close>, \<^verbatim>\<open>utils.go\<close> and the
  resource of \<^verbatim>\<open>pkg/model/aga/listener.go\<close>. The synthesizer pairs the wanted listeners with those of the accelerator, first
  by equal protocol and port ranges, then greedily by a similarity score; it deletes listeners that are in the way of
  an update, removes port overrides that the new port ranges forbid, updates, deletes the rest and creates.

  The client of AWS is a record of functions. Fields that AWS always returns (ARN, ports) are no options. A Go set of ports is
  the list of its elements; \<open>srt\<close> is \<open>sort.Slice\<close> and the \<open>ord\<close> arguments are orders of loops over maps.
\<close>

section \<open>Port ranges\<close>

record AgaPortRange =
  agFromPort :: int
  agToPort :: int

text \<open>By the first port and then by the last, as two stable sorts.\<close>

definition SortModelPortRanges :: "AgaPortRange list \<Rightarrow> AgaPortRange list" where
  "SortModelPortRanges portRanges = sort_key agFromPort (sort_key agToPort portRanges)"

definition PortRangesToSet :: "int \<Rightarrow> int \<Rightarrow> int list \<Rightarrow> int list" where
  "PortRangesToSet fromPort toPort portSet = fold List.insert [fromPort..toPort] portSet"

definition ResPortRangesToSet :: "AgaPortRange list \<Rightarrow> int list \<Rightarrow> int list" where
  "ResPortRangesToSet portRanges portSet = fold (\<lambda>pr. PortRangesToSet (agFromPort pr) (agToPort pr)) portRanges portSet"

definition FormatPortRangeToString :: "int \<Rightarrow> int \<Rightarrow> string" where
  "FormatPortRangeToString fromPort toPort = Itoa fromPort @ ''-'' @ Itoa toPort"

definition ResPortRangesToString :: "AgaPortRange list \<Rightarrow> string" where
  "ResPortRangesToString portRanges = join_on CHR '','' (map (\<lambda>pr. FormatPortRangeToString (agFromPort pr) (agToPort pr)) portRanges)"

definition IsPortInRanges :: "int \<Rightarrow> AgaPortRange list \<Rightarrow> bool" where
  "IsPortInRanges port portRanges = list_ex (\<lambda>pr. agFromPort pr \<le> port \<and> port \<le> agToPort pr) portRanges"

section \<open>Listeners\<close>

record AgaListenerSpec =
  agAcceleratorARN :: "string res"
  agProtocol :: string
  agPortRanges :: "AgaPortRange list"
  agClientAffinity :: string

record AgaListener =
  agID :: string
  agSpec :: AgaListenerSpec

record ListenerResource =
  saArn :: string
  saProtocol :: string
  saPortRanges :: "AgaPortRange list"
  saClientAffinity :: string

text \<open>A port override: the port of the listener and that of the endpoint.\<close>

record PortOverride =
  poListenerPort :: "int option"
  poEndpointPort :: "int option"

record AgaEndpointGroup =
  egArn :: string
  egPortOverrides :: "PortOverride list"

record 'w aga_client =
  gaListListeners :: "string \<Rightarrow> ('w, ListenerResource list) io"
  gaCreateListener :: "string \<Rightarrow> string \<Rightarrow> AgaPortRange list \<Rightarrow> string \<Rightarrow> ('w, ListenerResource) io"
  gaUpdateListener :: "string \<Rightarrow> string \<Rightarrow> AgaPortRange list \<Rightarrow> string \<Rightarrow> ('w, ListenerResource) io"
  gaDeleteListener :: "string \<Rightarrow> ('w, unit) io"
  gaListEndpointGroups :: "string \<Rightarrow> ('w, AgaEndpointGroup list) io"
  gaUpdateEndpointGroup :: "string \<Rightarrow> PortOverride list \<Rightarrow> ('w, unit) io"
  gaDeleteEndpointGroup :: "string \<Rightarrow> ('w, unit) io"

section \<open>The listener manager\<close>

definition agaListener_Create :: "'w aga_client \<Rightarrow> AgaListener \<Rightarrow> ('w, string) io" where
  "agaListener_Create c resListener =
     io_bind (io_lift (case agAcceleratorARN (agSpec resListener) of
                Inl err \<Rightarrow> Inl (Wrapped ''failed to resolve accelerator ARN'' err) | Inr arn \<Rightarrow> Inr arn)) (\<lambda>acceleratorARN w.
       case gaCreateListener c acceleratorARN (agProtocol (agSpec resListener)) (agPortRanges (agSpec resListener))
              (agClientAffinity (agSpec resListener)) w of
         (Inl err, w') \<Rightarrow> (Inl (Wrapped ''failed to create listener'' err), w')
       | (Inr listener, w') \<Rightarrow> (Inr (saArn listener), w'))"

definition arePortRangesEqual :: "AgaPortRange list \<Rightarrow> AgaPortRange list \<Rightarrow> bool" where
  "arePortRangesEqual modelPortRanges sdkPortRanges \<longleftrightarrow> length modelPortRanges = length sdkPortRanges
     \<and> set (map (\<lambda>pr. Itoa (agFromPort pr) @ ''-'' @ Itoa (agToPort pr)) modelPortRanges)
       = set (map (\<lambda>pr. Itoa (agFromPort pr) @ ''-'' @ Itoa (agToPort pr)) sdkPortRanges)"

definition isSDKAgaListenerDrifted :: "AgaListener \<Rightarrow> ListenerResource \<Rightarrow> bool" where
  "isSDKAgaListenerDrifted resListener sdkListener \<longleftrightarrow> agProtocol (agSpec resListener) \<noteq> saProtocol sdkListener
     \<or> agClientAffinity (agSpec resListener) \<noteq> saClientAffinity sdkListener
     \<or> \<not> arePortRangesEqual (agPortRanges (agSpec resListener)) (saPortRanges sdkListener)"

definition agaListener_Update :: "'w aga_client \<Rightarrow> AgaListener \<Rightarrow> ListenerResource \<Rightarrow> ('w, string) io" where
  "agaListener_Update c resListener sdkListener w =
     (if \<not> isSDKAgaListenerDrifted resListener sdkListener then (Inr (saArn sdkListener), w)
      else (case gaUpdateListener c (saArn sdkListener) (agProtocol (agSpec resListener)) (agPortRanges (agSpec resListener))
                   (agClientAffinity (agSpec resListener)) w of
              (Inl err, w') \<Rightarrow> (Inl (Wrapped ''failed to update listener'' err), w')
            | (Inr updatedListener, w') \<Rightarrow> (Inr (saArn updatedListener), w')))"

text \<open>The deletion of an endpoint group by its manager (\<^verbatim>\<open>endpoint_group_manager.go\<close>).\<close>

definition agaEndpointGroup_Delete :: "'w aga_client \<Rightarrow> string \<Rightarrow> ('w, unit) io" where
  "agaEndpointGroup_Delete c endpointGroupARN w =
     (case gaDeleteEndpointGroup c endpointGroupARN w of
        (Inl err, w') \<Rightarrow> if errorCode err = Some ''EndpointGroupNotFoundException'' then (Inr (), w')
                        else (Inl (Wrapped ''failed to delete endpoint group'' err), w')
      | (Inr _, w') \<Rightarrow> (Inr (), w'))"

definition deleteEndpointGroups :: "'w aga_client \<Rightarrow> AgaEndpointGroup list \<Rightarrow> ('w, unit) io" where
  "deleteEndpointGroups c = io_iter (\<lambda>endpointGroup w.
     case agaEndpointGroup_Delete c (egArn endpointGroup) w of
       (Inl err, w') \<Rightarrow> (Inl (Wrapped (''failed to delete endpoint group '' @ egArn endpointGroup) err), w')
     | (Inr _, w') \<Rightarrow> (Inr (), w'))"

definition agaListener_Delete :: "'w aga_client \<Rightarrow> string \<Rightarrow> ('w, unit) io" where
  "agaListener_Delete c listenerARN w =
     (case gaListEndpointGroups c listenerARN w of
        (Inl err, w1) \<Rightarrow> if errorCode err = Some ''ListenerNotFoundException'' then (Inr (), w1)
                        else (Inl (Wrapped ''failed to list endpoint groups for listener'' err), w1)
      | (Inr endpointGroups, w1) \<Rightarrow>
          io_bind (deleteEndpointGroups c endpointGroups) (\<lambda>_ w2.
            case gaDeleteListener c listenerARN w2 of
              (Inl err, w3) \<Rightarrow> if errorCode err = Some ''ListenerNotFoundException'' then (Inr (), w3)
                              else (Inl (Wrapped ''failed to delete listener'' err), w3)
            | (Inr _, w3) \<Rightarrow> (Inr (), w3)) w1)"

section \<open>Matching\<close>

definition makePortSet :: "AgaPortRange list \<Rightarrow> int list" where
  "makePortSet portRanges = ResPortRangesToSet portRanges []"

definition agaListenerKey :: "string \<Rightarrow> AgaPortRange list \<Rightarrow> string" where
  "agaListenerKey protocol portRanges = protocol @ '':'' @ ResPortRangesToString (SortModelPortRanges portRanges)"

definition generateResListenerKey :: "AgaListener \<Rightarrow> string" where
  "generateResListenerKey listener = agaListenerKey (agProtocol (agSpec listener)) (agPortRanges (agSpec listener))"

definition generateSDKListenerKey :: "ListenerResource \<Rightarrow> string" where
  "generateSDKListenerKey listener = agaListenerKey (saProtocol listener) (saPortRanges listener)"

type_synonym aga_match = "(AgaListener \<times> ListenerResource) list \<times> AgaListener list \<times> ListenerResource list"

definition findExactMatches :: "AgaListener list \<Rightarrow> ListenerResource list \<Rightarrow> aga_match" where
  "findExactMatches resListeners sdkListeners =
     matchByKey (mbuild generateResListenerKey (\<lambda>l. l) resListeners []) (mbuild generateSDKListenerKey (\<lambda>l. l) sdkListeners [])"

definition calculateSimilarityScore :: "AgaListener \<Rightarrow> ListenerResource \<Rightarrow> int" where
  "calculateSimilarityScore resListener sdkListener =
     (let resPortSet = makePortSet (agPortRanges (agSpec resListener));
          sdkPortSet = makePortSet (saPortRanges sdkListener);
          commonPorts = int (length (filter (\<lambda>port. port \<in> set sdkPortSet) resPortSet));
          totalPorts = int (length resPortSet) + int (length sdkPortSet) - commonPorts;
          resClientAffinity = agClientAffinity (agSpec resListener);
          sdkClientAffinity = saClientAffinity sdkListener
      in (if agProtocol (agSpec resListener) = saProtocol sdkListener then 40 else 0)
         + (if totalPorts > 0 then (commonPorts * 100) div totalPorts else 0)
         + (if resClientAffinity \<noteq> '''' \<and> sdkClientAffinity \<noteq> '''' \<and> resClientAffinity = sdkClientAffinity then 10 else 0))"

definition minSimilarityThreshold :: int where "minSimilarityThreshold = 15"

type_synonym listenerPairScore = "AgaListener \<times> ListenerResource \<times> int"

definition scoredPairs :: "AgaListener list \<Rightarrow> ListenerResource list \<Rightarrow> listenerPairScore list" where
  "scoredPairs resListeners sdkListeners =
     concat (map (\<lambda>resListener.
       filter (\<lambda>(r, s, score). score \<ge> minSimilarityThreshold)
         (map (\<lambda>sdkListener. (resListener, sdkListener, calculateSimilarityScore resListener sdkListener)) sdkListeners)) resListeners)"

fun greedyMatches :: "listenerPairScore list \<Rightarrow> string list \<Rightarrow> string list \<Rightarrow> (AgaListener \<times> ListenerResource) list" where
  "greedyMatches [] matchedResListenerIDs matchedSDKListenerARNs = []"
| "greedyMatches ((r, s, score) # pairs) matchedResListenerIDs matchedSDKListenerARNs =
     (if agID r \<in> set matchedResListenerIDs \<or> saArn s \<in> set matchedSDKListenerARNs
      then greedyMatches pairs matchedResListenerIDs matchedSDKListenerARNs
      else (r, s) # greedyMatches pairs (agID r # matchedResListenerIDs) (saArn s # matchedSDKListenerARNs))"

type_synonym pair_sort = "(listenerPairScore \<Rightarrow> listenerPairScore \<Rightarrow> bool) \<Rightarrow> listenerPairScore list \<Rightarrow> listenerPairScore list"

definition findSimilarityMatches :: "pair_sort \<Rightarrow> AgaListener list \<Rightarrow> ListenerResource list \<Rightarrow> aga_match" where
  "findSimilarityMatches srt resListeners sdkListeners =
     (if length resListeners = 0 \<or> length sdkListeners = 0 then ([], resListeners, sdkListeners)
      else (let sorted = srt (\<lambda>p q. snd (snd p) > snd (snd q)) (scoredPairs resListeners sdkListeners);
                matchedPairs = greedyMatches sorted [] []
            in (matchedPairs,
                filter (\<lambda>r. agID r \<notin> set (map (agID \<circ> fst) matchedPairs)) resListeners,
                filter (\<lambda>s. saArn s \<notin> set (map (saArn \<circ> snd) matchedPairs)) sdkListeners)))"

definition matchResAndSDKAgaListeners :: "pair_sort \<Rightarrow> AgaListener list \<Rightarrow> ListenerResource list \<Rightarrow> aga_match" where
  "matchResAndSDKAgaListeners srt resListeners sdkListeners =
     (let (exactMatches, remainingRes, remainingSDK) = findExactMatches resListeners sdkListeners;
          (similarityMatches, unmatchedRes, unmatchedSDK) = findSimilarityMatches srt remainingRes remainingSDK
      in (exactMatches @ similarityMatches, unmatchedRes, unmatchedSDK))"

section \<open>Conflicts and port overrides\<close>

definition hasPortRangeConflict :: "AgaListener \<Rightarrow> ListenerResource \<Rightarrow> bool" where
  "hasPortRangeConflict resListener sdkListener \<longleftrightarrow> agProtocol (agSpec resListener) = saProtocol sdkListener
     \<and> list_ex (\<lambda>port. port \<in> set (makePortSet (saPortRanges sdkListener))) (makePortSet (agPortRanges (agSpec resListener)))"

text \<open>The unmatched listeners that conflict with some planned update, by the resource that is updated.\<close>

fun conflictMap :: "(AgaListener \<times> ListenerResource) list \<Rightarrow> ListenerResource list \<Rightarrow> (string, ListenerResource list) gomap \<Rightarrow>
    (string, ListenerResource list) gomap" where
  "conflictMap [] unmatchedSDK m = m"
| "conflictMap ((r, s) # pairs) unmatchedSDK m =
     (let conflicts = filter (hasPortRangeConflict r) unmatchedSDK
      in conflictMap pairs unmatchedSDK (if length conflicts > 0 then mput (agID r) conflicts m else m))"

fun collectConflicting :: "ListenerResource list \<Rightarrow> string list \<Rightarrow> ListenerResource list" where
  "collectConflicting [] seen = []"
| "collectConflicting (l # ls) seen =
     (if saArn l \<in> set seen then collectConflicting ls seen else l # collectConflicting ls (saArn l # seen))"

definition findConflictingAndNonConflictingListeners ::
    "((string \<times> ListenerResource list) list \<Rightarrow> (string \<times> ListenerResource list) list) \<Rightarrow> (AgaListener \<times> ListenerResource) list \<Rightarrow>
     ListenerResource list \<Rightarrow> ListenerResource list \<times> ListenerResource list" where
  "findConflictingAndNonConflictingListeners ord matched unmatchedSDK =
     (let conflicting = collectConflicting (concat (map snd (ord (conflictMap matched unmatchedSDK [])))) []
      in (conflicting, filter (\<lambda>s. saArn s \<notin> set (map saArn conflicting)) unmatchedSDK))"

definition havePortRangesChanged :: "AgaListener \<Rightarrow> ListenerResource \<Rightarrow> bool" where
  "havePortRangesChanged resListener sdkListener \<longleftrightarrow>
     (let resPorts = agPortRanges (agSpec resListener); sdkPorts = saPortRanges sdkListener in
      length resPorts \<noteq> length sdkPorts \<or> length (makePortSet resPorts) \<noteq> length (makePortSet sdkPorts)
      \<or> list_ex (\<lambda>p. p \<notin> set (makePortSet sdkPorts)) (makePortSet resPorts)
      \<or> list_ex (\<lambda>p. p \<notin> set (makePortSet resPorts)) (makePortSet sdkPorts))"

definition preparePortOverrideProcessing :: "AgaListener list \<Rightarrow> (AgaListener \<times> ListenerResource) list \<Rightarrow> ListenerResource list \<Rightarrow>
    AgaPortRange list \<times> ListenerResource list \<times> (string, AgaPortRange list) gomap" where
  "preparePortOverrideProcessing resListeners matched nonConflicting =
     (concat (map (\<lambda>r. agPortRanges (agSpec r)) resListeners),
      map snd matched @ nonConflicting,
      mbuild (\<lambda>(r, s). saArn s) (\<lambda>(r, s). agPortRanges (agSpec r)) (filter (\<lambda>(r, s). havePortRangesChanged r s) matched) [])"

definition validPortOverride :: "AgaPortRange list \<Rightarrow> AgaPortRange list \<Rightarrow> PortOverride \<Rightarrow> bool" where
  "validPortOverride allListenerPortRanges updatedListenerPortRanges po \<longleftrightarrow>
     \<not> IsPortInRanges (ToInt32 (poEndpointPort po)) allListenerPortRanges
     \<and> \<not> (length updatedListenerPortRanges > 0 \<and> \<not> IsPortInRanges (ToInt32 (poListenerPort po)) updatedListenerPortRanges)"

definition processPortOverridesWithAllRules :: "PortOverride list \<Rightarrow> AgaPortRange list \<Rightarrow> AgaPortRange list \<Rightarrow>
    PortOverride list \<times> PortOverride list" where
  "processPortOverridesWithAllRules portOverrides allListenerPortRanges updatedListenerPortRanges =
     partition (validPortOverride allListenerPortRanges updatedListenerPortRanges) portOverrides"

text \<open>The analysis of the endpoint groups of one listener: the overrides to keep of each group that has others.\<close>

fun analyzeEndpointGroups :: "AgaEndpointGroup list \<Rightarrow> AgaPortRange list \<Rightarrow> AgaPortRange list \<Rightarrow> (string, PortOverride list) gomap \<Rightarrow>
    (string, PortOverride list) gomap" where
  "analyzeEndpointGroups [] allRanges updatedRanges m = m"
| "analyzeEndpointGroups (eg # egs) allRanges updatedRanges m =
     (if length (egPortOverrides eg) = 0 then analyzeEndpointGroups egs allRanges updatedRanges m
      else (let (valid, invalid) = processPortOverridesWithAllRules (egPortOverrides eg) allRanges updatedRanges
            in analyzeEndpointGroups egs allRanges updatedRanges (if length invalid > 0 then mput (egArn eg) valid m else m)))"

fun collectOverrideConflicts :: "'w aga_client \<Rightarrow> ListenerResource list \<Rightarrow> AgaPortRange list \<Rightarrow> (string, AgaPortRange list) gomap \<Rightarrow>
    (string, PortOverride list) gomap \<Rightarrow> ('w, (string, PortOverride list) gomap) io" where
  "collectOverrideConflicts c [] allRanges updates m w = (Inr m, w)"
| "collectOverrideConflicts c (l # ls) allRanges updates m w =
     (case gaListEndpointGroups c (saArn l) w of
        (Inl err, w') \<Rightarrow> (Inl (Wrapped (''failed to list endpoint groups for listener '' @ saArn l) err), w')
      | (Inr egs, w') \<Rightarrow>
          collectOverrideConflicts c ls allRanges updates
            (analyzeEndpointGroups egs allRanges (mget0 [] updates (saArn l)) m) w')"

definition updateEndpointGroupPortOverrides :: "'w aga_client \<Rightarrow> string \<Rightarrow> PortOverride list \<Rightarrow> ('w, unit) io" where
  "updateEndpointGroupPortOverrides c endpointGroupARN validPortOverrides w =
     (case gaUpdateEndpointGroup c endpointGroupARN validPortOverrides w of
        (Inl err, w') \<Rightarrow>
          (Inl (Wrapped (''failed to update endpoint group '' @ endpointGroupARN @ '' for port overrides to remove conflicts'') err), w')
      | (Inr _, w') \<Rightarrow> (Inr (), w'))"

definition ProcessEndpointGroupPortOverrides :: "'w aga_client \<Rightarrow>
    ((string \<times> PortOverride list) list \<Rightarrow> (string \<times> PortOverride list) list) \<Rightarrow> ListenerResource list \<Rightarrow> AgaPortRange list \<Rightarrow>
    (string, AgaPortRange list) gomap \<Rightarrow> ('w, unit) io" where
  "ProcessEndpointGroupPortOverrides c ord listeners allRanges updates =
     io_bind (collectOverrideConflicts c listeners allRanges updates []) (\<lambda>conflicts.
       io_iter (\<lambda>(arn, valid) w.
         case updateEndpointGroupPortOverrides c arn valid w of
           (Inl err, w') \<Rightarrow> (Inl (Wrapped (''failed to update endpoint group '' @ arn @ '' to remove conflicts'') err), w')
         | (Inr _, w') \<Rightarrow> (Inr (), w')) (ord conflicts))"

section \<open>The synthesizer\<close>

type_synonym 'w aga_synth = "(unit, string, 'w) synth"

definition agaListenerManager :: "'w aga_client \<Rightarrow> (AgaListener, ListenerResource, string, 'w) resource_manager" where
  "agaListenerManager c = \<lparr>mCreate = agaListener_Create c, mUpdate = agaListener_Update c, mDelete = (\<lambda>l. agaListener_Delete c (saArn l))\<rparr>"

definition findSDKListenersOnAccelerator :: "'w aga_client \<Rightarrow> string \<Rightarrow> ('w, ListenerResource list) io" where
  "findSDKListenersOnAccelerator c accARN w =
     (case gaListListeners c accARN w of
        (Inl err, w') \<Rightarrow> if errorCode err = Some ''AcceleratorNotFoundException'' then (Inr [], w')
                        else (Inl (Wrapped (''failed to list listeners for accelerator '' @ accARN) err), w')
      | (Inr listeners, w') \<Rightarrow> (Inr listeners, w'))"

definition synthesizeListenersOnAccelerator :: "'w aga_client \<Rightarrow> pair_sort \<Rightarrow>
    ((string \<times> ListenerResource list) list \<Rightarrow> (string \<times> ListenerResource list) list) \<Rightarrow>
    ((string \<times> PortOverride list) list \<Rightarrow> (string \<times> PortOverride list) list) \<Rightarrow> string \<Rightarrow> AgaListener list \<Rightarrow> ('w aga_synth, unit) io" where
  "synthesizeListenersOnAccelerator c srt ordC ordO accARN resListeners =
     io_bind (onCloud (findSDKListenersOnAccelerator c accARN)) (\<lambda>sdkListeners.
       let mgr = agaListenerManager c;
           (matched, unmatchedRes, unmatchedSDK) = matchResAndSDKAgaListeners srt resListeners sdkListeners;
           (conflicting, nonConflicting) = findConflictingAndNonConflictingListeners ordC matched unmatchedSDK;
           (allRanges, toProcess, updates) = preparePortOverrideProcessing resListeners matched nonConflicting
       in io_bind (io_iter (\<lambda>l. onCloud (mDelete mgr l)) conflicting) (\<lambda>_.
          io_bind (onCloud (ProcessEndpointGroupPortOverrides c ordO toProcess allRanges updates)) (\<lambda>_.
          io_bind (io_iter (updateRes mgr agID) matched) (\<lambda>_.
          io_bind (io_iter (\<lambda>l. onCloud (mDelete mgr l)) nonConflicting) (\<lambda>_.
            io_iter (createRes mgr agID) unmatchedRes)))))"

text \<open>\<open>resAccelerators\<close> are the ARN tokens of the accelerators of the stack, in its order.\<close>

definition AgaListener_Synthesize :: "'w aga_client \<Rightarrow> pair_sort \<Rightarrow>
    ((string \<times> ListenerResource list) list \<Rightarrow> (string \<times> ListenerResource list) list) \<Rightarrow>
    ((string \<times> PortOverride list) list \<Rightarrow> (string \<times> PortOverride list) list) \<Rightarrow> string \<Rightarrow> string res list \<Rightarrow> AgaListener list \<Rightarrow>
    ('w aga_synth, unit) io" where
  "AgaListener_Synthesize c srt ordC ordO sid resAccelerators resListeners =
     (case resAccelerators of
        [] \<Rightarrow> io_fail (Errorf ''no accelerator resource found in stack'' [])
      | Inl err # _ \<Rightarrow> io_fail (Wrapped (''unable to resolve accelerator ARN for stack '' @ sid) err)
      | Inr acceleratorARN # _ \<Rightarrow> synthesizeListenersOnAccelerator c srt ordC ordO acceleratorARN resListeners)"

section \<open>Every listener is matched once, and the matching is stable\<close>

lemma greedyMatches_from: "(r, s) \<in> set (greedyMatches ps ids arns) \<Longrightarrow> \<exists>score. (r, s, score) \<in> set ps"
  by (induction ps ids arns rule: greedyMatches.induct) (auto split: if_splits)

lemma greedyMatches_distinct:
  "distinct (map (agID \<circ> fst) (greedyMatches ps ids arns)) \<and> distinct (map (saArn \<circ> snd) (greedyMatches ps ids arns))
   \<and> set (map (agID \<circ> fst) (greedyMatches ps ids arns)) \<inter> set ids = {} \<and> set (map (saArn \<circ> snd) (greedyMatches ps ids arns)) \<inter> set arns = {}"
  by (induction ps ids arns rule: greedyMatches.induct) (auto split: if_splits)

lemma greedyMatches_stable:
  assumes "sorted_wrt (\<lambda>p q. snd (snd p) \<ge> snd (snd q)) ps" "(r, s, score) \<in> set ps"
  shows "agID r \<in> set ids \<or> saArn s \<in> set arns
     \<or> (\<exists>r' s' score'. (r', s') \<in> set (greedyMatches ps ids arns) \<and> (r', s', score') \<in> set ps \<and> score' \<ge> score \<and> (agID r' = agID r \<or> saArn s' = saArn s))"
  using assms
proof (induction ps ids arns rule: greedyMatches.induct)
  case (2 r0 s0 score0 ps ids arns)
  show ?case
  proof (cases "agID r0 \<in> set ids \<or> saArn s0 \<in> set arns")
    case True
    show ?thesis
    proof (cases "(r, s, score) = (r0, s0, score0)")
      case False
      then have "agID r \<in> set ids \<or> saArn s \<in> set arns
          \<or> (\<exists>r' s' score'. (r', s') \<in> set (greedyMatches ps ids arns) \<and> (r', s', score') \<in> set ps \<and> score' \<ge> score \<and> (agID r' = agID r \<or> saArn s' = saArn s))"
        using "2.IH"(1) [OF True] "2.prems" by auto
      then show ?thesis using True by auto
    qed (use True in auto)
  next
    case False
    show ?thesis
    proof (cases "agID r = agID r0 \<or> saArn s = saArn s0")
      case True
      have "score0 \<ge> score" using "2.prems" by auto
      moreover have "(r0, s0) \<in> set (greedyMatches ((r0, s0, score0) # ps) ids arns)" using False by simp
      moreover have "agID r0 = agID r \<or> saArn s0 = saArn s" using True by auto
      ultimately show ?thesis by (meson list.set_intros(1))
    next
      case other: False
      then have "agID r \<in> set (agID r0 # ids) \<or> saArn s \<in> set (saArn s0 # arns)
          \<or> (\<exists>r' s' score'. (r', s') \<in> set (greedyMatches ps (agID r0 # ids) (saArn s0 # arns)) \<and> (r', s', score') \<in> set ps \<and> score' \<ge> score
                \<and> (agID r' = agID r \<or> saArn s' = saArn s))"
        using "2.IH"(2) False "2.prems" by auto
      then show ?thesis using False other by auto
    qed
  qed
qed simp

lemma mset_filter_unmatched:
  assumes "distinct (map f xs)" "set ys \<subseteq> set xs" "distinct (map f ys)"
  shows "mset ys + mset (filter (\<lambda>x. f x \<notin> set (map f ys)) xs) = mset xs"
proof -
  have "set (filter (\<lambda>x. f x \<notin> set (map f ys)) xs) = set xs - set ys"
    using assms(1,2) by (auto simp: distinct_map inj_on_def)
  moreover have "distinct xs" "distinct ys" using assms(1,3) by (simp_all add: distinct_map)
  ultimately show ?thesis using assms(2)
    by (metis (no_types, lifting) Diff_disjoint Un_Diff_cancel distinct_append distinct_filter mset_append set_append set_eq_iff_mset_eq_distinct sup.absorb2)
qed

lemma scoredPairs_iff:
  "(r, s, score) \<in> set (scoredPairs rs ss) \<longleftrightarrow> r \<in> set rs \<and> s \<in> set ss \<and> score = calculateSimilarityScore r s \<and> score \<ge> minSimilarityThreshold"
  by (auto simp: scoredPairs_def)

lemma findSimilarityMatches_ok:
  assumes "sort_slice_ok srt" "distinct (map agID rs)" "distinct (map saArn ss)" "findSimilarityMatches srt rs ss = (m, ur, us)"
  shows "mset (map fst m) + mset ur = mset rs" "mset (map snd m) + mset us = mset ss"
    and "(r, s) \<in> set m \<Longrightarrow> calculateSimilarityScore r s \<ge> minSimilarityThreshold"
    and "r \<in> set rs \<Longrightarrow> s \<in> set ss \<Longrightarrow> calculateSimilarityScore r s \<ge> minSimilarityThreshold \<Longrightarrow>
       \<exists>r' s'. (r', s') \<in> set m \<and> (r' = r \<or> s' = s) \<and> calculateSimilarityScore r' s' \<ge> calculateSimilarityScore r s"
proof -
  let ?lt = "\<lambda>p q :: listenerPairScore. snd (snd p) > snd (snd q)"
  let ?ps = "srt ?lt (scoredPairs rs ss)"
  have ms: "mset ?ps = mset (scoredPairs rs ss)" and srtd: "sorted_wrt (\<lambda>p q. snd (snd p) \<ge> snd (snd q)) ?ps"
  proof -
    have "strict_weak_order ?lt" by (auto simp: strict_weak_order_def)
    then have "mset ?ps = mset (scoredPairs rs ss) \<and> sorted_wrt (\<lambda>x y. \<not> ?lt y x) ?ps"
      using assms(1) unfolding sort_slice_ok_def by blast
    then show "mset ?ps = mset (scoredPairs rs ss)" "sorted_wrt (\<lambda>p q. snd (snd p) \<ge> snd (snd q)) ?ps" by (simp_all add: not_less)
  qed
  have set_ps: "set ?ps = set (scoredPairs rs ss)" using ms by (rule mset_eq_setD)
  have empty: "scoredPairs rs ss = []" if "rs = [] \<or> ss = []" using that by (auto simp: scoredPairs_def)
  have m: "m = greedyMatches ?ps [] []"
    and ur: "ur = filter (\<lambda>r. agID r \<notin> set (map agID (map fst m))) rs" and us: "us = filter (\<lambda>s. saArn s \<notin> set (map saArn (map snd m))) ss"
  proof -
    have "rs = [] \<or> ss = [] \<Longrightarrow> ?ps = []" using set_ps empty by simp
    then show "m = greedyMatches ?ps [] []" using assms(4) by (auto simp: findSimilarityMatches_def Let_def split: if_splits)
    then show "ur = filter (\<lambda>r. agID r \<notin> set (map agID (map fst m))) rs" "us = filter (\<lambda>s. saArn s \<notin> set (map saArn (map snd m))) ss"
      using assms(4) by (auto simp: findSimilarityMatches_def Let_def comp_def image_comp split: if_splits)
  qed
  have from_ps: "r \<in> set rs \<and> s \<in> set ss \<and> calculateSimilarityScore r s \<ge> minSimilarityThreshold" if "(r, s) \<in> set m" for r s
    using greedyMatches_from that unfolding m by (metis scoredPairs_iff set_ps)
  have d: "distinct (map agID (map fst m))" "distinct (map saArn (map snd m))"
    using greedyMatches_distinct [of ?ps "[]" "[]"] unfolding m by simp_all
  have sub: "set (map fst m) \<subseteq> set rs" "set (map snd m) \<subseteq> set ss" using from_ps by auto
  show "mset (map fst m) + mset ur = mset rs" unfolding ur by (rule mset_filter_unmatched [OF assms(2) sub(1) d(1)])
  show "mset (map snd m) + mset us = mset ss" unfolding us by (rule mset_filter_unmatched [OF assms(3) sub(2) d(2)])
  show "calculateSimilarityScore r s \<ge> minSimilarityThreshold" if "(r, s) \<in> set m" using from_ps that by simp
  show "\<exists>r' s'. (r', s') \<in> set m \<and> (r' = r \<or> s' = s) \<and> calculateSimilarityScore r' s' \<ge> calculateSimilarityScore r s"
    if rs: "r \<in> set rs" "s \<in> set ss" "calculateSimilarityScore r s \<ge> minSimilarityThreshold"
  proof -
    have "(r, s, calculateSimilarityScore r s) \<in> set ?ps" unfolding set_ps scoredPairs_iff using rs by simp
    from greedyMatches_stable [OF srtd this, of "[]" "[]"] obtain r' s' score' where
      p: "(r', s') \<in> set m" "(r', s', score') \<in> set ?ps" "score' \<ge> calculateSimilarityScore r s" "agID r' = agID r \<or> saArn s' = saArn s"
      unfolding m by auto
    have "score' = calculateSimilarityScore r' s'" using p(2) unfolding set_ps scoredPairs_iff by simp
    moreover have "r' = r \<or> s' = s" using p(4) from_ps [OF p(1)] rs assms(2,3) by (auto simp: distinct_map inj_on_def)
    ultimately show ?thesis using p(1,3) by blast
  qed
qed

lemma findExactMatches_ok:
  assumes "distinct (map generateResListenerKey rs)" "distinct (map generateSDKListenerKey ss)" "findExactMatches rs ss = (m, ur, us)"
  shows "mset (map fst m) + mset ur = mset rs" "mset (map snd m) + mset us = mset ss"
    and "(r, s) \<in> set m \<longleftrightarrow> r \<in> set rs \<and> s \<in> set ss \<and> generateResListenerKey r = generateSDKListenerKey s"
proof -
  have M: "matching generateResListenerKey (\<lambda>s. Some (generateSDKListenerKey s)) (\<lambda>s r. True) rs ss (m, ur, us)"
    using matchByKey_matching [OF assms(1,2)] assms(3) by (simp add: findExactMatches_def)
  note D = matchingD [OF M]
  show S: "mset (map snd m) + mset us = mset ss" using M by (simp add: matching_def)
  have iff: "(r, s) \<in> set m \<longleftrightarrow> r \<in> set rs \<and> s \<in> set ss \<and> generateResListenerKey r = generateSDKListenerKey s" for r s
  proof
    assume "r \<in> set rs \<and> s \<in> set ss \<and> generateResListenerKey r = generateSDKListenerKey s"
    moreover from this have "r \<notin> set ur" using matching_unmatched(1) [OF M, of s r] by auto
    ultimately obtain s' where "(r, s') \<in> set m" "r \<in> set rs" "s \<in> set ss" "generateResListenerKey r = generateSDKListenerKey s" using D(4) by force
    moreover from this have "s' = s" using D(1) [of r s'] assms(2) by (auto simp: distinct_map inj_on_def)
    ultimately show "(r, s) \<in> set m" by simp
  qed (use D(1) in auto)
  then show "(r, s) \<in> set m \<longleftrightarrow> r \<in> set rs \<and> s \<in> set ss \<and> generateResListenerKey r = generateSDKListenerKey s" .
  have "distinct ss" using assms(2) by (simp add: distinct_map)
  then have "distinct (map snd m @ us)" using S by (metis mset_append mset_eq_imp_distinct_iff)
  then have "distinct (map snd m)" by simp
  then have "distinct (map fst m)" using iff assms(2) by (auto simp: distinct_map inj_on_def)
  moreover have "distinct ur" "set ur = set rs - fst ` set m" using M by (simp_all add: matching_def)
  moreover have "distinct rs" using assms(1) by (simp add: distinct_map)
  moreover have "fst ` set m \<subseteq> set rs" using iff by auto
  ultimately have "mset (map fst m @ ur) = mset rs" by (subst set_eq_iff_mset_eq_distinct [symmetric]) auto
  then show "mset (map fst m) + mset ur = mset rs" by simp
qed

lemma matchResE:
  assumes "distinct (map agID rs)" "distinct (map saArn ss)" "distinct (map generateResListenerKey rs)" "distinct (map generateSDKListenerKey ss)"
    and "matchResAndSDKAgaListeners srt rs ss = (m, ur, us)"
  obtains m1 r1 s1 m2 where "findExactMatches rs ss = (m1, r1, s1)" "findSimilarityMatches srt r1 s1 = (m2, ur, us)" "m = m1 @ m2"
    and "distinct (map agID r1)" "distinct (map saArn s1)"
proof -
  obtain m1 r1 s1 m2 where e: "findExactMatches rs ss = (m1, r1, s1)" and f: "findSimilarityMatches srt r1 s1 = (m2, ur, us)" and m: "m = m1 @ m2"
    using assms(5) by (auto simp: matchResAndSDKAgaListeners_def split: prod.splits)
  note E = findExactMatches_ok [OF assms(3,4) e]
  have "mset (map agID (map fst m1 @ r1)) = mset (map agID rs)" "mset (map saArn (map snd m1 @ s1)) = mset (map saArn ss)"
    using arg_cong [OF E(1), of "image_mset agID"] arg_cong [OF E(2), of "image_mset saArn"] by (simp_all add: multiset.map_comp)
  from this [THEN mset_eq_imp_distinct_iff] assms(1,2) have "distinct (map agID r1)" "distinct (map saArn s1)" by simp_all
  then show ?thesis using that e f m by blast
qed

lemma matchRes_total:
  assumes "sort_slice_ok srt" "distinct (map agID rs)" "distinct (map saArn ss)"
    and "distinct (map generateResListenerKey rs)" "distinct (map generateSDKListenerKey ss)"
    and "matchResAndSDKAgaListeners srt rs ss = (m, ur, us)"
  shows "mset (map fst m) + mset ur = mset rs" "mset (map snd m) + mset us = mset ss"
proof -
  obtain m1 r1 s1 m2 where e: "findExactMatches rs ss = (m1, r1, s1)" and f: "findSimilarityMatches srt r1 s1 = (m2, ur, us)" and m: "m = m1 @ m2"
    and d: "distinct (map agID r1)" "distinct (map saArn s1)"
    by (rule matchResE [OF assms(2-6)])
  show "mset (map fst m) + mset ur = mset rs" "mset (map snd m) + mset us = mset ss"
    using findExactMatches_ok(1,2) [OF assms(4,5) e] findSimilarityMatches_ok(1,2) [OF assms(1) d f] m by (simp_all add: add.assoc)
qed

text \<open>
  C14. The matching of the listeners of an accelerator loses none and is stable: every wanted and every existing listener is in exactly one pair or
  left over once; listeners with equal protocol and port ranges are paired; a pair is exact or reaches the threshold; and for any two listeners that reach it,
  one of them is in a pair that is exact or scores at least as high. This holds for every sorted order of equal scores.
\<close>

theorem aga_matching_stable:
  assumes "sort_slice_ok srt" "distinct (map agID rs)" "distinct (map saArn ss)"
    and "distinct (map generateResListenerKey rs)" "distinct (map generateSDKListenerKey ss)"
    and "matchResAndSDKAgaListeners srt rs ss = (m, ur, us)"
  shows "mset (map fst m) + mset ur = mset rs \<and> mset (map snd m) + mset us = mset ss
     \<and> (\<forall>r \<in> set rs. \<forall>s \<in> set ss. generateResListenerKey r = generateSDKListenerKey s \<longrightarrow> (r, s) \<in> set m)
     \<and> (\<forall>(r, s) \<in> set m. generateResListenerKey r = generateSDKListenerKey s \<or> calculateSimilarityScore r s \<ge> minSimilarityThreshold)
     \<and> (\<forall>r \<in> set rs. \<forall>s \<in> set ss. calculateSimilarityScore r s \<ge> minSimilarityThreshold \<longrightarrow>
          (\<exists>(r', s') \<in> set m. (r' = r \<or> s' = s)
             \<and> (generateResListenerKey r' = generateSDKListenerKey s' \<or> calculateSimilarityScore r' s' \<ge> calculateSimilarityScore r s)))"
proof -
  obtain m1 r1 s1 m2 where e: "findExactMatches rs ss = (m1, r1, s1)" and f: "findSimilarityMatches srt r1 s1 = (m2, ur, us)" and m: "m = m1 @ m2"
    and d: "distinct (map agID r1)" "distinct (map saArn s1)"
    by (rule matchResE [OF assms(2-6)])
  note E = findExactMatches_ok [OF assms(4,5) e]
  note S = findSimilarityMatches_ok [OF assms(1) d f]
  have "mset (map fst m) + mset ur = mset rs" "mset (map snd m) + mset us = mset ss" by (rule matchRes_total [OF assms])+
  moreover have "(r, s) \<in> set m" if "r \<in> set rs" "s \<in> set ss" "generateResListenerKey r = generateSDKListenerKey s" for r s
    using E(3) that m by simp
  moreover have "generateResListenerKey r = generateSDKListenerKey s \<or> calculateSimilarityScore r s \<ge> minSimilarityThreshold" if "(r, s) \<in> set m" for r s
    using E(3) S(3) that m by auto
  moreover have "\<exists>(r', s') \<in> set m. (r' = r \<or> s' = s)
       \<and> (generateResListenerKey r' = generateSDKListenerKey s' \<or> calculateSimilarityScore r' s' \<ge> calculateSimilarityScore r s)"
    if rs: "r \<in> set rs" "s \<in> set ss" "calculateSimilarityScore r s \<ge> minSimilarityThreshold" for r s
  proof (cases "r \<in> set r1 \<and> s \<in> set s1")
    case True
    then show ?thesis using S(4) [of r s] rs(3) m by fastforce
  next
    case False
    have "set rs = fst ` set m1 \<union> set r1" "set ss = snd ` set m1 \<union> set s1"
      using arg_cong [OF E(1), of set_mset] arg_cong [OF E(2), of set_mset] by (simp_all add: set_mset_mset)
    then obtain r' s' where "(r', s') \<in> set m1" "r' = r \<or> s' = s" using False rs by force
    then show ?thesis using E(3) m by fastforce
  qed
  ultimately show ?thesis by blast
qed

section \<open>A synthesis that succeeds leaves the wanted listeners\<close>

text \<open>The listeners of the accelerator \<open>acc\<close> by their ARN, and the documented effects of the calls on them.\<close>

type_synonym 'w aga_view = "'w \<Rightarrow> string \<Rightarrow> ListenerResource option"

definition valid_ports :: "AgaPortRange list \<Rightarrow> bool" where
  "valid_ports prs \<longleftrightarrow> (\<forall>pr \<in> set prs. 0 \<le> agFromPort pr \<and> 0 \<le> agToPort pr)"

definition aga_list_ok :: "'w aga_view \<Rightarrow> string \<Rightarrow> 'w aga_client \<Rightarrow> bool" where
  "aga_list_ok L acc c \<longleftrightarrow> (\<forall>w r w'. gaListListeners c acc w = (r, w') \<longrightarrow> L w' = L w \<and>
     (case r of Inl err \<Rightarrow> errorCode err = Some ''AcceleratorNotFoundException'' \<longrightarrow> L w = Map.empty
      | Inr ss \<Rightarrow> distinct (map saArn ss) \<and> distinct (map generateSDKListenerKey ss) \<and> dom (L w) = saArn ` set ss
          \<and> (\<forall>s \<in> set ss. L w (saArn s) = Some s \<and> valid_ports (saPortRanges s))))"

definition aga_change_ok :: "'w aga_view \<Rightarrow> string \<Rightarrow> 'w aga_client \<Rightarrow> bool" where
  "aga_change_ok L acc c \<longleftrightarrow>
     (\<forall>p prs aff w r w'. gaCreateListener c acc p prs aff w = (r, w') \<longrightarrow>
        (case r of Inl err \<Rightarrow> L w' = L w
         | Inr s \<Rightarrow> L w (saArn s) = None \<and> L w' = (L w)(saArn s \<mapsto> s) \<and> saProtocol s = p \<and> set (saPortRanges s) = set prs
             \<and> (aff \<noteq> '''' \<longrightarrow> saClientAffinity s = aff)))
     \<and> (\<forall>arn p prs aff w r w'. gaUpdateListener c arn p prs aff w = (r, w') \<longrightarrow>
        (case r of Inl err \<Rightarrow> L w' = L w
         | Inr s \<Rightarrow> saArn s = arn \<and> L w' = (L w)(arn \<mapsto> s) \<and> saProtocol s = p \<and> set (saPortRanges s) = set prs
             \<and> (aff \<noteq> '''' \<longrightarrow> saClientAffinity s = aff)))
     \<and> (\<forall>arn w r w'. gaDeleteListener c arn w = (r, w') \<longrightarrow>
        (case r of Inl err \<Rightarrow> L w' = L w \<and> (errorCode err = Some ''ListenerNotFoundException'' \<longrightarrow> L w arn = None)
         | Inr _ \<Rightarrow> L w' = (L w)(arn := None)))
     \<and> (\<forall>arn w r w'. gaListEndpointGroups c arn w = (r, w') \<longrightarrow> L w' = L w \<and>
        (case r of Inl err \<Rightarrow> errorCode err = Some ''ListenerNotFoundException'' \<longrightarrow> L w arn = None | Inr _ \<Rightarrow> True))
     \<and> (\<forall>arn pos w r w'. gaUpdateEndpointGroup c arn pos w = (r, w') \<longrightarrow> L w' = L w)
     \<and> (\<forall>arn w r w'. gaDeleteEndpointGroup c arn w = (r, w') \<longrightarrow> L w' = L w)"

text \<open>The listener has what the resource asks for.\<close>

definition fitsListener :: "AgaListener \<Rightarrow> ListenerResource \<Rightarrow> bool" where
  "fitsListener r s \<longleftrightarrow> saProtocol s = agProtocol (agSpec r) \<and> set (saPortRanges s) = set (agPortRanges (agSpec r))
     \<and> (agClientAffinity (agSpec r) \<noteq> '''' \<longrightarrow> saClientAffinity s = agClientAffinity (agSpec r))"

lemma Itoa_no_minus: "0 \<le> i \<Longrightarrow> CHR ''-'' \<notin> set (Itoa i)"
  by (auto simp: Itoa_def digit_char_def dest!: nat_to_string_digits digit_cases split: if_splits)

lemma undrifted_fits:
  assumes "\<not> isSDKAgaListenerDrifted r s" "valid_ports (agPortRanges (agSpec r))" "valid_ports (saPortRanges s)"
  shows "fitsListener r s"
proof -
  let ?str = "\<lambda>pr :: AgaPortRange. Itoa (agFromPort pr) @ ''-'' @ Itoa (agToPort pr)"
  have inj: "inj_on ?str {pr. 0 \<le> agFromPort pr \<and> 0 \<le> agToPort pr}"
    by (rule inj_onI, rule AgaPortRange.equality) (auto simp: append_sep_inj Itoa_no_minus Itoa_inj)
  have "?str ` set (agPortRanges (agSpec r)) = ?str ` set (saPortRanges s)"
    using assms(1) by (simp add: isSDKAgaListenerDrifted_def arePortRangesEqual_def)
  then have "set (agPortRanges (agSpec r)) = set (saPortRanges s)"
    using assms(2,3) by (subst (asm) inj_on_image_eq_iff [OF inj]) (auto simp: valid_ports_def)
  then show ?thesis using assms(1) by (simp add: fitsListener_def isSDKAgaListenerDrifted_def)
qed

lemma aga_delete:
  assumes "aga_change_ok L acc c"
  shows "gaDeleteListener c arn w = (r, w') \<Longrightarrow> (case r of Inl err \<Rightarrow> L w' = L w \<and> (errorCode err = Some ''ListenerNotFoundException'' \<longrightarrow> L w arn = None)
         | Inr _ \<Rightarrow> L w' = (L w)(arn := None))"
    and "gaListEndpointGroups c arn w = (r', w') \<Longrightarrow> L w' = L w \<and>
        (case r' of Inl err \<Rightarrow> errorCode err = Some ''ListenerNotFoundException'' \<longrightarrow> L w arn = None | Inr _ \<Rightarrow> True)"
    and "gaUpdateEndpointGroup c arn pos w = (r, w') \<Longrightarrow> L w' = L w"
    and "gaDeleteEndpointGroup c arn w = (r, w') \<Longrightarrow> L w' = L w"
  using assms unfolding aga_change_ok_def by blast+

lemma aga_create:
  assumes "aga_change_ok L acc c" "gaCreateListener c acc p prs aff w = (Inr s, w')"
  shows "L w (saArn s) = None \<and> L w' = (L w)(saArn s \<mapsto> s) \<and> saProtocol s = p
        \<and> set (saPortRanges s) = set prs \<and> (aff \<noteq> '''' \<longrightarrow> saClientAffinity s = aff)"
  using assms(1) [unfolded aga_change_ok_def, THEN conjunct1, rule_format, OF assms(2)] by simp

lemma aga_update:
  assumes "aga_change_ok L acc c" "gaUpdateListener c arn p prs aff w = (Inr s, w')"
  shows "saArn s = arn \<and> L w' = (L w)(arn \<mapsto> s) \<and> saProtocol s = p
        \<and> set (saPortRanges s) = set prs \<and> (aff \<noteq> '''' \<longrightarrow> saClientAffinity s = aff)"
  using assms(1) [unfolded aga_change_ok_def, THEN conjunct2, THEN conjunct1, rule_format, OF assms(2)] by simp

lemma deleteEndpointGroups_keeps:
  assumes "aga_change_ok L acc c" "deleteEndpointGroups c egs w = (r, w')"
  shows "L w' = L w"
  using assms(2) unfolding deleteEndpointGroups_def
proof (induction egs arbitrary: w)
  case (Cons eg egs)
  obtain rd w1 where d: "gaDeleteEndpointGroup c (egArn eg) w = (rd, w1)" by fastforce
  have "L w1 = L w" by (rule aga_delete(4) [OF assms(1) d])
  then show ?case using Cons d by (auto simp: agaEndpointGroup_Delete_def split: sum.splits if_splits)
qed simp

lemma agaListener_Delete_ok:
  assumes "aga_change_ok L acc c" "agaListener_Delete c arn w = (Inr (), w')"
  shows "L w' = (L w)(arn := None)"
proof -
  obtain rl w1 where l: "gaListEndpointGroups c arn w = (rl, w1)" by fastforce
  note K = aga_delete(2) [OF assms(1) l]
  show ?thesis
  proof (cases rl)
    case (Inl err)
    then have "w' = w1" "L w arn = None" using assms(2) l K by (auto simp: agaListener_Delete_def split: if_splits)
    then show ?thesis using K by (simp add: fun_upd_idem)
  next
    case (Inr egs)
    then have run: "io_bind (deleteEndpointGroups c egs) (\<lambda>_ w2. case gaDeleteListener c arn w2 of
              (Inl err, w3) \<Rightarrow> if errorCode err = Some ''ListenerNotFoundException'' then (Inr (), w3)
                              else (Inl (Wrapped ''failed to delete listener'' err), w3)
            | (Inr _, w3) \<Rightarrow> (Inr (), w3)) w1 = (Inr (), w')"
      using assms(2) l by (simp add: agaListener_Delete_def)
    then obtain w2 where e: "deleteEndpointGroups c egs w1 = (Inr (), w2)" by (auto simp: io_bind_def split: prod.splits sum.splits)
    obtain rd w3 where d: "gaDeleteListener c arn w2 = (rd, w3)" by fastforce
    have "L w2 = L w" using deleteEndpointGroups_keeps [OF assms(1) e] K by simp
    moreover have "w' = w3" using run e d by (auto simp: io_bind_def split: sum.splits if_splits)
    ultimately show ?thesis using aga_delete(1) [OF assms(1) d] run e d by (auto simp: io_bind_def fun_upd_idem split: sum.splits if_splits)
  qed
qed

lemma onCloud_eq: "onCloud f \<sigma> = (r, \<sigma>') \<longleftrightarrow> (\<exists>w. f (cloud \<sigma>) = (r, w) \<and> \<sigma>' = \<sigma>\<lparr>cloud := w\<rparr>)"
  by (auto simp: onCloud_def Let_def split: prod.splits)

lemma agaListenerManager_simps [simp]:
  "mCreate (agaListenerManager c) = agaListener_Create c" "mUpdate (agaListenerManager c) = agaListener_Update c"
  "mDelete (agaListenerManager c) = (\<lambda>l. agaListener_Delete c (saArn l))"
  by (simp_all add: agaListenerManager_def)

lemma deletes_ok:
  assumes "aga_change_ok L acc c" "io_iter (\<lambda>l. onCloud (mDelete (agaListenerManager c) l)) ls \<sigma> = (Inr (), \<sigma>')"
  shows "L (cloud \<sigma>') = (\<lambda>a. if a \<in> saArn ` set ls then None else L (cloud \<sigma>) a)" "statuses \<sigma>' = statuses \<sigma>"
proof -
  have "L (cloud \<sigma>') = (\<lambda>a. if a \<in> saArn ` set ls then None else L (cloud \<sigma>) a) \<and> statuses \<sigma>' = statuses \<sigma>"
    using assms(2)
  proof (induction ls arbitrary: \<sigma>)
    case (Cons l ls)
    obtain w1 where d: "agaListener_Delete c (saArn l) (cloud \<sigma>) = (Inr (), w1)"
      and rest: "io_iter (\<lambda>l. onCloud (mDelete (agaListenerManager c) l)) ls (\<sigma>\<lparr>cloud := w1\<rparr>) = (Inr (), \<sigma>')"
      using Cons.prems by (auto simp: onCloud_eq split: prod.splits sum.splits)
    show ?case using Cons.IH [OF rest] agaListener_Delete_ok [OF assms(1) d] by (auto simp: fun_eq_iff)
  qed auto
  then show "L (cloud \<sigma>') = (\<lambda>a. if a \<in> saArn ` set ls then None else L (cloud \<sigma>) a)" "statuses \<sigma>' = statuses \<sigma>" by simp_all
qed

lemma agaListener_Update_ok:
  assumes "aga_change_ok L acc c" "agaListener_Update c r s w = (Inr arn, w')" "L w (saArn s) = Some s"
    and "valid_ports (agPortRanges (agSpec r))" "valid_ports (saPortRanges s)"
  shows "arn = saArn s \<and> (\<exists>s'. L w' = (L w)(saArn s \<mapsto> s') \<and> fitsListener r s')"
proof (cases "isSDKAgaListenerDrifted r s")
  case True
  then obtain s' where u: "gaUpdateListener c (saArn s) (agProtocol (agSpec r)) (agPortRanges (agSpec r)) (agClientAffinity (agSpec r)) w = (Inr s', w')"
    and arn: "arn = saArn s'"
    using assms(2) by (auto simp: agaListener_Update_def split: prod.splits sum.splits)
  show ?thesis using aga_update [OF assms(1) u] arn by (auto simp: fitsListener_def)
next
  case False
  then show ?thesis using assms(2,3) undrifted_fits [OF False assms(4,5)]
    by (auto simp: agaListener_Update_def fun_upd_idem_iff intro!: exI [of _ s])
qed

lemma updates_ok:
  assumes "aga_change_ok L acc c" "io_iter (updateRes (agaListenerManager c) agID) m \<sigma> = (Inr (), \<sigma>')"
    and "distinct (map (saArn \<circ> snd) m)" "distinct (map (agID \<circ> fst) m)"
    and "\<forall>(r, s) \<in> set m. L (cloud \<sigma>) (saArn s) = Some s \<and> valid_ports (agPortRanges (agSpec r)) \<and> valid_ports (saPortRanges s)"
  shows "(\<forall>(r, s) \<in> set m. mget (statuses \<sigma>') (agID r) = Some (saArn s) \<and> (\<exists>s'. L (cloud \<sigma>') (saArn s) = Some s' \<and> fitsListener r s'))
     \<and> (\<forall>a. a \<notin> saArn ` snd ` set m \<longrightarrow> L (cloud \<sigma>') a = L (cloud \<sigma>) a)
     \<and> (\<forall>i. i \<notin> agID ` fst ` set m \<longrightarrow> mget (statuses \<sigma>') i = mget (statuses \<sigma>) i)"
  using assms(2-)
proof (induction m arbitrary: \<sigma>)
  case (Cons p m)
  obtain r s where p: "p = (r, s)" by fastforce
  then obtain arn w1 where u: "agaListener_Update c r s (cloud \<sigma>) = (Inr arn, w1)"
    and rest: "io_iter (updateRes (agaListenerManager c) agID) m (\<sigma>\<lparr>cloud := w1, statuses := mput (agID r) arn (statuses \<sigma>)\<rparr>) = (Inr (), \<sigma>')"
    using Cons.prems(1) by (auto simp: updateRes_def agaListenerManager_def onCloud_def setStatus_def io_bind_def Let_def split: prod.splits sum.splits)
  have s: "L (cloud \<sigma>) (saArn s) = Some s" "valid_ports (agPortRanges (agSpec r))" "valid_ports (saPortRanges s)" using Cons.prems(4) p by auto
  obtain s' where K: "arn = saArn s" "L w1 = (L (cloud \<sigma>))(saArn s \<mapsto> s')" "fitsListener r s'"
    using agaListener_Update_ok [OF assms(1) u s] by blast
  have "\<forall>(r, s) \<in> set m. L w1 (saArn s) = Some s \<and> valid_ports (agPortRanges (agSpec r)) \<and> valid_ports (saPortRanges s)"
    using Cons.prems(2,4) K(2) p by (auto simp: image_iff)
  note IH = Cons.IH [OF rest, simplified, OF _ _ this]
  have "(\<forall>(r, s) \<in> set m. mget (statuses \<sigma>') (agID r) = Some (saArn s) \<and> (\<exists>s'. L (cloud \<sigma>') (saArn s) = Some s' \<and> fitsListener r s'))
     \<and> (\<forall>a. a \<notin> saArn ` snd ` set m \<longrightarrow> L (cloud \<sigma>') a = L w1 a)
     \<and> (\<forall>i. i \<notin> agID ` fst ` set m \<longrightarrow> mget (statuses \<sigma>') i = mget (mput (agID r) arn (statuses \<sigma>)) i)"
    using IH Cons.prems(2,3) p by (simp add: image_comp)
  moreover have "saArn s \<notin> saArn ` snd ` set m" "agID r \<notin> agID ` fst ` set m" using Cons.prems(2,3) p by (auto simp: image_comp)
  ultimately show ?case using K p by auto
qed simp

lemma agaListener_Create_ok:
  assumes "aga_change_ok L acc c" "agAcceleratorARN (agSpec r) = Inr acc" "agaListener_Create c r w = (Inr arn, w')"
  shows "L w arn = None \<and> (\<exists>s. L w' = (L w)(arn \<mapsto> s) \<and> fitsListener r s)"
proof -
  obtain s where g: "gaCreateListener c acc (agProtocol (agSpec r)) (agPortRanges (agSpec r)) (agClientAffinity (agSpec r)) w = (Inr s, w')"
    and arn: "arn = saArn s"
    using assms(2,3) by (auto simp: agaListener_Create_def io_bind_def io_lift_def split: prod.splits sum.splits)
  show ?thesis using aga_create [OF assms(1) g] arn by (auto simp: fitsListener_def)
qed

lemma createRes_ok_iff:
  "createRes mgr rid r \<sigma> = (Inr u, \<sigma>') \<longleftrightarrow>
     (\<exists>st w. mCreate mgr r (cloud \<sigma>) = (Inr st, w) \<and> \<sigma>' = \<sigma>\<lparr>cloud := w, statuses := mput (rid r) st (statuses \<sigma>)\<rparr>)"
  by (auto simp: createRes_def io_bind_def onCloud_def setStatus_def Let_def split: prod.splits sum.splits)

lemma creates_ok:
  assumes "aga_change_ok L acc c" "io_iter (createRes (agaListenerManager c) agID) rs \<sigma> = (Inr (), \<sigma>')"
    and "\<forall>r \<in> set rs. agAcceleratorARN (agSpec r) = Inr acc" "distinct (map agID rs)"
  shows "\<exists>f. inj_on f (set rs) \<and> f ` set rs \<inter> dom (L (cloud \<sigma>)) = {} \<and> dom (L (cloud \<sigma>')) = dom (L (cloud \<sigma>)) \<union> f ` set rs
     \<and> (\<forall>r \<in> set rs. mget (statuses \<sigma>') (agID r) = Some (f r) \<and> (\<exists>s. L (cloud \<sigma>') (f r) = Some s \<and> fitsListener r s))
     \<and> (\<forall>a \<in> dom (L (cloud \<sigma>)). L (cloud \<sigma>') a = L (cloud \<sigma>) a)
     \<and> (\<forall>i. i \<notin> agID ` set rs \<longrightarrow> mget (statuses \<sigma>') i = mget (statuses \<sigma>) i)"
  using assms(2-)
proof (induction rs arbitrary: \<sigma>)
  case (Cons r rs)
  obtain arn w1 where g: "agaListener_Create c r (cloud \<sigma>) = (Inr arn, w1)"
    and rest: "io_iter (createRes (agaListenerManager c) agID) rs (\<sigma>\<lparr>cloud := w1, statuses := mput (agID r) arn (statuses \<sigma>)\<rparr>) = (Inr (), \<sigma>')"
    using Cons.prems(1) by (auto simp: createRes_ok_iff split: prod.splits sum.splits)
  obtain s where K: "L (cloud \<sigma>) arn = None" "L w1 = (L (cloud \<sigma>))(arn \<mapsto> s)" "fitsListener r s"
    using agaListener_Create_ok [OF assms(1) _ g] Cons.prems(2) by auto
  obtain f where f: "inj_on f (set rs)" "f ` set rs \<inter> dom (L w1) = {}" "dom (L (cloud \<sigma>')) = dom (L w1) \<union> f ` set rs"
    "\<forall>r \<in> set rs. mget (statuses \<sigma>') (agID r) = Some (f r) \<and> (\<exists>s. L (cloud \<sigma>') (f r) = Some s \<and> fitsListener r s)"
    "\<forall>a \<in> dom (L w1). L (cloud \<sigma>') a = L w1 a"
    "\<forall>i. i \<notin> agID ` set rs \<longrightarrow> mget (statuses \<sigma>') i = mget (mput (agID r) arn (statuses \<sigma>)) i"
    using Cons.IH [OF rest] Cons.prems(2,3) by auto
  let ?f = "f(r := arn)"
  have r: "r \<notin> set rs" "agID r \<notin> agID ` set rs" using Cons.prems(3) by auto
  have img: "?f ` set rs = f ` set rs" using r(1) by (intro image_cong) auto
  have "inj_on ?f (set (r # rs))" using f(1,2) K(2) r(1) by (auto simp: inj_on_def)
  moreover have "?f ` set (r # rs) \<inter> dom (L (cloud \<sigma>)) = {}" using f(2) K(1,2) img by auto
  moreover have "dom (L (cloud \<sigma>')) = dom (L (cloud \<sigma>)) \<union> ?f ` set (r # rs)" using f(3) K(2) img by auto
  moreover have "\<forall>r' \<in> set (r # rs). mget (statuses \<sigma>') (agID r') = Some (?f r') \<and> (\<exists>s. L (cloud \<sigma>') (?f r') = Some s \<and> fitsListener r' s)"
    using f(4,5,6) K(2,3) r by auto
  moreover have "\<forall>a \<in> dom (L (cloud \<sigma>)). L (cloud \<sigma>') a = L (cloud \<sigma>) a" using f(5) K(1,2) by auto
  moreover have "\<forall>i. i \<notin> agID ` set (r # rs) \<longrightarrow> mget (statuses \<sigma>') i = mget (statuses \<sigma>) i" using f(6) by auto
  ultimately show ?case by blast
qed simp

lemma collectOverrideConflicts_keeps:
  assumes "aga_change_ok L acc c" "collectOverrideConflicts c ls rngs upd m w = (r, w')"
  shows "L w' = L w"
  using assms(2)
proof (induction ls arbitrary: m w)
  case (Cons l ls)
  obtain rl w1 where g: "gaListEndpointGroups c (saArn l) w = (rl, w1)" by fastforce
  then show ?case using Cons aga_delete(2) [OF assms(1) g] by (cases rl) auto
qed simp

lemma overrides_keep:
  assumes "aga_change_ok L acc c" "ProcessEndpointGroupPortOverrides c ord ls rngs upd w = (r, w')"
  shows "L w' = L w"
proof -
  have iter: "L w2 = L w1" if "io_iter (\<lambda>(arn, valid) w. case updateEndpointGroupPortOverrides c arn valid w of
           (Inl err, w') \<Rightarrow> (Inl (Wrapped (''failed to update endpoint group '' @ arn @ '' to remove conflicts'') err), w')
         | (Inr _, w') \<Rightarrow> (Inr (), w')) ps w1 = (r, w2)" for ps w1 r w2
    using that
  proof (induction ps arbitrary: w1)
    case (Cons p ps)
    obtain rl w3 where g: "gaUpdateEndpointGroup c (fst p) (snd p) w1 = (rl, w3)" by fastforce
    then show ?case using Cons aga_delete(3) [OF assms(1) g]
      by (cases p; cases rl) (auto simp: updateEndpointGroupPortOverrides_def)
  qed simp
  obtain rc w1 where g: "collectOverrideConflicts c ls rngs upd [] w = (rc, w1)" by fastforce
  show ?thesis using assms(2) g collectOverrideConflicts_keeps [OF assms(1) g] iter
    by (cases rc) (auto simp: ProcessEndpointGroupPortOverrides_def io_bind_def)
qed

lemma conflictMap_values:
  "(k, v) \<in> set (conflictMap m us z) \<Longrightarrow> set v \<subseteq> set us \<or> (k, v) \<in> set z"
proof (induction m us z rule: conflictMap.induct)
  case (2 r s ps us z)
  then show ?case using set_mput_subset by (fastforce simp: Let_def split: if_splits)
qed simp

lemma collectConflicting_set: "set (collectConflicting ls seen) \<subseteq> set ls"
  by (induction ls seen rule: collectConflicting.induct) auto

lemma conflicting_parts:
  assumes "go_order ord" "findConflictingAndNonConflictingListeners ord m us = (cs, ns)"
  shows "saArn ` set us = saArn ` set cs \<union> saArn ` set ns" "set ns \<subseteq> set us"
proof -
  have cs: "set cs \<subseteq> set us"
    using assms collectConflicting_set [of "concat (map snd (ord (conflictMap m us [])))" "[]"] conflictMap_values [of _ _ m us "[]"]
    by (fastforce simp: findConflictingAndNonConflictingListeners_def Let_def)
  have "ns = filter (\<lambda>s. saArn s \<notin> set (map saArn cs)) us"
    using assms(2) by (auto simp: findConflictingAndNonConflictingListeners_def Let_def)
  then show "saArn ` set us = saArn ` set cs \<union> saArn ` set ns" "set ns \<subseteq> set us" using cs by auto
qed

text \<open>The steps of a synthesis that succeeds.\<close>

lemma synthesizeListenersOnAcceleratorE:
  assumes "synthesizeListenersOnAccelerator c srt ordC ordO acc rs \<sigma> = (Inr (), \<sigma>')"
  obtains ss w0 m ur us cs ns rngs ls upd \<sigma>1 w2 \<sigma>3 \<sigma>4 where
    "findSDKListenersOnAccelerator c acc (cloud \<sigma>) = (Inr ss, w0)" "matchResAndSDKAgaListeners srt rs ss = (m, ur, us)"
    "findConflictingAndNonConflictingListeners ordC m us = (cs, ns)" "preparePortOverrideProcessing rs m ns = (rngs, ls, upd)"
    "io_iter (\<lambda>l. onCloud (mDelete (agaListenerManager c) l)) cs (\<sigma>\<lparr>cloud := w0\<rparr>) = (Inr (), \<sigma>1)"
    "ProcessEndpointGroupPortOverrides c ordO ls rngs upd (cloud \<sigma>1) = (Inr (), w2)"
    "io_iter (updateRes (agaListenerManager c) agID) m (\<sigma>1\<lparr>cloud := w2\<rparr>) = (Inr (), \<sigma>3)"
    "io_iter (\<lambda>l. onCloud (mDelete (agaListenerManager c) l)) ns \<sigma>3 = (Inr (), \<sigma>4)"
    "io_iter (createRes (agaListenerManager c) agID) ur \<sigma>4 = (Inr (), \<sigma>')"
proof -
  obtain ss w0 where f: "findSDKListenersOnAccelerator c acc (cloud \<sigma>) = (Inr ss, w0)"
    using assms by (auto simp: synthesizeListenersOnAccelerator_def onCloud_eq elim!: io_bind_InrE)
  obtain m ur us where m: "matchResAndSDKAgaListeners srt rs ss = (m, ur, us)" by (metis prod_cases3)
  obtain cs ns where cs: "findConflictingAndNonConflictingListeners ordC m us = (cs, ns)" by fastforce
  obtain rngs ls upd where p: "preparePortOverrideProcessing rs m ns = (rngs, ls, upd)" by (metis prod_cases3)
  let ?del = "io_iter (\<lambda>l. onCloud (mDelete (agaListenerManager c) l))"
  have "io_bind (?del cs) (\<lambda>_. io_bind (onCloud (ProcessEndpointGroupPortOverrides c ordO ls rngs upd)) (\<lambda>_.
          io_bind (io_iter (updateRes (agaListenerManager c) agID) m) (\<lambda>_. io_bind (?del ns) (\<lambda>_.
            io_iter (createRes (agaListenerManager c) agID) ur)))) (\<sigma>\<lparr>cloud := w0\<rparr>) = (Inr (), \<sigma>')"
    using assms f m cs p by (simp add: synthesizeListenersOnAccelerator_def io_bind_def [of "onCloud (findSDKListenersOnAccelerator c acc)"]
        onCloud_def [of "findSDKListenersOnAccelerator c acc"] Let_def)
  then show ?thesis by (elim io_bind_InrE) (use that f m cs p in \<open>auto simp: onCloud_eq\<close>)
qed

lemma findSDKListeners_ok:
  assumes "aga_list_ok L acc c" "findSDKListenersOnAccelerator c acc w = (Inr ss, w')"
  shows "L w' = L w \<and> distinct (map saArn ss) \<and> distinct (map generateSDKListenerKey ss) \<and> dom (L w) = saArn ` set ss
     \<and> (\<forall>s \<in> set ss. L w (saArn s) = Some s \<and> valid_ports (saPortRanges s))"
proof -
  obtain r w1 where g: "gaListListeners c acc w = (r, w1)" by fastforce
  note K = assms(1) [unfolded aga_list_ok_def, rule_format, OF g]
  show ?thesis using assms(2) g K by (cases r) (auto simp: findSDKListenersOnAccelerator_def split: if_splits)
qed

text \<open>The run up to the creations: what is left are the listeners of the pairs, and they fit.\<close>

lemma updated_listeners:
  assumes "aga_change_ok L acc c" "distinct (map (saArn \<circ> snd) m)" "distinct (map (agID \<circ> fst) m)"
    and ss: "\<forall>s \<in> set ss. L (cloud \<sigma>) (saArn s) = Some s \<and> valid_ports (saPortRanges s)" "dom (L (cloud \<sigma>)) = saArn ` set ss"
    and rs: "\<forall>(r, s) \<in> set m. valid_ports (agPortRanges (agSpec r)) \<and> s \<in> set ss \<and> saArn s \<notin> A \<union> B" "saArn ` set ss = saArn ` snd ` set m \<union> A \<union> B"
    and d1: "io_iter (\<lambda>l. onCloud (mDelete (agaListenerManager c) l)) cs \<sigma> = (Inr (), \<sigma>1)" "A = saArn ` set cs"
    and po: "ProcessEndpointGroupPortOverrides c ordO ls rngs upd (cloud \<sigma>1) = (Inr (), w2)"
    and u: "io_iter (updateRes (agaListenerManager c) agID) m (\<sigma>1\<lparr>cloud := w2\<rparr>) = (Inr (), \<sigma>3)"
    and d2: "io_iter (\<lambda>l. onCloud (mDelete (agaListenerManager c) l)) ns \<sigma>3 = (Inr (), \<sigma>4)" "B = saArn ` set ns"
  shows "dom (L (cloud \<sigma>4)) = saArn ` snd ` set m"
    and "(r, s) \<in> set m \<Longrightarrow> mget (statuses \<sigma>4) (agID r) = Some (saArn s) \<and> (\<exists>s'. L (cloud \<sigma>4) (saArn s) = Some s' \<and> fitsListener r s')"
proof -
  have L2: "L w2 = (\<lambda>a. if a \<in> A then None else L (cloud \<sigma>) a)"
    using deletes_ok(1) [OF assms(1) d1(1)] overrides_keep [OF assms(1) po] d1(2) by simp
  have "\<forall>(r, s) \<in> set m. L w2 (saArn s) = Some s \<and> valid_ports (agPortRanges (agSpec r)) \<and> valid_ports (saPortRanges s)"
    using L2 rs(1) ss(1) by auto
  then have U: "(r, s) \<in> set m \<Longrightarrow> mget (statuses \<sigma>3) (agID r) = Some (saArn s) \<and> (\<exists>s'. L (cloud \<sigma>3) (saArn s) = Some s' \<and> fitsListener r s')"
    "a \<notin> saArn ` snd ` set m \<Longrightarrow> L (cloud \<sigma>3) a = L w2 a" for r s a
    using updates_ok [OF assms(1) u assms(2,3)] by auto
  have L4: "L (cloud \<sigma>4) = (\<lambda>a. if a \<in> B then None else L (cloud \<sigma>3) a)" "statuses \<sigma>4 = statuses \<sigma>3"
    using deletes_ok [OF assms(1) d2(1)] d2(2) by simp_all
  show "mget (statuses \<sigma>4) (agID r) = Some (saArn s) \<and> (\<exists>s'. L (cloud \<sigma>4) (saArn s) = Some s' \<and> fitsListener r s')" if "(r, s) \<in> set m" for r s
    using U(1) [OF that] L4 rs(1) that by auto
  then have "saArn ` snd ` set m \<subseteq> dom (L (cloud \<sigma>4))" by fastforce
  moreover have "L (cloud \<sigma>4) a = None" if "a \<notin> saArn ` snd ` set m" for a
  proof (cases "a \<in> A \<union> B")
    case False
    then have "a \<notin> dom (L (cloud \<sigma>))" using that ss(2) rs(2) by simp
    then show ?thesis using U(2) [OF that] False L2 L4(1) by (simp add: domIff)
  qed (use U(2) [OF that] L2 L4(1) in auto)
  ultimately show "dom (L (cloud \<sigma>4)) = saArn ` snd ` set m" by (metis domIff subsetI subset_antisym)
qed

lemma matched_split:
  assumes "mset (map g m) + mset u = mset xs" "distinct (map h xs)"
  shows "distinct (map h (map g m @ u))" "set xs = g ` set m \<union> set u"
proof -
  have "mset (map h (map g m @ u)) = mset (map h xs)" using arg_cong [OF assms(1), of "image_mset h"] by (simp add: multiset.map_comp)
  then show "distinct (map h (map g m @ u))" using assms(2) mset_eq_imp_distinct_iff by blast
  show "set xs = g ` set m \<union> set u" using arg_cong [OF assms(1), of set_mset] by simp
qed

lemma synthesis_before_create:
  assumes "sort_slice_ok srt" "go_order ordC" "aga_list_ok L acc c" "aga_change_ok L acc c"
    and "distinct (map agID rs)" "distinct (map generateResListenerKey rs)"
    and "\<forall>r \<in> set rs. agAcceleratorARN (agSpec r) = Inr acc \<and> valid_ports (agPortRanges (agSpec r))"
    and "synthesizeListenersOnAccelerator c srt ordC ordO acc rs \<sigma> = (Inr (), \<sigma>')"
  obtains m :: "(AgaListener \<times> ListenerResource) list" and ur \<sigma>4 where "set rs = fst ` set m \<union> set ur" "distinct (map agID (map fst m @ ur))" "distinct (map (saArn \<circ> snd) m)"
    and "dom (L (cloud \<sigma>4)) = saArn ` snd ` set m"
    and "\<forall>(r, s) \<in> set m. mget (statuses \<sigma>4) (agID r) = Some (saArn s) \<and> (\<exists>s'. L (cloud \<sigma>4) (saArn s) = Some s' \<and> fitsListener r s')"
    and "io_iter (createRes (agaListenerManager c) agID) ur \<sigma>4 = (Inr (), \<sigma>')"
proof (rule synthesizeListenersOnAcceleratorE [OF assms(8)])
  fix ss w0 m ur us cs ns rngs ls upd \<sigma>1 w2 \<sigma>3 \<sigma>4
  assume find: "findSDKListenersOnAccelerator c acc (cloud \<sigma>) = (Inr ss, w0)" and match: "matchResAndSDKAgaListeners srt rs ss = (m, ur, us)"
    and conf: "findConflictingAndNonConflictingListeners ordC m us = (cs, ns)"
    and d1: "io_iter (\<lambda>l. onCloud (mDelete (agaListenerManager c) l)) cs (\<sigma>\<lparr>cloud := w0\<rparr>) = (Inr (), \<sigma>1)"
    and po: "ProcessEndpointGroupPortOverrides c ordO ls rngs upd (cloud \<sigma>1) = (Inr (), w2)"
    and u: "io_iter (updateRes (agaListenerManager c) agID) m (\<sigma>1\<lparr>cloud := w2\<rparr>) = (Inr (), \<sigma>3)"
    and d2: "io_iter (\<lambda>l. onCloud (mDelete (agaListenerManager c) l)) ns \<sigma>3 = (Inr (), \<sigma>4)"
    and cr: "io_iter (createRes (agaListenerManager c) agID) ur \<sigma>4 = (Inr (), \<sigma>')"
  have F: "L w0 = L (cloud \<sigma>)" "distinct (map saArn ss)" "distinct (map generateSDKListenerKey ss)" "dom (L (cloud \<sigma>)) = saArn ` set ss"
    "\<forall>s \<in> set ss. L (cloud \<sigma>) (saArn s) = Some s \<and> valid_ports (saPortRanges s)"
    using findSDKListeners_ok [OF assms(3) find] by simp_all
  note M = matchRes_total [OF assms(1,5) F(2) assms(6) F(3) match]
  note R = matched_split [OF M(1) assms(5)]
  note S = matched_split [OF M(2) F(2)]
  have arns: "saArn ` set us = saArn ` set cs \<union> saArn ` set ns" by (rule conflicting_parts(1) [OF assms(2) conf])
  have pairs: "\<forall>(r, s) \<in> set m. valid_ports (agPortRanges (agSpec r)) \<and> s \<in> set ss \<and> saArn s \<notin> saArn ` set cs \<union> saArn ` set ns"
  proof clarify
    fix r s assume p: "(r, s) \<in> set m"
    then have "r \<in> set rs" "s \<in> set ss" using R(2) S(2) by force+
    moreover have "saArn s \<notin> saArn ` set us" using S(1) p by force
    ultimately show "valid_ports (agPortRanges (agSpec r)) \<and> s \<in> set ss \<and> saArn s \<notin> saArn ` set cs \<union> saArn ` set ns"
      using assms(7) unfolding arns [symmetric] by simp
  qed
  have all: "saArn ` set ss = saArn ` snd ` set m \<union> saArn ` set cs \<union> saArn ` set ns" using S(2) arns by (simp add: image_Un Un_assoc)
  have D: "distinct (map (saArn \<circ> snd) m)" "distinct (map (agID \<circ> fst) m)" using R(1) S(1) by simp_all
  have start: "\<forall>s \<in> set ss. L (cloud (\<sigma>\<lparr>cloud := w0\<rparr>)) (saArn s) = Some s \<and> valid_ports (saPortRanges s)" "dom (L (cloud (\<sigma>\<lparr>cloud := w0\<rparr>))) = saArn ` set ss"
    using F(1,4,5) by simp_all
  note V = updated_listeners [OF assms(4) D start pairs all d1 refl po u d2 refl]
  have "\<forall>(r, s) \<in> set m. mget (statuses \<sigma>4) (agID r) = Some (saArn s) \<and> (\<exists>s'. L (cloud \<sigma>4) (saArn s) = Some s' \<and> fitsListener r s')"
    using V(2) by blast
  then show thesis by (rule that [OF R(2) R(1) D(1) V(1)]) (rule cr)
qed

text \<open>
  C6. A synthesis of the listeners of an accelerator that succeeds leaves exactly the wanted listeners. There is one ARN for each wanted
  listener, no two share one, and it is the status that the run sets; the listener with that ARN has the wanted protocol, port ranges
  and client affinity; and the accelerator has no other listener. This holds for every order in which Go runs through its maps and for
  every order of equal scores.
\<close>

theorem aga_listeners_converge:
  assumes "sort_slice_ok srt" "go_order ordC" "aga_list_ok L acc c" "aga_change_ok L acc c"
    and "distinct (map agID rs)" "distinct (map generateResListenerKey rs)"
    and "\<forall>r \<in> set rs. agAcceleratorARN (agSpec r) = Inr acc \<and> valid_ports (agPortRanges (agSpec r))"
    and "AgaListener_Synthesize c srt ordC ordO sid (Inr acc # accs) rs \<sigma> = (Inr (), \<sigma>')"
  shows "\<exists>f. inj_on f (set rs) \<and> dom (L (cloud \<sigma>')) = f ` set rs
     \<and> (\<forall>r \<in> set rs. mget (statuses \<sigma>') (agID r) = Some (f r) \<and> (\<exists>s. L (cloud \<sigma>') (f r) = Some s \<and> fitsListener r s))"
proof -
  have run: "synthesizeListenersOnAccelerator c srt ordC ordO acc rs \<sigma> = (Inr (), \<sigma>')" using assms(8) by (simp add: AgaListener_Synthesize_def)
  obtain m :: "(AgaListener \<times> ListenerResource) list" and ur \<sigma>4 where rs: "set rs = fst ` set m \<union> set ur" and ids: "distinct (map agID (map fst m @ ur))" and arns: "distinct (map (saArn \<circ> snd) m)"
    and dom4: "dom (L (cloud \<sigma>4)) = saArn ` snd ` set m"
    and m: "\<forall>(r, s) \<in> set m. mget (statuses \<sigma>4) (agID r) = Some (saArn s) \<and> (\<exists>s'. L (cloud \<sigma>4) (saArn s) = Some s' \<and> fitsListener r s')"
    and cr: "io_iter (createRes (agaListenerManager c) agID) ur \<sigma>4 = (Inr (), \<sigma>')"
    by (rule synthesis_before_create [OF assms(1-7) run])
  have ur: "\<forall>r \<in> set ur. agAcceleratorARN (agSpec r) = Inr acc" "distinct (map agID ur)" using assms(7) rs ids by auto
  obtain g where g: "inj_on g (set ur)" "g ` set ur \<inter> dom (L (cloud \<sigma>4)) = {}" "dom (L (cloud \<sigma>')) = dom (L (cloud \<sigma>4)) \<union> g ` set ur"
    "\<forall>r \<in> set ur. mget (statuses \<sigma>') (agID r) = Some (g r) \<and> (\<exists>s. L (cloud \<sigma>') (g r) = Some s \<and> fitsListener r s)"
    "\<forall>a \<in> dom (L (cloud \<sigma>4)). L (cloud \<sigma>') a = L (cloud \<sigma>4) a"
    "\<forall>i. i \<notin> agID ` set ur \<longrightarrow> mget (statuses \<sigma>') i = mget (statuses \<sigma>4) i"
    using creates_ok [OF assms(4) cr ur] by blast
  define f where "f r = (case map_of m r of Some s \<Rightarrow> saArn s | None \<Rightarrow> g r)" for r
  have "distinct (map fst m)" using ids by (metis distinct_append distinct_map map_append)
  then have fm: "f r = saArn s" if "(r, s) \<in> set m" for r s using that by (simp add: f_def)
  have disj: "set ur \<inter> fst ` set m = {}" "agID ` set ur \<inter> agID ` fst ` set m = {}" using ids by auto
  then have fu: "f r = g r" if "r \<in> set ur" for r using that
    by (simp add: f_def map_of_eq_None_iff [THEN iffD2] disjoint_iff)
  have img: "f ` fst ` set m = saArn ` snd ` set m" "f ` set ur = g ` set ur" using fm fu by (force simp: image_image)+
  have "inj_on f (fst ` set m)" using fm arns by (auto simp: inj_on_def distinct_map)
  moreover have "inj_on f (set ur)" using g(1) fu by (auto simp: inj_on_def)
  moreover have "f ` fst ` set m \<inter> f ` set ur = {}" unfolding img using g(2) dom4 by (simp add: Int_commute)
  ultimately have "inj_on f (set rs)" unfolding rs inj_on_Un by blast
  moreover have "dom (L (cloud \<sigma>')) = f ` set rs" using g(3) dom4 img rs by (simp add: image_Un)
  moreover have "mget (statuses \<sigma>') (agID r) = Some (f r) \<and> (\<exists>s. L (cloud \<sigma>') (f r) = Some s \<and> fitsListener r s)" if "r \<in> set rs" for r
  proof (cases "r \<in> set ur")
    case False
    then obtain s where s: "(r, s) \<in> set m" using \<open>r \<in> set rs\<close> rs by auto
    then obtain s' where K: "mget (statuses \<sigma>4) (agID r) = Some (saArn s)" "L (cloud \<sigma>4) (saArn s) = Some s'" "fitsListener r s'"
      using m by blast
    have "agID r \<in> agID ` fst ` set m" using s by force
    then have "agID r \<notin> agID ` set ur" using disj(2) by blast
    moreover have "L (cloud \<sigma>') (saArn s) = Some s'" using g(5) K(2) by (simp add: domI)
    ultimately show ?thesis using K g(6) fm [OF s] by simp
  qed (use g(4) fu in auto)
  ultimately show ?thesis by blast
qed

section \<open>A client in memory\<close>

text \<open>
  The listeners of one accelerator and the endpoint groups by the ARN of their listener. As the service documents, port ranges of listeners with the
  same protocol must not overlap (\<open>InvalidPortRangeException\<close>).
\<close>

record aga_mem =
  amListeners :: "ListenerResource list"
  amGroups :: "(string \<times> AgaEndpointGroup) list"

definition portsTaken :: "string \<Rightarrow> AgaPortRange list \<Rightarrow> ListenerResource list \<Rightarrow> bool" where
  "portsTaken p prs ls = list_ex (\<lambda>l. saProtocol l = p \<and> list_ex (\<lambda>port. port \<in> set (makePortSet (saPortRanges l))) (makePortSet prs)) ls"

definition memListener :: "string \<Rightarrow> string \<Rightarrow> AgaPortRange list \<Rightarrow> string \<Rightarrow> ListenerResource" where
  "memListener arn p prs aff = \<lparr>saArn = arn, saProtocol = p, saPortRanges = prs, saClientAffinity = (if aff = '''' then ''NONE'' else aff)\<rparr>"

definition memAGA :: "aga_mem aga_client" where
  "memAGA = \<lparr>
     gaListListeners = (\<lambda>acc w. (if distinct (map saArn (amListeners w)) \<and> distinct (map generateSDKListenerKey (amListeners w))
         \<and> list_all (\<lambda>s. valid_ports (saPortRanges s)) (amListeners w)
       then Inr (amListeners w) else Inl (APIError ''InternalServiceErrorException'' ''''), w)),
     gaCreateListener = (\<lambda>acc p prs aff w. if portsTaken p prs (amListeners w) then (Inl (APIError ''InvalidPortRangeException'' ''''), w)
       else (let s = memListener (concat (map saArn (amListeners w)) @ ''+'') p prs aff in (Inr s, w\<lparr>amListeners := amListeners w @ [s]\<rparr>))),
     gaUpdateListener = (\<lambda>arn p prs aff w. if arn \<notin> set (map saArn (amListeners w)) then (Inl (APIError ''ListenerNotFoundException'' ''''), w)
       else if portsTaken p prs (filter (\<lambda>l. saArn l \<noteq> arn) (amListeners w)) then (Inl (APIError ''InvalidPortRangeException'' ''''), w)
       else (let s = memListener arn p prs aff in (Inr s, w\<lparr>amListeners := map (\<lambda>l. if saArn l = arn then s else l) (amListeners w)\<rparr>))),
     gaDeleteListener = (\<lambda>arn w. if arn \<notin> set (map saArn (amListeners w)) then (Inl (APIError ''ListenerNotFoundException'' ''''), w)
       else (Inr (), w\<lparr>amListeners := filter (\<lambda>l. saArn l \<noteq> arn) (amListeners w)\<rparr>)),
     gaListEndpointGroups = (\<lambda>arn w. (Inr (map snd (filter (\<lambda>(l, g). l = arn) (amGroups w))), w)),
     gaUpdateEndpointGroup = (\<lambda>arn pos w.
       (Inr (), w\<lparr>amGroups := map (\<lambda>(l, g). (l, if egArn g = arn then g\<lparr>egPortOverrides := pos\<rparr> else g)) (amGroups w)\<rparr>)),
     gaDeleteEndpointGroup = (\<lambda>arn w. (Inr (), w\<lparr>amGroups := filter (\<lambda>(l, g). egArn g \<noteq> arn) (amGroups w)\<rparr>))\<rparr>"

definition listenersByArn :: "ListenerResource list \<Rightarrow> string \<Rightarrow> ListenerResource option" where
  "listenersByArn ls = map_of (map (\<lambda>s. (saArn s, s)) ls)"

definition memAgaView :: "aga_mem aga_view" where
  "memAgaView w = listenersByArn (amListeners w)"

lemma byArn_append: "a \<notin> saArn ` set ls \<Longrightarrow> saArn s = a \<Longrightarrow> listenersByArn (ls @ [s]) = (listenersByArn ls)(a \<mapsto> s)"
  by (induction ls) (auto simp: listenersByArn_def fun_eq_iff)

lemma byArn_update:
  "a \<in> saArn ` set ls \<Longrightarrow> saArn s = a \<Longrightarrow> listenersByArn (map (\<lambda>l. if saArn l = a then s else l) ls) = (listenersByArn ls)(a \<mapsto> s)"
proof (induction ls)
  case (Cons l ls)
  have "a \<notin> saArn ` set ls \<Longrightarrow> map (\<lambda>l. if saArn l = a then s else l) ls = ls" by (induction ls) auto
  then show ?case using Cons by (cases "a \<in> saArn ` set ls") (auto simp: listenersByArn_def fun_eq_iff)
qed simp

lemma byArn_delete: "listenersByArn (filter (\<lambda>l. saArn l \<noteq> a) ls) = (listenersByArn ls)(a := None)"
  by (induction ls) (auto simp: listenersByArn_def fun_eq_iff)

lemma byArn_None: "listenersByArn ls a = None \<longleftrightarrow> a \<notin> saArn ` set ls"
  by (induction ls) (auto simp: listenersByArn_def)

lemma byArn_dom: "dom (listenersByArn ls) = saArn ` set ls"
  by (simp add: dom_def byArn_None del: not_None_eq)

lemma byArn_Some: "distinct (map saArn ls) \<Longrightarrow> s \<in> set ls \<Longrightarrow> listenersByArn ls (saArn s) = Some s"
  by (induction ls) (auto simp: listenersByArn_def, metis image_eqI)

lemma fresh_arn: "concat (map saArn ls) @ ''+'' \<notin> saArn ` set ls"
proof
  have len: "length (saArn l) \<le> length (concat (map saArn ls))" if "l \<in> set ls" for l using that by (induction ls) auto
  assume "concat (map saArn ls) @ ''+'' \<in> saArn ` set ls"
  then obtain l where l: "l \<in> set ls" "concat (map saArn ls) @ ''+'' = saArn l" by blast
  have "length (saArn l) = Suc (length (concat (map saArn ls)))" by (simp flip: l(2))
  then show False using len [OF l(1)] by simp
qed

lemma memListener_fields [simp]:
  "saArn (memListener arn p prs aff) = arn" "saProtocol (memListener arn p prs aff) = p" "saPortRanges (memListener arn p prs aff) = prs"
  "saClientAffinity (memListener arn p prs aff) = (if aff = '''' then ''NONE'' else aff)"
  by (simp_all add: memListener_def)

lemma memAGA_list_ok: "aga_list_ok memAgaView acc memAGA"
  by (auto simp: aga_list_ok_def memAGA_def memAgaView_def list_all_iff byArn_dom byArn_Some)

lemma memAGA_change_ok: "aga_change_ok memAgaView acc memAGA"
  unfolding aga_change_ok_def
  by (intro conjI allI impI)
    (auto simp: memAGA_def memAgaView_def Let_def byArn_append byArn_update byArn_delete byArn_None fresh_arn split: if_splits)

definition exRange :: "int \<Rightarrow> int \<Rightarrow> AgaPortRange" where "exRange a b = \<lparr>agFromPort = a, agToPort = b\<rparr>"

definition exAgaListener :: "string \<Rightarrow> string \<Rightarrow> int \<Rightarrow> int \<Rightarrow> AgaListener" where
  "exAgaListener i p a b = \<lparr>agID = i, agSpec = \<lparr>agAcceleratorARN = Inr ''acc'', agProtocol = p, agPortRanges = [exRange a b], agClientAffinity = ''NONE''\<rparr>\<rparr>"

definition exAgaStart :: "aga_mem aga_synth" where
  "exAgaStart = \<lparr>deferred = [], statuses = [], cloud = \<lparr>
     amListeners = [memListener ''a'' ''TCP'' [exRange 1 4] '''', memListener ''b'' ''TCP'' [exRange 5 6] ''''],
     amGroups = [(''a'', \<lparr>egArn = ''g'', egPortOverrides = [\<lparr>poListenerPort = Some 2, poEndpointPort = Some 30\<rparr>, \<lparr>poListenerPort = Some 3, poEndpointPort = Some 90\<rparr>]\<rparr>)]\<rparr>\<rparr>"

definition exAgaWanted :: "AgaListener list" where
  "exAgaWanted = [exAgaListener ''0'' ''TCP'' 1 6, exAgaListener ''1'' ''UDP'' 30 31]"

definition exAgaEnd :: "aga_mem aga_synth" where
  "exAgaEnd = \<lparr>deferred = [], statuses = [(''0'', ''a''), (''1'', ''a+'')], cloud = \<lparr>
     amListeners = [memListener ''a'' ''TCP'' [exRange 1 6] '''', memListener ''a+'' ''UDP'' [exRange 30 31] ''''],
     amGroups = [(''a'', \<lparr>egArn = ''g'', egPortOverrides = [\<lparr>poListenerPort = Some 3, poEndpointPort = Some 90\<rparr>]\<rparr>)]\<rparr>\<rparr>"

lemma exAga_run: "AgaListener_Synthesize memAGA insertionSort (\<lambda>xs. xs) (\<lambda>xs. xs) ''s'' [Inr ''acc''] exAgaWanted exAgaStart = (Inr (), exAgaEnd)"
  by code_simp

theorem aga_listeners_converge_witness:
  "\<exists>f. inj_on f (set exAgaWanted) \<and> dom (memAgaView (cloud exAgaEnd)) = f ` set exAgaWanted
     \<and> (\<forall>r \<in> set exAgaWanted. mget (statuses exAgaEnd) (agID r) = Some (f r) \<and> (\<exists>s. memAgaView (cloud exAgaEnd) (f r) = Some s \<and> fitsListener r s))"
proof (rule aga_listeners_converge [OF insertionSort_ok go_order_id memAGA_list_ok memAGA_change_ok _ _ _ exAga_run])
  show "distinct (map agID exAgaWanted)" "distinct (map generateResListenerKey exAgaWanted)" by code_simp+
  show "\<forall>r \<in> set exAgaWanted. agAcceleratorARN (agSpec r) = Inr ''acc'' \<and> valid_ports (agPortRanges (agSpec r))" by code_simp
qed

text \<open>
  The updates themselves may be in each other's way. Listeners \<open>1-2\<close> and \<open>3-4\<close> are to become \<open>1-3\<close> and \<open>4-5\<close>: both are paired, so neither is
  deleted first; the better score is updated first and the service refuses it, because port \<open>3\<close> still belongs to the other. Nothing has
  changed, so the next run fails in the same way, though the other order of the two updates succeeds.
\<close>

definition exAgaBlocked :: "aga_mem aga_synth" where
  "exAgaBlocked = \<lparr>deferred = [], statuses = [], cloud = \<lparr>
     amListeners = [memListener ''a'' ''TCP'' [exRange 1 2] '''', memListener ''b'' ''TCP'' [exRange 3 4] ''''], amGroups = []\<rparr>\<rparr>"

lemma aga_update_blocked:
  "AgaListener_Synthesize memAGA insertionSort (\<lambda>xs. xs) (\<lambda>xs. xs) ''s'' [Inr ''acc'']
      [exAgaListener ''0'' ''TCP'' 1 3, exAgaListener ''1'' ''TCP'' 4 5] exAgaBlocked
    = (Inl (Wrapped ''failed to update listener'' (APIError ''InvalidPortRangeException'' '''')), exAgaBlocked)"
  by code_simp

lemma exAga_match:
  "matchResAndSDKAgaListeners insertionSort exAgaWanted (amListeners (cloud exAgaStart))
    = ([(exAgaWanted ! 0, amListeners (cloud exAgaStart) ! 0)], [exAgaWanted ! 1], [amListeners (cloud exAgaStart) ! 1])"
  by code_simp

theorem aga_matching_stable_witness:
  "\<exists>m ur us. matchResAndSDKAgaListeners insertionSort exAgaWanted (amListeners (cloud exAgaStart)) = (m, ur, us)
     \<and> mset (map fst m) + mset ur = mset exAgaWanted \<and> mset (map snd m) + mset us = mset (amListeners (cloud exAgaStart))
     \<and> (\<forall>r \<in> set exAgaWanted. \<forall>s \<in> set (amListeners (cloud exAgaStart)). calculateSimilarityScore r s \<ge> minSimilarityThreshold \<longrightarrow>
          (\<exists>(r', s') \<in> set m. (r' = r \<or> s' = s)
             \<and> (generateResListenerKey r' = generateSDKListenerKey s' \<or> calculateSimilarityScore r' s' \<ge> calculateSimilarityScore r s)))"
proof -
  have d: "distinct (map agID exAgaWanted)" "distinct (map saArn (amListeners (cloud exAgaStart)))"
    "distinct (map generateResListenerKey exAgaWanted)" "distinct (map generateSDKListenerKey (amListeners (cloud exAgaStart)))"
    by code_simp+
  show ?thesis using exAga_match aga_matching_stable [OF insertionSort_ok d exAga_match] by blast
qed

end
