(* ===== verification/Spec2Isabelle.thy ===== *)
theory Spec2Isabelle
  imports Algorithm Resource_Graph Stack Matching Tracking Tagging Attributes Target_Group Load_Balancer
    Security_Group_Rules Networking Security_Group Stack_Deployer Route_Attachment Targets Netip Multi_Cluster Target_Reconcile Target_Safety
    Accelerator_Listener
begin

text \<open>
  A verification library for the AWS Load Balancer Controller.

  \<^bold>\<open>The program.\<close> The controller watches Ingresses, Services and Gateways of a Kubernetes cluster. A model
  builder (\<^verbatim>\<open>pkg/ingress\<close>, \<^verbatim>\<open>pkg/service\<close>, \<^verbatim>\<open>pkg/gateway\<close>) turns them into a stack of resources that refer to
  each other by tokens (\<^verbatim>\<open>pkg/model\<close>). A deployer (\<^verbatim>\<open>pkg/deploy\<close>) gives each kind of resource to its
  synthesizer, in an order that respects the references: the synthesizer matches the resources of the
  stack with those that exist in AWS, creates the missing ones, updates the matched ones and deletes
  the rest. Managers make the calls of one kind and reconcile its tags and attributes. The networking
  manager (\<^verbatim>\<open>pkg/networking\<close>) opens the security groups of the endpoints, and the manager of target group bindings
  (\<^verbatim>\<open>pkg/targetgroupbinding\<close>) keeps the targets of a target group equal to the endpoints of a Service.

  \<^bold>\<open>The theories\<close>, by the code they translate:

  \<^item> \<open>Go_Prelude\<close>: what the sources use of Go and its libraries. Errors are values of \<open>go_error\<close>, a fallible
    function returns \<open>go_error + 'a\<close>, and a function with effects passes the state \<open>'w\<close> of the world explicitly
    (\<open>('w, 'a) io\<close>). Maps are association lists, so that the order of a loop over a map can be an argument.
  \<^item> \<open>Algorithm\<close>: \<^verbatim>\<open>pkg/algorithm\<close> and the feature gates of \<^verbatim>\<open>pkg/config/feature_gates.go\<close>.
  \<^item> \<open>Resource_Graph\<close>, \<open>Stack\<close>: \<^verbatim>\<open>pkg/model/core\<close>: the dependency graph with its topological traversal, the stack
    of resources and its visitor. The traversal visits every node once, after what it depends on, and fails on
    a cycle and only then.
  \<^item> \<open>Matching\<close>: the matching of desired with existing resources, stated once as a locale and
    interpreted for target groups, load balancers, security groups and listeners.
  \<^item> \<open>Tracking\<close>, \<open>Tagging\<close>, \<open>Attributes\<close>: \<^verbatim>\<open>pkg/deploy/tracking\<close>, the tagging manager and the attribute reconcilers
    of \<^verbatim>\<open>pkg/deploy/elbv2\<close>: the tags of two stacks or clusters never select each other's resources, and tags and attributes converge.
  \<^item> \<open>Target_Group\<close>, \<open>Load_Balancer\<close>, \<open>Listener_Actions\<close>, \<open>Listener\<close>, \<open>Listener_Rule\<close>, \<open>Target_Group_Binding\<close>:
    the resources of \<^verbatim>\<open>pkg/model/elbv2\<close> with the managers and synthesizers of \<^verbatim>\<open>pkg/deploy/elbv2\<close>: what a synthesis
    creates, changes and deletes, its errors, the retries, the limit on rules and the order of priority changes.
  \<^item> \<open>Security_Group_Rules\<close>, \<open>Networking\<close>, \<open>Security_Group\<close>: \<^verbatim>\<open>pkg/networking\<close> and \<^verbatim>\<open>pkg/deploy/ec2\<close>: reconciliation of
    the rules of a security group, aggregation over all bindings, garbage collection of rules and groups.
  \<^item> \<open>Stack_Deployer\<close>: \<^verbatim>\<open>pkg/deploy/stack_deployer.go\<close>: the order of synthesis and of post synthesis.
  \<^item> \<open>Ingress_Rules\<close>: \<^verbatim>\<open>pkg/ingress/rule_optimizer.go\<close> and \<^verbatim>\<open>pkg/ingress/model_build_listener_rules.go\<close>: the
    rules of an Ingress and the optimizer, with the semantics of a rule list as a reference.
  \<^item> \<open>Route_Rules\<close>, \<open>Route_Attachment\<close>: \<^verbatim>\<open>pkg/gateway/routeutils\<close> and the rules of \<^verbatim>\<open>pkg/gateway/model/model_build_listener.go\<close>:
    precedence of the rules of routes, their conditions, transforms and actions, validation of listeners
    and attachment of routes.
  \<^item> \<open>Netip\<close>: addresses and prefixes of Go's \<^verbatim>\<open>net/netip\<close> and the helpers of \<^verbatim>\<open>pkg/networking/utils.go\<close>: an address is
    in a CIDR exactly if its number is in the range of the CIDR.
  \<^item> \<open>Targets\<close>, \<open>Multi_Cluster\<close>, \<open>Target_Reconcile\<close>, \<open>Target_Safety\<close>: \<^verbatim>\<open>pkg/targetgroupbinding\<close> and the endpoint types of \<^verbatim>\<open>pkg/backend\<close>.
    \<open>Targets\<close> is the targets manager with its cache: its operations are the steps of a state machine (\<open>targets_step\<close>, which also lets entries
    expire and draining end), an invariant of the cache holds in every reachable state, and listings are exact. \<open>Multi_Cluster\<close> tracks the
    targets of a cluster in a config map. \<open>Target_Reconcile\<close> is the resource manager: \<open>RM_Reconcile\<close> and \<open>RM_Cleanup\<close> with
    checkpoints, matching, registration and readiness gates; a run that ends well registers exactly the endpoints. \<open>Target_Safety\<close> has the properties of
    all runs, with triples for results and errors: an unfinished run is repeated, and targets of other clusters are spared.
  \<^item> \<open>Accelerator_Listener\<close>: the listeners of Global Accelerator, \<^verbatim>\<open>listener_synthesizer.go\<close>, \<^verbatim>\<open>listener_manager.go\<close> and \<^verbatim>\<open>utils.go\<close> of
    \<^verbatim>\<open>pkg/deploy/aga\<close>: the greedy matching by similarity is stable, and a synthesis that succeeds leaves exactly the wanted listeners.

  \<^bold>\<open>Parameters.\<close> The AWS SDK, the Kubernetes client and other code outside the repository are arguments: a record of
  functions, with what the code relies on as a predicate in the hypotheses. Every property with such a
  hypothesis has a witness on an in-memory instance. What a call must leave alone is said by a relation between the worlds
  before and after it (locale \<open>world_preorder\<close>), with the registered targets, the stored checkpoint or the config maps as views of the world. The order of a loop over a Go map is an argument
  \<open>ord\<close> with \<open>go_order ord\<close>, a permutation; \<open>sort.Slice\<close>, which is not stable, is an argument that
  returns some sorted permutation (\<open>sort_slice_ok\<close>). Time is left out: a poll is a number of rounds, which the interval and the
  timeout of the code give, and caches with a life time are states that an operation finds filled or not.

  \<^bold>\<open>Bounds.\<close> Recursion is structural or has a termination proof, except for the polls, whose number of rounds is
  a parameter: the properties about them state that they return within it. Ports and
  priorities are integers in the range of the code's checks; \<open>to_int32\<close> wraps where the code converts.

  \<^bold>\<open>Not modelled.\<close> The reconcilers and watches of \<^verbatim>\<open>controllers\<close>, the webhooks, the clients of \<^verbatim>\<open>pkg/aws\<close>,
  the builders and other resources of Global Accelerator (\<^verbatim>\<open>pkg/aga\<close>, accelerators and endpoint groups of \<^verbatim>\<open>pkg/deploy/aga\<close>), the synthesizers of certificates, WAF and Shield, the endpoint resolver, the readers of VPCs, subnets and network interfaces, the parts of the model builders
  that read annotations into specifications, the migration tool and generated code. Logging, metrics and events are left out
  of the modelled functions, and so are locks: an operation that the code runs under a lock is one step.
\<close>

end
